(* ===== verification/WifiPrelude.thy ===== *)
theory WifiPrelude
  imports Main "HOL-Library.Word" "HOL-Library.Multiset"
begin

text \<open>Shared vocabulary of the development: the C integer conversions of the driver
  (\<open>UCHAR\<close>, \<open>USHORT\<close>, the wrapping tick counter), the collections of facts the component
  theories extend, and the generic facts on lists, options and multisets they use.\<close>

unbundle bit_operations_syntax

section \<open>Collections\<close>

named_theorems seq_arith \<open>sequence-number arithmetic modulo 4096\<close>
named_theorems ba_simps \<open>unfolding of the block-ack reordering operations\<close>
named_theorems tab_simps \<open>table update and lookup facts\<close>
named_theorems crypt_simps \<open>block and byte-string facts of the crypto routines\<close>

section \<open>C integers\<close>

type_synonym tick = "32 word"
type_synonym byte = "8 word"
type_synonym packet = nat

definition UCHAR :: "int \<Rightarrow> int" where "UCHAR x = x mod 256"

definition USHORT :: "int \<Rightarrow> int" where "USHORT x = x mod 65536"

lemma UCHAR_id [simp]: "0 \<le> x \<Longrightarrow> x < 256 \<Longrightarrow> UCHAR x = x"
  by (simp add: UCHAR_def)

lemma UCHAR_range [simp]: "0 \<le> UCHAR x" "UCHAR x < 256"
  by (simp_all add: UCHAR_def)

lemma USHORT_id [simp]: "0 \<le> x \<Longrightarrow> x < 65536 \<Longrightarrow> USHORT x = x"
  by (simp add: USHORT_def)

lemma USHORT_range [simp]: "0 \<le> USHORT x" "USHORT x < 65536"
  by (simp_all add: USHORT_def)

definition ULONG :: "int \<Rightarrow> int" where "ULONG x = x mod 2 ^ 32"

lemma ULONG_id [simp]: "0 \<le> x \<Longrightarrow> x < 2 ^ 32 \<Longrightarrow> ULONG x = x"
  by (simp add: ULONG_def)

text \<open>Setting and clearing bit \<open>n\<close> of a 16-bit map: \<open>m |= (1<<n)\<close> and
  \<open>m &= ~(1<<n)\<close>.\<close>

definition bit_set :: "16 word \<Rightarrow> nat \<Rightarrow> 16 word" where
  "bit_set m n = (m OR push_bit n 1)"

definition bit_clear :: "16 word \<Rightarrow> nat \<Rightarrow> 16 word" where
  "bit_clear m n = (m AND NOT (push_bit n 1))"

definition bit_test :: "16 word \<Rightarrow> nat \<Rightarrow> bool" where
  "bit_test m n = (m AND push_bit n 1 \<noteq> 0)"

lemma bit_test_iff: "bit_test m n \<longleftrightarrow> bit m n"
  by (simp add: bit_test_def push_bit_eq_mult and_exp_eq_0_iff_not_bit)

lemma bit_set_clear_iff [simp]:
  "bit (bit_set m n) k \<longleftrightarrow> bit m k \<or> (k = n \<and> n < 16)"
  "bit (bit_clear m n) k \<longleftrightarrow> bit m k \<and> k \<noteq> n"
  by (auto simp: bit_set_def bit_clear_def bit_simps dest: bit_imp_le_length)

text \<open>\<open>RTMP_TIME_AFTER(a,b)\<close> (include/os/rt_linux.h): the sign of the wrapped difference of
  two tick counters.\<close>

definition RTMP_TIME_AFTER :: "tick \<Rightarrow> tick \<Rightarrow> bool" where
  "RTMP_TIME_AFTER a b = (sint (b - a) < 0)"

lemma RTMP_TIME_AFTER_irrefl [simp]: "\<not> RTMP_TIME_AFTER a a"
  by (simp add: RTMP_TIME_AFTER_def)

section \<open>Shared constants\<close>

text \<open>Constants of the headers that several components use.\<close>

definition LENGTH_802_11 :: nat where "LENGTH_802_11 = 24"
definition SUBTYPE_PROBE_RSP :: byte where "SUBTYPE_PROBE_RSP = 5"
definition SUBTYPE_BEACON :: byte where "SUBTYPE_BEACON = 8"
definition BSS_ADHOC :: nat where "BSS_ADHOC = 0"
definition BSS_INFRA :: nat where "BSS_INFRA = 1"
definition QID_AC_BE :: nat where "QID_AC_BE = 0"
definition Ndis802_11WEPDisabled :: nat where "Ndis802_11WEPDisabled = 1"

section \<open>Lists\<close>

text \<open>Reading an array of the program: \<open>None\<close> outside its bounds.\<close>

definition nth_opt :: "'a list \<Rightarrow> nat \<Rightarrow> 'a option" where
  "nth_opt xs i = (if i < length xs then Some (xs ! i) else None)"

lemma nth_opt_Some [simp]: "i < length xs \<Longrightarrow> nth_opt xs i = Some (xs ! i)"
  by (simp add: nth_opt_def)

lemma nth_opt_None [simp]: "length xs \<le> i \<Longrightarrow> nth_opt xs i = None"
  by (simp add: nth_opt_def)

lemma nth_opt_eq_Some: "nth_opt xs i = Some x \<longleftrightarrow> i < length xs \<and> xs ! i = x"
  by (auto simp: nth_opt_def)

lemma sorted_wrt_map_appendI:
  assumes "sorted_wrt (<) (map f xs)" "sorted_wrt (<) (map f ys)"
    and "\<And>x y. x \<in> set xs \<Longrightarrow> y \<in> set ys \<Longrightarrow> f x < (f y :: 'a :: linorder)"
  shows "sorted_wrt (<) (map f (xs @ ys))"
  using assms by (auto simp: sorted_wrt_append)

lemma sorted_wrt_less_distinct: "sorted_wrt (<) (xs :: 'a :: linorder list) \<Longrightarrow> distinct xs"
  by (induction xs) auto

lemma sorted_wrt_map_last:
  "sorted_wrt (<) (map f xs) \<Longrightarrow> x \<in> set xs \<Longrightarrow> f x \<le> (f (last xs) :: 'a :: linorder)"
  by (induction xs) (auto simp: less_imp_le)

lemma list_update_same_length [tab_simps]: "length (xs[i := x]) = length xs"
  by simp

lemma nth_list_update_if [tab_simps]:
  "i < length xs \<Longrightarrow> xs[i := x] ! j = (if i = j then x else xs ! j)"
  by simp

lemma mset_update_conv:
  "i < length xs \<Longrightarrow> mset (xs[i := x]) = add_mset x (mset xs - {#xs ! i#})"
  by (rule mset_update)

lemma list_all_update:
  "list_all P xs \<Longrightarrow> P x \<Longrightarrow> list_all P (xs[i := x])"
  by (auto simp: list_all_iff dest: set_update_subset_insert[THEN subsetD])

end
