(* ===== verification/BaSeq.thy ===== *)
theory BaSeq
  imports WifiPrelude
begin

text \<open>The 12-bit sequence-number comparisons of include/mlme.h
  (\<open>SEQ_STEPONE\<close>, \<open>SEQ_SMALLER\<close>) on C ints, and what they mean as offsets modulo 4096.\<close>

definition MAXSEQ :: int where "MAXSEQ = 0xFFF"

definition RESET_RCV_SEQ :: int where "RESET_RCV_SEQ = 0xFFFF"

definition SEQ_STEPONE :: "int \<Rightarrow> int \<Rightarrow> int \<Rightarrow> bool" where
  "SEQ_STEPONE SEQ1 SEQ2 Limit = (SEQ1 = ((SEQ2 + 1) AND Limit))"

definition SEQ_SMALLER :: "int \<Rightarrow> int \<Rightarrow> int \<Rightarrow> bool" where
  "SEQ_SMALLER SEQ1 SEQ2 Limit = (((SEQ1 - SEQ2) AND drop_bit 1 (Limit + 1)) \<noteq> 0)"

text \<open>The offset of \<open>s\<close> ahead of \<open>l\<close> on the circle of 4096 sequence numbers.\<close>

definition off :: "int \<Rightarrow> int \<Rightarrow> int" where "off l s = (s - l) mod 4096"

definition seq_ok :: "int \<Rightarrow> bool" where "seq_ok s = (0 \<le> s \<and> s < 4096)"

section \<open>The macros as offsets\<close>

lemma and_MAXSEQ [seq_arith]: "x AND MAXSEQ = x mod 4096"
proof -
  have "x AND MAXSEQ = take_bit 12 x"
    by (simp add: MAXSEQ_def take_bit_eq_mask mask_eq_exp_minus_1)
  also have "\<dots> = x mod 4096" by (simp add: take_bit_eq_mod)
  finally show ?thesis .
qed

lemma and_2048_iff: "((x :: int) AND 2048 \<noteq> 0) \<longleftrightarrow> 2048 \<le> x mod 4096"
proof -
  have "x AND 2048 \<noteq> 0 \<longleftrightarrow> bit x 11"
    using and_exp_eq_0_iff_not_bit[of x 11] by simp
  also have "\<dots> \<longleftrightarrow> x div 2048 mod 2 = 1"
    by (simp add: bit_iff_odd odd_iff_mod_2_eq_one)
  also have "\<dots> \<longleftrightarrow> 2048 \<le> x mod 4096"
  proof -
    have "x mod (2048 * 2) = 2048 * (x div 2048 mod 2) + x mod 2048"
      by (rule zmod_zmult2_eq) simp
    moreover have "x div 2048 mod 2 = 0 \<or> x div 2048 mod 2 = 1" by linarith
    moreover have "0 \<le> x mod 2048" "x mod 2048 < 2048" by simp_all
    ultimately show ?thesis by auto
  qed
  finally show ?thesis .
qed

lemma SEQ_SMALLER_iff [seq_arith]: "SEQ_SMALLER a b MAXSEQ \<longleftrightarrow> 2048 \<le> off b a"
  using and_2048_iff[of "a - b"] by (simp add: SEQ_SMALLER_def MAXSEQ_def off_def drop_bit_eq_div)

lemma off_range [simp]: "0 \<le> off l s" "off l s < 4096"
  by (simp_all add: off_def)

lemma off_self [simp]: "off l l = 0"
  by (simp add: off_def)

lemma seq_of_off: "seq_ok s \<Longrightarrow> (l + off l s) mod 4096 = s"
  by (simp add: off_def seq_ok_def mod_simps)

lemma off_add: "off l ((l + d) mod 4096) = d mod 4096"
  by (simp add: off_def mod_simps)

lemma off_add_small [seq_arith]:
  "0 \<le> d \<Longrightarrow> d < 4096 \<Longrightarrow> off l ((l + d) mod 4096) = d"
  by (simp add: off_add)

lemma next_shift: "((L + 1) mod 4096 + x) mod 4096 = ((L + x) mod 4096 + 1) mod (4096 :: int)"
  by (simp only: mod_add_left_eq) (simp add: algebra_simps)

lemma seq_ok_mod [simp]: "seq_ok (x mod 4096)"
  by (simp add: seq_ok_def)

lemma SEQ_STEPONE_iff [seq_arith]:
  "seq_ok s \<Longrightarrow> SEQ_STEPONE s l MAXSEQ \<longleftrightarrow> off l s = 1"
proof -
  assume "seq_ok s"
  then have "(l + off l s) mod 4096 = s" by (rule seq_of_off)
  moreover have "off l ((l + 1) mod 4096) = 1" by (simp add: off_add)
  ultimately show ?thesis unfolding SEQ_STEPONE_def and_MAXSEQ by metis
qed

lemma off_0_iff [seq_arith]: "seq_ok l \<Longrightarrow> seq_ok s \<Longrightarrow> off l s = 0 \<longleftrightarrow> s = l"
  using seq_of_off[of s l] seq_of_off[of l l] by auto

lemma off_inj: "seq_ok s \<Longrightarrow> seq_ok t \<Longrightarrow> off l s = off l t \<Longrightarrow> s = t"
  by (metis seq_of_off)

text \<open>Moving the base: the offset from \<open>m\<close> of a number that lies at or beyond \<open>m\<close>, and of
  one that was left behind.\<close>

lemma off_shift: "off m s = (off l s - off l m) mod 4096"
  by (simp add: off_def mod_diff_eq)

lemma off_shift_ge: "off l m \<le> off l s \<Longrightarrow> off m s = off l s - off l m"
  unfolding off_shift[of m s l] using off_range[of l s] off_range[of l m]
  by (intro mod_pos_pos_trivial) linarith+

lemma off_shift_lt: "off l s < off l m \<Longrightarrow> off m s = 4096 + off l s - off l m"
proof -
  assume "off l s < off l m"
  then have "(off l s - off l m + 4096) mod 4096 = off l s - off l m + 4096"
    using off_range[of l s] off_range[of l m] by (intro mod_pos_pos_trivial) linarith+
  then show ?thesis unfolding off_shift[of m s l] by simp
qed

lemma off_trans: "off L S + off S x < 4096 \<Longrightarrow> off L x = off L S + off S x"
proof -
  assume a: "off L S + off S x < 4096"
  have "off L x = ((S - L) + (x - S)) mod 4096" by (simp add: off_def)
  also have "\<dots> = (off L S + off S x) mod 4096" by (simp only: off_def mod_add_eq)
  also have "\<dots> = off L S + off S x" using a by (intro mod_pos_pos_trivial) simp_all
  finally show ?thesis .
qed

text \<open>The two comparisons made against a moved base.\<close>

lemma SEQ_SMALLER_behind:
  assumes "off l s < off l m" "off l m - off l s \<le> 2048"
  shows "SEQ_SMALLER s m MAXSEQ"
  using off_shift_lt[OF assms(1)] assms by (simp add: SEQ_SMALLER_iff)

lemma SEQ_SMALLER_not_ahead:
  assumes "off l m \<le> off l s" "off l s - off l m < 2048"
  shows "\<not> SEQ_SMALLER s m MAXSEQ"
  using off_shift_ge[OF assms(1)] assms by (simp add: SEQ_SMALLER_iff)

end
