(* ===== verification/RalinkTimer.thy ===== *)
theory RalinkTimer
  imports WifiPrelude
begin

text \<open>The timer objects of common/rtmp_init.c over the kernel timers of os/linux/rt_linux.c. Of
  the kernel timer the model keeps whether it is pending and the timeout it was armed with; a pending
  timer that is armed again keeps its timeout, as \<open>RTMP_OS_Add_Timer\<close> returns at once. The queue
  of expired timers (\<open>RtmpTimerQRemove\<close>) is not part of the object.\<close>

record ralink_timer =
  tm_Valid :: bool
  tm_State :: bool
  tm_PeriodicType :: bool
  tm_Repeat :: bool
  tm_TimerValue :: int
  tm_pending :: bool
  tm_timeout :: int

definition RTMP_OS_Add_Timer :: "ralink_timer \<Rightarrow> int \<Rightarrow> ralink_timer" where
  "RTMP_OS_Add_Timer t v = (if tm_pending t then t else t\<lparr>tm_pending := True, tm_timeout := v\<rparr>)"

definition RTMP_OS_Mod_Timer :: "ralink_timer \<Rightarrow> int \<Rightarrow> ralink_timer" where
  "RTMP_OS_Mod_Timer t v = t\<lparr>tm_pending := True, tm_timeout := v\<rparr>"

definition RTMP_OS_Del_Timer :: "ralink_timer \<Rightarrow> ralink_timer \<times> bool" where
  "RTMP_OS_Del_Timer t = (t\<lparr>tm_pending := False\<rparr>, True)"

text \<open>\<open>RTMP_OS_Init_Timer\<close> re-initialises the kernel timer only when it is not pending.\<close>

definition RTMPInitTimer :: "ralink_timer \<Rightarrow> bool \<Rightarrow> ralink_timer" where
  "RTMPInitTimer t Rep = t\<lparr>tm_Valid := True, tm_PeriodicType := Rep, tm_State := False\<rparr>"

text \<open>\<open>halt\<close>: the adapter is halting or the NIC is gone.\<close>

definition RTMPSetTimer :: "bool \<Rightarrow> ralink_timer \<Rightarrow> int \<Rightarrow> ralink_timer" where
  "RTMPSetTimer halt t v =
    (if tm_Valid t then
       (if halt then t
        else let t1 = t\<lparr>tm_TimerValue := v, tm_State := False\<rparr> in
          if tm_PeriodicType t1 then RTMP_OS_Add_Timer (t1\<lparr>tm_Repeat := True\<rparr>) v
          else RTMP_OS_Add_Timer (t1\<lparr>tm_Repeat := False\<rparr>) v)
     else t)"

definition RTMPCancelTimer :: "ralink_timer \<Rightarrow> ralink_timer" where
  "RTMPCancelTimer t =
    (if tm_Valid t then
       (let t1 = (if \<not> tm_State t then t\<lparr>tm_Repeat := False\<rparr> else t);
            (t2, cancelled) = RTMP_OS_Del_Timer t1
        in if cancelled then t2\<lparr>tm_State := True\<rparr> else t2)
     else t)"

definition RTMPModTimer :: "bool \<Rightarrow> ralink_timer \<Rightarrow> int \<Rightarrow> ralink_timer" where
  "RTMPModTimer halt t v =
    (if tm_Valid t then
       (let t1 = t\<lparr>tm_TimerValue := v, tm_State := False\<rparr> in
        if tm_PeriodicType t1 then RTMPSetTimer halt (RTMPCancelTimer t1) v
        else RTMP_OS_Mod_Timer t1 v)
     else t)"

definition RTMPReleaseTimer :: "ralink_timer \<Rightarrow> ralink_timer" where
  "RTMPReleaseTimer t =
    (if tm_Valid t then
       (let t1 = (if \<not> tm_State t then t\<lparr>tm_Repeat := False\<rparr> else t);
            (t2, cancelled) = RTMP_OS_Del_Timer t1;
            t3 = (if cancelled then t2\<lparr>tm_State := True\<rparr> else t2)
        in t3\<lparr>tm_Valid := False\<rparr>)
     else t)"

lemmas timer_defs = RTMPInitTimer_def RTMPSetTimer_def RTMPCancelTimer_def RTMPModTimer_def
  RTMPReleaseTimer_def RTMP_OS_Add_Timer_def RTMP_OS_Mod_Timer_def RTMP_OS_Del_Timer_def

section \<open>The contract of a timer object\<close>

text \<open>An object that was initialised is pending after it is set and not pending after it is
  cancelled or released; a released object stays inert until it is initialised again.\<close>

locale timer_object =
  fixes init :: "'t \<Rightarrow> bool \<Rightarrow> 't" and arm :: "'t \<Rightarrow> int \<Rightarrow> 't" and cancel :: "'t \<Rightarrow> 't"
    and release :: "'t \<Rightarrow> 't" and valid :: "'t \<Rightarrow> bool" and pending :: "'t \<Rightarrow> bool"
  assumes init_valid: "valid (init t r)"
    and arm_pending: "valid t \<Longrightarrow> pending (arm t v)"
    and arm_valid: "valid (arm t v) \<longleftrightarrow> valid t"
    and arm_invalid: "\<not> valid t \<Longrightarrow> arm t v = t"
    and cancel_pending: "valid t \<Longrightarrow> \<not> pending (cancel t)"
    and cancel_valid: "valid (cancel t) \<longleftrightarrow> valid t"
    and release_off: "valid t \<Longrightarrow> \<not> pending (release t)"
    and release_invalid: "\<not> valid (release t)"
begin

lemma init_arm_pending: "pending (arm (init t r) v)"
  by (simp add: arm_pending init_valid)

lemma released_stays_off: "valid t \<Longrightarrow> \<not> pending (arm (release t) v)"
  by (simp add: arm_invalid release_invalid release_off)

lemma cancel_after_arm: "valid t \<Longrightarrow> \<not> pending (cancel (arm t v))"
  by (simp add: cancel_pending arm_valid)

end

interpretation ralink: timer_object RTMPInitTimer "RTMPSetTimer False" RTMPCancelTimer RTMPReleaseTimer
  tm_Valid tm_pending
  by unfold_locales (auto simp: timer_defs Let_def)

end
