(* ===== verification/BaReorder.thy ===== *)
theory BaReorder
  imports BaSeq RalinkTimer "HOL-Library.Monad_Syntax"
begin

text \<open>The reordering buffer of common/ba_action.c: the sorted list of pending MPDUs of one
  recipient session, the pool of list blocks, and the operations that insert, release and flush
  pending frames. A pointer that the code follows without a test is a \<open>None\<close> branch when it
  can be null. Calls into the rest of the driver (passing a frame up, releasing a packet) are
  recorded in order in the field \<open>calls\<close>.\<close>

section \<open>Data (include/rtmp.h)\<close>

text \<open>\<open>struct reordering_mpdu\<close>: \<open>blk_addr\<close> is the block's address in the pool memory, the
  \<open>next\<close> pointers are the list structure; the packet handle 0 is the null pointer.\<close>

record reordering_mpdu =
  blk_addr :: nat
  pPacket :: packet
  Sequence :: int
  bAMSDU :: bool
  OpMode :: nat

record reordering_list =
  next_mpdus :: "reordering_mpdu list"
  qlen :: int

datatype REC_BLOCKACK_STATUS =
  Recipient_NONE | Recipient_USED | Recipient_HandleRes | Recipient_Accept

record BA_REC_ENTRY =
  rec_Wcid :: nat
  rec_TID :: nat
  rec_BAWinSize :: int
  LastIndSeq :: int
  rec_TimeOutValue :: int
  RECBATimer :: ralink_timer
  LastIndSeqAtTimer :: tick
  nDropPacket :: "32 word"
  rcvSeq :: int
  REC_BA_Status :: REC_BLOCKACK_STATUS
  reorder_list :: reordering_list

text \<open>The receive block \<open>RX_BLK\<close> with the header and RXWI fields that are read.\<close>

record RX_BLK =
  rx_Sequence :: int
  pRxPacket :: packet
  DataSize :: nat
  rx_Flags :: "16 word"
  rx_OpMode :: nat
  RxWIWirelessCliID :: nat
  RxWITID :: nat

definition fRX_AMSDU :: "16 word" where "fRX_AMSDU = 0x0002"
definition fRX_EAP :: "16 word" where "fRX_EAP = 0x0100"

definition RX_BLK_TEST_FLAG :: "RX_BLK \<Rightarrow> 16 word \<Rightarrow> bool" where
  "RX_BLK_TEST_FLAG b f = (rx_Flags b AND f \<noteq> 0)"

datatype status = NDIS_STATUS_SUCCESS | NDIS_STATUS_FAILURE

text \<open>Management frames handed to \<open>MiniportMMRequest\<close>, with the fields the session code
  sets; the two-byte parameter fields are the packed words. The three addresses of an action frame are
  those of \<open>ActHeaderInit\<close>; an address is \<open>None\<close> when it was never read from the
  request that is answered.\<close>

type_synonym mac_addr = "byte list"

type_synonym act_hdr = "mac_addr option \<times> mac_addr option \<times> mac_addr option"

datatype mgmt_frame =
    FRAME_ADDBA_REQ act_hdr nat "16 word" int "16 word"
      \<comment> \<open>header, token, BaParm, timeout, BaStartSeq\<close>
  | FRAME_ADDBA_RSP act_hdr nat int "16 word" int
      \<comment> \<open>header, token, status code, BaParm, timeout\<close>
  | FRAME_DELBA_REQ act_hdr "16 word" int
      \<comment> \<open>header, DelbaParm, reason code\<close>
  | FRAME_BAR mac_addr mac_addr "16 word" "16 word"
      \<comment> \<open>addresses 1 and 2, BarControl, StartingSeq\<close>
  | FRAME_PSMP_ACTION act_hdr "nat option"
      \<comment> \<open>header, mode when it was set\<close>

text \<open>Calls out of the modelled code. The two announce calls carry the whole list block, so
  that the log shows the sequence number with the packet.\<close>

datatype upcall =
    BA_Reorder_AMSDU_Annnounce reordering_mpdu
  | ANNOUNCE_OR_FORWARD_802_3_PACKET reordering_mpdu
  | Indicate_AMSDU_Packet RX_BLK nat
  | Indicate_EAPOL_Packet RX_BLK nat
  | Indicate_Legacy_Packet RX_BLK nat
  | RELEASE_NDIS_PACKET packet status
  | Convert_To_PreAMSDU_Or_802_3 RX_BLK nat
  | RTMP_SET_PACKET_IF packet nat
  | MiniportMMRequest nat mgmt_frame
  | RTMP_ADD_BA_SESSION_TO_ASIC nat nat
  | RTMP_DEL_BA_SESSION_FROM_ASIC nat nat
  | MlmeEnqueue_ADD_BA nat mac_addr nat nat nat
      \<comment> \<open>wcid, address, buffer size, TID, token\<close>

text \<open>The part of the adapter the reordering code uses: the free list of
  \<open>mpdu_blk_pool\<close>, the tick rate, and the log of calls. The session tables extend it.\<close>

record ba_ctx =
  freelist :: reordering_list
  OS_HZ :: nat
  calls :: "upcall list"

section \<open>Lists and the block pool\<close>

definition ba_enqueue :: "reordering_list \<Rightarrow> reordering_mpdu \<Rightarrow> reordering_list" where
  "ba_enqueue l b = l\<lparr>qlen := qlen l + 1, next_mpdus := b # next_mpdus l\<rparr>"

definition ba_dequeue :: "reordering_list \<Rightarrow> reordering_mpdu option \<times> reordering_list" where
  "ba_dequeue l =
    (if qlen l \<noteq> 0
     then (case next_mpdus l of
             [] \<Rightarrow> (None, l\<lparr>qlen := qlen l - 1\<rparr>)
           | b # bs \<Rightarrow> (Some b, l\<lparr>qlen := qlen l - 1, next_mpdus := bs\<rparr>))
     else (None, l))"

definition ba_reordering_mpdu_probe :: "reordering_list \<Rightarrow> reordering_mpdu option" where
  "ba_reordering_mpdu_probe l = (case next_mpdus l of [] \<Rightarrow> None | b # _ \<Rightarrow> Some b)"

text \<open>The scan of \<open>ba_reordering_mpdu_insertsorted\<close>: \<open>None\<close> when a frame of the same
  sequence number is pending.\<close>

fun insert_scan :: "reordering_mpdu list \<Rightarrow> reordering_mpdu \<Rightarrow> reordering_mpdu list option" where
  "insert_scan [] m = Some [m]"
| "insert_scan (p # ps) m =
    (if SEQ_SMALLER (Sequence p) (Sequence m) MAXSEQ
     then map_option ((#) p) (insert_scan ps m)
     else if Sequence p = Sequence m then None
     else Some (m # p # ps))"

definition ba_reordering_mpdu_insertsorted ::
    "reordering_list \<Rightarrow> reordering_mpdu \<Rightarrow> bool \<times> reordering_list" where
  "ba_reordering_mpdu_insertsorted l m =
    (case insert_scan (next_mpdus l) m of
       None \<Rightarrow> (False, l)
     | Some ms \<Rightarrow> (True, l\<lparr>next_mpdus := ms, qlen := qlen l + 1\<rparr>))"

definition zero_mpdu :: "reordering_mpdu \<Rightarrow> reordering_mpdu" where
  "zero_mpdu b = b\<lparr>pPacket := 0, Sequence := 0, bAMSDU := False, OpMode := 0\<rparr>"

definition ba_mpdu_blk_alloc ::
    "'a ba_ctx_scheme \<Rightarrow> reordering_mpdu option \<times> 'a ba_ctx_scheme" where
  "ba_mpdu_blk_alloc a =
    (case ba_dequeue (freelist a) of
       (None, fl) \<Rightarrow> (None, a\<lparr>freelist := fl\<rparr>)
     | (Some b, fl) \<Rightarrow> (Some (zero_mpdu b), a\<lparr>freelist := fl\<rparr>))"

definition ba_mpdu_blk_free :: "'a ba_ctx_scheme \<Rightarrow> reordering_mpdu \<Rightarrow> 'a ba_ctx_scheme" where
  "ba_mpdu_blk_free a b = a\<lparr>freelist := ba_enqueue (freelist a) b\<rparr>"

text \<open>\<open>ba_reordering_resource_init\<close>: \<open>num\<close> zeroed blocks at consecutive addresses, each
  put at the head of the free list; \<open>mem\<close> is the result of the allocation.\<close>

primrec build_freelist :: "nat \<Rightarrow> nat \<Rightarrow> reordering_list \<Rightarrow> reordering_list" where
  "build_freelist mem 0 fl = fl"
| "build_freelist mem (Suc n) fl = build_freelist (mem + 1) n
    (ba_enqueue fl \<lparr>blk_addr = mem, pPacket = 0, Sequence = 0, bAMSDU = False, OpMode = 0\<rparr>)"

definition ba_reordering_resource_init ::
    "'a ba_ctx_scheme \<Rightarrow> nat option \<Rightarrow> nat \<Rightarrow> bool \<times> 'a ba_ctx_scheme" where
  "ba_reordering_resource_init a mem num =
    (let fl = \<lparr>next_mpdus = [], qlen = 0\<rparr> in
     case mem of
       None \<Rightarrow> (False, a\<lparr>freelist := fl\<rparr>)
     | Some base \<Rightarrow> (True, a\<lparr>freelist := build_freelist base num fl\<rparr>))"

section \<open>Passing frames up\<close>

definition log_call :: "'a ba_ctx_scheme \<Rightarrow> upcall \<Rightarrow> 'a ba_ctx_scheme" where
  "log_call a c = a\<lparr>calls := calls a @ [c]\<rparr>"

definition Announce_Reordering_Packet ::
    "'a ba_ctx_scheme \<Rightarrow> reordering_mpdu \<Rightarrow> 'a ba_ctx_scheme" where
  "Announce_Reordering_Packet a m =
    (if bAMSDU m then log_call a (BA_Reorder_AMSDU_Annnounce m)
     else log_call a (ANNOUNCE_OR_FORWARD_802_3_PACKET m))"

definition INDICATE_LEGACY_OR_AMSDU ::
    "'a ba_ctx_scheme \<Rightarrow> RX_BLK \<Rightarrow> nat \<Rightarrow> 'a ba_ctx_scheme" where
  "INDICATE_LEGACY_OR_AMSDU a rx bssid =
    (if RX_BLK_TEST_FLAG rx fRX_AMSDU then log_call a (Indicate_AMSDU_Packet rx bssid)
     else if RX_BLK_TEST_FLAG rx fRX_EAP then log_call a (Indicate_EAPOL_Packet rx bssid)
     else log_call a (Indicate_Legacy_Packet rx bssid))"

section \<open>Releasing pending frames\<close>

lemma ba_dequeue_shorter:
  "ba_dequeue l = (Some b, l') \<Longrightarrow> length (next_mpdus l') < length (next_mpdus l)"
  by (auto simp: ba_dequeue_def split: if_splits list.splits)

text \<open>\<open>ba_indicate_reordering_mpdus_in_order\<close>: the loop carries \<open>StartSeq\<close> and the
  function's local \<open>LastIndSeq\<close>.\<close>

function in_order_loop ::
    "'a ba_ctx_scheme \<Rightarrow> BA_REC_ENTRY \<Rightarrow> int \<Rightarrow> int \<Rightarrow> ('a ba_ctx_scheme \<times> BA_REC_ENTRY \<times> int) option"
where
  "in_order_loop a e StartSeq LastSeq =
    (case ba_reordering_mpdu_probe (reorder_list e) of
       None \<Rightarrow> Some (a, e, LastSeq)
     | Some p \<Rightarrow>
         if \<not> SEQ_STEPONE (Sequence p) StartSeq MAXSEQ then Some (a, e, LastSeq)
         else (case ba_dequeue (reorder_list e) of
             (None, l) \<Rightarrow> None
           | (Some b, l) \<Rightarrow>
               in_order_loop (ba_mpdu_blk_free (Announce_Reordering_Packet a b) b)
                 (e\<lparr>reorder_list := l\<rparr>) (USHORT (Sequence b)) (USHORT (Sequence b))))"
  by pat_completeness auto
termination
  by (relation "measure (\<lambda>(a, e, s, r). length (next_mpdus (reorder_list e)))")
    (auto dest!: ba_dequeue_shorter[OF sym])

definition ba_indicate_reordering_mpdus_in_order ::
    "'a ba_ctx_scheme \<Rightarrow> BA_REC_ENTRY \<Rightarrow> int \<Rightarrow> ('a ba_ctx_scheme \<times> BA_REC_ENTRY \<times> int) option" where
  "ba_indicate_reordering_mpdus_in_order a e StartSeq = in_order_loop a e StartSeq RESET_RCV_SEQ"

function ba_indicate_reordering_mpdus_le_seq ::
    "'a ba_ctx_scheme \<Rightarrow> BA_REC_ENTRY \<Rightarrow> int \<Rightarrow> ('a ba_ctx_scheme \<times> BA_REC_ENTRY) option"
where
  "ba_indicate_reordering_mpdus_le_seq a e Seq =
    (case ba_reordering_mpdu_probe (reorder_list e) of
       None \<Rightarrow> Some (a, e)
     | Some p \<Rightarrow>
         if Sequence p = Seq \<or> SEQ_SMALLER (Sequence p) Seq MAXSEQ
         then (case ba_dequeue (reorder_list e) of
             (None, l) \<Rightarrow> None
           | (Some b, l) \<Rightarrow>
               ba_indicate_reordering_mpdus_le_seq
                 (ba_mpdu_blk_free (Announce_Reordering_Packet a b) b)
                 (e\<lparr>reorder_list := l\<rparr>) Seq)
         else Some (a, e))"
  by pat_completeness auto
termination
  by (relation "measure (\<lambda>(a, e, s). length (next_mpdus (reorder_list e)))")
    (auto dest!: ba_dequeue_shorter[OF sym])

function refresh_loop ::
    "'a ba_ctx_scheme \<Rightarrow> BA_REC_ENTRY \<Rightarrow> 'a ba_ctx_scheme \<times> BA_REC_ENTRY"
where
  "refresh_loop a e =
    (case ba_dequeue (reorder_list e) of
       (None, l) \<Rightarrow> (a, e\<lparr>reorder_list := l\<rparr>)
     | (Some b, l) \<Rightarrow>
         refresh_loop (ba_mpdu_blk_free (Announce_Reordering_Packet a b) b)
           (e\<lparr>reorder_list := l, LastIndSeq := USHORT (Sequence b)\<rparr>))"
  by pat_completeness auto
termination
  by (relation "measure (\<lambda>(a, e). length (next_mpdus (reorder_list e)))")
    (auto dest!: ba_dequeue_shorter[OF sym])

definition ba_refresh_reordering_mpdus ::
    "'a ba_ctx_scheme \<Rightarrow> BA_REC_ENTRY \<Rightarrow> 'a ba_ctx_scheme \<times> BA_REC_ENTRY" where
  "ba_refresh_reordering_mpdus a e =
    (case refresh_loop a e of (a', e') \<Rightarrow> (a', e'\<lparr>LastIndSeq := RESET_RCV_SEQ\<rparr>))"

declare in_order_loop.simps [simp del]
declare ba_indicate_reordering_mpdus_le_seq.simps [simp del]
declare refresh_loop.simps [simp del]

section \<open>The timeout flush\<close>

definition REORDERING_PACKET_TIMEOUT :: "nat \<Rightarrow> nat" where
  "REORDERING_PACKET_TIMEOUT hz = (100 * hz) div 1000"

definition MAX_REORDERING_PACKET_TIMEOUT :: "nat \<Rightarrow> nat" where
  "MAX_REORDERING_PACKET_TIMEOUT hz = (3000 * hz) div 1000"

definition ba_flush_reordering_timeout_mpdus ::
    "'a ba_ctx_scheme \<Rightarrow> BA_REC_ENTRY \<Rightarrow> tick \<Rightarrow> ('a ba_ctx_scheme \<times> BA_REC_ENTRY) option" where
  "ba_flush_reordering_timeout_mpdus a e Now32 =
    (if qlen (reorder_list e) \<le> 0 then Some (a, e)
     else if RTMP_TIME_AFTER Now32
               (LastIndSeqAtTimer e + of_nat (MAX_REORDERING_PACKET_TIMEOUT (OS_HZ a) div 6))
             \<and> qlen (reorder_list e) > 1
     then (case ba_refresh_reordering_mpdus a e of
             (a', e') \<Rightarrow> Some (a', e'\<lparr>LastIndSeqAtTimer := Now32\<rparr>))
     else if RTMP_TIME_AFTER Now32
               (LastIndSeqAtTimer e + of_nat (REORDERING_PACKET_TIMEOUT (OS_HZ a)))
             \<and> qlen (reorder_list e) > 0
     then (let Seq = (LastIndSeq e + 1) AND MAXSEQ in
           do {
             (a1, e1) \<leftarrow> ba_indicate_reordering_mpdus_le_seq a e Seq;
             let e2 = e1\<lparr>LastIndSeqAtTimer := Now32, LastIndSeq := Seq\<rparr>;
             (a3, e3, Seq') \<leftarrow> ba_indicate_reordering_mpdus_in_order a1 e2 Seq;
             Some (a3, if Seq' \<noteq> RESET_RCV_SEQ then e3\<lparr>LastIndSeq := Seq'\<rparr> else e3)
           })
     else Some (a, e))"

section \<open>Receiving one MPDU of a session\<close>

text \<open>\<open>ba_enqueue_reordering_packet\<close>. The block taken from the pool is only used, or
  given back, in the first branch.\<close>

definition ba_enqueue_reordering_packet ::
    "'a ba_ctx_scheme \<Rightarrow> BA_REC_ENTRY \<Rightarrow> RX_BLK \<Rightarrow> nat \<Rightarrow> ('a ba_ctx_scheme \<times> BA_REC_ENTRY) option" where
  "ba_enqueue_reordering_packet a e rx FromWhichBSSID =
    (let Seq = rx_Sequence rx in
     case ba_mpdu_blk_alloc a of
       (blk, a1) \<Rightarrow>
         (if blk \<noteq> None \<and> \<not> RX_BLK_TEST_FLAG rx fRX_EAP
          then (let m = (the blk)\<lparr>Sequence := Seq, OpMode := rx_OpMode rx,
                          bAMSDU := RX_BLK_TEST_FLAG rx fRX_AMSDU, pPacket := pRxPacket rx\<rparr>;
                    a2 = log_call a1 (Convert_To_PreAMSDU_Or_802_3 rx FromWhichBSSID);
                    a3 = log_call a2 (RTMP_SET_PACKET_IF (pRxPacket rx) FromWhichBSSID)
                in case ba_reordering_mpdu_insertsorted (reorder_list e) m of
                     (True, l) \<Rightarrow> Some (a3, e\<lparr>reorder_list := l\<rparr>)
                   | (False, l) \<Rightarrow>
                       Some (ba_mpdu_blk_free
                               (log_call a3 (RELEASE_NDIS_PACKET (pRxPacket rx) NDIS_STATUS_SUCCESS)) m,
                             e\<lparr>reorder_list := l\<rparr>))
          else do {
            (a2, e2) \<leftarrow> ba_indicate_reordering_mpdus_le_seq a1 e Seq;
            Some (INDICATE_LEGACY_OR_AMSDU a2 rx FromWhichBSSID, e2\<lparr>LastIndSeq := Seq\<rparr>)
          }))"

text \<open>The five cases of \<open>Indicate_AMPDU_Packet\<close> once the session entry is found and the
  timeout flush is done, and the whole treatment of one MPDU by its session.\<close>

definition drop_packet ::
    "'a ba_ctx_scheme \<Rightarrow> BA_REC_ENTRY \<Rightarrow> RX_BLK \<Rightarrow> 'a ba_ctx_scheme \<times> BA_REC_ENTRY" where
  "drop_packet a e rx =
    (log_call a (RELEASE_NDIS_PACKET (pRxPacket rx) NDIS_STATUS_FAILURE),
     e\<lparr>nDropPacket := nDropPacket e + 1\<rparr>)"

definition win_start_seq :: "int \<Rightarrow> int \<Rightarrow> int" where
  "win_start_seq Seq BAWinSize =
    (let TmpSeq = Seq - BAWinSize - 1;
         TmpSeq' = (if TmpSeq < 0 then (MAXSEQ + 1) + TmpSeq else TmpSeq)
     in (TmpSeq' + 1) AND MAXSEQ)"

definition ampdu_cases ::
    "'a ba_ctx_scheme \<Rightarrow> BA_REC_ENTRY \<Rightarrow> RX_BLK \<Rightarrow> nat \<Rightarrow> tick \<Rightarrow> ('a ba_ctx_scheme \<times> BA_REC_ENTRY) option" where
  "ampdu_cases a e rx FromWhichBSSID Now32 =
    (let Seq = rx_Sequence rx in
     if SEQ_STEPONE Seq (LastIndSeq e) MAXSEQ
     then do {
       let e1 = e\<lparr>LastIndSeq := Seq\<rparr>;
       let a1 = INDICATE_LEGACY_OR_AMSDU a rx FromWhichBSSID;
       (a2, e2, Last) \<leftarrow> ba_indicate_reordering_mpdus_in_order a1 e1 (LastIndSeq e1);
       let e3 = (if Last \<noteq> RESET_RCV_SEQ then e2\<lparr>LastIndSeq := Last\<rparr> else e2);
       Some (a2, e3\<lparr>LastIndSeqAtTimer := Now32\<rparr>)
     }
     else if Seq = LastIndSeq e then Some (drop_packet a e rx)
     else if SEQ_SMALLER Seq (LastIndSeq e) MAXSEQ then Some (drop_packet a e rx)
     else if SEQ_SMALLER Seq ((LastIndSeq e + rec_BAWinSize e + 1) AND MAXSEQ) MAXSEQ
     then ba_enqueue_reordering_packet a e rx FromWhichBSSID
     else do {
       let WinStartSeq = win_start_seq Seq (rec_BAWinSize e);
       (a1, e1) \<leftarrow> ba_indicate_reordering_mpdus_le_seq a e (USHORT WinStartSeq);
       let e2 = e1\<lparr>LastIndSeq := USHORT WinStartSeq, LastIndSeqAtTimer := Now32\<rparr>;
       (a3, e3) \<leftarrow> ba_enqueue_reordering_packet a1 e2 rx FromWhichBSSID;
       (a4, e4, Tmp) \<leftarrow> ba_indicate_reordering_mpdus_in_order a3 e3 (LastIndSeq e3);
       Some (a4, if Tmp \<noteq> RESET_RCV_SEQ then e4\<lparr>LastIndSeq := USHORT Tmp\<rparr> else e4)
     })"

definition ampdu_session_rx ::
    "'a ba_ctx_scheme \<Rightarrow> BA_REC_ENTRY \<Rightarrow> RX_BLK \<Rightarrow> nat \<Rightarrow> tick \<Rightarrow> ('a ba_ctx_scheme \<times> BA_REC_ENTRY) option" where
  "ampdu_session_rx a e rx FromWhichBSSID Now32 =
    do {
      let e0 = e\<lparr>rcvSeq := rx_Sequence rx\<rparr>;
      (a1, e1) \<leftarrow> ba_flush_reordering_timeout_mpdus a e0 Now32;
      let e2 = e1\<lparr>LastIndSeqAtTimer := Now32\<rparr>;
      if LastIndSeq e2 = RESET_RCV_SEQ
      then Some (INDICATE_LEGACY_OR_AMSDU a1 rx FromWhichBSSID,
                 e2\<lparr>LastIndSeq := rx_Sequence rx, LastIndSeqAtTimer := Now32\<rparr>)
      else ampdu_cases a1 e2 rx FromWhichBSSID Now32
    }"

text \<open>The Block-Ack-Request part of \<open>CntlEnqueueForRecv\<close> for the session's entry.\<close>

definition bar_session_rx ::
    "'a ba_ctx_scheme \<Rightarrow> BA_REC_ENTRY \<Rightarrow> int \<Rightarrow> ('a ba_ctx_scheme \<times> BA_REC_ENTRY) option" where
  "bar_session_rx a e StartSeq =
    (if SEQ_SMALLER (LastIndSeq e) StartSeq MAXSEQ
     then do {
       (a1, e1) \<leftarrow> ba_indicate_reordering_mpdus_le_seq a e StartSeq;
       Some (a1, e1\<lparr>LastIndSeq := (if StartSeq = 0 then MAXSEQ else StartSeq - 1)\<rparr>)
     }
     else Some (a, e))"

end
