(* ===== verification/BaLoops.thy ===== *)
theory BaLoops
  imports BaReorder
begin

text \<open>What the loops of the reordering buffer compute, as functions of the pending list: each
  loop passes up a prefix of the list and gives its blocks back to the pool. The facts here turn
  every proof about the operations into a proof about lists.\<close>

section \<open>Passing up a list of blocks\<close>

definition announce_call :: "reordering_mpdu \<Rightarrow> upcall" where
  "announce_call m = (if bAMSDU m then BA_Reorder_AMSDU_Annnounce m
                      else ANNOUNCE_OR_FORWARD_802_3_PACKET m)"

definition pass_up :: "'a ba_ctx_scheme \<Rightarrow> reordering_mpdu list \<Rightarrow> 'a ba_ctx_scheme" where
  "pass_up a ms = a\<lparr>freelist := \<lparr>next_mpdus = rev ms @ next_mpdus (freelist a),
                                  qlen = qlen (freelist a) + int (length ms)\<rparr>,
                     calls := calls a @ map announce_call ms\<rparr>"

definition list_wf :: "reordering_list \<Rightarrow> bool" where
  "list_wf l = (qlen l = int (length (next_mpdus l)))"

definition drop_list :: "nat \<Rightarrow> reordering_list \<Rightarrow> reordering_list" where
  "drop_list n l = \<lparr>next_mpdus = drop n (next_mpdus l), qlen = qlen l - int n\<rparr>"

lemma pass_up_sel [ba_simps]:
  "freelist (pass_up a ms) = \<lparr>next_mpdus = rev ms @ next_mpdus (freelist a),
                              qlen = qlen (freelist a) + int (length ms)\<rparr>"
  "calls (pass_up a ms) = calls a @ map announce_call ms"
  "OS_HZ (pass_up a ms) = OS_HZ a"
  by (simp_all add: pass_up_def)

lemma pass_up_Nil [simp]: "pass_up a [] = a"
  by (simp add: pass_up_def)

lemma pass_up_step:
  "pass_up (ba_mpdu_blk_free (Announce_Reordering_Packet a m) m) ms = pass_up a (m # ms)"
  by (simp add: pass_up_def ba_mpdu_blk_free_def Announce_Reordering_Packet_def log_call_def
      ba_enqueue_def announce_call_def)

lemma pass_up_append: "pass_up (pass_up a ms) ns = pass_up a (ms @ ns)"
  by (simp add: pass_up_def)

lemma list_wf_drop [simp]:
  "list_wf l \<Longrightarrow> n \<le> length (next_mpdus l) \<Longrightarrow> list_wf (drop_list n l)"
  by (simp add: list_wf_def drop_list_def)

lemma drop_list_sel [simp]: "next_mpdus (drop_list n l) = drop n (next_mpdus l)"
  by (simp add: drop_list_def)

lemma drop_list_0 [simp]: "drop_list 0 l = l"
  by (simp add: drop_list_def)

lemma drop_list_drop_list: "drop_list m (drop_list n l) = drop_list (n + m) l"
  by (simp add: drop_list_def add.commute)

lemma dequeue_wf:
  "list_wf l \<Longrightarrow> ba_dequeue l = (case next_mpdus l of [] \<Rightarrow> (None, l) | b # _ \<Rightarrow> (Some b, drop_list 1 l))"
  by (cases l) (auto simp: list_wf_def ba_dequeue_def drop_list_def split: list.split)

lemma dequeue_wf_Cons:
  "list_wf l \<Longrightarrow> next_mpdus l = b # bs \<Longrightarrow> ba_dequeue l = (Some b, drop_list 1 l)"
  by (simp add: dequeue_wf)

section \<open>The prefixes the loops take\<close>

fun run_prefix :: "int \<Rightarrow> reordering_mpdu list \<Rightarrow> reordering_mpdu list" where
  "run_prefix s [] = []"
| "run_prefix s (m # ms) =
    (if SEQ_STEPONE (Sequence m) s MAXSEQ then m # run_prefix (USHORT (Sequence m)) ms else [])"

definition le_prefix :: "int \<Rightarrow> reordering_mpdu list \<Rightarrow> reordering_mpdu list" where
  "le_prefix s = takeWhile (\<lambda>m. Sequence m = s \<or> SEQ_SMALLER (Sequence m) s MAXSEQ)"

lemma run_prefix_prefix: "run_prefix s ms @ drop (length (run_prefix s ms)) ms = ms"
  by (induction s ms rule: run_prefix.induct) auto

lemma le_prefix_prefix: "le_prefix s ms @ drop (length (le_prefix s ms)) ms = ms"
  unfolding le_prefix_def by (metis dropWhile_eq_drop takeWhile_dropWhile_id)

lemma run_prefix_length: "length (run_prefix s ms) \<le> length ms"
  by (metis run_prefix_prefix length_append le_add1)

lemma le_prefix_length: "length (le_prefix s ms) \<le> length ms"
  by (simp add: le_prefix_def length_takeWhile_le)

lemma in_order_loop_eq:
  assumes "list_wf (reorder_list e)"
  shows "in_order_loop a e s r =
    (let pre = run_prefix s (next_mpdus (reorder_list e))
     in Some (pass_up a pre, e\<lparr>reorder_list := drop_list (length pre) (reorder_list e)\<rparr>,
              if pre = [] then r else USHORT (Sequence (last pre))))"
  using assms
proof (induction a e s r rule: in_order_loop.induct)
  case (1 a e s r)
  show ?case
  proof (cases "next_mpdus (reorder_list e)")
    case Nil
    then show ?thesis
      by (subst in_order_loop.simps) (simp add: ba_reordering_mpdu_probe_def)
  next
    case (Cons b bs)
    note deq = dequeue_wf_Cons[OF "1.prems" Cons]
    show ?thesis
    proof (cases "SEQ_STEPONE (Sequence b) s MAXSEQ")
      case False
      then show ?thesis
        by (subst in_order_loop.simps) (simp add: ba_reordering_mpdu_probe_def Cons)
    next
      case True
      have wf: "list_wf (drop_list 1 (reorder_list e))" using "1.prems" Cons by simp
      have "in_order_loop a e s r =
        in_order_loop (ba_mpdu_blk_free (Announce_Reordering_Packet a b) b)
          (e\<lparr>reorder_list := drop_list 1 (reorder_list e)\<rparr>)
          (USHORT (Sequence b)) (USHORT (Sequence b))"
        using True by (subst in_order_loop.simps) (simp add: ba_reordering_mpdu_probe_def Cons deq)
      also note "1.IH"[of b, OF _ _ deq[symmetric] refl]
      finally show ?thesis
        using True wf Cons
        by (simp add: ba_reordering_mpdu_probe_def Let_def pass_up_step drop_list_drop_list)
    qed
  qed
qed

lemma in_order_eq [ba_simps]:
  assumes "list_wf (reorder_list e)"
  shows "ba_indicate_reordering_mpdus_in_order a e s =
    (let pre = run_prefix s (next_mpdus (reorder_list e))
     in Some (pass_up a pre, e\<lparr>reorder_list := drop_list (length pre) (reorder_list e)\<rparr>,
              if pre = [] then RESET_RCV_SEQ else USHORT (Sequence (last pre))))"
  using assms by (simp add: ba_indicate_reordering_mpdus_in_order_def in_order_loop_eq)

lemma le_seq_eq [ba_simps]:
  assumes "list_wf (reorder_list e)"
  shows "ba_indicate_reordering_mpdus_le_seq a e s =
    (let pre = le_prefix s (next_mpdus (reorder_list e))
     in Some (pass_up a pre, e\<lparr>reorder_list := drop_list (length pre) (reorder_list e)\<rparr>))"
  using assms
proof (induction a e s rule: ba_indicate_reordering_mpdus_le_seq.induct)
  case (1 a e s)
  let ?P = "\<lambda>m. Sequence m = s \<or> SEQ_SMALLER (Sequence m) s MAXSEQ"
  show ?case
  proof (cases "next_mpdus (reorder_list e)")
    case Nil
    then show ?thesis
      by (subst ba_indicate_reordering_mpdus_le_seq.simps)
        (simp add: ba_reordering_mpdu_probe_def le_prefix_def)
  next
    case (Cons b bs)
    note deq = dequeue_wf_Cons[OF "1.prems" Cons]
    show ?thesis
    proof (cases "?P b")
      case False
      then show ?thesis
        by (subst ba_indicate_reordering_mpdus_le_seq.simps)
          (simp add: ba_reordering_mpdu_probe_def Cons le_prefix_def)
    next
      case True
      have wf: "list_wf (drop_list 1 (reorder_list e))" using "1.prems" Cons by simp
      have "ba_indicate_reordering_mpdus_le_seq a e s =
        ba_indicate_reordering_mpdus_le_seq
          (ba_mpdu_blk_free (Announce_Reordering_Packet a b) b)
          (e\<lparr>reorder_list := drop_list 1 (reorder_list e)\<rparr>) s"
        using True
        by (subst ba_indicate_reordering_mpdus_le_seq.simps)
          (simp add: ba_reordering_mpdu_probe_def Cons deq)
      also note "1.IH"[of b, OF _ _ deq[symmetric] refl]
      finally show ?thesis
        using True wf Cons
        by (simp add: ba_reordering_mpdu_probe_def Let_def pass_up_step drop_list_drop_list
            le_prefix_def)
    qed
  qed
qed

lemma refresh_loop_eq:
  assumes "list_wf (reorder_list e)"
  shows "\<exists>s. refresh_loop a e =
    (pass_up a (next_mpdus (reorder_list e)),
     e\<lparr>reorder_list := \<lparr>next_mpdus = [], qlen = 0\<rparr>, LastIndSeq := s\<rparr>)"
  using assms
proof (induction a e rule: refresh_loop.induct)
  case (1 a e)
  show ?case
  proof (cases "next_mpdus (reorder_list e)")
    case Nil
    then have "reorder_list e = \<lparr>next_mpdus = [], qlen = 0\<rparr>"
      using "1.prems" by (cases "reorder_list e") (simp add: list_wf_def)
    then show ?thesis
      by (subst refresh_loop.simps) (auto simp: ba_dequeue_def intro!: exI[of _ "LastIndSeq e"])
  next
    case (Cons b bs)
    note deq = dequeue_wf_Cons[OF "1.prems" Cons]
    have wf: "list_wf (drop_list 1 (reorder_list e))" using "1.prems" Cons by simp
    have "refresh_loop a e = refresh_loop (ba_mpdu_blk_free (Announce_Reordering_Packet a b) b)
      (e\<lparr>reorder_list := drop_list 1 (reorder_list e), LastIndSeq := USHORT (Sequence b)\<rparr>)"
      by (subst refresh_loop.simps) (simp add: deq)
    then show ?thesis
      using "1.IH"[OF deq[symmetric] refl] wf Cons by (auto simp: pass_up_step)
  qed
qed

lemma refresh_eq [ba_simps]:
  assumes "list_wf (reorder_list e)"
  shows "ba_refresh_reordering_mpdus a e =
    (pass_up a (next_mpdus (reorder_list e)),
     e\<lparr>reorder_list := \<lparr>next_mpdus = [], qlen = 0\<rparr>, LastIndSeq := RESET_RCV_SEQ\<rparr>)"
  using refresh_loop_eq[OF assms, of a] by (auto simp: ba_refresh_reordering_mpdus_def)

end
