(* ===== verification/BaWindow.thy ===== *)
theory BaWindow
  imports BaLoops
begin

text \<open>The window of a recipient session: what is pending lies strictly ahead of
  \<open>LastIndSeq\<close>, inside the window, in strictly increasing order of offset. This theory shows
  how insertion and the two prefix releases act on such a list.\<close>

section \<open>Ordered pending lists\<close>

definition pending_ok :: "int \<Rightarrow> int \<Rightarrow> int \<Rightarrow> reordering_mpdu list \<Rightarrow> bool" where
  "pending_ok lo L W ms \<longleftrightarrow>
    (\<forall>m\<in>set ms. seq_ok (Sequence m) \<and> lo \<le> off L (Sequence m) \<and> off L (Sequence m) \<le> W) \<and>
    sorted_wrt (<) (map (\<lambda>m. off L (Sequence m)) ms)"

lemma pending_ok_Nil [simp]: "pending_ok lo L W []"
  by (simp add: pending_ok_def)

lemma pending_ok_Cons:
  "pending_ok lo L W (m # ms) \<longleftrightarrow>
    seq_ok (Sequence m) \<and> lo \<le> off L (Sequence m) \<and> off L (Sequence m) \<le> W \<and>
    (\<forall>x\<in>set ms. off L (Sequence m) < off L (Sequence x)) \<and> pending_ok lo L W ms"
  by (auto simp: pending_ok_def)

lemma pending_ok_append:
  "pending_ok lo L W (xs @ ys) \<longleftrightarrow>
    pending_ok lo L W xs \<and> pending_ok lo L W ys \<and>
    (\<forall>x\<in>set xs. \<forall>y\<in>set ys. off L (Sequence x) < off L (Sequence y))"
  by (auto simp: pending_ok_def sorted_wrt_append)

lemma pending_ok_mono:
  "pending_ok lo L W ms \<Longrightarrow> lo' \<le> lo \<Longrightarrow> W \<le> W' \<Longrightarrow> pending_ok lo' L W' ms"
  by (force simp: pending_ok_def)

lemma pending_ok_inj:
  "pending_ok lo L W ms \<Longrightarrow> inj_on Sequence (set ms)"
proof (induction ms)
  case (Cons m ms)
  then show ?case by (fastforce simp: pending_ok_Cons)
qed simp

lemma pending_ok_distinct: "pending_ok lo L W ms \<Longrightarrow> distinct (map Sequence ms)"
  by (induction ms) (force simp: pending_ok_Cons)+

text \<open>Moving the base forward past none of the pending frames.\<close>

lemma pending_ok_rebase:
  assumes ok: "pending_ok lo L W ms"
    and ahead: "\<And>m. m \<in> set ms \<Longrightarrow> off L L' + lo' \<le> off L (Sequence m)" and lo': "0 \<le> lo'"
  shows "pending_ok lo' L' (W - off L L') ms"
proof -
  have sh: "off L' (Sequence m) = off L (Sequence m) - off L L'" if "m \<in> set ms" for m
    using ahead[OF that] lo' by (intro off_shift_ge) linarith
  have "sorted_wrt (<) (map (\<lambda>m. off L (Sequence m) - off L L') ms)"
    using ok by (simp add: pending_ok_def sorted_wrt_map)
  also have "map (\<lambda>m. off L (Sequence m) - off L L') ms = map (\<lambda>m. off L' (Sequence m)) ms"
    using sh by simp
  finally have srt: "sorted_wrt (<) (map (\<lambda>m. off L' (Sequence m)) ms)" .
  have "seq_ok (Sequence m) \<and> lo' \<le> off L' (Sequence m) \<and> off L' (Sequence m) \<le> W - off L L'"
    if m: "m \<in> set ms" for m
    using ok ahead[OF m] sh[OF m] m by (auto simp: pending_ok_def)
  then show ?thesis using srt by (simp add: pending_ok_def)
qed

text \<open>Seen from an earlier base.\<close>

lemma pending_ok_forward:
  assumes ok: "pending_ok lo S W ms" and b: "off L S + W < 4096"
  shows "pending_ok (off L S + lo) L (off L S + W) ms"
proof -
  have sh: "off L (Sequence m) = off L S + off S (Sequence m)" if "m \<in> set ms" for m
    using ok b that by (intro off_trans) (fastforce simp: pending_ok_def)
  have "sorted_wrt (<) (map (\<lambda>m. off L S + off S (Sequence m)) ms)"
    using ok by (simp add: pending_ok_def sorted_wrt_map)
  also have "map (\<lambda>m. off L S + off S (Sequence m)) ms = map (\<lambda>m. off L (Sequence m)) ms"
    using sh by simp
  finally show ?thesis using ok sh by (simp add: pending_ok_def)
qed

section \<open>Insertion\<close>

lemma insert_scan_mset:
  "insert_scan ms m = Some ms' \<Longrightarrow> mset ms' = add_mset m (mset ms)"
  by (induction ms arbitrary: ms') (auto split: if_splits)

lemma insert_scan_length: "insert_scan ms m = Some ms' \<Longrightarrow> length ms' = Suc (length ms)"
  by (metis insert_scan_mset size_mset size_add_mset)

lemma SEQ_SMALLER_within:
  assumes "off L a \<le> W" "off L b \<le> W" "W < 2048"
  shows "SEQ_SMALLER a b MAXSEQ \<longleftrightarrow> off L a < off L b"
proof (cases "off L a < off L b")
  case True
  moreover have "off L b - off L a \<le> 2048" using assms off_range(1)[of L a] by linarith
  ultimately show ?thesis by (simp add: SEQ_SMALLER_behind)
next
  case False
  moreover have "off L a - off L b < 2048" using assms off_range(1)[of L b] by linarith
  ultimately show ?thesis using SEQ_SMALLER_not_ahead[of L b a] by simp
qed

lemma insert_scan_spec:
  assumes "pending_ok lo L W ms" "W < 2048" "seq_ok (Sequence m)"
    "lo \<le> off L (Sequence m)" "off L (Sequence m) \<le> W"
  shows "if Sequence m \<in> Sequence ` set ms then insert_scan ms m = None
         else \<exists>ms'. insert_scan ms m = Some ms' \<and> pending_ok lo L W ms'"
  using assms
proof (induction ms)
  case (Cons p ps)
  have p: "seq_ok (Sequence p)" "off L (Sequence p) \<le> W"
    and ps: "pending_ok lo L W ps" "\<forall>x\<in>set ps. off L (Sequence p) < off L (Sequence x)"
    using Cons.prems(1) by (auto simp: pending_ok_Cons)
  note sm = SEQ_SMALLER_within[OF p(2) Cons.prems(5,2)]
  consider (lt) "off L (Sequence p) < off L (Sequence m)"
    | (eq) "Sequence p = Sequence m" | (gt) "off L (Sequence m) < off L (Sequence p)"
    using off_inj[OF p(1) Cons.prems(3)] by force
  then show ?case
  proof cases
    case lt
    show ?thesis
    proof (cases "Sequence m \<in> Sequence ` set ps")
      case True
      then show ?thesis using Cons.IH[OF ps(1) Cons.prems(2-5)] lt sm by auto
    next
      case False
      then obtain ms' where ms': "insert_scan ps m = Some ms'" "pending_ok lo L W ms'"
        using Cons.IH[OF ps(1) Cons.prems(2-5)] by auto
      have "set ms' = insert m (set ps)"
        using insert_scan_mset[OF ms'(1)] by (metis set_mset_add_mset_insert set_mset_mset)
      then have "pending_ok lo L W (p # ms')"
        using ms'(2) Cons.prems(1) ps lt by (auto simp: pending_ok_Cons)
      then show ?thesis using False lt sm ms'(1) by auto
    qed
  next
    case eq
    then show ?thesis using sm by simp
  next
    case gt
    then have "Sequence m \<notin> Sequence ` set (p # ps)" using ps(2) by fastforce
    moreover have "insert_scan (p # ps) m = Some (m # p # ps)" using gt sm by auto
    moreover have "pending_ok lo L W (m # p # ps)"
      using Cons.prems gt ps(2) by (auto simp: pending_ok_Cons)
    ultimately show ?thesis by simp
  qed
qed (simp add: pending_ok_Cons)

lemma insert_scan_dup:
  assumes "pending_ok lo L W ms" "W < 2048" "seq_ok (Sequence m)"
    "lo \<le> off L (Sequence m)" "off L (Sequence m) \<le> W" "Sequence m \<in> Sequence ` set ms"
  shows "insert_scan ms m = None"
  using insert_scan_spec[OF assms(1-5)] assms(6) by simp

lemma insert_scan_new:
  assumes "pending_ok lo L W ms" "W < 2048" "seq_ok (Sequence m)"
    "lo \<le> off L (Sequence m)" "off L (Sequence m) \<le> W" "Sequence m \<notin> Sequence ` set ms"
  obtains ms' where "insert_scan ms m = Some ms'" "pending_ok lo L W ms'"
    "mset ms' = add_mset m (mset ms)"
  using insert_scan_spec[OF assms(1-5)] assms(6) insert_scan_mset by auto

section \<open>Releases\<close>

text \<open>\<open>ba_indicate_reordering_mpdus_le_seq\<close> takes exactly the frames up to the given number.\<close>

lemma le_prefix_eq:
  assumes "pending_ok lo L W ms" "W < 2048" "seq_ok s" "off L s < 2048"
  shows "le_prefix s ms = takeWhile (\<lambda>m. off L (Sequence m) \<le> off L s) ms"
  unfolding le_prefix_def
proof (rule takeWhile_cong[OF refl])
  fix m assume "m \<in> set ms"
  then have m: "seq_ok (Sequence m)" "off L (Sequence m) \<le> W"
    using assms(1) by (auto simp: pending_ok_def)
  have "SEQ_SMALLER (Sequence m) s MAXSEQ \<longleftrightarrow> off L (Sequence m) < off L s"
    using SEQ_SMALLER_within[of L "Sequence m" 2047 s] m assms by linarith
  then show "(Sequence m = s \<or> SEQ_SMALLER (Sequence m) s MAXSEQ) \<longleftrightarrow> off L (Sequence m) \<le> off L s"
    using off_inj[OF m(1) assms(3)] by force
qed

lemma le_prefix_split:
  assumes "pending_ok lo L W ms" "W < 2048" "seq_ok s" "off L s < 2048"
  shows "set (le_prefix s ms) = {m \<in> set ms. off L (Sequence m) \<le> off L s}"
    and "set (drop (length (le_prefix s ms)) ms) = {m \<in> set ms. off L s < off L (Sequence m)}"
proof -
  let ?A = "off L s"
  note eq = le_prefix_eq[OF assms]
  have rest: "drop (length (le_prefix s ms)) ms = dropWhile (\<lambda>m. off L (Sequence m) \<le> ?A) ms"
    unfolding eq by (simp add: dropWhile_eq_drop)
  have srt: "sorted (map (\<lambda>m. off L (Sequence m)) ms)"
    using assms(1) by (auto simp: pending_ok_def intro: sorted_wrt_mono_rel[of _ "(<)" "(\<le>)"])
  have gt: "?A < off L (Sequence m)" if "m \<in> set (dropWhile (\<lambda>m. off L (Sequence m) \<le> ?A) ms)" for m
    using srt that
  proof (induction ms)
    case (Cons a ms)
    then show ?case by (auto split: if_splits)
  qed simp
  have le: "off L (Sequence m) \<le> ?A" if "m \<in> set (le_prefix s ms)" for m
    using that unfolding eq by (blast dest: set_takeWhileD)
  have un: "set (le_prefix s ms) \<union> set (drop (length (le_prefix s ms)) ms) = set ms"
    by (metis le_prefix_prefix set_append)
  show "set (le_prefix s ms) = {m \<in> set ms. off L (Sequence m) \<le> ?A}"
    using un le gt unfolding rest by fastforce
  show "set (drop (length (le_prefix s ms)) ms) = {m \<in> set ms. ?A < off L (Sequence m)}"
    using un le gt unfolding rest by fastforce
qed

lemma pending_ok_drop: "pending_ok lo L W ms \<Longrightarrow> pending_ok lo L W (drop n ms)"
  by (metis append_take_drop_id pending_ok_append)

lemma pending_ok_take: "pending_ok lo L W ms \<Longrightarrow> pending_ok lo L W (take n ms)"
  by (metis append_take_drop_id pending_ok_append)

lemma le_prefix_take: "le_prefix s ms = take (length (le_prefix s ms)) ms"
  by (metis append_eq_conv_conj le_prefix_prefix)

lemma le_prefix_rest:
  assumes "pending_ok lo L W ms" "W < 2048" "seq_ok s" "off L s < 2048"
  shows "pending_ok 1 s (W - off L s) (drop (length (le_prefix s ms)) ms)"
  using le_prefix_split(2)[OF assms] by (intro pending_ok_rebase[OF pending_ok_drop[OF assms(1)]]) auto

lemma le_prefix_rest_bar:
  assumes "pending_ok lo L W ms" "W < 2048" "seq_ok s" "off L s < 2048" "off L l + 1 = off L s"
  shows "pending_ok 2 l (W - off L l) (drop (length (le_prefix s ms)) ms)"
  using le_prefix_split(2)[OF assms(1-4)] assms(5)
  by (intro pending_ok_rebase[OF pending_ok_drop[OF assms(1)]]) auto

text \<open>\<open>ba_indicate_reordering_mpdus_in_order\<close> takes the maximal run of consecutive numbers.\<close>

lemma pending_ok_head_step:
  assumes "pending_ok 1 L W (m # ms)" "off L (Sequence m) = 1"
  shows "pending_ok 1 (Sequence m) (W - 1) ms" "Sequence m = (L + 1) mod 4096"
    "USHORT (Sequence m) = Sequence m" "1 \<le> W"
proof -
  have m: "seq_ok (Sequence m)" using assms(1) by (simp add: pending_ok_Cons)
  have "pending_ok 1 (Sequence m) (W - off L (Sequence m)) ms"
    using assms by (intro pending_ok_rebase[where lo = 1]) (auto simp: pending_ok_Cons)
  then show "pending_ok 1 (Sequence m) (W - 1) ms" by (simp add: assms(2))
  show "Sequence m = (L + 1) mod 4096"
    using seq_of_off[OF m, of L] by (simp add: assms(2))
  show "USHORT (Sequence m) = Sequence m" using m by (simp add: seq_ok_def)
  show "1 \<le> W" using assms by (simp add: pending_ok_Cons)
qed

lemma enum_Suc:
  assumes "s = (L + 1) mod 4096"
  shows "map (\<lambda>i. (L + 1 + int i) mod 4096) [0..<Suc n] = s # map (\<lambda>i. (s + 1 + int i) mod 4096) [0..<n]"
proof -
  have "(L + 1 + int (Suc i)) mod 4096 = (s + 1 + int i) mod 4096" for i
    unfolding assms using mod_add_left_eq[of "L + 1" 4096 "1 + int i"] by (simp add: add.assoc)
  then show ?thesis using assms by (simp add: map_upt_Suc del: upt_Suc of_nat_Suc)
qed

lemma run_prefix_spec:
  assumes "pending_ok 1 L W ms" "seq_ok L"
  shows "map Sequence (run_prefix L ms) =
           map (\<lambda>i. (L + 1 + int i) mod 4096) [0..<length (run_prefix L ms)] \<and>
         pending_ok 2 ((L + int (length (run_prefix L ms))) mod 4096)
           (W - int (length (run_prefix L ms))) (drop (length (run_prefix L ms)) ms) \<and>
         int (length (run_prefix L ms)) \<le> max 0 W"
  using assms
proof (induction L ms arbitrary: W rule: run_prefix.induct)
  case (1 L)
  then show ?case by simp
next
  case (2 L m ms)
  have m: "seq_ok (Sequence m)" using "2.prems"(1) by (simp add: pending_ok_Cons)
  note step = SEQ_STEPONE_iff[OF m, of L]
  show ?case
  proof (cases "off L (Sequence m) = 1")
    case True
    note b = pending_ok_head_step[OF "2.prems"(1) True]
    let ?n = "length (run_prefix (Sequence m) ms)"
    have one: "SEQ_STEPONE (Sequence m) L MAXSEQ" using step True by simp
    have IH: "map Sequence (run_prefix (Sequence m) ms) =
          map (\<lambda>i. (Sequence m + 1 + int i) mod 4096) [0..<?n]"
        "pending_ok 2 ((Sequence m + int ?n) mod 4096) (W - 1 - int ?n) (drop ?n ms)"
        "int ?n \<le> max 0 (W - 1)"
      using "2.IH"[OF one, unfolded b(3), OF b(1) m] by auto
    have "(Sequence m + int ?n) mod 4096 = (L + int (Suc ?n)) mod 4096"
      using mod_add_left_eq[of "L + 1" 4096 "int ?n"] b(2) by (simp add: add.assoc)
    moreover have "map Sequence (m # run_prefix (Sequence m) ms) =
        map (\<lambda>i. (L + 1 + int i) mod 4096) [0..<Suc ?n]"
      using IH(1) enum_Suc[OF b(2), of ?n] by (simp del: upt_Suc)
    ultimately show ?thesis
      using IH(2,3) one b(3,4) by (simp add: algebra_simps del: upt_Suc)
  next
    case False
    then have "2 \<le> off L (Sequence m)" using "2.prems"(1) by (simp add: pending_ok_Cons)
    then have "pending_ok 2 L W (m # ms)" using "2.prems"(1) by (force simp: pending_ok_def)
    then show ?thesis using False step "2.prems"(2) by (simp add: seq_ok_def)
  qed
qed

end
