(* ===== verification/BaSpec.thy ===== *)
theory BaSpec
  imports BaWindow
begin

text \<open>An abstract receive-reordering buffer: the next sequence number to release and the set of
  buffered numbers. It has no lists, blocks or calls; a release is an enumeration of the sequence
  circle. The operations of common/ba_action.c refine it (theory \<open>BaRefine\<close>).\<close>

section \<open>The abstract buffer\<close>

definition seq_range :: "int \<Rightarrow> nat \<Rightarrow> int list" where
  "seq_range ws k = map (\<lambda>i. (ws + int i) mod 4096) [0..<k]"

definition run_len :: "int \<Rightarrow> int set \<Rightarrow> nat" where
  "run_len ws P = length (takeWhile (\<lambda>s. s \<in> P) (seq_range ws 4096))"

text \<open>Give up waiting for the first \<open>k\<close> numbers, release what is buffered of them, then the
  run of consecutive buffered numbers that follows. The result is the numbers released, in order,
  the new next number and what stays buffered.\<close>

definition rob_release :: "int \<Rightarrow> nat \<Rightarrow> int set \<Rightarrow> int list \<times> int \<times> int set" where
  "rob_release ws k P =
    (let n = run_len ((ws + int k) mod 4096) P;
         out = filter (\<lambda>s. s \<in> P) (seq_range ws (k + n))
     in (out, (ws + int (k + n)) mod 4096, P - set out))"

text \<open>Receiving number \<open>s\<close> with window size \<open>W\<close>: old numbers are discarded, numbers in the
  window are buffered, a number beyond the window moves the window so that it is the last of it.\<close>

definition rob_receive :: "int \<Rightarrow> int \<times> int set \<Rightarrow> int \<Rightarrow> int list \<times> int \<times> int set" where
  "rob_receive W r s =
    (case r of (ws, P) \<Rightarrow>
      if 2047 \<le> off ws s then ([], ws, P)
      else rob_release ws (if off ws s < W then 0 else nat (off ws s - W + 1)) (insert s P))"

section \<open>Enumerations of the sequence circle\<close>

lemma seq_range_simps [simp]: "seq_range ws 0 = []" "length (seq_range ws k) = k"
  by (simp_all add: seq_range_def)

lemma set_seq_range: "set (seq_range ws k) = {(ws + int i) mod 4096 | i. i < k}"
  by (auto simp: seq_range_def)

lemma seq_range_seq_ok: "x \<in> set (seq_range ws k) \<Longrightarrow> seq_ok x"
  by (auto simp: set_seq_range)

lemma off_next: "off L ((L + 1 + d) mod 4096) = (1 + d) mod 4096"
  using off_add[of L "1 + d"] by (simp add: add.assoc)

lemma off_seq_range:
  assumes "k < 4096"
  shows "map (off L) (seq_range ((L + 1) mod 4096) k) = map (\<lambda>i. 1 + int i) [0..<k]"
proof -
  have "off L (((L + 1) mod 4096 + int i) mod 4096) = 1 + int i" if "i < k" for i
    using off_next[of L "int i"] that assms by (simp add: mod_add_left_eq)
  then show ?thesis by (simp add: seq_range_def)
qed

lemma mem_seq_range:
  assumes "k < 4096" "seq_ok x"
  shows "x \<in> set (seq_range ((L + 1) mod 4096) k) \<longleftrightarrow> 1 \<le> off L x \<and> off L x \<le> int k"
proof (rule iffI)
  assume "x \<in> set (seq_range ((L + 1) mod 4096) k)"
  then have "off L x \<in> set (map (off L) (seq_range ((L + 1) mod 4096) k))" by simp
  then show "1 \<le> off L x \<and> off L x \<le> int k" unfolding off_seq_range[OF assms(1)] by auto
next
  assume a: "1 \<le> off L x \<and> off L x \<le> int k"
  have "x = (L + off L x) mod 4096" by (rule seq_of_off[OF assms(2), symmetric])
  also have "L + off L x = L + 1 + int (nat (off L x - 1))" using a by simp
  also have "(L + 1 + int (nat (off L x - 1))) mod 4096 = ((L + 1) mod 4096 + int (nat (off L x - 1))) mod 4096"
    by (rule mod_add_left_eq[symmetric])
  finally have "x = ((L + 1) mod 4096 + int (nat (off L x - 1))) mod 4096" .
  moreover have "nat (off L x - 1) < k" using a by linarith
  ultimately show "x \<in> set (seq_range ((L + 1) mod 4096) k)"
    unfolding set_seq_range by blast
qed

lemma run_len_eqI:
  assumes "\<And>i. i < n \<Longrightarrow> (ws + int i) mod 4096 \<in> P" "(ws + int n) mod 4096 \<notin> P" "n < 4096"
  shows "run_len ws P = n"
proof -
  have "seq_range ws 4096 = map (\<lambda>i. (ws + int i) mod 4096) ([0..<n] @ [n..<4096])"
    using assms(3) upt_add_eq_append[of 0 n "4096 - n"] by (simp add: seq_range_def)
  also have "[n..<4096] = n # [Suc n..<4096]" using assms(3) by (simp add: upt_conv_Cons)
  finally have eq: "seq_range ws 4096 = map (\<lambda>i. (ws + int i) mod 4096) [0..<n] @
      (ws + int n) mod 4096 # map (\<lambda>i. (ws + int i) mod 4096) [Suc n..<4096]" by simp
  have "takeWhile (\<lambda>s. s \<in> P) (seq_range ws 4096) = map (\<lambda>i. (ws + int i) mod 4096) [0..<n]"
    unfolding eq using assms(1,2) by (subst takeWhile_append2) auto
  then show ?thesis by (simp add: run_len_def)
qed

text \<open>Two lists of sequence numbers that are ordered by offset are equal when they have the same
  elements.\<close>

lemma offset_ordered_unique:
  assumes "sorted_wrt (<) (map (off L) xs)" "sorted_wrt (<) (map (off L) ys)"
    "set xs = set ys" "\<And>x. x \<in> set xs \<Longrightarrow> seq_ok x"
  shows "xs = ys"
proof -
  have "map (off L) xs = map (off L) ys"
  proof (rule sorted_distinct_set_unique)
    show "sorted (map (off L) xs)" "sorted (map (off L) ys)"
      using assms(1,2) by (auto intro: sorted_wrt_mono_rel[rotated])
    show "distinct (map (off L) xs)" "distinct (map (off L) ys)"
      using assms(1,2) by (simp_all add: sorted_wrt_less_distinct)
    show "set (map (off L) xs) = set (map (off L) ys)" using assms(3) by simp
  qed
  moreover have "inj_on (off L) (set xs \<union> set ys)"
    using assms(3,4) by (intro inj_onI) (metis Un_absorb off_inj)
  ultimately show ?thesis by (rule map_inj_on)
qed

lemma filter_range_eq:
  assumes srt: "sorted_wrt (<) (map (off L) xs)" and k: "k < 4096"
    and ok: "\<And>x. x \<in> set xs \<Longrightarrow> seq_ok x"
    and P: "set xs = {x \<in> P. seq_ok x \<and> 1 \<le> off L x \<and> off L x \<le> int k}"
  shows "filter (\<lambda>x. x \<in> P) (seq_range ((L + 1) mod 4096) k) = xs"
proof (rule offset_ordered_unique[of L])
  let ?r = "seq_range ((L + 1) mod 4096) k"
  have "sorted_wrt (<) (map (off L) ?r)"
    unfolding off_seq_range[OF k] by (simp add: sorted_wrt_map sorted_wrt_upt)
  then show "sorted_wrt (<) (map (off L) (filter (\<lambda>x. x \<in> P) ?r))"
    by (simp add: sorted_wrt_map sorted_wrt_filter)
  show "set (filter (\<lambda>x. x \<in> P) ?r) = set xs"
  proof -
    have "x \<in> set ?r \<longleftrightarrow> seq_ok x \<and> 1 \<le> off L x \<and> off L x \<le> int k" for x
      using mem_seq_range[OF k, of x L] seq_range_seq_ok[of x] by blast
    then show ?thesis unfolding P by auto
  qed
  show "seq_ok x" if "x \<in> set (filter (\<lambda>x. x \<in> P) ?r)" for x
    using that seq_range_seq_ok by auto
qed (rule srt)

section \<open>Releases of the concrete buffer\<close>

text \<open>A pending list that splits at \<open>S\<close> into what is at or behind it and what is ahead:
  releasing the first part and then the run from \<open>S\<close> is the abstract release.\<close>

definition split_at :: "int \<Rightarrow> int \<Rightarrow> int \<Rightarrow> reordering_mpdu list \<Rightarrow> reordering_mpdu list \<Rightarrow> bool" where
  "split_at L S W pre rest \<longleftrightarrow>
    pending_ok 1 L 2047 (pre @ rest) \<and> seq_ok S \<and> off L S < 2048 \<and>
    (\<forall>m\<in>set pre. off L (Sequence m) \<le> off L S) \<and> pending_ok 1 S W rest \<and> W \<le> 2047"

lemma run_prefix_take: "run_prefix s ms = take (length (run_prefix s ms)) ms"
  by (metis append_eq_conv_conj run_prefix_prefix)

lemma run_prefix_tail:
  assumes "pending_ok 1 S W rest" "seq_ok S" "W \<le> 2047" "m \<in> set (drop (length (run_prefix S rest)) rest)"
  shows "int (length (run_prefix S rest)) + 2 \<le> off S (Sequence m)"
proof -
  let ?n = "int (length (run_prefix S rest))"
  let ?S = "(S + ?n) mod 4096"
  have n: "?n \<le> max 0 W" and t: "2 \<le> off ?S (Sequence m)" "off ?S (Sequence m) \<le> W - ?n"
    using run_prefix_spec[OF assms(1,2)] assms(4) by (auto simp: pending_ok_def)
  have "off S ?S = ?n" using n assms(3) by (intro off_add_small) auto
  then show ?thesis using t assms(3) n off_trans[of S ?S "Sequence m"] by linarith
qed

lemma run_prefix_bound: "pending_ok 1 S W rest \<Longrightarrow> seq_ok S \<Longrightarrow> W \<le> 2047 \<Longrightarrow>
    length (run_prefix S rest) \<le> 2047"
  using run_prefix_spec[of S W rest] by linarith

lemma run_prefix_seqs: "pending_ok 1 S W rest \<Longrightarrow> seq_ok S \<Longrightarrow>
    map Sequence (run_prefix S rest) =
    map (\<lambda>i. (S + 1 + int i) mod 4096) [0..<length (run_prefix S rest)]"
  using run_prefix_spec[of S W rest] by blast

lemma run_prefix_off:
  assumes "pending_ok 1 S W rest" "seq_ok S" "W \<le> 2047" "m \<in> set (run_prefix S rest)"
  shows "off S (Sequence m) \<le> int (length (run_prefix S rest))"
proof -
  have "Sequence m \<in> set (map (\<lambda>i. (S + 1 + int i) mod 4096) [0..<length (run_prefix S rest)])"
    unfolding run_prefix_seqs[OF assms(1,2), symmetric] using assms(4) by simp
  then show ?thesis using run_prefix_bound[OF assms(1-3)] off_next[of S] by auto
qed

lemma split_at_off:
  assumes "split_at L S W pre rest" "m \<in> set rest"
  shows "off L (Sequence m) = off L S + off S (Sequence m)"
  using assms by (intro off_trans) (force simp: split_at_def pending_ok_def)

lemma split_at_tail:
  assumes "split_at L S W pre rest" "m \<in> set (drop (length (run_prefix S rest)) rest)"
  shows "off L S + int (length (run_prefix S rest)) + 2 \<le> off L (Sequence m)"
proof -
  have "int (length (run_prefix S rest)) + 2 \<le> off S (Sequence m)"
    using assms by (intro run_prefix_tail[of S W]) (auto simp: split_at_def)
  then show ?thesis using split_at_off[OF assms(1) in_set_dropD[OF assms(2)]] by simp
qed

lemma split_at_next:
  assumes "split_at L S W pre rest"
  shows "off L ((S + 1 + int (length (run_prefix S rest))) mod 4096) =
    off L S + int (length (run_prefix S rest)) + 1"
proof -
  let ?n = "length (run_prefix S rest)"
  have n: "?n \<le> 2047" using assms by (auto simp: split_at_def intro!: run_prefix_bound[of S W])
  have "off S ((S + 1 + int ?n) mod 4096) = int ?n + 1" using off_next[of S "int ?n"] n by simp
  moreover have "off L S < 2048" using assms by (simp add: split_at_def)
  ultimately show ?thesis using n by (subst off_trans[where S = S]) auto
qed

text \<open>What is released is what lies at most the length of the run beyond \<open>S\<close>.\<close>

lemma split_at_mem:
  assumes sp: "split_at L S W pre rest" and m: "m \<in> set (pre @ rest)"
  shows "m \<in> set (pre @ run_prefix S rest) \<longleftrightarrow>
    off L (Sequence m) \<le> off L S + int (length (run_prefix S rest))"
    and "m \<in> set (pre @ run_prefix S rest) \<longleftrightarrow> m \<notin> set (drop (length (run_prefix S rest)) rest)"
proof -
  let ?n = "length (run_prefix S rest)"
  have pre: "off L (Sequence m) \<le> off L S + int ?n" if "m \<in> set (pre @ run_prefix S rest)"
  proof (cases "m \<in> set pre")
    case True
    then show ?thesis using sp by (fastforce simp: split_at_def)
  next
    case False
    then have r: "m \<in> set (run_prefix S rest)" using that by simp
    then have "m \<in> set rest" by (metis in_set_takeD run_prefix_take)
    then show ?thesis
      using split_at_off[OF sp] run_prefix_off[of S W rest m] r sp by (auto simp: split_at_def)
  qed
  have cov: "m \<in> set (pre @ run_prefix S rest) \<or> m \<in> set (drop ?n rest)"
    using m by (metis Un_iff append.assoc run_prefix_prefix set_append)
  show "m \<in> set (pre @ run_prefix S rest) \<longleftrightarrow> off L (Sequence m) \<le> off L S + int ?n"
    using pre cov split_at_tail[OF sp, of m] by fastforce
  show "m \<in> set (pre @ run_prefix S rest) \<longleftrightarrow> m \<notin> set (drop ?n rest)"
    using pre cov split_at_tail[OF sp, of m] by fastforce
qed

lemma split_at_run_sub: "m \<in> set (pre @ run_prefix S rest) \<Longrightarrow> m \<in> set (pre @ rest)"
  using in_set_takeD run_prefix_take[of S rest] by (metis Un_iff set_append)

lemma split_at_run_len:
  assumes sp: "split_at L S W pre rest"
  shows "run_len ((S + 1) mod 4096) (Sequence ` set (pre @ rest)) = length (run_prefix S rest)"
proof (rule run_len_eqI)
  let ?n = "length (run_prefix S rest)"
  have ok: "pending_ok 1 S W rest" "seq_ok S" "W \<le> 2047" using sp by (auto simp: split_at_def)
  show "((S + 1) mod 4096 + int i) mod 4096 \<in> Sequence ` set (pre @ rest)" if "i < ?n" for i
  proof -
    have "(S + 1 + int i) mod 4096 \<in> set (map Sequence (run_prefix S rest))"
      unfolding run_prefix_seqs[OF ok(1,2)] using that by auto
    then show ?thesis unfolding mod_add_left_eq
      using split_at_run_sub[of _ pre S rest] by fastforce
  qed
  show "((S + 1) mod 4096 + int ?n) mod 4096 \<notin> Sequence ` set (pre @ rest)"
  proof
    assume "((S + 1) mod 4096 + int ?n) mod 4096 \<in> Sequence ` set (pre @ rest)"
    then have "(S + 1 + int ?n) mod 4096 \<in> Sequence ` set (pre @ rest)"
      unfolding mod_add_left_eq .
    then obtain m where m: "m \<in> set (pre @ rest)" "Sequence m = (S + 1 + int ?n) mod 4096"
      by (metis imageE)
    then have "off L (Sequence m) = off L S + int ?n + 1" using split_at_next[OF sp] by simp
    then show False using split_at_mem[OF sp m(1)] split_at_tail[OF sp, of m] by fastforce
  qed
  show "?n < 4096" using run_prefix_bound[OF ok] by simp
qed

lemma split_at_out:
  assumes sp: "split_at L S W pre rest"
  shows "filter (\<lambda>s. s \<in> Sequence ` set (pre @ rest))
      (seq_range ((L + 1) mod 4096) (nat (off L S) + length (run_prefix S rest))) =
    map Sequence (pre @ run_prefix S rest)" (is "filter (\<lambda>s. s \<in> ?P) _ = ?out")
proof (rule filter_range_eq)
  let ?run = "run_prefix S rest"
  have all: "pending_ok 1 L 2047 (pre @ rest)" using sp by (simp add: split_at_def)
  have "(pre @ ?run) @ drop (length ?run) rest = pre @ rest" by (simp add: run_prefix_prefix)
  then have split: "pending_ok 1 L 2047 (pre @ ?run)"
    using all pending_ok_append[of 1 L 2047 "pre @ ?run" "drop (length ?run) rest"] by simp
  show "sorted_wrt (<) (map (off L) ?out)" using split by (simp add: pending_ok_def comp_def)
  show "seq_ok x" if "x \<in> set ?out" for x using that split by (auto simp: pending_ok_def)
  show "nat (off L S) + length ?run < 4096"
    using sp run_prefix_bound[of S W rest] by (auto simp: split_at_def)
  have mem: "x \<in> set ?out \<longleftrightarrow> x \<in> ?P \<and> off L x \<le> off L S + int (length ?run)" for x
    using split_at_mem(1)[OF sp] split_at_run_sub[of _ pre S rest] by force
  have ok: "seq_ok x \<and> 1 \<le> off L x" if "x \<in> ?P" for x
    using that all by (auto simp: pending_ok_def)
  have "int (nat (off L S) + length ?run) = off L S + int (length ?run)" by simp
  then show "set ?out = {x \<in> ?P. seq_ok x \<and> 1 \<le> off L x \<and> off L x \<le> int (nat (off L S) + length ?run)}"
    using mem ok by (simp only: set_eq_iff mem_Collect_eq) blast
qed

lemma split_at_left:
  assumes sp: "split_at L S W pre rest"
  shows "Sequence ` set (pre @ rest) - Sequence ` set (pre @ run_prefix S rest) =
    Sequence ` set (drop (length (run_prefix S rest)) rest)"
proof -
  have inj: "inj_on Sequence (set (pre @ rest))"
    using sp pending_ok_inj[of 1 L 2047 "pre @ rest"] by (simp add: split_at_def)
  have "set (pre @ rest) - set (pre @ run_prefix S rest) = set (drop (length (run_prefix S rest)) rest)"
    using split_at_mem(2)[OF sp] by (auto dest: in_set_dropD)
  moreover have "Sequence ` (set (pre @ rest) - set (pre @ run_prefix S rest)) =
      Sequence ` set (pre @ rest) - Sequence ` set (pre @ run_prefix S rest)"
    using split_at_run_sub[of _ pre S rest] by (intro inj_on_image_set_diff[OF inj]) auto
  ultimately show ?thesis by simp
qed

theorem rob_release_split:
  assumes sp: "split_at L S W pre rest"
  defines "n \<equiv> length (run_prefix S rest)"
  shows "rob_release ((L + 1) mod 4096) (nat (off L S)) (Sequence ` set (pre @ rest)) =
    (map Sequence (pre @ run_prefix S rest), (S + 1 + int n) mod 4096, Sequence ` set (drop n rest))"
proof -
  have S: "seq_ok S" using sp by (simp add: split_at_def)
  have "((L + 1) mod 4096 + off L S) mod 4096 = (L + 1 + off L S) mod 4096" by (rule mod_add_left_eq)
  also have "L + 1 + off L S = 1 + (L + off L S)" by simp
  also have "(1 + (L + off L S)) mod 4096 = (1 + (L + off L S) mod 4096) mod 4096"
    by (rule mod_add_right_eq[symmetric])
  finally have ws: "((L + 1) mod 4096 + int (nat (off L S))) mod 4096 = (S + 1) mod 4096"
    using seq_of_off[OF S, of L] by (simp add: add.commute)
  have "((L + 1) mod 4096 + int (nat (off L S)) + int n) mod 4096 = ((S + 1) mod 4096 + int n) mod 4096"
    unfolding ws[symmetric] by (rule mod_add_left_eq[symmetric])
  also have "((S + 1) mod 4096 + int n) mod 4096 = (S + 1 + int n) mod 4096" by (rule mod_add_left_eq)
  finally have nxt: "((L + 1) mod 4096 + int (nat (off L S) + n)) mod 4096 = (S + 1 + int n) mod 4096"
    by (simp add: add.assoc)
  show ?thesis
    unfolding rob_release_def ws Let_def split_at_run_len[OF sp] n_def[symmetric]
    using split_at_out[OF sp] split_at_left[OF sp] nxt by (simp add: n_def image_Un)
qed

end
