(* ===== verification/BaRefine.thy ===== *)
theory BaRefine
  imports BaSpec
begin

text \<open>The reordering operations of common/ba_action.c keep the window invariant and refine the
  abstract buffer of \<open>BaSpec\<close>: what one received MPDU passes up, in order, and what stays
  pending are those of the abstract step.\<close>

section \<open>Invariant and abstraction\<close>

definition session_ok :: "BA_REC_ENTRY \<Rightarrow> bool" where
  "session_ok e \<longleftrightarrow>
    list_wf (reorder_list e) \<and> 1 \<le> rec_BAWinSize e \<and> rec_BAWinSize e < 256 \<and>
    (if LastIndSeq e = RESET_RCV_SEQ then next_mpdus (reorder_list e) = []
     else seq_ok (LastIndSeq e) \<and> pending_ok 2 (LastIndSeq e) (rec_BAWinSize e) (next_mpdus (reorder_list e)))"

text \<open>An established session of window size \<open>W\<close> that has received a number.\<close>

definition session_live :: "int \<Rightarrow> BA_REC_ENTRY \<Rightarrow> bool" where
  "session_live W e \<longleftrightarrow> session_ok e \<and> LastIndSeq e \<noteq> RESET_RCV_SEQ \<and> rec_BAWinSize e = W"

definition rec_abs :: "BA_REC_ENTRY \<Rightarrow> int \<times> int set" where
  "rec_abs e = ((LastIndSeq e + 1) mod 4096, Sequence ` set (next_mpdus (reorder_list e)))"

definition pool_ok :: "'a ba_ctx_scheme \<Rightarrow> bool" where
  "pool_ok a \<longleftrightarrow> list_wf (freelist a)"

text \<open>The sequence numbers a list of calls passes up.\<close>

fun call_seq :: "upcall \<Rightarrow> int list" where
  "call_seq (BA_Reorder_AMSDU_Annnounce m) = [Sequence m]"
| "call_seq (ANNOUNCE_OR_FORWARD_802_3_PACKET m) = [Sequence m]"
| "call_seq (Indicate_AMSDU_Packet rx b) = [rx_Sequence rx]"
| "call_seq (Indicate_EAPOL_Packet rx b) = [rx_Sequence rx]"
| "call_seq (Indicate_Legacy_Packet rx b) = [rx_Sequence rx]"
| "call_seq _ = []"

definition delivered :: "upcall list \<Rightarrow> int list" where
  "delivered cs = concat (map call_seq cs)"

lemma delivered_simps [simp]:
  "delivered [] = []" "delivered (c # cs) = call_seq c @ delivered cs"
  "delivered (xs @ ys) = delivered xs @ delivered ys"
  by (simp_all add: delivered_def)

lemma delivered_announce [simp]: "delivered (map announce_call ms) = map Sequence ms"
  by (induction ms) (simp_all add: announce_call_def)

text \<open>Indicating the received frame is one call that passes up its number.\<close>

definition indicate_call :: "RX_BLK \<Rightarrow> nat \<Rightarrow> upcall" where
  "indicate_call rx b =
    (if RX_BLK_TEST_FLAG rx fRX_AMSDU then Indicate_AMSDU_Packet rx b
     else if RX_BLK_TEST_FLAG rx fRX_EAP then Indicate_EAPOL_Packet rx b
     else Indicate_Legacy_Packet rx b)"

lemma INDICATE_eq [ba_simps]: "INDICATE_LEGACY_OR_AMSDU a rx b = log_call a (indicate_call rx b)"
  by (simp add: INDICATE_LEGACY_OR_AMSDU_def indicate_call_def)

lemma call_seq_indicate [simp]: "call_seq (indicate_call rx b) = [rx_Sequence rx]"
  by (simp add: indicate_call_def)

lemma log_call_sel [ba_simps]:
  "calls (log_call a c) = calls a @ [c]" "freelist (log_call a c) = freelist a"
  "OS_HZ (log_call a c) = OS_HZ a"
  by (simp_all add: log_call_def)

lemma pool_ok_pass_up [simp]: "pool_ok (pass_up a ms) \<longleftrightarrow> pool_ok a"
  by (simp add: pool_ok_def list_wf_def ba_simps)

lemma pool_ok_log [simp]: "pool_ok (log_call a c) \<longleftrightarrow> pool_ok a"
  by (simp add: pool_ok_def ba_simps)

section \<open>Releasing the run behind a number\<close>

text \<open>The in-order release starting at \<open>LastIndSeq\<close>, and the update of \<open>LastIndSeq\<close> the
  callers make with its result.\<close>

definition after_run :: "BA_REC_ENTRY \<Rightarrow> int \<Rightarrow> BA_REC_ENTRY" where
  "after_run e S =
    (let n = length (run_prefix S (next_mpdus (reorder_list e)))
     in e\<lparr>reorder_list := drop_list n (reorder_list e), LastIndSeq := (S + int n) mod 4096\<rparr>)"

lemma last_run:
  assumes "pending_ok 1 S W rest" "seq_ok S" "run_prefix S rest \<noteq> []"
  shows "Sequence (last (run_prefix S rest)) = (S + int (length (run_prefix S rest))) mod 4096"
proof -
  let ?n = "length (run_prefix S rest)"
  have "Sequence (last (run_prefix S rest)) = last (map Sequence (run_prefix S rest))"
    using assms(3) by (simp add: last_map)
  also have "\<dots> = (S + 1 + int (?n - 1)) mod 4096"
    unfolding run_prefix_seqs[OF assms(1,2)] using assms(3) by (subst last_map) auto
  also have "S + 1 + int (?n - 1) = S + int ?n" using assms(3) by (cases ?n) auto
  finally show ?thesis .
qed

lemma in_order_after_run:
  assumes "list_wf (reorder_list e)" "pending_ok 1 S W (next_mpdus (reorder_list e))" "seq_ok S"
    "LastIndSeq e = S"
  shows "\<exists>e1 t. ba_indicate_reordering_mpdus_in_order a e S =
      Some (pass_up a (run_prefix S (next_mpdus (reorder_list e))), e1, t) \<and>
    (if t \<noteq> RESET_RCV_SEQ then e1\<lparr>LastIndSeq := t\<rparr> else e1) = after_run e S \<and>
    (if t \<noteq> RESET_RCV_SEQ then e1\<lparr>LastIndSeq := USHORT t\<rparr> else e1) = after_run e S"
proof -
  let ?pre = "run_prefix S (next_mpdus (reorder_list e))"
  let ?T = "(S + int (length ?pre)) mod 4096"
  have T: "USHORT ?T = ?T" "?T \<noteq> RESET_RCV_SEQ"
    using pos_mod_bound[of 4096 "S + int (length ?pre)"] by (auto simp: RESET_RCV_SEQ_def)
  show ?thesis
  proof (cases "?pre = []")
    case True
    then have "after_run e S = e" using assms(3,4) by (simp add: after_run_def seq_ok_def)
    then show ?thesis using True by (simp add: in_order_eq[OF assms(1)])
  next
    case False
    then show ?thesis
      using last_run[OF assms(2,3) False] T
      by (simp add: in_order_eq[OF assms(1)] after_run_def Let_def)
  qed
qed

lemma session_live_after_run:
  assumes "list_wf (reorder_list e)" "pending_ok 1 S W (next_mpdus (reorder_list e))" "seq_ok S"
    "W \<le> rec_BAWinSize e" "1 \<le> rec_BAWinSize e" "rec_BAWinSize e < 256"
  shows "session_live (rec_BAWinSize e) (after_run e S)"
proof -
  let ?n = "length (run_prefix S (next_mpdus (reorder_list e)))"
  have "pending_ok 2 ((S + int ?n) mod 4096) (W - int ?n) (drop ?n (next_mpdus (reorder_list e)))"
    using run_prefix_spec[OF assms(2,3)] by blast
  then have "pending_ok 2 ((S + int ?n) mod 4096) (rec_BAWinSize e) (drop ?n (next_mpdus (reorder_list e)))"
    by (rule pending_ok_mono) (use assms(4) in auto)
  moreover have "(S + int ?n) mod 4096 \<noteq> RESET_RCV_SEQ"
    using pos_mod_bound[of 4096 "S + int ?n"] by (auto simp: RESET_RCV_SEQ_def)
  ultimately show ?thesis
    using assms by (simp add: session_live_def session_ok_def after_run_def run_prefix_length Let_def)
qed

lemma rec_abs_after_run:
  "rec_abs (after_run e S) =
    ((S + 1 + int (length (run_prefix S (next_mpdus (reorder_list e))))) mod 4096,
     Sequence ` set (drop (length (run_prefix S (next_mpdus (reorder_list e)))) (next_mpdus (reorder_list e))))"
  using mod_add_left_eq[of "S + int (length (run_prefix S (next_mpdus (reorder_list e))))" 4096 1]
  by (simp add: rec_abs_def after_run_def Let_def algebra_simps)

section \<open>Queueing a frame\<close>

lemma alloc_nonempty:
  assumes "pool_ok a" "next_mpdus (freelist a) = b # bs"
  shows "ba_mpdu_blk_alloc a = (Some (zero_mpdu b), a\<lparr>freelist := drop_list 1 (freelist a)\<rparr>)"
  using dequeue_wf_Cons[of "freelist a" b bs] assms by (simp add: ba_mpdu_blk_alloc_def pool_ok_def)

lemma pool_ok_drop:
  assumes "pool_ok a" "next_mpdus (freelist a) = b # bs"
  shows "pool_ok (a\<lparr>freelist := drop_list 1 (freelist a)\<rparr>)"
  using assms by (simp add: pool_ok_def list_wf_def drop_list_def)

lemma pool_ok_free [simp]: "pool_ok (ba_mpdu_blk_free a m) \<longleftrightarrow> pool_ok a"
  by (auto simp: pool_ok_def list_wf_def ba_mpdu_blk_free_def ba_enqueue_def)

lemma calls_free [simp]: "calls (ba_mpdu_blk_free a m) = calls a"
  by (simp add: ba_mpdu_blk_free_def)

text \<open>The list block that holds a queued frame, and the calls that prepare its packet.\<close>

definition queued_mpdu :: "reordering_mpdu \<Rightarrow> RX_BLK \<Rightarrow> reordering_mpdu" where
  "queued_mpdu blk rx = (zero_mpdu blk)\<lparr>Sequence := rx_Sequence rx, OpMode := rx_OpMode rx,
      bAMSDU := RX_BLK_TEST_FLAG rx fRX_AMSDU, pPacket := pRxPacket rx\<rparr>"

definition queued_ctx :: "'a ba_ctx_scheme \<Rightarrow> RX_BLK \<Rightarrow> nat \<Rightarrow> 'a ba_ctx_scheme" where
  "queued_ctx a rx b = log_call (log_call (a\<lparr>freelist := drop_list 1 (freelist a)\<rparr>)
      (Convert_To_PreAMSDU_Or_802_3 rx b)) (RTMP_SET_PACKET_IF (pRxPacket rx) b)"

lemma queued_mpdu_sel [simp]:
  "Sequence (queued_mpdu blk rx) = rx_Sequence rx" "pPacket (queued_mpdu blk rx) = pRxPacket rx"
  "blk_addr (queued_mpdu blk rx) = blk_addr blk"
  by (simp_all add: queued_mpdu_def zero_mpdu_def)

lemma queued_ctx_sel [simp]:
  "calls (queued_ctx a rx b) =
    calls a @ [Convert_To_PreAMSDU_Or_802_3 rx b, RTMP_SET_PACKET_IF (pRxPacket rx) b]"
  "freelist (queued_ctx a rx b) = drop_list 1 (freelist a)"
  by (simp_all add: queued_ctx_def log_call_sel)

lemma enqueue_block:
  assumes "pool_ok a" "next_mpdus (freelist a) = blk # bs" "\<not> RX_BLK_TEST_FLAG rx fRX_EAP"
  shows "ba_enqueue_reordering_packet a e rx b =
      (case ba_reordering_mpdu_insertsorted (reorder_list e) (queued_mpdu blk rx) of
         (True, l) \<Rightarrow> Some (queued_ctx a rx b, e\<lparr>reorder_list := l\<rparr>)
       | (False, l) \<Rightarrow> Some (ba_mpdu_blk_free
           (log_call (queued_ctx a rx b) (RELEASE_NDIS_PACKET (pRxPacket rx) NDIS_STATUS_SUCCESS))
           (queued_mpdu blk rx), e\<lparr>reorder_list := l\<rparr>))"
  unfolding ba_enqueue_reordering_packet_def queued_ctx_def queued_mpdu_def
  using alloc_nonempty[OF assms(1,2)] assms(3) by (simp add: Let_def del: One_nat_def)

lemma enqueue_spec:
  assumes wf: "list_wf (reorder_list e)"
    and p: "pending_ok lo L W (next_mpdus (reorder_list e))" "W < 2048"
    and s: "seq_ok (rx_Sequence rx)" "lo \<le> off L (rx_Sequence rx)" "off L (rx_Sequence rx) \<le> W"
    and pool: "pool_ok a" "next_mpdus (freelist a) \<noteq> []" and eap: "\<not> RX_BLK_TEST_FLAG rx fRX_EAP"
  shows "\<exists>a' cs l'. ba_enqueue_reordering_packet a e rx b = Some (a', e\<lparr>reorder_list := l'\<rparr>) \<and>
    calls a' = calls a @ cs \<and> delivered cs = [] \<and> pool_ok a' \<and> list_wf l' \<and>
    pending_ok lo L W (next_mpdus l') \<and>
    Sequence ` set (next_mpdus l') = insert (rx_Sequence rx) (Sequence ` set (next_mpdus (reorder_list e)))"
proof -
  let ?ms = "next_mpdus (reorder_list e)"
  obtain blk bs where f: "next_mpdus (freelist a) = blk # bs" using pool(2) by (cases "next_mpdus (freelist a)") auto
  let ?m = "queued_mpdu blk rx" and ?a3 = "queued_ctx a rx b"
  have a3: "pool_ok ?a3" using pool_ok_drop[OF pool(1) f] by (simp add: pool_ok_def)
  note enq = enqueue_block[OF pool(1) f eap, of e b]
  show ?thesis
  proof (cases "rx_Sequence rx \<in> Sequence ` set ?ms")
    case True
    have "insert_scan ?ms ?m = None" using insert_scan_dup[OF p, of ?m] s True by simp
    then have "ba_enqueue_reordering_packet a e rx b = Some (ba_mpdu_blk_free
           (log_call ?a3 (RELEASE_NDIS_PACKET (pRxPacket rx) NDIS_STATUS_SUCCESS)) ?m,
         e\<lparr>reorder_list := reorder_list e\<rparr>)"
      unfolding enq by (simp add: ba_reordering_mpdu_insertsorted_def)
    moreover have "insert (rx_Sequence rx) (Sequence ` set ?ms) = Sequence ` set ?ms"
      using True by auto
    ultimately show ?thesis
      using a3 wf p(1) by (intro exI conjI) (assumption | simp add: log_call_sel)+
  next
    case False
    then obtain ms' where ms': "insert_scan ?ms ?m = Some ms'" "pending_ok lo L W ms'"
        "mset ms' = add_mset ?m (mset ?ms)"
      using insert_scan_new[OF p, of ?m] s False by auto
    let ?l = "(reorder_list e)\<lparr>next_mpdus := ms', qlen := qlen (reorder_list e) + 1\<rparr>"
    have "ba_enqueue_reordering_packet a e rx b = Some (?a3, e\<lparr>reorder_list := ?l\<rparr>)"
      unfolding enq using ms'(1) by (simp add: ba_reordering_mpdu_insertsorted_def)
    moreover have "Sequence ` set ms' = insert (rx_Sequence rx) (Sequence ` set ?ms)"
      using ms'(3) by (metis image_insert queued_mpdu_sel(1) set_mset_add_mset_insert set_mset_mset)
    moreover have "list_wf ?l" using wf insert_scan_length[OF ms'(1)] by (simp add: list_wf_def)
    ultimately show ?thesis
      using a3 ms'(2) by (intro exI conjI) (assumption | simp)+
  qed
qed

section \<open>The cases of an arriving MPDU\<close>

text \<open>The comparisons of \<open>Indicate_AMPDU_Packet\<close> as conditions on the offset of the number
  that arrives.\<close>

lemma in_window_iff:
  assumes "seq_ok L" "seq_ok s" "1 \<le> W" "W < 256" "off L s < 2048"
  shows "SEQ_SMALLER s ((L + W + 1) AND MAXSEQ) MAXSEQ \<longleftrightarrow> off L s \<le> W"
proof -
  have e: "(L + W + 1) AND MAXSEQ = (L + (W + 1)) mod 4096" by (simp add: and_MAXSEQ add.assoc)
  have "off L ((L + (W + 1)) mod 4096) = W + 1" using assms by (intro off_add_small) auto
  then show ?thesis
    unfolding e using SEQ_SMALLER_within[of L s 2047 "(L + (W + 1)) mod 4096"] assms by auto
qed

lemma win_start_seq_eq:
  assumes "seq_ok s" "1 \<le> W" "W < 256"
  shows "win_start_seq s W = (s - W) mod 4096"
proof (cases "s - W - 1 < 0")
  case True
  have "(MAXSEQ + 1 + (s - W - 1) + 1) mod 4096 = (s - W + 4096) mod 4096"
    by (simp add: MAXSEQ_def algebra_simps)
  then show ?thesis using True by (simp add: win_start_seq_def and_MAXSEQ)
next
  case False
  then show ?thesis by (simp add: win_start_seq_def and_MAXSEQ)
qed

lemma off_win_start:
  assumes "seq_ok s" "W < off L s" "0 \<le> W"
  shows "off L ((s - W) mod 4096) = off L s - W" "off ((s - W) mod 4096) s = W"
proof -
  have "off L ((s - W) mod 4096) = (s - W - L) mod 4096" by (simp add: off_def mod_diff_left_eq)
  also have "s - W - L = s - L - W" by simp
  also have "(s - L - W) mod 4096 = (off L s - W) mod 4096" by (simp add: off_def mod_diff_left_eq)
  also have "\<dots> = off L s - W" using assms off_range(2)[of L s] by (intro mod_pos_pos_trivial) linarith+
  finally show 1: "off L ((s - W) mod 4096) = off L s - W" .
  show "off ((s - W) mod 4096) s = W"
    using off_shift_ge[of L "(s - W) mod 4096" s] 1 assms by simp
qed

lemma case_in_order:
  assumes ok: "session_ok e" "LastIndSeq e \<noteq> RESET_RCV_SEQ" and s: "seq_ok (rx_Sequence rx)"
    "off (LastIndSeq e) (rx_Sequence rx) = 1"
  shows "\<exists>a' e' cs. ampdu_cases a e rx b now = Some (a', e') \<and> calls a' = calls a @ cs \<and>
    (delivered cs, rec_abs e') = rob_receive (rec_BAWinSize e) (rec_abs e) (rx_Sequence rx) \<and>
    session_live (rec_BAWinSize e) e' \<and> (pool_ok a \<longrightarrow> pool_ok a')"
proof -
  let ?s = "rx_Sequence rx" and ?L = "LastIndSeq e" and ?ms = "next_mpdus (reorder_list e)"
    and ?W = "rec_BAWinSize e"
  have e: "list_wf (reorder_list e)" "seq_ok ?L" "pending_ok 2 ?L ?W ?ms" "1 \<le> ?W" "?W < 256"
    using ok by (auto simp: session_ok_def)
  define m0 where "m0 = \<lparr>blk_addr = 0, pPacket = 0, Sequence = ?s, bAMSDU = False, OpMode = 0\<rparr>"
  have m0: "Sequence m0 = ?s" by (simp add: m0_def)
  have "pending_ok 1 ?L ?W (m0 # ?ms)"
    using e s by (auto simp: pending_ok_Cons m0 pending_ok_def intro: pending_ok_mono)
  note hd = pending_ok_head_step[OF this, unfolded m0, OF s(2)]
  have one: "SEQ_STEPONE ?s ?L MAXSEQ" using SEQ_STEPONE_iff[OF s(1)] s(2) by simp
  have sp: "split_at ?L ?L ?W [] (m0 # ?ms)"
    using e \<open>pending_ok 1 ?L ?W (m0 # ?ms)\<close> by (auto simp: split_at_def intro: pending_ok_mono)
  let ?e1 = "e\<lparr>LastIndSeq := ?s\<rparr>" and ?a1 = "log_call a (indicate_call rx b)"
  obtain e1 t where run: "ba_indicate_reordering_mpdus_in_order ?a1 ?e1 ?s =
        Some (pass_up ?a1 (run_prefix ?s ?ms), e1, t)"
      "(if t \<noteq> RESET_RCV_SEQ then e1\<lparr>LastIndSeq := t\<rparr> else e1) = after_run ?e1 ?s"
    using in_order_after_run[of ?e1 ?s "?W - 1" ?a1] e hd(1) s(1) by auto
  let ?e' = "(after_run ?e1 ?s)\<lparr>LastIndSeqAtTimer := now\<rparr>"
  have res: "ampdu_cases a e rx b now = Some (pass_up ?a1 (run_prefix ?s ?ms), ?e')"
    unfolding ampdu_cases_def using one run by (simp add: INDICATE_eq Let_def)
  have "session_live ?W (after_run ?e1 ?s)"
    using e hd(1) s(1) session_live_after_run[of ?e1 ?s "?W - 1"] by simp
  then have "session_live ?W ?e'" by (auto simp: session_live_def session_ok_def)
  moreover have "(?s # map Sequence (run_prefix ?s ?ms), rec_abs ?e') =
      rob_receive ?W (rec_abs e) ?s"
  proof -
    have "off ((?L + 1) mod 4096) ?s = 0"
      using hd(2) s(1) by simp
    moreover have "rob_release ((?L + 1) mod 4096) 0 (insert ?s (Sequence ` set ?ms)) =
        (?s # map Sequence (run_prefix ?s ?ms),
         (?L + 1 + int (Suc (length (run_prefix ?s ?ms)))) mod 4096,
         Sequence ` set (drop (length (run_prefix ?s ?ms)) ?ms))"
      using rob_release_split[OF sp] one hd(3) by (simp add: m0)
    moreover have "(?L + 1 + int (Suc (length (run_prefix ?s ?ms)))) mod 4096 =
        (?s + 1 + int (length (run_prefix ?s ?ms))) mod 4096"
      using mod_add_left_eq[of "?L + 1" 4096 "1 + int (length (run_prefix ?s ?ms))"] hd(2)
      by (simp add: algebra_simps)
    ultimately show ?thesis
      using e(4) rec_abs_after_run[of ?e1 ?s] by (simp add: rob_receive_def rec_abs_def)
  qed
  ultimately show ?thesis using res by (simp add: ba_simps)
qed

lemma case_drop:
  assumes ok: "session_ok e" "LastIndSeq e \<noteq> RESET_RCV_SEQ" and s: "seq_ok (rx_Sequence rx)"
    "off (LastIndSeq e) (rx_Sequence rx) = 0 \<or> 2048 \<le> off (LastIndSeq e) (rx_Sequence rx)"
  shows "ampdu_cases a e rx b now = Some (drop_packet a e rx)"
    and "rob_receive (rec_BAWinSize e) (rec_abs e) (rx_Sequence rx) = ([], rec_abs e)"
proof -
  let ?s = "rx_Sequence rx" and ?L = "LastIndSeq e"
  have e: "seq_ok ?L" using ok by (auto simp: session_ok_def)
  show "ampdu_cases a e rx b now = Some (drop_packet a e rx)"
    using s SEQ_STEPONE_iff[OF s(1), of ?L] off_0_iff[OF e s(1)]
    by (auto simp: ampdu_cases_def SEQ_SMALLER_iff)
  have "off ((?L + 1) mod 4096) ?s = (off ?L ?s - 1) mod 4096"
    using off_shift[of "(?L + 1) mod 4096" ?s ?L] off_add_small[of 1 ?L] by simp
  also have "2047 \<le> \<dots>"
  proof (cases "off ?L ?s = 0")
    case False
    then have "(off ?L ?s - 1) mod 4096 = off ?L ?s - 1"
      using off_range[of ?L ?s] by (intro mod_pos_pos_trivial) linarith+
    then show ?thesis using s(2) False by simp
  qed simp
  finally show "rob_receive (rec_BAWinSize e) (rec_abs e) ?s = ([], rec_abs e)"
    by (simp add: rob_receive_def rec_abs_def)
qed

lemma rob_in_window:
  assumes "pending_ok 2 L W ms" "seq_ok L" "W < 256" "1 \<le> W"
    and ms': "pending_ok 2 L W ms'" "Sequence ` set ms' = insert s (Sequence ` set ms)"
    and s: "seq_ok s" "2 \<le> off L s" "off L s \<le> W"
  shows "rob_receive W ((L + 1) mod 4096, Sequence ` set ms) s =
    ([], (L + 1) mod 4096, Sequence ` set ms')"
proof -
  have sp: "split_at L L W [] ms'"
    using assms by (auto simp: split_at_def intro: pending_ok_mono)
  have "run_prefix L ms' = []"
    using ms'(1) SEQ_STEPONE_iff[of _ L] by (cases ms') (auto simp: pending_ok_Cons)
  then have "rob_release ((L + 1) mod 4096) 0 (insert s (Sequence ` set ms)) =
      ([], (L + 1) mod 4096, Sequence ` set ms')"
    using rob_release_split[OF sp] ms'(2) by simp
  moreover have "off ((L + 1) mod 4096) s = off L s - 1"
    using off_shift_ge[of L "(L + 1) mod 4096" s] off_add_small[of 1 L] s by simp
  ultimately show ?thesis using s assms(3) by (simp add: rob_receive_def)
qed

lemma case_in_window:
  assumes ok: "session_ok e" "LastIndSeq e \<noteq> RESET_RCV_SEQ" and s: "seq_ok (rx_Sequence rx)"
    "2 \<le> off (LastIndSeq e) (rx_Sequence rx)" "off (LastIndSeq e) (rx_Sequence rx) \<le> rec_BAWinSize e"
    and pool: "pool_ok a" "next_mpdus (freelist a) \<noteq> []" and eap: "\<not> RX_BLK_TEST_FLAG rx fRX_EAP"
  shows "\<exists>a' e' cs. ampdu_cases a e rx b now = Some (a', e') \<and> calls a' = calls a @ cs \<and>
    (delivered cs, rec_abs e') = rob_receive (rec_BAWinSize e) (rec_abs e) (rx_Sequence rx) \<and>
    session_live (rec_BAWinSize e) e' \<and> pool_ok a'"
proof -
  let ?s = "rx_Sequence rx" and ?L = "LastIndSeq e" and ?ms = "next_mpdus (reorder_list e)"
    and ?W = "rec_BAWinSize e"
  have e: "list_wf (reorder_list e)" "seq_ok ?L" "pending_ok 2 ?L ?W ?ms" "1 \<le> ?W" "?W < 256"
    using ok by (auto simp: session_ok_def)
  have "?W < 2048" using e(5) by simp
  from enqueue_spec[OF e(1,3) this s pool eap, of b]
  obtain a' cs l' where enq: "ba_enqueue_reordering_packet a e rx b = Some (a', e\<lparr>reorder_list := l'\<rparr>)"
    "calls a' = calls a @ cs" "delivered cs = []" "pool_ok a'" "list_wf l'"
    "pending_ok 2 ?L ?W (next_mpdus l')"
    "Sequence ` set (next_mpdus l') = insert ?s (Sequence ` set ?ms)"
    by blast
  have "ampdu_cases a e rx b now = ba_enqueue_reordering_packet a e rx b"
    using s SEQ_STEPONE_iff[OF s(1), of ?L] off_0_iff[OF e(2) s(1)] in_window_iff[OF e(2) s(1) e(4,5)] e(5)
    by (auto simp: ampdu_cases_def SEQ_SMALLER_iff)
  moreover have "session_live ?W (e\<lparr>reorder_list := l'\<rparr>)"
    using enq e ok(2) by (simp add: session_live_def session_ok_def)
  moreover have "(delivered cs, rec_abs (e\<lparr>reorder_list := l'\<rparr>)) = rob_receive ?W (rec_abs e) ?s"
    using rob_in_window[OF e(3,2,5,4) enq(6,7) s] enq(3) by (simp add: rec_abs_def)
  ultimately show ?thesis using enq by auto
qed

text \<open>Beyond the window: the frames up to the new start are flushed, the frame is queued as the
  last of the moved window, and the run from its start is released.\<close>

lemma rob_beyond_window:
  assumes p: "pending_ok 2 L W ms" "seq_ok L" "W < 256" "1 \<le> W"
    and s: "seq_ok s" "W < off L s" "off L s < 2048"
  defines "S \<equiv> (s - W) mod 4096"
  assumes ms': "pending_ok 1 S W ms'"
    "Sequence ` set ms' = insert s (Sequence ` set (drop (length (le_prefix S ms)) ms))"
  shows "rob_receive W ((L + 1) mod 4096, Sequence ` set ms) s =
    (map Sequence (le_prefix S ms) @ map Sequence (run_prefix S ms'),
     (S + 1 + int (length (run_prefix S ms'))) mod 4096,
     Sequence ` set (drop (length (run_prefix S ms')) ms'))"
proof -
  let ?pre = "le_prefix S ms"
  have S: "seq_ok S" "off L S = off L s - W" "off S s = W"
    using off_win_start[of s W L] s p(4) by (auto simp: S_def)
  have W: "W < 2048" "off L S < 2048" using S(2) s p by auto
  note spl = le_prefix_split[OF p(1) W(1) S(1) W(2)]
  have "pending_ok 2 L W ?pre" by (subst le_prefix_take) (rule pending_ok_take[OF p(1)])
  then have "pending_ok 1 L 2047 ?pre" by (rule pending_ok_mono) (use p(3) in auto)
  moreover have ms'_L: "pending_ok (off L S + 1) L (off L S + W) ms'"
    using ms'(1) S(2) s(3) p(3) by (intro pending_ok_forward) auto
  then have "pending_ok 1 L 2047 ms'" by (rule pending_ok_mono) (use S(2) s(2,3) in auto)
  moreover have "off L (Sequence x) < off L (Sequence y)" if "x \<in> set ?pre" "y \<in> set ms'" for x y
    using that spl(1) ms'_L by (fastforce simp: pending_ok_def)
  ultimately have "pending_ok 1 L 2047 (?pre @ ms')" by (simp add: pending_ok_append)
  then have sp: "split_at L S W ?pre ms'"
    using S(1) W ms'(1) spl(1) p(3) by (auto simp: split_at_def)
  have "Sequence ` set (?pre @ ms') = insert s (Sequence ` set ms)"
  proof -
    have "Sequence ` set ms = Sequence ` set (?pre @ drop (length ?pre) ms)"
      by (simp only: le_prefix_prefix)
    then show ?thesis using ms'(2) by (simp add: image_Un)
  qed
  moreover have "rob_receive W ((L + 1) mod 4096, Sequence ` set ms) s =
      rob_release ((L + 1) mod 4096) (nat (off L S)) (insert s (Sequence ` set ms))"
  proof -
    have "off ((L + 1) mod 4096) s = off L s - 1"
      using off_shift_ge[of L "(L + 1) mod 4096" s] off_add_small[of 1 L] s p(4) by simp
    moreover have "off L s - 1 - W + 1 = off L S" using S(2) by simp
    ultimately show ?thesis using s by (simp only: rob_receive_def) auto
  qed
  ultimately show ?thesis using rob_release_split[OF sp] by (simp only: map_append)
qed

lemma ampdu_cases_beyond:
  assumes ok: "seq_ok (LastIndSeq e)" "1 \<le> rec_BAWinSize e" "rec_BAWinSize e < 256"
    and s: "seq_ok (rx_Sequence rx)"
    "rec_BAWinSize e < off (LastIndSeq e) (rx_Sequence rx)" "off (LastIndSeq e) (rx_Sequence rx) < 2048"
  defines "S \<equiv> (rx_Sequence rx - rec_BAWinSize e) mod 4096"
  shows "ampdu_cases a e rx b now =
    do {
      (a1, e1) \<leftarrow> ba_indicate_reordering_mpdus_le_seq a e S;
      (a3, e3) \<leftarrow> ba_enqueue_reordering_packet a1 (e1\<lparr>LastIndSeq := S, LastIndSeqAtTimer := now\<rparr>) rx b;
      (a4, e4, Tmp) \<leftarrow> ba_indicate_reordering_mpdus_in_order a3 e3 (LastIndSeq e3);
      Some (a4, if Tmp \<noteq> RESET_RCV_SEQ then e4\<lparr>LastIndSeq := USHORT Tmp\<rparr> else e4)
    }"
proof -
  have ne: "\<not> SEQ_STEPONE (rx_Sequence rx) (LastIndSeq e) MAXSEQ" "rx_Sequence rx \<noteq> LastIndSeq e"
    "\<not> SEQ_SMALLER (rx_Sequence rx) (LastIndSeq e) MAXSEQ"
    using s ok SEQ_STEPONE_iff[OF s(1), of "LastIndSeq e"] off_0_iff[OF ok(1) s(1)]
    by (auto simp: SEQ_SMALLER_iff)
  have nw: "\<not> SEQ_SMALLER (rx_Sequence rx) ((LastIndSeq e + rec_BAWinSize e + 1) AND MAXSEQ) MAXSEQ"
    using in_window_iff[OF ok(1) s(1) ok(2,3) s(3)] s(2) by simp
  have w: "USHORT (win_start_seq (rx_Sequence rx) (rec_BAWinSize e)) = S"
    using win_start_seq_eq[OF s(1) ok(2,3)] seq_ok_mod[of "rx_Sequence rx - rec_BAWinSize e"]
    unfolding S_def seq_ok_def by simp
  show ?thesis by (simp only: ampdu_cases_def Let_def ne nw w if_False)
qed

lemma case_beyond:
  assumes ok: "session_ok e" "LastIndSeq e \<noteq> RESET_RCV_SEQ" and s: "seq_ok (rx_Sequence rx)"
    "rec_BAWinSize e < off (LastIndSeq e) (rx_Sequence rx)" "off (LastIndSeq e) (rx_Sequence rx) < 2048"
    and pool: "pool_ok a" "next_mpdus (freelist a) \<noteq> []" and eap: "\<not> RX_BLK_TEST_FLAG rx fRX_EAP"
  shows "\<exists>a' e' cs. ampdu_cases a e rx b now = Some (a', e') \<and> calls a' = calls a @ cs \<and>
    (delivered cs, rec_abs e') = rob_receive (rec_BAWinSize e) (rec_abs e) (rx_Sequence rx) \<and>
    session_live (rec_BAWinSize e) e' \<and> pool_ok a'"
proof -
  let ?s = "rx_Sequence rx" and ?L = "LastIndSeq e" and ?ms = "next_mpdus (reorder_list e)"
    and ?W = "rec_BAWinSize e"
  have e: "list_wf (reorder_list e)" "seq_ok ?L" "pending_ok 2 ?L ?W ?ms" "1 \<le> ?W" "?W < 256"
    using ok by (auto simp: session_ok_def)
  define S where "S = (?s - ?W) mod 4096"
  have S: "seq_ok S" "off ?L S = off ?L ?s - ?W" "off S ?s = ?W"
    using off_win_start[of ?s ?W ?L] s e(4) by (auto simp: S_def)
  have W: "?W < 2048" "off ?L S < 2048" using S(2) s e(4,5) by auto
  define pre where "pre = le_prefix S ?ms"
  define e2 where "e2 = e\<lparr>reorder_list := drop_list (length pre) (reorder_list e),
      LastIndSeq := S, LastIndSeqAtTimer := now\<rparr>"
  have le: "ba_indicate_reordering_mpdus_le_seq a e S =
      Some (pass_up a pre, e\<lparr>reorder_list := drop_list (length pre) (reorder_list e)\<rparr>)"
    using le_seq_eq[OF e(1)] by (simp add: pre_def Let_def)
  have e2: "list_wf (reorder_list e2)" "pending_ok 1 S ?W (next_mpdus (reorder_list e2))"
    "LastIndSeq e2 = S" "rec_BAWinSize e2 = ?W"
    using e(1) le_prefix_rest[OF e(3) W(1) S(1) W(2)] le_prefix_length[of S ?ms] off_range(1)[of ?L S]
    by (auto simp: e2_def pre_def intro: pending_ok_mono)
  have pool1: "pool_ok (pass_up a pre)" "next_mpdus (freelist (pass_up a pre)) \<noteq> []"
    using pool by (simp_all add: ba_simps)
  obtain a3 cs l' where enq: "ba_enqueue_reordering_packet (pass_up a pre) e2 rx b = Some (a3, e2\<lparr>reorder_list := l'\<rparr>)"
    "calls a3 = calls (pass_up a pre) @ cs" "delivered cs = []" "pool_ok a3" "list_wf l'"
    "pending_ok 1 S ?W (next_mpdus l')"
    "Sequence ` set (next_mpdus l') = insert ?s (Sequence ` set (next_mpdus (reorder_list e2)))"
    using enqueue_spec[OF e2(1,2) W(1) s(1) _ _ pool1 eap, of b] S(3) e(4) by auto
  let ?e3 = "e2\<lparr>reorder_list := l'\<rparr>"
  obtain e4 t where run: "ba_indicate_reordering_mpdus_in_order a3 ?e3 S =
        Some (pass_up a3 (run_prefix S (next_mpdus l')), e4, t)"
      "(if t \<noteq> RESET_RCV_SEQ then e4\<lparr>LastIndSeq := USHORT t\<rparr> else e4) = after_run ?e3 S"
    using in_order_after_run[of ?e3 S ?W a3] enq S(1) e2 by auto
  have "ampdu_cases a e rx b now = Some (pass_up a3 (run_prefix S (next_mpdus l')), after_run ?e3 S)"
    unfolding ampdu_cases_beyond[OF e(2,4,5) s] S_def[symmetric]
    using le enq(1) run e2(3) by (simp add: e2_def)
  moreover have "session_live ?W (after_run ?e3 S)"
    using enq S(1) e2 e(4,5) session_live_after_run[of ?e3 S ?W] by simp
  moreover have "(map Sequence pre @ map Sequence (run_prefix S (next_mpdus l')), rec_abs (after_run ?e3 S)) =
      rob_receive ?W (rec_abs e) ?s"
    using rob_beyond_window[OF e(3,2,5,4) s enq(6)[unfolded S_def]] enq(7) rec_abs_after_run[of ?e3 S]
    by (simp add: rec_abs_def e2_def pre_def S_def)
  ultimately show ?thesis using enq(2-4) by (simp add: ba_simps)
qed

section \<open>The step\<close>

lemma ampdu_cases_refines:
  assumes ok: "session_ok e" "LastIndSeq e \<noteq> RESET_RCV_SEQ" and s: "seq_ok (rx_Sequence rx)"
    and pool: "pool_ok a" "next_mpdus (freelist a) \<noteq> []" and eap: "\<not> RX_BLK_TEST_FLAG rx fRX_EAP"
  shows "\<exists>a' e' cs. ampdu_cases a e rx b now = Some (a', e') \<and> calls a' = calls a @ cs \<and>
    (delivered cs, rec_abs e') = rob_receive (rec_BAWinSize e) (rec_abs e) (rx_Sequence rx) \<and>
    session_live (rec_BAWinSize e) e' \<and> pool_ok a'"
proof -
  let ?d = "off (LastIndSeq e) (rx_Sequence rx)"
  consider "?d = 1" | "?d = 0 \<or> 2048 \<le> ?d" | "2 \<le> ?d" "?d \<le> rec_BAWinSize e"
    | "rec_BAWinSize e < ?d" "?d < 2048"
    using off_range(1)[of "LastIndSeq e" "rx_Sequence rx"] by linarith
  then show ?thesis
  proof cases
    case 1
    then show ?thesis using case_in_order[OF ok s, of a b now] pool(1) by blast
  next
    case 2
    have "session_live (rec_BAWinSize e) (snd (drop_packet a e rx))" "rec_abs (snd (drop_packet a e rx)) = rec_abs e"
      using ok by (simp_all add: drop_packet_def session_live_def session_ok_def rec_abs_def)
    then show ?thesis
      using case_drop(1)[OF ok s 2, of a b now] case_drop(2)[OF ok s 2] pool(1) by (simp add: drop_packet_def ba_simps)
  next
    case 3
    then show ?thesis using case_in_window[OF ok s 3 pool eap, of b now] by blast
  next
    case 4
    then show ?thesis using case_beyond[OF ok s 4 pool eap, of b now] by blast
  qed
qed

end
