(* ===== verification/BaTimeout.thy ===== *)
theory BaTimeout
  imports BaRefine
begin

text \<open>The timeout flush, the Block-Ack-Request and the whole treatment of one MPDU
  (\<open>ampdu_session_rx\<close>) against the abstract buffer. The abstract state of a session is
  \<open>None\<close> while no number has been received since the last reset.\<close>

section \<open>The abstract session\<close>

datatype flush_kind = No_Flush | Flush_One | Flush_All

definition flush_kind :: "nat \<Rightarrow> tick \<Rightarrow> BA_REC_ENTRY \<Rightarrow> flush_kind" where
  "flush_kind hz now e =
    (let q = length (next_mpdus (reorder_list e)) in
     if q > 1 \<and> RTMP_TIME_AFTER now (LastIndSeqAtTimer e + of_nat (MAX_REORDERING_PACKET_TIMEOUT hz div 6))
     then Flush_All
     else if q > 0 \<and> RTMP_TIME_AFTER now (LastIndSeqAtTimer e + of_nat (REORDERING_PACKET_TIMEOUT hz))
     then Flush_One
     else No_Flush)"

definition rob_flush :: "flush_kind \<Rightarrow> int \<times> int set \<Rightarrow> int list \<times> (int \<times> int set) option" where
  "rob_flush k r =
    (case r of (ws, P) \<Rightarrow>
      (case k of
         No_Flush \<Rightarrow> ([], Some r)
       | Flush_One \<Rightarrow> map_prod id Some (rob_release ws 1 P)
       | Flush_All \<Rightarrow> (filter (\<lambda>s. s \<in> P) (seq_range ws 2047), None)))"

definition rob_session_rx ::
    "int \<Rightarrow> flush_kind \<Rightarrow> (int \<times> int set) option \<Rightarrow> int \<Rightarrow> int list \<times> (int \<times> int set) option" where
  "rob_session_rx W k st s =
    (case st of
       None \<Rightarrow> ([s], Some ((s + 1) mod 4096, {}))
     | Some r \<Rightarrow>
         (case rob_flush k r of
            (out, None) \<Rightarrow> (out @ [s], Some ((s + 1) mod 4096, {}))
          | (out, Some r') \<Rightarrow>
              (case rob_receive W r' s of (out', r2) \<Rightarrow> (out @ out', Some r2))))"

definition session_abs :: "BA_REC_ENTRY \<Rightarrow> (int \<times> int set) option" where
  "session_abs e = (if LastIndSeq e = RESET_RCV_SEQ then None else Some (rec_abs e))"

section \<open>The timeout flush\<close>

lemma qlen_wf: "list_wf l \<Longrightarrow> qlen l = int (length (next_mpdus l))"
  by (simp add: list_wf_def)

lemma seq_ok_not_reset: "seq_ok x \<Longrightarrow> x \<noteq> RESET_RCV_SEQ"
  by (auto simp: seq_ok_def RESET_RCV_SEQ_def)

lemma flush_all_out:
  assumes "pending_ok 2 L W ms" "W < 256"
  shows "filter (\<lambda>s. s \<in> Sequence ` set ms) (seq_range ((L + 1) mod 4096) 2047) = map Sequence ms"
proof (rule filter_range_eq)
  show "sorted_wrt (<) (map (off L) (map Sequence ms))"
    using assms(1) by (simp add: pending_ok_def comp_def)
  show "seq_ok x" if "x \<in> set (map Sequence ms)" for x
    using assms(1) that by (auto simp: pending_ok_def)
  show "set (map Sequence ms) = {x \<in> Sequence ` set ms. seq_ok x \<and> 1 \<le> off L x \<and> off L x \<le> int 2047}"
    using assms by (fastforce simp: pending_ok_def)
qed simp

lemma flush_one_refines:
  assumes ok: "session_ok e" "LastIndSeq e \<noteq> RESET_RCV_SEQ"
  defines "S \<equiv> (LastIndSeq e + 1) AND MAXSEQ"
  shows "\<exists>a' e' cs. (do {
             (a1, e1) \<leftarrow> ba_indicate_reordering_mpdus_le_seq a e S;
             let e2 = e1\<lparr>LastIndSeqAtTimer := now, LastIndSeq := S\<rparr>;
             (a3, e3, Seq') \<leftarrow> ba_indicate_reordering_mpdus_in_order a1 e2 S;
             Some (a3, if Seq' \<noteq> RESET_RCV_SEQ then e3\<lparr>LastIndSeq := Seq'\<rparr> else e3)
           }) = Some (a', e') \<and> calls a' = calls a @ cs \<and>
    (delivered cs, rec_abs e') = rob_release (fst (rec_abs e)) 1 (snd (rec_abs e)) \<and>
    session_live (rec_BAWinSize e) e' \<and>
    (\<exists>ms. a' = pass_up a ms)"
proof -
  let ?L = "LastIndSeq e" and ?ms = "next_mpdus (reorder_list e)" and ?W = "rec_BAWinSize e"
  have e: "list_wf (reorder_list e)" "seq_ok ?L" "pending_ok 2 ?L ?W ?ms" "1 \<le> ?W" "?W < 256"
    using ok by (auto simp: session_ok_def)
  have S: "seq_ok S" "off ?L S = 1" using off_add_small[of 1 ?L] by (simp_all add: S_def and_MAXSEQ)
  have W: "?W < 2048" "off ?L S < 2048" using S e by auto
  define pre where "pre = le_prefix S ?ms"
  let ?rest = "drop (length pre) ?ms"
  define e2 where "e2 = e\<lparr>reorder_list := drop_list (length pre) (reorder_list e),
      LastIndSeqAtTimer := now, LastIndSeq := S\<rparr>"
  have le: "ba_indicate_reordering_mpdus_le_seq a e S =
      Some (pass_up a pre, e\<lparr>reorder_list := drop_list (length pre) (reorder_list e)\<rparr>)"
    using le_seq_eq[OF e(1)] by (simp add: pre_def Let_def)
  have rest: "pending_ok 1 S ?W ?rest"
    using le_prefix_rest[OF e(3) W(1) S(1) W(2)] S(2) by (auto simp: pre_def intro: pending_ok_mono)
  have e2: "list_wf (reorder_list e2)" "next_mpdus (reorder_list e2) = ?rest"
    "LastIndSeq e2 = S" "rec_BAWinSize e2 = ?W"
    using e(1) le_prefix_length[of S ?ms] by (auto simp: e2_def pre_def)
  obtain e3 t where run: "ba_indicate_reordering_mpdus_in_order (pass_up a pre) e2 S =
        Some (pass_up (pass_up a pre) (run_prefix S ?rest), e3, t)"
      "(if t \<noteq> RESET_RCV_SEQ then e3\<lparr>LastIndSeq := t\<rparr> else e3) = after_run e2 S"
    using in_order_after_run[of e2 S ?W "pass_up a pre"] e2 rest S(1) by auto
  have sp: "split_at ?L S ?W pre ?rest"
  proof -
    have "pre @ ?rest = ?ms" by (simp add: pre_def le_prefix_prefix)
    then show ?thesis
      using e rest S(1) W le_prefix_split(1)[OF e(3) W(1) S(1) W(2)]
      by (auto simp: split_at_def pre_def intro: pending_ok_mono)
  qed
  have "(map Sequence (pre @ run_prefix S ?rest), rec_abs (after_run e2 S)) =
      rob_release (fst (rec_abs e)) 1 (snd (rec_abs e))"
    using rob_release_split[OF sp] S(2) rec_abs_after_run[of e2 S] e2(2) le_prefix_prefix[of S ?ms]
    by (simp add: rec_abs_def pre_def)
  moreover have "session_live ?W (after_run e2 S)"
    using e2 rest S(1) e(4,5) session_live_after_run[of e2 S ?W] by simp
  ultimately show ?thesis
    using le run by (auto simp: Let_def e2_def[symmetric] pass_up_append ba_simps)
qed

lemma flush_refines:
  assumes ok: "session_ok e" "LastIndSeq e \<noteq> RESET_RCV_SEQ"
  shows "\<exists>a' e' cs. ba_flush_reordering_timeout_mpdus a e now = Some (a', e') \<and> calls a' = calls a @ cs \<and>
    (delivered cs, session_abs e') = rob_flush (flush_kind (OS_HZ a) now e) (rec_abs e) \<and>
    session_ok e' \<and> rec_BAWinSize e' = rec_BAWinSize e \<and> (\<exists>ms. a' = pass_up a ms)"
proof -
  let ?ms = "next_mpdus (reorder_list e)"
  have wf: "list_wf (reorder_list e)" and p: "pending_ok 2 (LastIndSeq e) (rec_BAWinSize e) ?ms"
    and w: "rec_BAWinSize e < 256" "1 \<le> rec_BAWinSize e"
    using ok by (auto simp: session_ok_def)
  note q = qlen_wf[OF wf]
  let ?all = "RTMP_TIME_AFTER now (LastIndSeqAtTimer e + of_nat (MAX_REORDERING_PACKET_TIMEOUT (OS_HZ a) div 6))"
  let ?one = "RTMP_TIME_AFTER now (LastIndSeqAtTimer e + of_nat (REORDERING_PACKET_TIMEOUT (OS_HZ a)))"
  consider (none) "flush_kind (OS_HZ a) now e = No_Flush"
    | (one) "flush_kind (OS_HZ a) now e = Flush_One" | (all) "flush_kind (OS_HZ a) now e = Flush_All"
    by (cases "flush_kind (OS_HZ a) now e") auto
  then show ?thesis
  proof cases
    case none
    then have "ba_flush_reordering_timeout_mpdus a e now = Some (a, e)"
      by (auto simp: ba_flush_reordering_timeout_mpdus_def flush_kind_def q Let_def split: if_splits)
    then show ?thesis
      using none ok by (auto simp: rob_flush_def session_abs_def rec_abs_def intro: exI[of _ "[]"])
  next
    case all
    then have "?all" "length ?ms > 1" by (auto simp: flush_kind_def Let_def split: if_splits)
    then have "ba_flush_reordering_timeout_mpdus a e now = Some (pass_up a ?ms,
        e\<lparr>reorder_list := \<lparr>next_mpdus = [], qlen = 0\<rparr>, LastIndSeq := RESET_RCV_SEQ,
          LastIndSeqAtTimer := now\<rparr>)"
      by (auto simp: ba_flush_reordering_timeout_mpdus_def q refresh_eq[OF wf])
    then show ?thesis
      using all w flush_all_out[OF p w(1)]
      by (auto simp: rob_flush_def session_abs_def rec_abs_def session_ok_def list_wf_def ba_simps)
  next
    case one
    then have c: "?one" "length ?ms > 0" "\<not> (?all \<and> length ?ms > 1)"
      by (auto simp: flush_kind_def Let_def split: if_splits)
    have "ba_flush_reordering_timeout_mpdus a e now =
        (let Seq = (LastIndSeq e + 1) AND MAXSEQ in
         do {
           (a1, e1) \<leftarrow> ba_indicate_reordering_mpdus_le_seq a e Seq;
           let e2 = e1\<lparr>LastIndSeqAtTimer := now, LastIndSeq := Seq\<rparr>;
           (a3, e3, Seq') \<leftarrow> ba_indicate_reordering_mpdus_in_order a1 e2 Seq;
           Some (a3, if Seq' \<noteq> RESET_RCV_SEQ then e3\<lparr>LastIndSeq := Seq'\<rparr> else e3)
         })"
      unfolding ba_flush_reordering_timeout_mpdus_def q using c by auto
    then obtain a' e' cs where "ba_flush_reordering_timeout_mpdus a e now = Some (a', e')"
        "calls a' = calls a @ cs"
        "(delivered cs, rec_abs e') = rob_release (fst (rec_abs e)) 1 (snd (rec_abs e))"
        "session_live (rec_BAWinSize e) e'"
        "\<exists>ms. a' = pass_up a ms"
      using flush_one_refines[OF ok, of a now] unfolding Let_def by metis
    moreover from this(3)[symmetric]
    have "rob_flush Flush_One (rec_abs e) = (delivered cs, Some (rec_abs e'))"
      by (cases "rec_abs e") (simp add: rob_flush_def)
    ultimately show ?thesis using one by (auto simp: session_abs_def session_live_def)
  qed
qed

section \<open>One MPDU\<close>

lemma session_abs_fresh:
  "session_abs (e\<lparr>LastIndSeqAtTimer := t\<rparr>) = session_abs e"
  "session_abs (e\<lparr>rcvSeq := s\<rparr>) = session_abs e"
  "session_ok (e\<lparr>LastIndSeqAtTimer := t\<rparr>) = session_ok e"
  "session_ok (e\<lparr>rcvSeq := s\<rparr>) = session_ok e"
  "flush_kind hz now (e\<lparr>rcvSeq := s\<rparr>) = flush_kind hz now e"
  "rec_abs (e\<lparr>LastIndSeqAtTimer := t\<rparr>) = rec_abs e"
  "rec_abs (e\<lparr>rcvSeq := s\<rparr>) = rec_abs e"
  by (simp_all add: session_abs_def rec_abs_def session_ok_def flush_kind_def Let_def)

lemma first_frame:
  assumes "session_ok e" "LastIndSeq e = RESET_RCV_SEQ" "seq_ok s"
  shows "session_live (rec_BAWinSize e) (e\<lparr>LastIndSeq := s, LastIndSeqAtTimer := t\<rparr>)"
    and "session_abs (e\<lparr>LastIndSeq := s, LastIndSeqAtTimer := t\<rparr>) = Some ((s + 1) mod 4096, {})"
  using assms by (auto simp: session_live_def session_ok_def session_abs_def rec_abs_def seq_ok_not_reset)

lemma session_rx_refines:
  assumes ok: "session_ok e" and s: "seq_ok (rx_Sequence rx)"
    and pool: "pool_ok a" "next_mpdus (freelist a) \<noteq> []" and eap: "\<not> RX_BLK_TEST_FLAG rx fRX_EAP"
  shows "\<exists>a' e' cs. ampdu_session_rx a e rx b now = Some (a', e') \<and> calls a' = calls a @ cs \<and>
    (delivered cs, session_abs e') =
      rob_session_rx (rec_BAWinSize e) (flush_kind (OS_HZ a) now e) (session_abs e) (rx_Sequence rx) \<and>
    session_live (rec_BAWinSize e) e' \<and> pool_ok a'"
proof (cases "LastIndSeq e = RESET_RCV_SEQ")
  case True
  let ?e0 = "e\<lparr>rcvSeq := rx_Sequence rx\<rparr>"
  have "qlen (reorder_list e) = 0" using ok True by (simp add: session_ok_def list_wf_def)
  then have "ampdu_session_rx a e rx b now = Some (INDICATE_LEGACY_OR_AMSDU a rx b,
      ?e0\<lparr>LastIndSeq := rx_Sequence rx, LastIndSeqAtTimer := now\<rparr>)"
    using True by (simp add: ampdu_session_rx_def ba_flush_reordering_timeout_mpdus_def)
  then show ?thesis
    using first_frame[of ?e0 "rx_Sequence rx" now] True ok s pool(1)
    by (simp add: session_abs_fresh rob_session_rx_def ba_simps) (simp add: session_abs_def)
next
  case False
  note nz = this
  let ?e0 = "e\<lparr>rcvSeq := rx_Sequence rx\<rparr>"
  obtain a1 e1 cs ms where fl: "ba_flush_reordering_timeout_mpdus a ?e0 now = Some (a1, e1)"
      "calls a1 = calls a @ cs"
      "(delivered cs, session_abs e1) = rob_flush (flush_kind (OS_HZ a) now e) (rec_abs e)"
      "session_ok e1" "rec_BAWinSize e1 = rec_BAWinSize e" "a1 = pass_up a ms"
    using flush_refines[of ?e0 a now] ok False by (auto simp: session_abs_fresh)
  let ?e2 = "e1\<lparr>LastIndSeqAtTimer := now\<rparr>"
  have pool1: "pool_ok a1" "next_mpdus (freelist a1) \<noteq> []" using pool fl(6) by (simp_all add: ba_simps)
  have st: "session_abs e = Some (rec_abs e)" using False by (simp add: session_abs_def)
  show ?thesis
  proof (cases "LastIndSeq e1 = RESET_RCV_SEQ")
    case True
    then have "ampdu_session_rx a e rx b now = Some (INDICATE_LEGACY_OR_AMSDU a1 rx b,
        e1\<lparr>LastIndSeq := rx_Sequence rx, LastIndSeqAtTimer := now\<rparr>)"
      using fl(1) by (simp add: ampdu_session_rx_def Let_def)
    moreover have "rob_flush (flush_kind (OS_HZ a) now e) (rec_abs e) = (delivered cs, None)"
      using fl(3) True by (simp add: session_abs_def)
    ultimately show ?thesis
      using first_frame[of e1 "rx_Sequence rx" now] True fl(2,4,5) s pool1(1)
      by (simp add: st rob_session_rx_def ba_simps)
  next
    case False
    then have r: "ampdu_session_rx a e rx b now = ampdu_cases a1 ?e2 rx b now"
      using fl(1) by (simp add: ampdu_session_rx_def Let_def)
    obtain a' e' cs' where st2: "ampdu_cases a1 ?e2 rx b now = Some (a', e')" "calls a' = calls a1 @ cs'"
        "(delivered cs', rec_abs e') = rob_receive (rec_BAWinSize e) (rec_abs e1) (rx_Sequence rx)"
        "session_live (rec_BAWinSize e) e'" "pool_ok a'"
      using ampdu_cases_refines[of ?e2 rx a1 b now] fl(4,5) False s pool1 eap
      by (auto simp: session_abs_fresh)
    have "rob_flush (flush_kind (OS_HZ a) now e) (rec_abs e) = (delivered cs, Some (rec_abs e1))"
      using fl(3) False by (simp add: session_abs_def)
    then show ?thesis
      using nz st2 fl(2) r by (auto simp: session_live_def st rob_session_rx_def session_abs_def session_live_def split: prod.splits)
  qed
qed

end
