(* ===== verification/BaOrder.thy ===== *)
theory BaOrder
  imports BaTimeout
begin

text \<open>In-order, exactly-once delivery: along any run of a session, every number passed up lies
  strictly ahead of the one passed up before it, by less than half the sequence circle.\<close>

section \<open>Chains\<close>

text \<open>\<open>forward_chain l ds\<close>: starting from \<open>l\<close>, every number is 1 to 2047 ahead of its
  predecessor.\<close>

fun forward_chain :: "int \<Rightarrow> int list \<Rightarrow> bool" where
  "forward_chain l [] = True"
| "forward_chain l (d # ds) = (1 \<le> off l d \<and> off l d \<le> 2047 \<and> forward_chain d ds)"

lemma forward_chain_append:
  "forward_chain l (xs @ ys) \<longleftrightarrow> forward_chain l xs \<and> forward_chain (last (l # xs)) ys"
  by (induction xs arbitrary: l) auto

text \<open>Numbers in increasing order of offset from a common base, all within half the circle.\<close>

lemma forward_chain_sorted:
  assumes "sorted_wrt (<) (map (off L) (l # ds))" "\<And>d. d \<in> set ds \<Longrightarrow> off L d - off L l \<le> 2047"
  shows "forward_chain l ds"
  using assms
proof (induction ds arbitrary: l)
  case (Cons d ds)
  have "off L l < off L d" using Cons.prems(1) by simp
  then have "off l d = off L d - off L l" by (intro off_shift_ge) simp
  moreover have "off L x - off L d \<le> 2047" if "x \<in> set ds" for x
    using Cons.prems(2)[of x] that \<open>off L l < off L d\<close> by auto
  ultimately show ?case using Cons by auto
qed simp

section \<open>The ghost state: the last number passed up\<close>

text \<open>With nothing buffered the last number passed up is the one before the next; otherwise some
  buffered number lies at most 2047 ahead of it, and beyond the numbers given up.\<close>

definition chain_inv :: "int \<Rightarrow> int \<Rightarrow> int set \<Rightarrow> bool" where
  "chain_inv d L P \<longleftrightarrow>
    (if P = {} then d = L else \<exists>m\<in>P. off d L < off d m \<and> off d m \<le> 2047)"

lemma run_len_mem:
  assumes "i < run_len ws P"
  shows "(ws + int i) mod 4096 \<in> P"
proof -
  let ?r = "seq_range ws 4096"
  have i: "i < 4096" using assms length_takeWhile_le[of "\<lambda>s. s \<in> P" ?r] by (simp add: run_len_def)
  have "takeWhile (\<lambda>s. s \<in> P) ?r ! i \<in> set (takeWhile (\<lambda>s. s \<in> P) ?r)"
    using assms by (simp add: run_len_def)
  then have "takeWhile (\<lambda>s. s \<in> P) ?r ! i \<in> P" by (blast dest: set_takeWhileD)
  also have "takeWhile (\<lambda>s. s \<in> P) ?r ! i = ?r ! i"
    using assms by (simp add: run_len_def takeWhile_nth)
  also have "?r ! i = (ws + int i) mod 4096" using i by (simp add: seq_range_def)
  finally show ?thesis .
qed

lemma rob_release_out:
  assumes r: "rob_release ((L + 1) mod 4096) k P = (out, ws, P')" and L: "seq_ok L" "k \<le> 2047"
    and P: "\<And>p. p \<in> P \<Longrightarrow> seq_ok p \<and> 1 \<le> off L p \<and> off L p \<le> 2047"
  obtains L' where "seq_ok L'" "ws = (L' + 1) mod 4096" "int k \<le> off L L'" "off L L' \<le> 2047"
    "sorted_wrt (<) (map (off L) out)" "set out = {p \<in> P. off L p \<le> off L L'}"
    "P' = {p \<in> P. off L L' < off L p}" "off L L' = int k \<or> L' \<in> set out"
proof -
  let ?ws = "(L + 1) mod 4096"
  define n where "n = run_len ((?ws + int k) mod 4096) P"
  have shift: "((?ws + int k) mod 4096 + int i) mod 4096 = (L + 1 + int (k + i)) mod 4096" for i
    by (simp only: mod_add_left_eq add.assoc of_nat_add)
  have mem: "(L + 1 + int (k + i)) mod 4096 \<in> P" if "i < n" for i
    using run_len_mem[of i "(?ws + int k) mod 4096" P] that unfolding n_def shift .
  have n: "k + n \<le> 2047"
  proof (rule ccontr)
    assume "\<not> k + n \<le> 2047"
    then have "(L + 1 + int (k + (2047 - k))) mod 4096 \<in> P" using L(2) by (intro mem) simp
    moreover have "L + 1 + int (k + (2047 - k)) = L + 2048" using L(2) by simp
    ultimately have "(L + 2048) mod 4096 \<in> P" by (simp add: add.commute)
    from P[OF this] show False using off_add_small[of 2048 L] by simp
  qed
  define L' where "L' = (L + int (k + n)) mod 4096"
  have L': "off L L' = int (k + n)" using n unfolding L'_def by (intro off_add_small) auto
  have out: "out = filter (\<lambda>s. s \<in> P) (seq_range ?ws (k + n))" "ws = (?ws + int (k + n)) mod 4096"
    "P' = P - set out"
    using r unfolding rob_release_def Let_def n_def[symmetric] prod.inject by blast+
  have k4: "k + n < 4096" using n by simp
  have set_out: "set out = {p \<in> P. off L p \<le> off L L'}"
    using mem_seq_range[OF k4, of _ L] P by (auto simp: out(1) L')
  have ws: "ws = (L' + 1) mod 4096"
    unfolding out(2) L'_def by (rule next_shift)
  have "map (off L) (seq_range ?ws (k + n)) = map (\<lambda>i. 1 + int i) [0..<k + n]"
    by (rule off_seq_range[OF k4])
  then have "sorted_wrt (<) (map (off L) (seq_range ?ws (k + n)))"
    by (simp add: sorted_wrt_map)
  then have srt: "sorted_wrt (<) (map (off L) out)"
    by (simp add: out(1) sorted_wrt_map sorted_wrt_filter)
  have last: "off L L' = int k \<or> L' \<in> set out"
  proof (cases n)
    case (Suc j)
    moreover have "L + 1 + int (k + j) = L + int (k + n)" using Suc by simp
    ultimately have "L' \<in> P" using mem[of j] by (simp only: L'_def)
    then show ?thesis by (simp add: set_out)
  qed (simp add: L')
  have "P' = {p \<in> P. off L L' < off L p}" unfolding out(3) set_out by auto
  then show ?thesis
    using that[of L'] ws L' n srt set_out last by (simp add: L'_def)
qed

lemma chain_step:
  assumes inv: "chain_inv d L P0" and sub: "P0 \<subseteq> P" "P \<noteq> {}"
    and P: "\<And>p. p \<in> P \<Longrightarrow> seq_ok p \<and> 1 \<le> off L p \<and> off L p \<le> 2047"
    and L': "seq_ok L'" "off L L' \<le> 2047"
    and out: "sorted_wrt (<) (map (off L) out)" "set out = {p \<in> P. off L p \<le> off L L'}"
    and P': "P' = {p \<in> P. off L L' < off L p}" and last: "P' = {} \<Longrightarrow> L' \<in> set out"
  shows "forward_chain d out \<and> chain_inv (last (d # out)) L' P'"
proof -
  obtain m where m: "m \<in> P" "off d L < off d m" "off d m \<le> 2047"
  proof (cases "P0 = {}")
    case True
    then show ?thesis using inv sub P that by (fastforce simp: chain_inv_def)
  next
    case False
    then show ?thesis using inv sub that by (auto simp: chain_inv_def)
  qed
  have dm: "off d m = off d L + off L m" using m(2) off_shift_ge[of d L m] by simp
  show ?thesis
  proof (cases out)
    case Nil
    then have "off L L' < off L m" using out(2) m(1) by auto
    moreover from this have "off d L' = off d L + off L L'" using dm m(3) by (intro off_trans) simp
    ultimately show ?thesis using Nil m dm P' by (auto simp: chain_inv_def)
  next
    case (Cons o1 os)
    have in_out: "x \<in> P \<and> off L x \<le> off L L'" if "x \<in> set out" for x using that out(2) by auto
    have o1: "o1 \<in> P" "off L o1 \<le> off L L'" using in_out Cons by auto
    have "off L o1 \<le> off L m"
    proof (cases "m \<in> set out")
      case True then show ?thesis using out(1) Cons by fastforce
    next
      case False then show ?thesis using out(2) m(1) o1 by auto
    qed
    then have d1: "off d o1 = off d L + off L o1" using dm m(3) by (intro off_trans) simp
    have "forward_chain o1 os"
      using out(1) Cons in_out P by (intro forward_chain_sorted[of L]) (auto, smt (verit) off_range(1))
    then have chain: "forward_chain d out"
      using Cons d1 P[OF o1(1)] \<open>off L o1 \<le> off L m\<close> dm m(3) add_mono[OF off_range(1)[of d L], of 1 "off L o1"]
      by simp
    let ?d = "last out"
    have ld: "?d \<in> set out" using Cons by simp
    have max: "off L x \<le> off L ?d" if "x \<in> set out" for x
      by (rule sorted_wrt_map_last[OF out(1) that])
    have "chain_inv ?d L' P'"
    proof (cases "P' = {}")
      case True
      then have "off L ?d = off L L'" using max[OF last] in_out[OF ld] by auto
      then have "?d = L'" using off_inj L'(1) P in_out[OF ld] by blast
      then show ?thesis using True by (simp add: chain_inv_def)
    next
      case False
      then obtain m' where m': "m' \<in> P" "off L L' < off L m'" "m' \<in> P'" using P' by auto
      have "off ?d m' = off L m' - off L ?d" "off ?d L' = off L L' - off L ?d"
        using m'(2) in_out[OF ld] by (auto intro: off_shift_ge)
      moreover have "off L m' - off L ?d \<le> 2047" using P[OF m'(1)] off_range(1)[of L ?d] by linarith
      ultimately show ?thesis using m' by (auto simp: chain_inv_def intro!: bexI[of _ m'])
    qed
    then show ?thesis using chain Cons by simp
  qed
qed

section \<open>Runs\<close>

text \<open>A session receives a list of frames, each at its time.\<close>

fun session_run ::
    "'a ba_ctx_scheme \<Rightarrow> BA_REC_ENTRY \<Rightarrow> nat \<Rightarrow> (RX_BLK \<times> tick) list \<Rightarrow> ('a ba_ctx_scheme \<times> BA_REC_ENTRY) option"
where
  "session_run a e b [] = Some (a, e)"
| "session_run a e b ((rx, now) # ins) =
    (case ampdu_session_rx a e rx b now of None \<Rightarrow> None | Some (a', e') \<Rightarrow> session_run a' e' b ins)"

text \<open>The runs the order theorem speaks of: 12-bit numbers, no EAPOL frame, a block free at every
  step, and no step at which the half-second timeout flushes and resets the session.\<close>

fun buffered_run :: "'a ba_ctx_scheme \<Rightarrow> BA_REC_ENTRY \<Rightarrow> nat \<Rightarrow> (RX_BLK \<times> tick) list \<Rightarrow> bool" where
  "buffered_run a e b [] = True"
| "buffered_run a e b ((rx, now) # ins) =
    (seq_ok (rx_Sequence rx) \<and> \<not> RX_BLK_TEST_FLAG rx fRX_EAP \<and> next_mpdus (freelist a) \<noteq> [] \<and>
     flush_kind (OS_HZ a) now e \<noteq> Flush_All \<and>
     (case ampdu_session_rx a e rx b now of None \<Rightarrow> True | Some (a', e') \<Rightarrow> buffered_run a' e' b ins))"

section \<open>The chain along a run\<close>

definition rob_ok :: "int \<Rightarrow> int set \<Rightarrow> bool" where
  "rob_ok L P \<longleftrightarrow> seq_ok L \<and> (\<forall>p\<in>P. seq_ok p \<and> 1 \<le> off L p \<and> off L p \<le> 2047)"

lemma release_chain:
  assumes r: "rob_release ((L + 1) mod 4096) k P = (out, ws, P')" and ok: "rob_ok L P"
    and inv: "chain_inv d L P0" "P0 \<subseteq> P" and k: "k \<le> 2047" "p \<in> P" "int k \<le> off L p"
  obtains L' where "ws = (L' + 1) mod 4096" "rob_ok L' P'" "forward_chain d out"
    "chain_inv (last (d # out)) L' P'"
proof -
  have L: "seq_ok L" and P: "\<And>p. p \<in> P \<Longrightarrow> seq_ok p \<and> 1 \<le> off L p \<and> off L p \<le> 2047"
    using ok by (auto simp: rob_ok_def)
  obtain L' where L': "seq_ok L'" "ws = (L' + 1) mod 4096" "int k \<le> off L L'" "off L L' \<le> 2047"
    "sorted_wrt (<) (map (off L) out)" "set out = {p \<in> P. off L p \<le> off L L'}"
    "P' = {p \<in> P. off L L' < off L p}" "off L L' = int k \<or> L' \<in> set out"
    using rob_release_out[OF r L k(1) P] by blast
  have "L' \<in> set out" if "P' = {}"
  proof (cases "off L L' = int k")
    case True
    then have "off L p = off L L'" using that L'(7) k(2,3) by auto
    then have "p = L'" using off_inj[of p L' L] P[OF k(2)] L'(1) by simp
    then show ?thesis using L'(6) k(2) by simp
  qed (use L'(8) in blast)
  then have "forward_chain d out \<and> chain_inv (last (d # out)) L' P'"
    using k(2) by (intro chain_step[OF inv _ P L'(1,4,5,6,7)]) auto
  moreover have "rob_ok L' P'"
  proof -
    have "seq_ok q \<and> 1 \<le> off L' q \<and> off L' q \<le> 2047" if q: "q \<in> P'" for q
    proof -
      have "off L' q = off L q - off L L'" using q L'(7) by (intro off_shift_ge) simp
      moreover have "q \<in> P" "off L L' < off L q" using q L'(7) by auto
      ultimately show ?thesis using P[of q] off_range(1)[of L L'] by linarith
    qed
    then show ?thesis using L'(1) by (simp add: rob_ok_def)
  qed
  ultimately show ?thesis using that L'(2) by blast
qed

lemma receive_chain:
  assumes r: "rob_receive W ((L + 1) mod 4096, P) s = (out, ws, P')" and ok: "rob_ok L P"
    and inv: "chain_inv d L P" and s: "seq_ok s" and W: "1 \<le> W"
  obtains L' where "ws = (L' + 1) mod 4096" "rob_ok L' P'" "forward_chain d out"
    "chain_inv (last (d # out)) L' P'"
proof -
  let ?ws = "(L + 1) mod 4096"
  have off1: "off L ?ws = 1" using off_add_small[of 1 L] by simp
  show ?thesis
  proof (cases "2047 \<le> off ?ws s")
    case True
    then show ?thesis using that[of L] r ok inv by (simp add: rob_receive_def)
  next
    case False
    define k where "k = (if off ?ws s < W then 0 else nat (off ?ws s - W + 1))"
    have Ls: "off L s = off ?ws s + 1" using off_trans[of L ?ws s] off1 False by simp
    have rel: "rob_release ?ws k (insert s P) = (out, ws, P')"
      using r False by (simp add: rob_receive_def k_def)
    have "rob_ok L (insert s P)"
      using ok s Ls False off_range(1)[of ?ws s] by (auto simp: rob_ok_def)
    moreover have "k \<le> 2047" "int k \<le> off L s" using False W Ls by (auto simp: k_def)
    ultimately show ?thesis
      using release_chain[OF rel _ inv, of s] that by blast
  qed
qed

lemma next_inj: "seq_ok a \<Longrightarrow> seq_ok b \<Longrightarrow> (a + 1) mod 4096 = (b + 1) mod 4096 \<Longrightarrow> a = b"
  using mod_diff_cong[of "a + 1" 4096 "b + 1" 1 1] by (simp add: seq_ok_def)

abbreviation pending_seqs :: "BA_REC_ENTRY \<Rightarrow> int set" where
  "pending_seqs e \<equiv> Sequence ` set (next_mpdus (reorder_list e))"

lemma session_live_rob_ok: "session_live W e \<Longrightarrow> rob_ok (LastIndSeq e) (pending_seqs e)"
  by (fastforce simp: session_live_def session_ok_def rob_ok_def pending_ok_def)

lemma session_step_chain:
  assumes live: "session_live W e" and s: "seq_ok (rx_Sequence rx)"
    and pool: "pool_ok a" "next_mpdus (freelist a) \<noteq> []" and eap: "\<not> RX_BLK_TEST_FLAG rx fRX_EAP"
    and kind: "flush_kind (OS_HZ a) now e \<noteq> Flush_All"
    and inv: "chain_inv d (LastIndSeq e) (pending_seqs e)"
  shows "\<exists>a' e' cs. ampdu_session_rx a e rx b now = Some (a', e') \<and> calls a' = calls a @ cs \<and>
    session_live W e' \<and> pool_ok a' \<and> forward_chain d (delivered cs) \<and>
    chain_inv (last (d # delivered cs)) (LastIndSeq e') (pending_seqs e')"
proof -
  let ?L = "LastIndSeq e" and ?P = "pending_seqs e"
  have W: "1 \<le> W" "rec_BAWinSize e = W" and ok: "session_ok e" and st: "session_abs e = Some (rec_abs e)"
    using live by (auto simp: session_live_def session_ok_def session_abs_def)
  obtain a' e' cs where step: "ampdu_session_rx a e rx b now = Some (a', e')" "calls a' = calls a @ cs"
    "(delivered cs, session_abs e') =
      rob_session_rx W (flush_kind (OS_HZ a) now e) (Some (rec_abs e)) (rx_Sequence rx)"
    "session_live W e'" "pool_ok a'"
    using session_rx_refines[OF ok s pool eap, of b now] W(2) st by auto
  have abs': "session_abs e' = Some ((LastIndSeq e' + 1) mod 4096, pending_seqs e')"
    using step(4) by (simp add: session_live_def session_abs_def rec_abs_def)
  have done_: "forward_chain d (delivered cs) \<and>
      chain_inv (last (d # delivered cs)) (LastIndSeq e') (pending_seqs e')"
    if mid: "rob_flush (flush_kind (OS_HZ a) now e) (rec_abs e) = (o1, Some ((L1 + 1) mod 4096, P1))"
      "rob_ok L1 P1" "forward_chain d o1" "chain_inv (last (d # o1)) L1 P1" for o1 L1 P1
  proof -
    obtain o2 ws2 P2 where rcv: "rob_receive W ((L1 + 1) mod 4096, P1) (rx_Sequence rx) = (o2, ws2, P2)"
      by (metis prod_cases3)
    from receive_chain[OF rcv mid(2,4) s W(1)] obtain L2 where L2: "ws2 = (L2 + 1) mod 4096" "rob_ok L2 P2"
      "forward_chain (last (d # o1)) o2" "chain_inv (last (last (d # o1) # o2)) L2 P2" by blast
    have "delivered cs = o1 @ o2" "(LastIndSeq e' + 1) mod 4096 = ws2" "pending_seqs e' = P2"
      using step(3) abs' mid(1) rcv by (auto simp: rob_session_rx_def)
    moreover from this(2) have "LastIndSeq e' = L2"
      using L2(1,2) session_live_rob_ok[OF step(4)] by (auto simp: rob_ok_def intro: next_inj)
    moreover have "last (last (d # o1) # o2) = last (d # o1 @ o2)" by (cases o2) auto
    ultimately show ?thesis using L2(3,4) mid(3) by (simp add: forward_chain_append)
  qed
  have "forward_chain d (delivered cs) \<and>
      chain_inv (last (d # delivered cs)) (LastIndSeq e') (pending_seqs e')"
  proof (cases "flush_kind (OS_HZ a) now e")
    case No_Flush
    then show ?thesis
      using inv session_live_rob_ok[OF live] by (intro done_) (auto simp: rob_flush_def rec_abs_def)
  next
    case Flush_One
    then obtain m where "m \<in> set (next_mpdus (reorder_list e))"
      by (cases "next_mpdus (reorder_list e)") (auto simp: flush_kind_def)
    then have m: "Sequence m \<in> ?P" by simp
    obtain o1 ws1 P1 where rel: "rob_release ((?L + 1) mod 4096) 1 ?P = (o1, ws1, P1)"
      by (metis prod_cases3)
    have "int 1 \<le> off ?L (Sequence m)" using session_live_rob_ok[OF live] m by (auto simp: rob_ok_def)
    from release_chain[OF rel session_live_rob_ok[OF live] inv order_refl _ m this]
    obtain L1 where "ws1 = (L1 + 1) mod 4096" "rob_ok L1 P1" "forward_chain d o1"
      "chain_inv (last (d # o1)) L1 P1" by auto
    then show ?thesis using Flush_One rel by (intro done_) (auto simp: rob_flush_def rec_abs_def)
  qed (use kind in simp)
  then show ?thesis using step by blast
qed

lemma session_run_chain:
  assumes "session_live W e" "pool_ok a" "chain_inv d (LastIndSeq e) (pending_seqs e)" "buffered_run a e b ins"
  shows "\<exists>a' e' cs. session_run a e b ins = Some (a', e') \<and> calls a' = calls a @ cs \<and>
    session_live W e' \<and> forward_chain d (delivered cs)"
  using assms
proof (induction a e b ins arbitrary: d rule: session_run.induct)
  case (1 a e b)
  then show ?case by (auto intro: exI[of _ "[]"])
next
  case (2 a e b rx now ins)
  have pre: "seq_ok (rx_Sequence rx)" "next_mpdus (freelist a) \<noteq> []" "\<not> RX_BLK_TEST_FLAG rx fRX_EAP"
    "flush_kind (OS_HZ a) now e \<noteq> Flush_All"
    using "2.prems"(4) by auto
  obtain a1 e1 cs where step: "ampdu_session_rx a e rx b now = Some (a1, e1)" "calls a1 = calls a @ cs"
    "session_live W e1" "pool_ok a1" "forward_chain d (delivered cs)"
    "chain_inv (last (d # delivered cs)) (LastIndSeq e1) (pending_seqs e1)"
    using session_step_chain[OF "2.prems"(1) pre(1) "2.prems"(2) pre(2,3,4) "2.prems"(3), of b] by blast
  have "buffered_run a1 e1 b ins" using "2.prems"(4) step(1) by simp
  from "2.IH"[OF step(1) refl step(3,4,6) this] obtain a' e' cs' where
    "session_run a1 e1 b ins = Some (a', e')" "calls a' = calls a1 @ cs'" "session_live W e'"
    "forward_chain (last (d # delivered cs)) (delivered cs')" by blast
  then show ?case using step by (auto simp: forward_chain_append)
qed

end
