(* ===== verification/BaConserve.thy ===== *)
theory BaConserve
  imports BaTimeout
begin

text \<open>Conservation: the reordering buffer neither loses nor duplicates a packet handle or a list
  block. Nothing is assumed of the window here, only that the two list counters are right, so the
  facts hold on every branch, pool exhaustion included. The one exception is an EAPOL frame that
  reaches the queue, whose block is not given back.\<close>

section \<open>Accounts\<close>

fun call_pkts :: "upcall \<Rightarrow> packet list" where
  "call_pkts (BA_Reorder_AMSDU_Annnounce m) = [pPacket m]"
| "call_pkts (ANNOUNCE_OR_FORWARD_802_3_PACKET m) = [pPacket m]"
| "call_pkts (Indicate_AMSDU_Packet rx b) = [pRxPacket rx]"
| "call_pkts (Indicate_EAPOL_Packet rx b) = [pRxPacket rx]"
| "call_pkts (Indicate_Legacy_Packet rx b) = [pRxPacket rx]"
| "call_pkts (RELEASE_NDIS_PACKET p st) = [p]"
| "call_pkts _ = []"

text \<open>Packets handed on (passed up or released) or pending; blocks free or pending.\<close>

definition packets :: "'a ba_ctx_scheme \<Rightarrow> BA_REC_ENTRY \<Rightarrow> packet multiset" where
  "packets a e = mset (concat (map call_pkts (calls a))) + mset (map pPacket (next_mpdus (reorder_list e)))"

definition blocks :: "'a ba_ctx_scheme \<Rightarrow> BA_REC_ENTRY \<Rightarrow> nat multiset" where
  "blocks a e = mset (map blk_addr (next_mpdus (freelist a))) + mset (map blk_addr (next_mpdus (reorder_list e)))"

definition lists_wf :: "'a ba_ctx_scheme \<Rightarrow> BA_REC_ENTRY \<Rightarrow> bool" where
  "lists_wf a e \<longleftrightarrow> list_wf (freelist a) \<and> list_wf (reorder_list e)"

text \<open>A step that hands in the packets \<open>ps\<close>.\<close>

definition conserves ::
    "'a ba_ctx_scheme \<Rightarrow> BA_REC_ENTRY \<Rightarrow> packet multiset \<Rightarrow> 'a ba_ctx_scheme \<Rightarrow> BA_REC_ENTRY \<Rightarrow> bool" where
  "conserves a e ps a' e' \<longleftrightarrow>
    lists_wf a' e' \<and> packets a' e' = packets a e + ps \<and> blocks a' e' = blocks a e"

lemma conserves_refl: "lists_wf a e \<Longrightarrow> conserves a e {#} a e"
  by (simp add: conserves_def)

lemma conserves_trans:
  "conserves a e p a1 e1 \<Longrightarrow> conserves a1 e1 q a2 e2 \<Longrightarrow> conserves a e (p + q) a2 e2"
  by (simp add: conserves_def ac_simps)

lemma conserves_wf: "conserves a e p a' e' \<Longrightarrow> lists_wf a' e'"
  by (simp add: conserves_def)

text \<open>Only the list of an entry counts.\<close>

lemma conserves_entry:
  "conserves a e p a' e' \<Longrightarrow> reorder_list e'' = reorder_list e' \<Longrightarrow> conserves a e p a' e''"
  "conserves a e p a' e' \<Longrightarrow> reorder_list e = reorder_list e0 \<Longrightarrow> conserves a e0 p a' e'"
  by (simp_all add: conserves_def packets_def blocks_def lists_wf_def)

section \<open>Releases\<close>

lemma call_pkts_announce [simp]: "call_pkts (announce_call m) = [pPacket m]"
  by (simp add: announce_call_def)

lemma concat_announce [simp]: "concat (map (call_pkts \<circ> announce_call) ms) = map pPacket ms"
  by (induction ms) simp_all

lemma call_pkts_indicate [simp]: "call_pkts (indicate_call rx b) = [pRxPacket rx]"
  by (simp add: indicate_call_def)

lemma release_conserves:
  assumes "lists_wf a e" "pre @ rest = next_mpdus (reorder_list e)"
  shows "conserves a e {#} (pass_up a pre) (e\<lparr>reorder_list := drop_list (length pre) (reorder_list e)\<rparr>)"
proof -
  have ms: "next_mpdus (reorder_list e) = pre @ rest" using assms(2) by simp
  then show ?thesis
    using assms(1)
    by (simp add: conserves_def lists_wf_def packets_def blocks_def pass_up_def list_wf_def drop_list_def)
qed

lemma in_order_conserves:
  assumes "lists_wf a e"
  shows "\<exists>a' e' t. ba_indicate_reordering_mpdus_in_order a e s = Some (a', e', t) \<and> conserves a e {#} a' e'"
  using release_conserves[OF assms run_prefix_prefix[of s "next_mpdus (reorder_list e)"]] assms
  by (simp add: in_order_eq lists_wf_def Let_def)

lemma le_seq_conserves:
  assumes "lists_wf a e"
  shows "\<exists>a' e'. ba_indicate_reordering_mpdus_le_seq a e s = Some (a', e') \<and> conserves a e {#} a' e'"
  using release_conserves[OF assms le_prefix_prefix[of s "next_mpdus (reorder_list e)"]] assms
  by (simp add: le_seq_eq lists_wf_def Let_def)

lemma refresh_conserves:
  assumes "lists_wf a e"
  shows "\<exists>a' e'. ba_refresh_reordering_mpdus a e = (a', e') \<and> conserves a e {#} a' e'"
proof -
  have "drop_list (length (next_mpdus (reorder_list e))) (reorder_list e) = \<lparr>next_mpdus = [], qlen = 0\<rparr>"
    using assms by (simp add: drop_list_def lists_wf_def list_wf_def)
  then show ?thesis
    using release_conserves[OF assms, of "next_mpdus (reorder_list e)" "[]"] assms
    by (auto simp: refresh_eq lists_wf_def intro: conserves_entry(1))
qed

lemma flush_conserves:
  assumes "lists_wf a e"
  shows "\<exists>a' e'. ba_flush_reordering_timeout_mpdus a e now = Some (a', e') \<and> conserves a e {#} a' e'"
proof -
  obtain ar er where r: "ba_refresh_reordering_mpdus a e = (ar, er)" "conserves a e {#} ar er"
    using refresh_conserves[OF assms] by blast
  let ?S = "(LastIndSeq e + 1) AND MAXSEQ"
  obtain a1 e1 where l: "ba_indicate_reordering_mpdus_le_seq a e ?S = Some (a1, e1)" "conserves a e {#} a1 e1"
    using le_seq_conserves[OF assms] by blast
  let ?e2 = "e1\<lparr>LastIndSeqAtTimer := now, LastIndSeq := ?S\<rparr>"
  have c2: "conserves a e {#} a1 ?e2" using l(2) by (rule conserves_entry(1)) simp
  obtain a3 e3 t where i: "ba_indicate_reordering_mpdus_in_order a1 ?e2 ?S = Some (a3, e3, t)"
      "conserves a1 ?e2 {#} a3 e3"
    using in_order_conserves[OF conserves_wf[OF c2]] by blast
  have c3: "conserves a e {#} a3 e3" using conserves_trans[OF c2 i(2)] by simp
  show ?thesis
    using r l i conserves_refl[OF assms] c3
    by (auto simp: ba_flush_reordering_timeout_mpdus_def Let_def intro: conserves_entry(1))
qed

lemma indicate_conserves:
  "lists_wf a e \<Longrightarrow> conserves a e {#pRxPacket rx#} (INDICATE_LEGACY_OR_AMSDU a rx b) e"
  by (simp add: conserves_def packets_def blocks_def lists_wf_def ba_simps)

lemma drop_conserves:
  "lists_wf a e \<Longrightarrow> conserves a e {#pRxPacket rx#} (fst (drop_packet a e rx)) (snd (drop_packet a e rx))"
  by (simp add: conserves_def packets_def blocks_def lists_wf_def drop_packet_def ba_simps)

section \<open>Queueing\<close>

lemma alloc_cases:
  assumes "list_wf (freelist a)"
  obtains (empty) "next_mpdus (freelist a) = []" "ba_mpdu_blk_alloc a = (None, a)"
  | (block) b bs where "next_mpdus (freelist a) = b # bs"
      "ba_mpdu_blk_alloc a = (Some (zero_mpdu b), a\<lparr>freelist := drop_list 1 (freelist a)\<rparr>)"
proof (cases "next_mpdus (freelist a)")
  case Nil
  then show ?thesis using empty dequeue_wf[OF assms] by (simp add: ba_mpdu_blk_alloc_def)
next
  case (Cons b bs)
  then show ?thesis using block alloc_nonempty[of a b bs] assms by (simp add: pool_ok_def)
qed

lemma refuse_conserves:
  assumes "lists_wf a e"
  shows "\<exists>a' e'. (do {
            (a2, e2) \<leftarrow> ba_indicate_reordering_mpdus_le_seq a e s;
            Some (INDICATE_LEGACY_OR_AMSDU a2 rx b, e2\<lparr>LastIndSeq := s\<rparr>)
          }) = Some (a', e') \<and> conserves a e {#pRxPacket rx#} a' e'"
proof -
  obtain a1 e1 where l: "ba_indicate_reordering_mpdus_le_seq a e s = Some (a1, e1)" "conserves a e {#} a1 e1"
    using le_seq_conserves[OF assms] by blast
  have "conserves a e {#pRxPacket rx#} (INDICATE_LEGACY_OR_AMSDU a1 rx b) e1"
    using conserves_trans[OF l(2) indicate_conserves[OF conserves_wf[OF l(2)]]] by simp
  then show ?thesis using l(1) by (auto intro: conserves_entry(1))
qed

lemma enqueue_conserves:
  assumes wf: "lists_wf a e" and eap: "\<not> RX_BLK_TEST_FLAG rx fRX_EAP"
  shows "\<exists>a' e'. ba_enqueue_reordering_packet a e rx b = Some (a', e') \<and>
    conserves a e {#pRxPacket rx#} a' e'"
proof -
  have "list_wf (freelist a)" using wf by (simp add: lists_wf_def)
  then show ?thesis
  proof (cases rule: alloc_cases)
    case empty
    then show ?thesis
      using refuse_conserves[OF wf, of "rx_Sequence rx" rx b]
      by (simp add: ba_enqueue_reordering_packet_def Let_def)
  next
    case (block blk bs)
    have pool: "pool_ok a" using wf by (simp add: lists_wf_def pool_ok_def)
    let ?m = "queued_mpdu blk rx"
    note enq = enqueue_block[OF pool block(1) eap, of e b]
    show ?thesis
    proof (cases "insert_scan (next_mpdus (reorder_list e)) ?m")
      case None
      then show ?thesis
        using wf block(1) unfolding enq
        by (simp add: ba_reordering_mpdu_insertsorted_def conserves_def packets_def blocks_def
            lists_wf_def log_call_sel ba_mpdu_blk_free_def ba_enqueue_def list_wf_def drop_list_def)
    next
      case (Some ms')
      have ms': "mset ms' = add_mset ?m (mset (next_mpdus (reorder_list e)))"
        "length ms' = Suc (length (next_mpdus (reorder_list e)))"
        using insert_scan_mset[OF Some] insert_scan_length[OF Some] by auto
      then show ?thesis
        using wf block(1) Some unfolding enq
        by (simp add: ba_reordering_mpdu_insertsorted_def conserves_def packets_def blocks_def
            lists_wf_def list_wf_def drop_list_def)
    qed
  qed
qed

section \<open>The whole step\<close>

lemma ampdu_cases_conserves:
  assumes wf: "lists_wf a e" and eap: "\<not> RX_BLK_TEST_FLAG rx fRX_EAP"
  shows "\<exists>a' e'. ampdu_cases a e rx b now = Some (a', e') \<and> conserves a e {#pRxPacket rx#} a' e'"
proof -
  let ?s = "rx_Sequence rx" and ?w = "USHORT (win_start_seq (rx_Sequence rx) (rec_BAWinSize e))"
  obtain a1 e1 where l: "ba_indicate_reordering_mpdus_le_seq a e ?w = Some (a1, e1)" "conserves a e {#} a1 e1"
    using le_seq_conserves[OF wf] by blast
  let ?e2 = "e1\<lparr>LastIndSeq := ?w, LastIndSeqAtTimer := now\<rparr>"
  have c2: "conserves a e {#} a1 ?e2" using l(2) by (rule conserves_entry(1)) simp
  obtain a3 e3 where q: "ba_enqueue_reordering_packet a1 ?e2 rx b = Some (a3, e3)"
      "conserves a1 ?e2 {#pRxPacket rx#} a3 e3"
    using enqueue_conserves[OF conserves_wf[OF c2] eap] by blast
  obtain a4 e4 t where i: "ba_indicate_reordering_mpdus_in_order a3 e3 (LastIndSeq e3) = Some (a4, e4, t)"
      "conserves a3 e3 {#} a4 e4"
    using in_order_conserves[OF conserves_wf[OF q(2)]] by blast
  have beyond: "conserves a e {#pRxPacket rx#} a4 e4"
    using conserves_trans[OF conserves_trans[OF c2 q(2)] i(2)] by simp
  let ?i = "INDICATE_LEGACY_OR_AMSDU a rx b"
  have ci: "conserves a (e\<lparr>LastIndSeq := ?s\<rparr>) {#pRxPacket rx#} ?i (e\<lparr>LastIndSeq := ?s\<rparr>)"
    using wf by (intro indicate_conserves) (simp add: lists_wf_def)
  obtain a5 e5 u where j: "ba_indicate_reordering_mpdus_in_order ?i (e\<lparr>LastIndSeq := ?s\<rparr>) ?s = Some (a5, e5, u)"
      "conserves ?i (e\<lparr>LastIndSeq := ?s\<rparr>) {#} a5 e5"
    using in_order_conserves[OF conserves_wf[OF ci]] by blast
  have "conserves a (e\<lparr>LastIndSeq := ?s\<rparr>) {#pRxPacket rx#} a5 e5"
    using conserves_trans[OF ci j(2)] by simp
  then have inord: "conserves a e {#pRxPacket rx#} a5 e5" by (rule conserves_entry(2)) simp
  obtain aq eq where w: "ba_enqueue_reordering_packet a e rx b = Some (aq, eq)" "conserves a e {#pRxPacket rx#} aq eq"
    using enqueue_conserves[OF wf eap] by blast
  have d: "\<exists>a' e'. drop_packet a e rx = (a', e') \<and> conserves a e {#pRxPacket rx#} a' e'"
    using drop_conserves[OF wf, of rx] by (metis prod.collapse)
  show ?thesis
    using l(1) q(1) i(1) j(1) w beyond inord d
    by (auto simp: ampdu_cases_def Let_def intro: conserves_entry(1))
qed

lemma session_rx_conserves:
  assumes wf: "lists_wf a e" and eap: "\<not> RX_BLK_TEST_FLAG rx fRX_EAP"
  shows "\<exists>a' e'. ampdu_session_rx a e rx b now = Some (a', e') \<and> conserves a e {#pRxPacket rx#} a' e'"
proof -
  let ?e0 = "e\<lparr>rcvSeq := rx_Sequence rx\<rparr>"
  have wf0: "lists_wf a ?e0" using wf by (simp add: lists_wf_def)
  obtain a1 e1 where f: "ba_flush_reordering_timeout_mpdus a ?e0 now = Some (a1, e1)" "conserves a ?e0 {#} a1 e1"
    using flush_conserves[OF wf0] by blast
  let ?e2 = "e1\<lparr>LastIndSeqAtTimer := now\<rparr>"
  have c: "conserves a e {#} a1 ?e2"
    using conserves_entry(1)[OF conserves_entry(2)[OF f(2), of e], of ?e2] by simp
  obtain a3 e3 where cs: "ampdu_cases a1 ?e2 rx b now = Some (a3, e3)" "conserves a1 ?e2 {#pRxPacket rx#} a3 e3"
    using ampdu_cases_conserves[OF conserves_wf[OF c] eap] by blast
  have "conserves a e {#pRxPacket rx#} (INDICATE_LEGACY_OR_AMSDU a1 rx b) ?e2"
    using conserves_trans[OF c indicate_conserves[OF conserves_wf[OF c]]] by simp
  moreover have "conserves a e {#pRxPacket rx#} a3 e3" using conserves_trans[OF c cs(2)] by simp
  ultimately show ?thesis
    using f(1) cs(1) by (auto simp: ampdu_session_rx_def Let_def intro: conserves_entry(1))
qed

section \<open>The block an EAPOL frame takes\<close>

text \<open>When a block is free, an EAPOL frame inside the window takes it from the pool, is passed up
  directly, and the block is neither queued nor given back.\<close>

lemma eapol_enqueue_leaks:
  assumes wf: "lists_wf a e" and blk: "next_mpdus (freelist a) = blk # bs"
    and eap: "RX_BLK_TEST_FLAG rx fRX_EAP"
  shows "\<exists>a' e'. ba_enqueue_reordering_packet a e rx b = Some (a', e') \<and>
    add_mset (blk_addr blk) (blocks a' e') = blocks a e"
proof -
  let ?a1 = "a\<lparr>freelist := drop_list 1 (freelist a)\<rparr>"
  have pool: "pool_ok a" using wf by (simp add: lists_wf_def pool_ok_def)
  have "lists_wf ?a1 e" using wf blk by (simp add: lists_wf_def)
  then obtain a' e' where "(do {
            (a2, e2) \<leftarrow> ba_indicate_reordering_mpdus_le_seq ?a1 e (rx_Sequence rx);
            Some (INDICATE_LEGACY_OR_AMSDU a2 rx b, e2\<lparr>LastIndSeq := rx_Sequence rx\<rparr>)
          }) = Some (a', e')" "conserves ?a1 e {#pRxPacket rx#} a' e'"
    using refuse_conserves by blast
  moreover have "add_mset (blk_addr blk) (blocks ?a1 e) = blocks a e"
    using blk by (simp add: blocks_def drop_list_def)
  ultimately show ?thesis
    using alloc_nonempty[OF pool blk] eap
    by (simp add: ba_enqueue_reordering_packet_def conserves_def Let_def del: One_nat_def)
qed

section \<open>The Block-Ack-Request\<close>

lemma bar_session_ok:
  assumes ok: "session_ok e" and s: "seq_ok StartSeq"
  shows "\<exists>a' e'. bar_session_rx a e StartSeq = Some (a', e') \<and> session_ok e' \<and>
    rec_BAWinSize e' = rec_BAWinSize e"
proof (cases "SEQ_SMALLER (LastIndSeq e) StartSeq MAXSEQ")
  case False
  then show ?thesis using ok by (simp add: bar_session_rx_def)
next
  case True
  let ?ms = "next_mpdus (reorder_list e)" and ?W = "rec_BAWinSize e" and ?L = "LastIndSeq e"
  let ?l = "if StartSeq = 0 then MAXSEQ else StartSeq - 1"
  have wf: "list_wf (reorder_list e)" using ok by (simp add: session_ok_def)
  have l: "seq_ok ?l" "off ?l StartSeq = 1"
    using s by (auto simp: seq_ok_def off_def MAXSEQ_def)
  let ?pre = "le_prefix StartSeq ?ms"
  have res: "bar_session_rx a e StartSeq = Some (pass_up a ?pre,
      e\<lparr>reorder_list := drop_list (length ?pre) (reorder_list e), LastIndSeq := ?l\<rparr>)"
    using True le_seq_eq[OF wf, of a StartSeq] by (auto simp: bar_session_rx_def Let_def)
  have "pending_ok 2 ?l ?W (drop (length ?pre) ?ms)"
  proof (cases "?L = RESET_RCV_SEQ")
    case True
    then show ?thesis using ok by (simp add: session_ok_def)
  next
    case False
    then have p: "pending_ok 2 ?L ?W ?ms" "seq_ok ?L" "?W < 256" using ok by (auto simp: session_ok_def)
    have "2048 \<le> off StartSeq ?L" using True by (simp add: SEQ_SMALLER_iff)
    moreover have nz: "off ?L StartSeq \<noteq> 0"
      using calculation off_shift_ge[of ?L StartSeq ?L] by auto
    moreover have "0 < off ?L StartSeq" using nz off_range(1)[of ?L StartSeq] by linarith
    moreover from this have "off StartSeq ?L = 4096 - off ?L StartSeq"
      using off_shift_lt[of ?L ?L StartSeq] by simp
    ultimately have d: "1 \<le> off ?L StartSeq" "off ?L StartSeq \<le> 2048" by linarith+
    show ?thesis
    proof (cases "off ?L StartSeq = 2048")
      case True
      then have "SEQ_SMALLER (Sequence m) StartSeq MAXSEQ" if "m \<in> set ?ms" for m
        using p(1,3) that by (intro SEQ_SMALLER_behind[of ?L]) (auto simp: pending_ok_def)
      then have "?pre = ?ms" by (simp add: le_prefix_def takeWhile_eq_all_conv)
      then show ?thesis by simp
    next
      case False
      have "off ?L ?l + 1 = off ?L StartSeq"
        using off_trans[of ?L ?l StartSeq] l(2) off_shift_ge[of ?L ?l StartSeq]
          off_shift_lt[of ?L StartSeq ?l] d off_range[of ?L ?l] by (cases "off ?L ?l \<le> off ?L StartSeq") auto
      then have "pending_ok 2 ?l (?W - off ?L ?l) (drop (length ?pre) ?ms)"
        using le_prefix_rest_bar[OF p(1) _ s] d False p(3) by simp
      then show ?thesis by (rule pending_ok_mono) auto
    qed
  qed
  then show ?thesis
    using res ok wf l(1) by (auto simp: session_ok_def le_prefix_length seq_ok_not_reset)
qed

text \<open>A Block-Ack-Request for a pending number passes that frame up but leaves
  \<open>LastIndSeq\<close> one short of it.\<close>

lemma bar_delivers_start:
  assumes live: "session_live W e" and s: "s \<in> Sequence ` set (next_mpdus (reorder_list e))"
  shows "\<exists>a' e' cs. bar_session_rx a e s = Some (a', e') \<and> calls a' = calls a @ cs \<and>
    s \<in> set (delivered cs) \<and> session_ok e' \<and> off (LastIndSeq e') s = 1"
proof -
  let ?ms = "next_mpdus (reorder_list e)" and ?L = "LastIndSeq e"
  have e: "list_wf (reorder_list e)" "pending_ok 2 ?L W ?ms" "W < 256" "session_ok e"
    using live by (auto simp: session_live_def session_ok_def)
  have so: "seq_ok s" "2 \<le> off ?L s" "off ?L s \<le> W" using e(2) s by (auto simp: pending_ok_def)
  have "SEQ_SMALLER ?L s MAXSEQ" using so e(3) by (intro SEQ_SMALLER_behind[of ?L]) auto
  then have r: "bar_session_rx a e s = Some (pass_up a (le_prefix s ?ms),
      e\<lparr>reorder_list := drop_list (length (le_prefix s ?ms)) (reorder_list e),
        LastIndSeq := (if s = 0 then MAXSEQ else s - 1)\<rparr>)"
    using le_seq_eq[OF e(1), of a s] by (auto simp: bar_session_rx_def Let_def)
  have "s \<in> Sequence ` set (le_prefix s ?ms)"
    using s le_prefix_split(1)[OF e(2) _ so(1)] so(3) e(3) by auto
  moreover have "off (if s = 0 then MAXSEQ else s - 1) s = 1"
    using so(1) by (auto simp: seq_ok_def off_def MAXSEQ_def)
  ultimately show ?thesis
    using bar_session_ok[OF e(4) so(1), of a] by (auto simp: r ba_simps)
qed

lemma in_order_frame_delivered:
  assumes "list_wf (reorder_list e)" "seq_ok (rx_Sequence rx)" "off (LastIndSeq e) (rx_Sequence rx) = 1"
  shows "\<exists>a' e' cs. ampdu_cases a e rx b now = Some (a', e') \<and>
    calls a' = calls a @ indicate_call rx b # cs"
proof -
  have "SEQ_STEPONE (rx_Sequence rx) (LastIndSeq e) MAXSEQ" using assms by (simp add: SEQ_STEPONE_iff)
  then show ?thesis
    using in_order_eq[of "e\<lparr>LastIndSeq := rx_Sequence rx\<rparr>" "log_call a (indicate_call rx b)" "rx_Sequence rx"] assms(1)
    by (auto simp: ampdu_cases_def Let_def ba_simps)
qed

end
