(* ===== verification/BaProps.thy ===== *)
theory BaProps
  imports BaOrder BaConserve
begin

text \<open>The properties of the reordering buffer of one recipient session, each with the theorem
  that applies it at a concrete session.\<close>

section \<open>A concrete session\<close>

text \<open>A pool of three blocks, a session of window size 8 that has released number 4094 and holds
  0 and 3 back, and frames of given numbers.\<close>

definition wit_blk :: "nat \<Rightarrow> int \<Rightarrow> reordering_mpdu" where
  "wit_blk n s = \<lparr>blk_addr = n, pPacket = n + 100, Sequence = s, bAMSDU = False, OpMode = 0\<rparr>"

definition wit_ctx :: ba_ctx where
  "wit_ctx = \<lparr>freelist = \<lparr>next_mpdus = [wit_blk 1 0, wit_blk 2 0, wit_blk 3 0], qlen = 3\<rparr>,
     OS_HZ = 1000, calls = []\<rparr>"

definition wit_entry :: BA_REC_ENTRY where
  "wit_entry = \<lparr>rec_Wcid = 1, rec_TID = 0, rec_BAWinSize = 8, LastIndSeq = 4094,
     rec_TimeOutValue = 0,
     RECBATimer = \<lparr>tm_Valid = True, tm_State = False, tm_PeriodicType = True, tm_Repeat = False, tm_TimerValue = 0, tm_pending = False, tm_timeout = 0\<rparr>,
     LastIndSeqAtTimer = 1000, nDropPacket = 0, rcvSeq = 3, REC_BA_Status = Recipient_Accept,
     reorder_list = \<lparr>next_mpdus = [wit_blk 4 0, wit_blk 5 3], qlen = 2\<rparr>\<rparr>"

definition wit_rx :: "int \<Rightarrow> RX_BLK" where
  "wit_rx s = \<lparr>rx_Sequence = s, pRxPacket = 7, DataSize = 100, rx_Flags = 0, rx_OpMode = 0,
     RxWIWirelessCliID = 1, RxWITID = 0\<rparr>"

lemma wit_session_ok: "session_live 8 wit_entry"
  by (simp add: session_live_def session_ok_def wit_entry_def wit_blk_def list_wf_def pending_ok_def
      off_def seq_ok_def RESET_RCV_SEQ_def)

lemma wit_pool_ok: "pool_ok wit_ctx" "next_mpdus (freelist wit_ctx) \<noteq> []"
  by (simp_all add: pool_ok_def list_wf_def wit_ctx_def)

lemma wit_rx_ok: "0 \<le> s \<Longrightarrow> s < 4096 \<Longrightarrow> seq_ok (rx_Sequence (wit_rx s))"
  "\<not> RX_BLK_TEST_FLAG (wit_rx s) fRX_EAP"
  by (simp_all add: wit_rx_def seq_ok_def RX_BLK_TEST_FLAG_def)

section \<open>Properties\<close>

text \<open>C1. Receiving one MPDU of an established session refines the abstract reordering buffer: for
  a session that satisfies the window invariant, a frame with a 12-bit number that is not EAPOL, and
  a pool that has a free block, \<open>ampdu_session_rx\<close> returns (no null block is followed), the
  numbers it passes up, in order, and the new window and pending set are exactly those of the
  abstract step (timeout flush, then receive), and the invariant holds again.\<close>

theorem ampdu_refines_reorder_buffer:
  assumes "session_ok e" and "seq_ok (rx_Sequence rx)"
    and "pool_ok a" and "next_mpdus (freelist a) \<noteq> []" and "\<not> RX_BLK_TEST_FLAG rx fRX_EAP"
  shows "\<exists>a' e' cs. ampdu_session_rx a e rx b now = Some (a', e') \<and> calls a' = calls a @ cs \<and>
    (delivered cs, session_abs e') =
      rob_session_rx (rec_BAWinSize e) (flush_kind (OS_HZ a) now e) (session_abs e) (rx_Sequence rx) \<and>
    session_ok e' \<and> rec_BAWinSize e' = rec_BAWinSize e \<and> pool_ok a'"
  using session_rx_refines[OF assms, of b now] unfolding session_live_def by blast

theorem ampdu_refines_reorder_buffer_witness:
  "\<exists>a' e' cs. ampdu_session_rx wit_ctx wit_entry (wit_rx 4095) 0 1001 = Some (a', e') \<and>
    calls a' = calls wit_ctx @ cs \<and>
    (delivered cs, session_abs e') =
      rob_session_rx (rec_BAWinSize wit_entry) (flush_kind (OS_HZ wit_ctx) 1001 wit_entry)
        (session_abs wit_entry) (rx_Sequence (wit_rx 4095)) \<and>
    session_ok e' \<and> rec_BAWinSize e' = rec_BAWinSize wit_entry \<and> pool_ok a'"
  using wit_session_ok
  by (intro ampdu_refines_reorder_buffer wit_pool_ok wit_rx_ok) (simp_all add: session_live_def)

text \<open>C2. In-order, exactly-once delivery over a run: starting from a session whose last number
  passed up is \<open>LastIndSeq\<close> and that holds nothing back, for every list of frames with 12-bit
  numbers (in any order, with repetitions and gaps, at any times) during which a block is always free,
  no frame is EAPOL and the half-second timeout does not reset the session, every number passed up
  lies 1 to 2047 ahead of the number passed up before it: no number is passed up twice or late.\<close>

theorem run_delivers_in_order:
  assumes "session_live W e" and "next_mpdus (reorder_list e) = []" and "pool_ok a"
    and "buffered_run a e b ins"
  shows "\<exists>a' e' cs. session_run a e b ins = Some (a', e') \<and> calls a' = calls a @ cs \<and>
    session_live W e' \<and> forward_chain (LastIndSeq e) (delivered cs)"
  using session_run_chain[OF assms(1,3) _ assms(4), of "LastIndSeq e"] assms(2)
  by (simp add: chain_inv_def)

theorem run_delivers_in_order_witness:
  "\<exists>a' e' cs. session_run wit_ctx (wit_entry\<lparr>reorder_list := \<lparr>next_mpdus = [], qlen = 0\<rparr>\<rparr>) 0
      [(wit_rx 4095, 1001)] = Some (a', e') \<and> calls a' = calls wit_ctx @ cs \<and>
    session_live 8 e' \<and> forward_chain 4094 (delivered cs)"
proof -
  let ?e = "wit_entry\<lparr>reorder_list := \<lparr>next_mpdus = [], qlen = 0\<rparr>\<rparr>"
  have "session_live 8 ?e" "next_mpdus (reorder_list ?e) = []" "LastIndSeq ?e = 4094"
    by (simp_all add: session_live_def session_ok_def wit_entry_def list_wf_def seq_ok_def RESET_RCV_SEQ_def)
  moreover have "buffered_run wit_ctx ?e 0 [(wit_rx 4095, 1001)]"
    using wit_rx_ok(1)[of 4095] wit_rx_ok(2)[of 4095] wit_pool_ok(2)
    by (simp add: flush_kind_def split: option.split)
  ultimately show ?thesis
    using run_delivers_in_order[OF _ _ wit_pool_ok(1), of 8 ?e 0 "[(wit_rx 4095, 1001)]"] by simp
qed

text \<open>C3. No packet and no list block is lost or duplicated: whenever the counters of the pool and
  of the pending list are right (no assumption on the window or on the pool having a block), receiving
  a frame that is not EAPOL returns, keeps the counters right, and the packet handles handed on (passed
  up or released) together with those pending are the earlier ones plus the received one, while the
  blocks free or pending are the same as before.\<close>

theorem ampdu_conserves_packets_and_blocks:
  assumes "lists_wf a e" and "\<not> RX_BLK_TEST_FLAG rx fRX_EAP"
  shows "\<exists>a' e'. ampdu_session_rx a e rx b now = Some (a', e') \<and> lists_wf a' e' \<and>
    packets a' e' = packets a e + {#pRxPacket rx#} \<and> blocks a' e' = blocks a e"
  using session_rx_conserves[OF assms, of b now] unfolding conserves_def by blast

theorem ampdu_conserves_packets_and_blocks_witness:
  "\<exists>a' e'. ampdu_session_rx wit_ctx wit_entry (wit_rx 2) 0 1001 = Some (a', e') \<and> lists_wf a' e' \<and>
    packets a' e' = {#7, 104, 105#} \<and> blocks a' e' = {#1, 2, 3, 4, 5#}"
proof -
  have "lists_wf wit_ctx wit_entry"
    by (simp add: lists_wf_def list_wf_def wit_ctx_def wit_entry_def)
  moreover have "packets wit_ctx wit_entry + {#pRxPacket (wit_rx 2)#} = {#7, 104, 105#}"
    "blocks wit_ctx wit_entry = {#1, 2, 3, 4, 5#}"
    by (simp_all add: packets_def blocks_def wit_ctx_def wit_entry_def wit_blk_def wit_rx_def)
  ultimately show ?thesis
    using ampdu_conserves_packets_and_blocks[of wit_ctx wit_entry "wit_rx 2" 0 1001] wit_rx_ok(2)
    by simp
qed

text \<open>An EAPOL frame that reaches the queue branch while a block is free takes that block out of
  the pool for ever: it is neither free nor pending afterwards.\<close>

theorem eapol_frame_leaks_block:
  assumes "lists_wf a e" and "next_mpdus (freelist a) = blk # bs" and "RX_BLK_TEST_FLAG rx fRX_EAP"
  shows "\<exists>a' e'. ba_enqueue_reordering_packet a e rx b = Some (a', e') \<and>
    blocks a e = add_mset (blk_addr blk) (blocks a' e')"
  using eapol_enqueue_leaks[OF assms, of b] by auto

theorem eapol_frame_leaks_block_witness:
  "\<exists>a' e'. ba_enqueue_reordering_packet wit_ctx wit_entry ((wit_rx 2)\<lparr>rx_Flags := 0x100\<rparr>) 0 = Some (a', e') \<and>
    blocks wit_ctx wit_entry = add_mset 1 (blocks a' e')"
  using eapol_frame_leaks_block[of wit_ctx wit_entry "wit_blk 1 0" "[wit_blk 2 0, wit_blk 3 0]"
      "(wit_rx 2)\<lparr>rx_Flags := 0x100\<rparr>" 0]
  by (simp add: lists_wf_def list_wf_def wit_ctx_def wit_entry_def wit_blk_def RX_BLK_TEST_FLAG_def fRX_EAP_def)

text \<open>A Block-Ack-Request keeps the window invariant, whatever 12-bit starting number it carries
  and in whatever state the session is.\<close>

theorem bar_keeps_window:
  assumes "session_ok e" and "seq_ok StartSeq"
  shows "\<exists>a' e'. bar_session_rx a e StartSeq = Some (a', e') \<and> session_ok e' \<and>
    rec_BAWinSize e' = rec_BAWinSize e"
  using bar_session_ok[OF assms] by blast

theorem bar_keeps_window_witness:
  "\<exists>a' e'. bar_session_rx wit_ctx wit_entry 2 = Some (a', e') \<and> session_ok e' \<and> rec_BAWinSize e' = 8"
  using bar_keeps_window[of wit_entry 2 wit_ctx] wit_session_ok
  by (simp add: session_live_def seq_ok_def)

text \<open>C4. A Block-Ack-Request whose starting number is pending passes the frame up but moves
  \<open>LastIndSeq\<close> to the number before it, so a retransmission of that frame is taken as the next in
  order and passed up a second time.\<close>

theorem bar_then_retransmission_delivered_twice:
  assumes "session_live W e" and "rx_Sequence rx \<in> Sequence ` set (next_mpdus (reorder_list e))"
  shows "\<exists>a1 e1 cs a2 e2 cs'. bar_session_rx a e (rx_Sequence rx) = Some (a1, e1) \<and>
    calls a1 = calls a @ cs \<and> rx_Sequence rx \<in> set (delivered cs) \<and>
    ampdu_cases a1 e1 rx b now = Some (a2, e2) \<and> calls a2 = calls a1 @ cs' \<and>
    rx_Sequence rx \<in> set (delivered cs')"
proof -
  obtain a1 e1 cs where bar: "bar_session_rx a e (rx_Sequence rx) = Some (a1, e1)" "calls a1 = calls a @ cs"
      "rx_Sequence rx \<in> set (delivered cs)" "session_ok e1" "off (LastIndSeq e1) (rx_Sequence rx) = 1"
    using bar_delivers_start[OF assms, of a] by blast
  have "seq_ok (rx_Sequence rx)"
    using session_live_rob_ok[OF assms(1)] assms(2) by (auto simp: rob_ok_def)
  then obtain a2 e2 cs' where "ampdu_cases a1 e1 rx b now = Some (a2, e2)"
      "calls a2 = calls a1 @ indicate_call rx b # cs'"
    using in_order_frame_delivered[of e1 rx a1 b now] bar(4,5) by (auto simp: session_ok_def)
  moreover have "rx_Sequence rx \<in> set (delivered (indicate_call rx b # cs'))" by simp
  ultimately show ?thesis using bar(1-3) by blast
qed

theorem bar_then_retransmission_delivered_twice_witness:
  "\<exists>a1 e1 cs a2 e2 cs'. bar_session_rx wit_ctx wit_entry 3 = Some (a1, e1) \<and>
    calls a1 = calls wit_ctx @ cs \<and> 3 \<in> set (delivered cs) \<and>
    ampdu_cases a1 e1 (wit_rx 3) 0 1001 = Some (a2, e2) \<and> calls a2 = calls a1 @ cs' \<and>
    3 \<in> set (delivered cs')"
  using bar_then_retransmission_delivered_twice[OF wit_session_ok, of "wit_rx 3" wit_ctx 0 1001]
  by (simp add: wit_rx_def wit_entry_def wit_blk_def)

end
