(* ===== verification/BaSession.thy ===== *)
theory BaSession
  imports BaTimeout
begin

text \<open>The block-ack sessions of common/ba_action.c: the recipient and originator tables, the
  per-station arrays that point into them, session set-up and tear-down, the ADDBA and DELBA
  handlers and the two session timers. Reading or writing a per-station array outside its eight
  entries is the result \<open>None\<close>.\<close>

section \<open>Data\<close>

datatype ORI_BLOCKACK_STATUS = Originator_NONE | Originator_USED | Originator_WaitRes | Originator_Done

text \<open>The enumeration is compared by value.\<close>

instantiation ORI_BLOCKACK_STATUS :: linorder
begin

fun ori_value :: "ORI_BLOCKACK_STATUS \<Rightarrow> nat" where
  "ori_value Originator_NONE = 0"
| "ori_value Originator_USED = 1"
| "ori_value Originator_WaitRes = 2"
| "ori_value Originator_Done = 3"

definition less_eq_ORI_BLOCKACK_STATUS :: "ORI_BLOCKACK_STATUS \<Rightarrow> ORI_BLOCKACK_STATUS \<Rightarrow> bool" where
  "less_eq_ORI_BLOCKACK_STATUS x y = (ori_value x \<le> ori_value y)"

definition less_ORI_BLOCKACK_STATUS :: "ORI_BLOCKACK_STATUS \<Rightarrow> ORI_BLOCKACK_STATUS \<Rightarrow> bool" where
  "less_ORI_BLOCKACK_STATUS x y = (ori_value x < ori_value y)"

instance
proof
  fix x y :: ORI_BLOCKACK_STATUS
  show "x \<le> y \<Longrightarrow> y \<le> x \<Longrightarrow> x = y"
    by (cases x; cases y) (simp_all add: less_eq_ORI_BLOCKACK_STATUS_def)
qed (auto simp: less_eq_ORI_BLOCKACK_STATUS_def less_ORI_BLOCKACK_STATUS_def)

end

record BA_ORI_ENTRY =
  ori_Wcid :: nat
  ori_TID :: nat
  ori_BAWinSize :: int
  ori_Token :: nat
  ori_Sequence :: int
  ori_TimeOutValue :: int
  ORI_BA_Status :: ORI_BLOCKACK_STATUS
  ORIBATimer :: ralink_timer

datatype ENTRY_TYPE = ENTRY_NONE | ENTRY_CLIENT | ENTRY_WDS | ENTRY_APCLI | ENTRY_MESH | ENTRY_DLS | ENTRY_TDLS

text \<open>\<open>MAC_TABLE_ENTRY\<close>: the fields of a station the session code reads and writes. The
  member of \<open>ClientStatusFlags\<close> for the chipset and the comparison of the HT mode
  (\<open>IS_HT_STA\<close>) are kept as booleans.\<close>

record MAC_TABLE_ENTRY =
  EntryType :: ENTRY_TYPE
  Addr :: mac_addr
  Aid :: nat
  RXBAbitmap :: "16 word"
  TXBAbitmap :: "16 word"
  BADeclineBitmap :: "16 word"
  BARecWcidArray :: "nat list"
  BAOriWcidArray :: "nat list"
  TxSeq :: "int list"
  IS_HT_STA :: bool
  is_RALINK_CHIPSET :: bool
  MaxRAmpduFactor :: nat
  WepDisabled :: bool

text \<open>The adapter: the tables, the configuration the handlers read, and the outcomes of the
  coming memory allocations.\<close>

record adapter = ba_ctx +
  Content :: "MAC_TABLE_ENTRY list"
  numAsRecipient :: int
  numAsOriginator :: int
  numDoneOriginator :: int
  BAOriEntry :: "BA_ORI_ENTRY list"
  BARecEntry :: "BA_REC_ENTRY list"
  RxBAWinLimit :: int
  AutoBA :: bool
  bBADecline :: bool
  FixedTxMode_HT :: bool
  IS_MT7601 :: bool
  MACVersion :: nat
  STA_TGN_WIFI_ON :: bool
  MONITOR_or_ATE_ON :: bool
  ADHOC_ON :: bool
  Bssid :: mac_addr
  CurrentAddress :: mac_addr
  scan_while_connected :: bool
  HALT_or_NIC_NOT_EXIST :: bool
  alloc_results :: "bool list"

definition MAX_LEN_OF_MAC_TABLE :: nat where "MAX_LEN_OF_MAC_TABLE = 32"
definition NUM_OF_TID :: nat where "NUM_OF_TID = 8"
definition MAX_LEN_OF_BA_REC_TABLE :: nat where "MAX_LEN_OF_BA_REC_TABLE = (8 * 32) div 2"
definition MAX_LEN_OF_BA_ORI_TABLE :: nat where "MAX_LEN_OF_BA_ORI_TABLE = (8 * 32) div 2"

definition VALID_WCID :: "nat \<Rightarrow> bool" where
  "VALID_WCID w = (w > 0 \<and> w < MAX_LEN_OF_MAC_TABLE)"

lemmas table_sizes = MAX_LEN_OF_MAC_TABLE_def NUM_OF_TID_def MAX_LEN_OF_BA_REC_TABLE_def
  MAX_LEN_OF_BA_ORI_TABLE_def

text \<open>The next allocation.\<close>

definition take_alloc :: "adapter \<Rightarrow> bool \<times> adapter" where
  "take_alloc a = (case alloc_results a of [] \<Rightarrow> (True, a) | r # rs \<Rightarrow> (r, a\<lparr>alloc_results := rs\<rparr>))"

definition upd_mac :: "adapter \<Rightarrow> nat \<Rightarrow> (MAC_TABLE_ENTRY \<Rightarrow> MAC_TABLE_ENTRY) \<Rightarrow> adapter" where
  "upd_mac a w f = a\<lparr>Content := (Content a)[w := f (Content a ! w)]\<rparr>"

definition upd_rec :: "adapter \<Rightarrow> nat \<Rightarrow> (BA_REC_ENTRY \<Rightarrow> BA_REC_ENTRY) \<Rightarrow> adapter" where
  "upd_rec a i f = a\<lparr>BARecEntry := (BARecEntry a)[i := f (BARecEntry a ! i)]\<rparr>"

definition upd_ori :: "adapter \<Rightarrow> nat \<Rightarrow> (BA_ORI_ENTRY \<Rightarrow> BA_ORI_ENTRY) \<Rightarrow> adapter" where
  "upd_ori a i f = a\<lparr>BAOriEntry := (BAOriEntry a)[i := f (BAOriEntry a ! i)]\<rparr>"

section \<open>The two-byte fields (include/mlme.h, little endian)\<close>

definition BA_PARM_word :: "bool \<Rightarrow> bool \<Rightarrow> nat \<Rightarrow> int \<Rightarrow> 16 word" where
  "BA_PARM_word AMSDUSupported BAPolicy TID BufSize =
    (of_bool AMSDUSupported OR push_bit 1 (of_bool BAPolicy) OR
     push_bit 2 (take_bit 4 (of_nat TID)) OR push_bit 6 (take_bit 10 (of_int BufSize)))"

definition BA_PARM_BAPolicy :: "16 word \<Rightarrow> bool" where "BA_PARM_BAPolicy w = bit w 1"
definition BA_PARM_TID :: "16 word \<Rightarrow> nat" where "BA_PARM_TID w = unat (take_bit 4 (drop_bit 2 w))"
definition BA_PARM_BufSize :: "16 word \<Rightarrow> int" where "BA_PARM_BufSize w = uint (drop_bit 6 w)"

definition DELBA_PARM_word :: "bool \<Rightarrow> nat \<Rightarrow> 16 word" where
  "DELBA_PARM_word Initiator TID = push_bit 11 (of_bool Initiator) OR push_bit 12 (take_bit 4 (of_nat TID))"

definition DELBA_PARM_Initiator :: "16 word \<Rightarrow> bool" where "DELBA_PARM_Initiator w = bit w 11"
definition DELBA_PARM_TID :: "16 word \<Rightarrow> nat" where "DELBA_PARM_TID w = unat (drop_bit 12 w)"

definition BASEQ_CONTROL_word :: "int \<Rightarrow> int \<Rightarrow> 16 word" where
  "BASEQ_CONTROL_word FragNum StartSeq = take_bit 4 (of_int FragNum) OR push_bit 4 (take_bit 12 (of_int StartSeq))"

definition BASEQ_CONTROL_StartSeq :: "16 word \<Rightarrow> int" where "BASEQ_CONTROL_StartSeq w = uint (drop_bit 4 w)"

definition BAR_CONTROL_word :: "bool \<Rightarrow> bool \<Rightarrow> bool \<Rightarrow> nat \<Rightarrow> 16 word" where
  "BAR_CONTROL_word ACKPolicy MTID Compressed TID =
    (of_bool ACKPolicy OR push_bit 1 (of_bool MTID) OR push_bit 2 (of_bool Compressed) OR
     push_bit 12 (take_bit 4 (of_nat TID)))"

definition BAR_CONTROL_TID :: "16 word \<Rightarrow> nat" where "BAR_CONTROL_TID w = unat (drop_bit 12 w)"

text \<open>\<open>IMMED_BA\<close> and the two values of the initiator bit.\<close>

definition IMMED_BA :: bool where "IMMED_BA = True"
definition ORIGINATOR :: bool where "ORIGINATOR = True"
definition RECIPIENT :: bool where "RECIPIENT = False"

definition MGMT_USE_QUEUE_FLAG :: nat where "MGMT_USE_QUEUE_FLAG = 0x80"

definition MapUserPriorityToAccessCategory :: "nat list" where
  "MapUserPriorityToAccessCategory = [0, 1, 1, 0, 2, 2, 3, 3]"

section \<open>The frames received and the MLME requests\<close>

record ADDBA_REQ_MSG =
  areq_Addr2 :: mac_addr
  areq_Token :: nat
  areq_BaParm :: "16 word"
  areq_TimeOutValue :: int

record ADDBA_RSP_MSG =
  arsp_StatusCode :: nat
  arsp_BaParm :: "16 word"
  arsp_TimeOutValue :: int

record MLME_ADDBA_REQ =
  aq_Wcid :: nat
  aq_pAddr :: mac_addr
  aq_BaBufSize :: int
  aq_TimeOutValue :: int
  aq_TID :: nat
  aq_Token :: nat

record MLME_DELBA_REQ =
  dq_Wcid :: nat
  dq_Addr :: mac_addr
  dq_TID :: nat
  dq_Initiator :: bool

text \<open>The sizes of the packed frames and of the two MLME requests.\<close>

definition sizeof_FRAME_ADDBA_REQ :: nat where "sizeof_FRAME_ADDBA_REQ = 33"
definition sizeof_FRAME_ADDBA_RSP :: nat where "sizeof_FRAME_ADDBA_RSP = 33"
definition sizeof_FRAME_DELBA_REQ :: nat where "sizeof_FRAME_DELBA_REQ = 30"
definition sizeof_FRAME_BA_REQ :: nat where "sizeof_FRAME_BA_REQ = 20"
definition sizeof_MLME_ADDBA_REQ_STRUCT :: nat where "sizeof_MLME_ADDBA_REQ_STRUCT = 14"
definition sizeof_MLME_DELBA_REQ_STRUCT :: nat where "sizeof_MLME_DELBA_REQ_STRUCT = 9"

lemmas frame_sizes = sizeof_FRAME_ADDBA_REQ_def sizeof_FRAME_ADDBA_RSP_def sizeof_FRAME_DELBA_REQ_def
  sizeof_FRAME_BA_REQ_def sizeof_MLME_ADDBA_REQ_STRUCT_def sizeof_MLME_DELBA_REQ_STRUCT_def

text \<open>The header of an action frame to a peer: in an ad-hoc network it is addressed to the peer,
  in infrastructure mode to the BSS.\<close>

definition ActHeaderInit :: "adapter \<Rightarrow> mac_addr option \<Rightarrow> act_hdr" where
  "ActHeaderInit a peer =
    (if ADHOC_ON a then (peer, Some (CurrentAddress a), Some (Bssid a))
     else (Some (Bssid a), Some (CurrentAddress a), peer))"

section \<open>Message checks (common/cmm_sanity.c)\<close>

definition MlmeAddBAReqSanity :: "MLME_ADDBA_REQ \<Rightarrow> nat \<Rightarrow> bool" where
  "MlmeAddBAReqSanity i MsgLen =
    (if MsgLen \<noteq> sizeof_MLME_ADDBA_REQ_STRUCT then False
     else if aq_Wcid i \<ge> MAX_LEN_OF_MAC_TABLE then False
     else if bit (hd (aq_pAddr i)) 0 then False
     else True)"

definition MlmeDelBAReqSanity :: "adapter \<Rightarrow> MLME_DELBA_REQ \<Rightarrow> nat \<Rightarrow> bool" where
  "MlmeDelBAReqSanity a i MsgLen =
    (if MsgLen \<noteq> sizeof_MLME_DELBA_REQ_STRUCT then False
     else if dq_Wcid i \<ge> MAX_LEN_OF_MAC_TABLE then False
     else if (of_nat (dq_TID i) :: byte) AND 0xf0 \<noteq> 0 then False
     else if Addr (Content a ! dq_Wcid i) \<noteq> dq_Addr i then False
     else True)"

text \<open>The address is read only after the length check.\<close>

definition PeerAddBAReqActionSanity :: "ADDBA_REQ_MSG \<Rightarrow> nat \<Rightarrow> bool \<times> mac_addr option" where
  "PeerAddBAReqActionSanity f MsgLen =
    (if MsgLen < sizeof_FRAME_ADDBA_REQ then (False, None)
     else if BA_PARM_BAPolicy (areq_BaParm f) \<noteq> IMMED_BA then (False, Some (areq_Addr2 f))
     else (True, Some (areq_Addr2 f)))"

definition PeerAddBARspActionSanity :: "ADDBA_RSP_MSG \<Rightarrow> nat \<Rightarrow> bool" where
  "PeerAddBARspActionSanity f MsgLen =
    (if MsgLen < sizeof_FRAME_ADDBA_RSP then False
     else if BA_PARM_BAPolicy (arsp_BaParm f) \<noteq> IMMED_BA then False
     else True)"

definition PeerDelBAActionSanity :: "nat \<Rightarrow> nat \<Rightarrow> bool" where
  "PeerDelBAActionSanity Wcid MsgLen =
    (if MsgLen \<noteq> sizeof_FRAME_DELBA_REQ then False
     else if Wcid \<ge> MAX_LEN_OF_MAC_TABLE then False
     else True)"

section \<open>The session tables\<close>

definition BATableInit :: "adapter \<Rightarrow> adapter" where
  "BATableInit a = a\<lparr>numAsOriginator := 0, numAsRecipient := 0, numDoneOriginator := 0,
     BARecEntry := map (\<lambda>e. e\<lparr>REC_BA_Status := Recipient_NONE\<rparr>) (BARecEntry a),
     BAOriEntry := map (\<lambda>e. e\<lparr>ORI_BA_Status := Originator_NONE\<rparr>) (BAOriEntry a)\<rparr>"

text \<open>The search for a free entry: the index of the entry returned, with whether it was free (the
  loop leaves the last entry in \<open>pBAEntry\<close> when none is). The caller's \<open>Idx\<close> is only
  written when an entry is taken.\<close>

definition BATableAllocRecEntry :: "adapter \<Rightarrow> nat \<Rightarrow> nat option \<times> nat \<times> adapter" where
  "BATableAllocRecEntry a Idx =
    (if numAsRecipient a \<ge> int (MAX_LEN_OF_BA_REC_TABLE - 1) then (None, Idx, a)
     else case find (\<lambda>i. REC_BA_Status (BARecEntry a ! i) = Recipient_NONE) [1..<MAX_LEN_OF_BA_REC_TABLE] of
       Some i \<Rightarrow> (Some i, i,
         upd_rec (a\<lparr>numAsRecipient := ULONG (numAsRecipient a + 1)\<rparr>) i (\<lambda>e. e\<lparr>REC_BA_Status := Recipient_USED\<rparr>))
     | None \<Rightarrow> (Some (MAX_LEN_OF_BA_REC_TABLE - 1), Idx, a))"

definition BATableAllocOriEntry :: "adapter \<Rightarrow> nat \<Rightarrow> nat option \<times> nat \<times> adapter" where
  "BATableAllocOriEntry a Idx =
    (if numAsOriginator a \<ge> int (MAX_LEN_OF_BA_ORI_TABLE - 1) then (None, Idx, a)
     else case find (\<lambda>i. ORI_BA_Status (BAOriEntry a ! i) = Originator_NONE) [1..<MAX_LEN_OF_BA_ORI_TABLE] of
       Some i \<Rightarrow> (Some i, i,
         upd_ori (a\<lparr>numAsOriginator := ULONG (numAsOriginator a + 1)\<rparr>) i (\<lambda>e. e\<lparr>ORI_BA_Status := Originator_USED\<rparr>))
     | None \<Rightarrow> (Some (MAX_LEN_OF_BA_ORI_TABLE - 1), Idx, a))"

definition BATableFreeOriEntry :: "adapter \<Rightarrow> nat \<Rightarrow> adapter option" where
  "BATableFreeOriEntry a Idx =
    (if Idx = 0 \<or> Idx \<ge> MAX_LEN_OF_BA_ORI_TABLE then Some a
     else do {
       e \<leftarrow> nth_opt (BAOriEntry a) Idx;
       if ORI_BA_Status e \<noteq> Originator_NONE
       then do {
         st \<leftarrow> nth_opt (Content a) (ori_Wcid e);
         _ \<leftarrow> nth_opt (BAOriWcidArray st) (ori_TID e);
         let a1 = upd_mac a (ori_Wcid e) (\<lambda>st. st\<lparr>BAOriWcidArray := (BAOriWcidArray st)[ori_TID e := 0]\<rparr>);
         let a2 = (if ORI_BA_Status e = Originator_Done
                   then upd_mac (a1\<lparr>numDoneOriginator := ULONG (numDoneOriginator a1 - 1)\<rparr>) (ori_Wcid e)
                          (\<lambda>st. st\<lparr>TXBAbitmap := bit_clear (TXBAbitmap st) (ori_TID e)\<rparr>)
                   else a1);
         Some (upd_ori (a2\<lparr>numAsOriginator := ULONG (numAsOriginator a2 - 1)\<rparr>) Idx
           (\<lambda>e. e\<lparr>ORI_BA_Status := Originator_NONE, ori_Token := 0\<rparr>))
       }
       else Some a
     })"

definition BATableFreeRecEntry :: "adapter \<Rightarrow> nat \<Rightarrow> adapter option" where
  "BATableFreeRecEntry a Idx =
    (if Idx = 0 \<or> Idx \<ge> MAX_LEN_OF_BA_REC_TABLE then Some a
     else do {
       e \<leftarrow> nth_opt (BARecEntry a) Idx;
       if REC_BA_Status e \<noteq> Recipient_NONE
       then do {
         st \<leftarrow> nth_opt (Content a) (rec_Wcid e);
         _ \<leftarrow> nth_opt (BARecWcidArray st) (rec_TID e);
         let a1 = upd_mac a (rec_Wcid e) (\<lambda>st. st\<lparr>BARecWcidArray := (BARecWcidArray st)[rec_TID e := 0]\<rparr>);
         Some (upd_rec (a1\<lparr>numAsRecipient := ULONG (numAsRecipient a1 - 1)\<rparr>) Idx
           (\<lambda>e. e\<lparr>REC_BA_Status := Recipient_NONE\<rparr>))
       }
       else Some a
     })"

section \<open>Window size\<close>

definition RALINK_2883_VERSION :: nat where "RALINK_2883_VERSION = 0x28830300"
definition RALINK_3070_VERSION :: nat where "RALINK_3070_VERSION = 0x30700200"
definition RALINK_2880E_VERSION :: nat where "RALINK_2880E_VERSION = 0x28720200"

definition BA_MaxWinSizeReasign :: "adapter \<Rightarrow> MAC_TABLE_ENTRY \<Rightarrow> int \<Rightarrow> int" where
  "BA_MaxWinSizeReasign a peer WinSize =
    (let MaxPeerRxSize =
           (if is_RALINK_CHIPSET peer then UCHAR (2 ^ (MaxRAmpduFactor peer + 3))
            else UCHAR ((2 ^ (MaxRAmpduFactor peer + 3) * 10) div 16 - 1));
         MaxSize =
           (if IS_MT7601 a then 21
            else if MACVersion a \<ge> RALINK_2883_VERSION
            then (if MACVersion a \<ge> RALINK_3070_VERSION
                  then (if \<not> WepDisabled peer then 7 else 13)
                  else 31)
            else if MACVersion a \<ge> RALINK_2880E_VERSION
            then (if \<not> WepDisabled peer then 7 else 13)
            else 7);
         MaxSize' = min MaxPeerRxSize MaxSize
     in if WinSize > MaxSize' then MaxSize' else WinSize)"

section \<open>Originator sessions\<close>

definition set_ori_timer :: "adapter \<Rightarrow> nat \<Rightarrow> int \<Rightarrow> adapter" where
  "set_ori_timer a i v =
    upd_ori a i (\<lambda>e. e\<lparr>ORIBATimer := RTMPSetTimer (HALT_or_NIC_NOT_EXIST a) (ORIBATimer e) v\<rparr>)"

definition BAOriSessionSetUp ::
    "adapter \<Rightarrow> nat \<Rightarrow> nat \<Rightarrow> int \<Rightarrow> int \<Rightarrow> bool \<Rightarrow> adapter option" where
  "BAOriSessionSetUp a w TID TimeOut DelayTime isForced =
    (if TID \<ge> NUM_OF_TID then Some a
     else if \<not> AutoBA a \<and> \<not> isForced then Some a
     else if \<not> FixedTxMode_HT a then Some a
     else do {
       st \<leftarrow> nth_opt (Content a) w;
       let DelayTime' = (if bit_test (BADeclineBitmap st) TID \<and> \<not> isForced then 3000 else DelayTime);
       Idx0 \<leftarrow> nth_opt (BAOriWcidArray st) TID;
       case (if Idx0 = 0 then BATableAllocOriEntry a Idx0 else (Some Idx0, Idx0, a)) of
         (None, Idx, a1) \<Rightarrow> Some a1
       | (Some p, Idx, a1) \<Rightarrow> do {
           e \<leftarrow> nth_opt (BAOriEntry a1) p;
           if ORI_BA_Status e \<ge> Originator_WaitRes then Some a1
           else do {
             let a2 = upd_mac a1 w (\<lambda>st. st\<lparr>BAOriWcidArray := (BAOriWcidArray st)[TID := Idx]\<rparr>);
             let a3 = upd_ori a2 p (\<lambda>e. e\<lparr>ORI_BA_Status := Originator_WaitRes, ori_Wcid := Aid st mod 256,
                        ori_BAWinSize := RxBAWinLimit a, ori_Sequence := TxSeq st ! TID, ori_Token := 1,
                        ori_TID := TID, ori_TimeOutValue := TimeOut\<rparr>);
             let a4 = upd_ori a3 p (\<lambda>e. e\<lparr>ORIBATimer :=
                        (if \<not> bit_test (TXBAbitmap st) TID then RTMPInitTimer (ORIBATimer e) False
                         else RTMPCancelTimer (ORIBATimer e))\<rparr>);
             Some (set_ori_timer a4 p DelayTime')
           }
         }
     })"

definition MlmeDELBAAction :: "adapter \<Rightarrow> MLME_DELBA_REQ \<Rightarrow> nat \<Rightarrow> adapter option" where
  "MlmeDELBAAction a i MsgLen =
    (if MlmeDelBAReqSanity a i MsgLen \<and> VALID_WCID (dq_Wcid i)
     then (case take_alloc a of
         (False, a1) \<Rightarrow> Some a1
       | (True, a1) \<Rightarrow> (case take_alloc a1 of
             (False, a2) \<Rightarrow> Some a2
           | (True, a2) \<Rightarrow> do {
               st \<leftarrow> nth_opt (Content a2) (dq_Wcid i);
               _ \<leftarrow> nth_opt (BAOriWcidArray st) (dq_TID i);
               seq \<leftarrow> nth_opt (TxSeq st) (dq_TID i);
               let a3 = log_call a2 (MiniportMMRequest QID_AC_BE
                 (FRAME_BAR (Addr st) (CurrentAddress a2) (BAR_CONTROL_word IMMED_BA False True (dq_TID i))
                   (BASEQ_CONTROL_word 0 seq)));
               Some (log_call a3 (MiniportMMRequest QID_AC_BE
                 (FRAME_DELBA_REQ (ActHeaderInit a3 (Some (Addr st)))
                   (DELBA_PARM_word (dq_Initiator i) (dq_TID i)) 39)))
             }))
     else Some a)"

definition MlmeADDBAAction :: "adapter \<Rightarrow> MLME_ADDBA_REQ \<Rightarrow> nat \<Rightarrow> adapter option" where
  "MlmeADDBAAction a i MsgLen =
    (if MlmeAddBAReqSanity i MsgLen \<and> VALID_WCID (aq_Wcid i)
     then (case take_alloc a of
         (False, a1) \<Rightarrow> Some a1
       | (True, a1) \<Rightarrow> do {
           st \<leftarrow> nth_opt (Content a1) (aq_Wcid i);
           Idx \<leftarrow> nth_opt (BAOriWcidArray st) (aq_TID i);
           if Idx = 0 then Some a1
           else do {
             seq \<leftarrow> nth_opt (TxSeq st) (aq_TID i);
             q \<leftarrow> nth_opt MapUserPriorityToAccessCategory (aq_TID i);
             Some (log_call a1 (MiniportMMRequest (MGMT_USE_QUEUE_FLAG + q)
               (FRAME_ADDBA_REQ (ActHeaderInit a1 (Some (aq_pAddr i))) (aq_Token i)
                 (BA_PARM_word False IMMED_BA (aq_TID i) (aq_BaBufSize i)) (aq_TimeOutValue i)
                 (BASEQ_CONTROL_word 0 seq))))
           }
         })
     else Some a)"

text \<open>The DELBA request the two tear-downs build: a message is allocated for it.\<close>

definition send_delba :: "adapter \<Rightarrow> nat \<Rightarrow> nat \<Rightarrow> bool \<Rightarrow> bool \<times> adapter option" where
  "send_delba a Wcid TID Initiator =
    (case take_alloc a of
       (False, a1) \<Rightarrow> (False, Some a1)
     | (True, a1) \<Rightarrow> (True, MlmeDELBAAction a1
         \<lparr>dq_Wcid = Wcid, dq_Addr = Addr (Content a1 ! Wcid), dq_TID = TID, dq_Initiator = Initiator\<rparr>
         sizeof_MLME_DELBA_REQ_STRUCT))"

definition BAOriSessionTearDown ::
    "adapter \<Rightarrow> nat \<Rightarrow> nat \<Rightarrow> bool \<Rightarrow> bool \<Rightarrow> adapter option" where
  "BAOriSessionTearDown a Wcid TID bPassive bForceSend =
    (if Wcid \<ge> MAX_LEN_OF_MAC_TABLE then Some a
     else do {
       st \<leftarrow> nth_opt (Content a) Wcid;
       Idx \<leftarrow> nth_opt (BAOriWcidArray st) TID;
       if Idx = 0 \<or> Idx \<ge> MAX_LEN_OF_BA_ORI_TABLE
       then (if bForceSend then snd (send_delba a Wcid TID ORIGINATOR) else Some a)
       else do {
         e \<leftarrow> nth_opt (BAOriEntry a) Idx;
         (case (if \<not> bPassive \<and> TID = ori_TID e \<and> ORI_BA_Status e = Originator_Done
                then send_delba a Wcid (ori_TID e) ORIGINATOR else (True, Some a)) of
            (False, r) \<Rightarrow> r
          | (True, r) \<Rightarrow> do {
              a1 \<leftarrow> r;
              BATableFreeOriEntry (upd_ori a1 Idx (\<lambda>e. e\<lparr>ORIBATimer := RTMPCancelTimer (ORIBATimer e)\<rparr>)) Idx
            })
       }
     })"

definition BAOriSessionAdd :: "adapter \<Rightarrow> nat \<Rightarrow> ADDBA_RSP_MSG \<Rightarrow> adapter option" where
  "BAOriSessionAdd a w f =
    do {
      let TID = BA_PARM_TID (arsp_BaParm f);
      st \<leftarrow> nth_opt (Content a) w;
      Idx \<leftarrow> nth_opt (BAOriWcidArray st) TID;
      e \<leftarrow> nth_opt (BAOriEntry a) Idx;
      if Idx \<noteq> 0 \<and> ori_TID e = TID \<and> ORI_BA_Status e = Originator_WaitRes
      then do {
        let MaxPeerBufSize0 = UCHAR (BA_PARM_BufSize (arsp_BaParm f));
        let MaxPeerBufSize = (if MaxPeerBufSize0 > 0 then MaxPeerBufSize0 - 1 else 0);
        let a1 = upd_ori a Idx (\<lambda>e. e\<lparr>
              ori_BAWinSize := BA_MaxWinSizeReasign a st (min (ori_BAWinSize e) MaxPeerBufSize),
              ori_TimeOutValue := arsp_TimeOutValue f, ORI_BA_Status := Originator_Done\<rparr>);
        let a2 = upd_ori (a1\<lparr>numDoneOriginator := ULONG (numDoneOriginator a1 + 1)\<rparr>) Idx
              (\<lambda>e. e\<lparr>ori_Sequence := TxSeq st ! TID\<rparr>);
        let a3 = upd_mac a2 w (\<lambda>st. st\<lparr>TXBAbitmap := bit_set (TXBAbitmap st) TID\<rparr>);
        let a4 = upd_ori a3 Idx (\<lambda>e. e\<lparr>ORIBATimer := (RTMPCancelTimer (ORIBATimer e))\<lparr>tm_TimerValue := 0\<rparr>\<rparr>);
        case take_alloc a4 of
          (False, a5) \<Rightarrow> Some a5
        | (True, a5) \<Rightarrow> do {
            let e5 = BAOriEntry a5 ! Idx;
            peer \<leftarrow> nth_opt (Content a5) (ori_Wcid e5);
            let a6 = log_call a5 (MiniportMMRequest QID_AC_BE
                  (FRAME_BAR (Addr peer) (CurrentAddress a5) (BAR_CONTROL_word False False True (ori_TID e5))
                    (BASEQ_CONTROL_word 0 (ori_Sequence e5))));
            Some (if tm_TimerValue (ORIBATimer e5) \<noteq> 0
                  then set_ori_timer a6 Idx (tm_TimerValue (ORIBATimer e5)) else a6)
          }
      }
      else Some a
    }"

definition ORI_SESSION_MAX_RETRY :: nat where "ORI_SESSION_MAX_RETRY = 8"
definition ORI_BA_SESSION_TIMEOUT :: int where "ORI_BA_SESSION_TIMEOUT = 2000"

text \<open>The timer call-back of the originator entry \<open>Idx\<close>.\<close>

definition BAOriSessionSetupTimeout :: "adapter \<Rightarrow> nat \<Rightarrow> adapter option" where
  "BAOriSessionSetupTimeout a Idx =
    do {
      e \<leftarrow> nth_opt (BAOriEntry a) Idx;
      if MONITOR_or_ATE_ON a then Some a
      else do {
        st \<leftarrow> nth_opt (Content a) (ori_Wcid e);
        if ORI_BA_Status e = Originator_WaitRes \<and> ori_Token e < ORI_SESSION_MAX_RETRY
        then (if scan_while_connected a then Some (set_ori_timer a Idx ORI_BA_SESSION_TIMEOUT)
              else let a1 = log_call a (MlmeEnqueue_ADD_BA (Aid st mod 256) (Addr st)
                              (nat (RxBAWinLimit a)) (ori_TID e) (ori_Token e));
                       a2 = upd_ori a1 Idx (\<lambda>e. e\<lparr>ori_Token := (ori_Token e + 1) mod 256\<rparr>)
                   in Some (set_ori_timer a2 Idx ORI_BA_SESSION_TIMEOUT))
        else do {
          i \<leftarrow> nth_opt (BAOriWcidArray st) (ori_TID e);
          BATableFreeOriEntry a i
        }
      }
    }"

section \<open>Recipient sessions\<close>

text \<open>The window announced to the peer and used by the session.\<close>

definition rec_window :: "adapter \<Rightarrow> 16 word \<Rightarrow> int" where
  "rec_window a BaParm =
    (let BAWinSize = min (UCHAR (BA_PARM_BufSize BaParm)) (UCHAR (RxBAWinLimit a))
     in if BAWinSize = 0 then 64 else BAWinSize)"

definition BARecSessionAdd :: "adapter \<Rightarrow> nat \<Rightarrow> ADDBA_REQ_MSG \<Rightarrow> (bool \<times> adapter) option" where
  "BARecSessionAdd a w f =
    do {
      let TID = BA_PARM_TID (areq_BaParm f);
      let BAWinSize = rec_window a (areq_BaParm f);
      st \<leftarrow> nth_opt (Content a) w;
      Idx0 \<leftarrow> nth_opt (BARecWcidArray st) TID;
      (p, Idx, a1) \<leftarrow>
        (if Idx0 = 0 then Some (BATableAllocRecEntry a Idx0)
         else do {
           e \<leftarrow> nth_opt (BARecEntry a) Idx0;
           let (a', e') = ba_refresh_reordering_mpdus a e;
           Some (Some Idx0, Idx0, upd_rec a' Idx0 (\<lambda>_. e'))
         });
      case p of
        None \<Rightarrow> Some (False, a1)
      | Some i \<Rightarrow>
          (let a2 = upd_rec a1 i (\<lambda>e. e\<lparr>REC_BA_Status := Recipient_Accept, rec_BAWinSize := BAWinSize,
                      rec_Wcid := Aid st mod 256, rec_TID := TID, rec_TimeOutValue := areq_TimeOutValue f,
                      LastIndSeq := RESET_RCV_SEQ,
                      RECBATimer := (if bit_test (RXBAbitmap st) TID then RTMPCancelTimer (RECBATimer e)
                                     else RTMPInitTimer (RECBATimer e) True)\<rparr>);
               a3 = upd_mac a2 w (\<lambda>st. st\<lparr>RXBAbitmap := bit_set (RXBAbitmap st) TID,
                      BARecWcidArray := (BARecWcidArray st)[TID := Idx],
                      BADeclineBitmap := bit_clear (BADeclineBitmap st) TID\<rparr>)
           in Some (True, log_call a3 (RTMP_ADD_BA_SESSION_TO_ASIC (Aid st) TID)))
    }"

definition BARecSessionTearDown :: "adapter \<Rightarrow> nat \<Rightarrow> nat \<Rightarrow> bool \<Rightarrow> adapter option" where
  "BARecSessionTearDown a Wcid TID bPassive =
    (if Wcid \<ge> MAX_LEN_OF_MAC_TABLE then Some a
     else do {
       st \<leftarrow> nth_opt (Content a) Wcid;
       Idx \<leftarrow> nth_opt (BARecWcidArray st) TID;
       if Idx = 0 then Some a
       else do {
         e \<leftarrow> nth_opt (BARecEntry a) Idx;
         if TID = rec_TID e \<and> REC_BA_Status e = Recipient_Accept
         then (let a1 = upd_rec a Idx (\<lambda>e. e\<lparr>RECBATimer := RTMPCancelTimer (RECBATimer e)\<rparr>) in
           case (if \<not> bPassive then send_delba a1 Wcid TID RECIPIENT else (True, Some a1)) of
             (False, r) \<Rightarrow> r
           | (True, r) \<Rightarrow> do {
               a2 \<leftarrow> r;
               let (a3, e3) = ba_refresh_reordering_mpdus a2 (BARecEntry a2 ! Idx);
               let a4 = upd_rec a3 Idx (\<lambda>_. e3\<lparr>LastIndSeq := RESET_RCV_SEQ, rec_BAWinSize := 0\<rparr>);
               let a5 = upd_mac a4 Wcid (\<lambda>st. st\<lparr>RXBAbitmap := bit_clear (RXBAbitmap st) (rec_TID e),
                          BARecWcidArray := (BARecWcidArray st)[TID := 0]\<rparr>);
               BATableFreeRecEntry (log_call a5 (RTMP_DEL_BA_SESSION_FROM_ASIC Wcid TID)) Idx
             })
         else BATableFreeRecEntry a Idx
       }
     })"

primrec BASessionTearDown_tids :: "adapter \<Rightarrow> nat \<Rightarrow> nat list \<Rightarrow> adapter option" where
  "BASessionTearDown_tids a Wcid [] = Some a"
| "BASessionTearDown_tids a Wcid (i # is) =
    do {
      a1 \<leftarrow> BAOriSessionTearDown a Wcid i False False;
      a2 \<leftarrow> BARecSessionTearDown a1 Wcid i False;
      BASessionTearDown_tids a2 Wcid is
    }"

definition BASessionTearDownALL :: "adapter \<Rightarrow> nat \<Rightarrow> adapter option" where
  "BASessionTearDownALL a Wcid = BASessionTearDown_tids a Wcid [0..<NUM_OF_TID]"

definition REC_BA_SESSION_IDLE_TIMEOUT :: tick where "REC_BA_SESSION_IDLE_TIMEOUT = 1000"

definition BARecSessionIdleTimeout :: "adapter \<Rightarrow> nat \<Rightarrow> tick \<Rightarrow> adapter option" where
  "BARecSessionIdleTimeout a Idx Now32 =
    do {
      e \<leftarrow> nth_opt (BARecEntry a) Idx;
      if REC_BA_Status e = Recipient_Accept
      then (if RTMP_TIME_AFTER Now32 (LastIndSeqAtTimer e + REC_BA_SESSION_IDLE_TIMEOUT)
            then (let (a', e') = ba_refresh_reordering_mpdus a e in Some (upd_rec a' Idx (\<lambda>_. e')))
            else Some a)
      else Some a
    }"

section \<open>The action frames received\<close>

text \<open>\<open>PeerAddBAReqAction\<close>: the response carries the address only when the length check
  passed.\<close>

definition PeerAddBAReqAction :: "adapter \<Rightarrow> nat \<Rightarrow> ADDBA_REQ_MSG \<Rightarrow> nat \<Rightarrow> adapter option" where
  "PeerAddBAReqAction a Wcid f MsgLen =
    (if Wcid \<ge> MAX_LEN_OF_MAC_TABLE then Some a
     else do {
       st \<leftarrow> nth_opt (Content a) Wcid;
       let (sane, pAddr) = PeerAddBAReqActionSanity f MsgLen;
       (Status, a1) \<leftarrow>
         (if sane
          then (if \<not> bBADecline a \<and> IS_HT_STA st
                then do {
                  (ok, a') \<leftarrow> BARecSessionAdd a Wcid f;
                  Some (if ok then 0 else 38, a')
                }
                else Some (37, a))
          else Some (1, a));
       case take_alloc a1 of
         (False, a2) \<Rightarrow> Some a2
       | (True, a2) \<Rightarrow>
           Some (log_call a2 (MiniportMMRequest QID_AC_BE
             (FRAME_ADDBA_RSP (ActHeaderInit a2 pAddr) (areq_Token f) Status
               (BA_PARM_word False IMMED_BA (BA_PARM_TID (areq_BaParm f)) (rec_window a2 (areq_BaParm f))) 0)))
     })"

definition PeerAddBARspAction :: "adapter \<Rightarrow> nat \<Rightarrow> ADDBA_RSP_MSG \<Rightarrow> nat \<Rightarrow> adapter option" where
  "PeerAddBARspAction a Wcid f MsgLen =
    (if Wcid \<ge> MAX_LEN_OF_MAC_TABLE then Some a
     else if PeerAddBARspActionSanity f MsgLen
     then do {
       a1 \<leftarrow> (if arsp_StatusCode f = 0 then BAOriSessionAdd a Wcid f
              else BAOriSessionTearDown a Wcid (BA_PARM_TID (arsp_BaParm f)) True False);
       Some (if arsp_StatusCode f = 37 \<or> (STA_TGN_WIFI_ON a1 \<and> arsp_StatusCode f \<noteq> 0)
             then upd_mac a1 Wcid (\<lambda>st. st\<lparr>BADeclineBitmap :=
                    bit_set (BADeclineBitmap st) (BA_PARM_TID (arsp_BaParm f))\<rparr>)
             else a1)
     }
     else Some a)"

definition PeerDelBAAction :: "adapter \<Rightarrow> nat \<Rightarrow> 16 word \<Rightarrow> nat \<Rightarrow> adapter option" where
  "PeerDelBAAction a Wcid DelbaParm MsgLen =
    (if PeerDelBAActionSanity Wcid MsgLen
     then (if DELBA_PARM_Initiator DelbaParm = ORIGINATOR
           then BARecSessionTearDown a Wcid (DELBA_PARM_TID DelbaParm) True
           else BAOriSessionTearDown a Wcid (DELBA_PARM_TID DelbaParm) True False)
     else Some a)"

text \<open>\<open>SendPSMPAction\<close>: the mode byte is set for the three known modes only.\<close>

definition MMPS_STATIC :: nat where "MMPS_STATIC = 0"
definition MMPS_DYNAMIC :: nat where "MMPS_DYNAMIC = 1"
definition MMPS_ENABLE :: nat where "MMPS_ENABLE = 3"

definition SendPSMPAction :: "adapter \<Rightarrow> nat \<Rightarrow> nat \<Rightarrow> adapter option" where
  "SendPSMPAction a Wcid Psmp =
    (case take_alloc a of
       (False, a1) \<Rightarrow> Some a1
     | (True, a1) \<Rightarrow> do {
         st \<leftarrow> nth_opt (Content a1) Wcid;
         Some (log_call a1 (MiniportMMRequest QID_AC_BE
           (FRAME_PSMP_ACTION (Some (Bssid a1), Some (CurrentAddress a1), Some (Addr st))
             (if Psmp = MMPS_ENABLE then Some 0
              else if Psmp = MMPS_DYNAMIC then Some 3
              else if Psmp = MMPS_STATIC then Some 1
              else None))))
       })"

section \<open>Receiving (adapter level)\<close>

definition MAX_RX_PKT_LEN :: nat where "MAX_RX_PKT_LEN = 1520"
definition MGMT_DMA_BUFFER_SIZE :: nat where "MGMT_DMA_BUFFER_SIZE = 1600"

definition Indicate_AMPDU_Packet :: "adapter \<Rightarrow> RX_BLK \<Rightarrow> nat \<Rightarrow> tick \<Rightarrow> adapter option" where
  "Indicate_AMPDU_Packet a rx FromWhichBSSID Now32 =
    (let Wcid = RxWIWirelessCliID rx; TID = RxWITID rx in
     if \<not> RX_BLK_TEST_FLAG rx fRX_AMSDU \<and> DataSize rx > MAX_RX_PKT_LEN
     then Some (log_call a (RELEASE_NDIS_PACKET (pRxPacket rx) NDIS_STATUS_FAILURE))
     else if Wcid < MAX_LEN_OF_MAC_TABLE
     then do {
       st \<leftarrow> nth_opt (Content a) Wcid;
       Idx \<leftarrow> nth_opt (BARecWcidArray st) TID;
       if Idx = 0 then Some (INDICATE_LEGACY_OR_AMSDU a rx FromWhichBSSID)
       else do {
         e \<leftarrow> nth_opt (BARecEntry a) Idx;
         (a', e') \<leftarrow> ampdu_session_rx a e rx FromWhichBSSID Now32;
         Some (upd_rec a' Idx (\<lambda>_. e'))
       }
     }
     else Some (log_call a (RELEASE_NDIS_PACKET (pRxPacket rx) NDIS_STATUS_FAILURE)))"

text \<open>\<open>CntlEnqueueForRecv\<close>: entry 0 is used when the station has no session for the TID.\<close>

definition CntlEnqueueForRecv :: "adapter \<Rightarrow> nat \<Rightarrow> nat \<Rightarrow> 16 word \<Rightarrow> 16 word \<Rightarrow> (bool \<times> adapter) option" where
  "CntlEnqueueForRecv a Wcid MsgLen BARControl BAStartingSeq =
    (let TID = BAR_CONTROL_TID BARControl in
     if HALT_or_NIC_NOT_EXIST a then Some (False, a)
     else if MsgLen > MGMT_DMA_BUFFER_SIZE then Some (False, a)
     else if MsgLen \<noteq> sizeof_FRAME_BA_REQ then Some (False, a)
     else if Wcid < MAX_LEN_OF_MAC_TABLE \<and> TID < 8
     then do {
       st \<leftarrow> nth_opt (Content a) Wcid;
       Idx \<leftarrow> nth_opt (BARecWcidArray st) TID;
       e \<leftarrow> nth_opt (BARecEntry a) Idx;
       (a', e') \<leftarrow> bar_session_rx a e (BASEQ_CONTROL_StartSeq BAStartingSeq);
       Some (True, upd_rec a' Idx (\<lambda>_. e'))
     }
     else Some (False, a))"

text \<open>\<open>BaReOrderingBufferMaintain\<close>: the periodic flush of every session.\<close>

primrec maintain_tids :: "adapter \<Rightarrow> nat \<Rightarrow> nat list \<Rightarrow> tick \<Rightarrow> adapter option" where
  "maintain_tids a Wcid [] Now32 = Some a"
| "maintain_tids a Wcid (TID # ts) Now32 =
    do {
      st \<leftarrow> nth_opt (Content a) Wcid;
      Idx \<leftarrow> nth_opt (BARecWcidArray st) TID;
      e \<leftarrow> nth_opt (BARecEntry a) Idx;
      (a', e') \<leftarrow> ba_flush_reordering_timeout_mpdus a e Now32;
      maintain_tids (upd_rec a' Idx (\<lambda>_. e')) Wcid ts Now32
    }"

primrec maintain_wcids :: "adapter \<Rightarrow> nat list \<Rightarrow> tick \<Rightarrow> adapter option" where
  "maintain_wcids a [] Now32 = Some a"
| "maintain_wcids a (Wcid # ws) Now32 =
    do {
      st \<leftarrow> nth_opt (Content a) Wcid;
      a' \<leftarrow> (if EntryType st = ENTRY_NONE then Some a else maintain_tids a Wcid [0..<NUM_OF_TID] Now32);
      maintain_wcids a' ws Now32
    }"

definition BaReOrderingBufferMaintain :: "adapter \<Rightarrow> tick \<Rightarrow> adapter option" where
  "BaReOrderingBufferMaintain a Now32 = maintain_wcids a [1..<MAX_LEN_OF_MAC_TABLE] Now32"

text \<open>\<open>ba_reordering_resource_release\<close>, up to giving the pool memory back.\<close>

function release_loop :: "'a ba_ctx_scheme \<Rightarrow> BA_REC_ENTRY \<Rightarrow> 'a ba_ctx_scheme \<times> BA_REC_ENTRY" where
  "release_loop a e =
    (case ba_dequeue (reorder_list e) of
       (None, l) \<Rightarrow> (a, e\<lparr>reorder_list := l\<rparr>)
     | (Some b, l) \<Rightarrow>
         release_loop (ba_mpdu_blk_free (log_call a (RELEASE_NDIS_PACKET (pPacket b) NDIS_STATUS_FAILURE)) b)
           (e\<lparr>reorder_list := l\<rparr>))"
  by pat_completeness auto
termination
  by (relation "measure (\<lambda>(a, e). length (next_mpdus (reorder_list e)))")
    (auto dest!: ba_dequeue_shorter[OF sym])

declare release_loop.simps [simp del]

primrec release_entries :: "adapter \<Rightarrow> nat list \<Rightarrow> adapter" where
  "release_entries a [] = a"
| "release_entries a (i # is) =
    (if REC_BA_Status (BARecEntry a ! i) \<noteq> Recipient_NONE
     then (let (a', e') = release_loop a (BARecEntry a ! i) in release_entries (upd_rec a' i (\<lambda>_. e')) is)
     else release_entries a is)"

definition ba_reordering_resource_release :: "adapter \<Rightarrow> adapter" where
  "ba_reordering_resource_release a = release_entries a [0..<MAX_LEN_OF_BA_REC_TABLE]"

end
