(* ===== verification/BaTables.thy ===== *)
theory BaTables
  imports BaSession
begin

text \<open>The link between a session table and the per-station arrays of indices into it, stated once
  for the recipient and the originator table, and the contract of the two pairs of allocation and
  release operations.\<close>

section \<open>Linked tables\<close>

text \<open>\<open>tab_ok used own arrs num\<close>: the arrays have their sizes, an index in an array is that
  of a used entry owned by this station and TID, every used entry is found in its owner's array, and
  \<open>num\<close> is the number of used entries. Index 0 means no session.\<close>

definition tab_ok :: "(nat \<Rightarrow> bool) \<Rightarrow> (nat \<Rightarrow> nat \<times> nat) \<Rightarrow> nat list list \<Rightarrow> int \<Rightarrow> bool" where
  "tab_ok used own arrs num \<longleftrightarrow>
    length arrs = 32 \<and> (\<forall>xs \<in> set arrs. length xs = 8) \<and>
    (\<forall>i. used i \<longrightarrow> 1 \<le> i \<and> i < 128) \<and>
    (\<forall>w<32. \<forall>t<8. arrs ! w ! t \<noteq> 0 \<longrightarrow> used (arrs ! w ! t) \<and> own (arrs ! w ! t) = (w, t)) \<and>
    (\<forall>i. used i \<longrightarrow> (\<exists>w<32. \<exists>t<8. own i = (w, t) \<and> arrs ! w ! t = i)) \<and>
    num = int (card {i. used i})"

lemma tab_okD:
  assumes "tab_ok used own arrs num"
  shows "length arrs = 32" "w < 32 \<Longrightarrow> length (arrs ! w) = 8" "used i \<Longrightarrow> 1 \<le> i" "used i \<Longrightarrow> i < 128"
    "w < 32 \<Longrightarrow> t < 8 \<Longrightarrow> arrs ! w ! t \<noteq> 0 \<Longrightarrow> used (arrs ! w ! t)"
    "w < 32 \<Longrightarrow> t < 8 \<Longrightarrow> arrs ! w ! t \<noteq> 0 \<Longrightarrow> own (arrs ! w ! t) = (w, t)"
    "num = int (card {i. used i})" "finite {i. used i}"
proof -
  show "finite {i. used i}"
    by (rule finite_subset[of _ "{..<128}"]) (use assms in \<open>auto simp: tab_ok_def\<close>)
qed (use assms in \<open>auto simp: tab_ok_def\<close>)

lemma tab_okI:
  assumes "length arrs = 32" "\<forall>xs \<in> set arrs. length xs = 8" "\<And>i. used i \<Longrightarrow> 1 \<le> i \<and> i < 128"
    and "\<And>w t. w < 32 \<Longrightarrow> t < 8 \<Longrightarrow> arrs ! w ! t \<noteq> 0 \<Longrightarrow> used (arrs ! w ! t) \<and> own (arrs ! w ! t) = (w, t)"
    and "\<And>i. used i \<Longrightarrow> \<exists>w<32. \<exists>t<8. own i = (w, t) \<and> arrs ! w ! t = i"
    and "num = int (card {i. used i})"
  shows "tab_ok used own arrs num"
  using assms unfolding tab_ok_def by blast

lemma tab_ok_owner:
  assumes "tab_ok used own arrs num" "used i"
  shows "\<exists>w<32. \<exists>t<8. own i = (w, t) \<and> arrs ! w ! t = i"
  using assms by (auto simp: tab_ok_def)

lemma arr_update_nth:
  assumes "length arrs = 32" "w < 32" "t < 8" "length (arrs ! w) = 8" "w' < 32" "t' < 8"
  shows "arrs[w := (arrs ! w)[t := i]] ! w' ! t' = (if w' = w \<and> t' = t then i else arrs ! w' ! t')"
  using assms by (cases "w' = w") (simp_all add: nth_list_update)

text \<open>A used entry counts in the bound of the table.\<close>

lemma tab_count_bound:
  assumes "tab_ok used own arrs num"
  shows "num \<le> 127"
proof -
  have "{i. used i} \<subseteq> {1..<128}" using tab_okD(3,4)[OF assms] by auto
  then have "card {i. used i} \<le> card {1..<128::nat}" by (intro card_mono) auto
  then show ?thesis using tab_okD(7)[OF assms] by simp
qed

text \<open>While the table is not full a slot is free.\<close>

lemma tab_free_slot:
  assumes "tab_ok used own arrs num" "num < 127"
  shows "\<exists>i. 1 \<le> i \<and> i < 128 \<and> \<not> used i"
proof (rule ccontr)
  assume "\<not> ?thesis"
  then have "{1..<128} \<subseteq> {i. used i}" by auto
  then have "card {1..<128::nat} \<le> card {i. used i}" by (rule card_mono[OF tab_okD(8)[OF assms(1)]])
  then show False using tab_okD(7)[OF assms(1)] assms(2) by simp
qed

text \<open>Taking a free slot for a station and TID that have none, and giving it back.\<close>

lemma tab_ok_add:
  assumes ok: "tab_ok used own arrs num" and free: "\<not> used i" "1 \<le> i" "i < 128"
    and wt: "w < 32" "t < 8" "arrs ! w ! t = 0"
  shows "tab_ok (used(i := True)) (own(i := (w, t))) (arrs[w := (arrs ! w)[t := i]]) (num + 1)"
proof -
  note d = tab_okD[OF ok]
  have upd: "arrs[w := (arrs ! w)[t := i]] ! w' ! t' = (if w' = w \<and> t' = t then i else arrs ! w' ! t')"
    if "w' < 32" "t' < 8" for w' t' using arr_update_nth[OF d(1) wt(1,2) d(2)[OF wt(1)] that] .
  have len: "length (arrs[w := (arrs ! w)[t := i]]) = 32"
    "\<forall>xs \<in> set (arrs[w := (arrs ! w)[t := i]]). length xs = 8"
    using d(1,2) wt(1) by (auto simp: in_set_conv_nth nth_list_update)
  have points: "(used(i := True)) (arrs[w := (arrs ! w)[t := i]] ! w' ! t') \<and>
      (own(i := (w, t))) (arrs[w := (arrs ! w)[t := i]] ! w' ! t') = (w', t')"
    if "w' < 32" "t' < 8" "arrs[w := (arrs ! w)[t := i]] ! w' ! t' \<noteq> 0" for w' t'
    using that upd[OF that(1,2)] d(5,6)[OF that(1,2)] free(1) by auto
  have found: "\<exists>w'<32. \<exists>t'<8. (own(i := (w, t))) j = (w', t') \<and> arrs[w := (arrs ! w)[t := i]] ! w' ! t' = j"
    if j: "(used(i := True)) j" for j
  proof (cases "j = i")
    case True then show ?thesis using wt upd[OF wt(1,2)] by auto
  next
    case False
    then have "used j" using j by simp
    then obtain w' t' where "w' < 32" "t' < 8" "own j = (w', t')" "arrs ! w' ! t' = j"
      using tab_ok_owner[OF ok] by blast
    moreover have "(w', t') \<noteq> (w, t)" using calculation wt(3) d(3)[OF \<open>used j\<close>] False by auto
    ultimately show ?thesis using False upd by auto
  qed
  have "{j. (used(i := True)) j} = insert i {j. used j}" by auto
  then have "num + 1 = int (card {j. (used(i := True)) j})" using d(7,8) free(1) by simp
  then show ?thesis
    by (intro tab_okI len points found) (use d(3,4) free(2,3) in \<open>auto split: if_splits\<close>)
qed

lemma tab_ok_del:
  assumes ok: "tab_ok used own arrs num" and i: "used i" "own i = (w, t)"
  shows "tab_ok (used(i := False)) own (arrs[w := (arrs ! w)[t := 0]]) (num - 1)"
proof -
  note d = tab_okD[OF ok]
  obtain wt: "w < 32" "t < 8" "arrs ! w ! t = i" using tab_ok_owner[OF ok i(1)] i(2) by auto
  have upd: "arrs[w := (arrs ! w)[t := 0]] ! w' ! t' = (if w' = w \<and> t' = t then 0 else arrs ! w' ! t')"
    if "w' < 32" "t' < 8" for w' t' using arr_update_nth[OF d(1) wt(1,2) d(2)[OF wt(1)] that] .
  have len: "length (arrs[w := (arrs ! w)[t := 0]]) = 32"
    "\<forall>xs \<in> set (arrs[w := (arrs ! w)[t := 0]]). length xs = 8"
    using d(1,2) wt(1) by (auto simp: in_set_conv_nth nth_list_update)
  have points: "(used(i := False)) (arrs[w := (arrs ! w)[t := 0]] ! w' ! t') \<and>
      own (arrs[w := (arrs ! w)[t := 0]] ! w' ! t') = (w', t')"
    if "w' < 32" "t' < 8" "arrs[w := (arrs ! w)[t := 0]] ! w' ! t' \<noteq> 0" for w' t'
    using that upd[OF that(1,2)] d(5,6)[OF that(1,2)] i(2) by (auto split: if_splits)
  have found: "\<exists>w'<32. \<exists>t'<8. own j = (w', t') \<and> arrs[w := (arrs ! w)[t := 0]] ! w' ! t' = j"
    if j: "(used(i := False)) j" for j
  proof -
    have "used j" using j by (simp split: if_splits)
    then obtain w' t' where "w' < 32" "t' < 8" "own j = (w', t')" "arrs ! w' ! t' = j"
      using tab_ok_owner[OF ok] by blast
    moreover have "(w', t') \<noteq> (w, t)" using calculation wt(3) j by (auto split: if_splits)
    ultimately show ?thesis using upd by auto
  qed
  have "{j. (used(i := False)) j} = {j. used j} - {i}" by auto
  moreover have "card {j. used j} > 0" using i(1) d(8) by (auto simp: card_gt_0_iff)
  ultimately have "num - 1 = int (card {j. (used(i := False)) j})" using d(7,8) i(1) by simp
  then show ?thesis
    by (intro tab_okI len points found) (use d(3,4) in \<open>auto split: if_splits\<close>)
qed

text \<open>Only the used entries' owners matter.\<close>

lemma tab_ok_cong:
  assumes "tab_ok used own arrs num" "\<And>i. used' i = used i" "\<And>i. used i \<Longrightarrow> own' i = own i"
  shows "tab_ok used' own' arrs num"
proof -
  have "used' = used" using assms(2) by auto
  then show ?thesis using assms(1,3) unfolding tab_ok_def by metis
qed

section \<open>The allocation contract\<close>

text \<open>What the session code relies on in both tables: an allocation takes a slot that was free,
  and only fails when the counter says the table is full; a release frees the slot and clears its
  owner's array entry.\<close>

locale session_table =
  fixes used :: "'s \<Rightarrow> nat \<Rightarrow> bool" and own :: "'s \<Rightarrow> nat \<Rightarrow> nat \<times> nat"
    and arrs :: "'s \<Rightarrow> nat list list" and num :: "'s \<Rightarrow> int" and dims :: "'s \<Rightarrow> bool"
    and alloc :: "'s \<Rightarrow> nat option \<times> nat \<times> 's" and release :: "'s \<Rightarrow> nat \<Rightarrow> 's option"
  assumes alloc_full: "num s \<ge> 127 \<Longrightarrow> alloc s = (None, 0, s)"
    and alloc_takes: "dims s \<Longrightarrow> num s < 127 \<Longrightarrow> 0 \<le> num s \<Longrightarrow> 1 \<le> k \<Longrightarrow> k < 128 \<Longrightarrow> \<not> used s k \<Longrightarrow>
      \<exists>i s'. alloc s = (Some i, i, s') \<and> 1 \<le> i \<and> i < 128 \<and> \<not> used s i \<and> dims s' \<and>
        used s' = (used s)(i := True) \<and> own s' = own s \<and> arrs s' = arrs s \<and> num s' = num s + 1"
    and release_frees: "dims s \<Longrightarrow> used s i \<Longrightarrow> own s i = (w, t) \<Longrightarrow> w < 32 \<Longrightarrow> t < 8 \<Longrightarrow>
      length (arrs s) = 32 \<Longrightarrow> length (arrs s ! w) = 8 \<Longrightarrow> 1 \<le> num s \<Longrightarrow> num s < 128 \<Longrightarrow>
      \<exists>s'. release s i = Some s' \<and> dims s' \<and> used s' = (used s)(i := False) \<and> own s' = own s \<and>
        arrs s' = (arrs s)[w := (arrs s ! w)[t := 0]] \<and> num s' = num s - 1"
begin

abbreviation "good s \<equiv> dims s \<and> tab_ok (used s) (own s) (arrs s) (num s)"

lemma alloc_good:
  assumes "good s" "num s < 127"
  shows "\<exists>i s'. alloc s = (Some i, i, s') \<and> 1 \<le> i \<and> i < 128 \<and> \<not> used s i \<and> dims s' \<and>
    used s' = (used s)(i := True) \<and> own s' = own s \<and> arrs s' = arrs s \<and> num s' = num s + 1"
proof -
  have ok: "tab_ok (used s) (own s) (arrs s) (num s)" using assms(1) by simp
  obtain k where "1 \<le> k" "k < 128" "\<not> used s k" using tab_free_slot[OF ok assms(2)] by blast
  moreover have "0 \<le> num s" using tab_okD(7)[OF ok] by simp
  ultimately show ?thesis using alloc_takes[of s k] assms by blast
qed

text \<open>An allocation fails exactly when all 127 slots are taken.\<close>

lemma alloc_fails_iff_full:
  assumes "good s"
  shows "fst (alloc s) = None \<longleftrightarrow> (\<forall>i. 1 \<le> i \<and> i < 128 \<longrightarrow> used s i)"
proof (cases "num s < 127")
  case True
  obtain i s' where "alloc s = (Some i, i, s')" "1 \<le> i" "i < 128" "\<not> used s i"
    using alloc_good[OF assms True] by blast
  then show ?thesis by auto
next
  case False
  have ok: "tab_ok (used s) (own s) (arrs s) (num s)" using assms by simp
  have sub: "{i. used s i} \<subseteq> {1..<128}" using tab_okD(3,4)[OF ok] by auto
  have "card {i. used s i} = card {1..<128::nat}"
    using False tab_okD(7)[OF ok] card_mono[OF _ sub] by simp
  then have all: "{i. used s i} = {1..<128}" using sub by (intro card_subset_eq) auto
  have "used s i" if "1 \<le> i" "i < 128" for i
  proof -
    have "i \<in> {1..<128}" using that by simp
    then show ?thesis unfolding all[symmetric] by simp
  qed
  then show ?thesis using alloc_full[of s] False by simp
qed

lemma release_good:
  assumes "good s" "used s i"
  shows "\<exists>s'. release s i = Some s' \<and> good s' \<and> \<not> used s' i \<and> num s' < 127"
proof -
  have ok: "tab_ok (used s) (own s) (arrs s) (num s)" using assms(1) by simp
  obtain w t where wt: "w < 32" "t < 8" "own s i = (w, t)" using tab_ok_owner[OF ok assms(2)] by auto
  note d = tab_okD[OF ok]
  have "1 \<le> num s" using d(7,8) assms(2) by (auto simp: Suc_le_eq card_gt_0_iff)
  moreover have "num s < 128" using tab_count_bound[OF ok] by simp
  ultimately obtain s' where s': "release s i = Some s'" "dims s'" "used s' = (used s)(i := False)"
      "own s' = own s" "arrs s' = (arrs s)[w := (arrs s ! w)[t := 0]]" "num s' = num s - 1"
    using release_frees[OF _ assms(2) wt(3,1,2) d(1) d(2)[OF wt(1)]] assms(1) by blast
  then show ?thesis
    using tab_ok_del[OF ok assms(2) wt(3)] tab_count_bound[OF ok] by auto
qed

text \<open>After a release the next allocation succeeds.\<close>

lemma alloc_after_release:
  assumes "good s" "used s i"
  shows "\<exists>s'. release s i = Some s' \<and> fst (alloc s') \<noteq> None"
proof -
  obtain s' where s': "release s i = Some s'" "good s'" "num s' < 127" using release_good[OF assms] by blast
  then obtain j s2 where "alloc s' = (Some j, j, s2)" using alloc_good by blast
  then show ?thesis using s'(1) by auto
qed

end

section \<open>The two tables\<close>

definition rused :: "adapter \<Rightarrow> nat \<Rightarrow> bool" where
  "rused a i \<longleftrightarrow> 1 \<le> i \<and> i < length (BARecEntry a) \<and> REC_BA_Status (BARecEntry a ! i) \<noteq> Recipient_NONE"

definition rown :: "adapter \<Rightarrow> nat \<Rightarrow> nat \<times> nat" where
  "rown a i = (rec_Wcid (BARecEntry a ! i), rec_TID (BARecEntry a ! i))"

definition rarrs :: "adapter \<Rightarrow> nat list list" where "rarrs a = map BARecWcidArray (Content a)"

definition oused :: "adapter \<Rightarrow> nat \<Rightarrow> bool" where
  "oused a i \<longleftrightarrow> 1 \<le> i \<and> i < length (BAOriEntry a) \<and> ORI_BA_Status (BAOriEntry a ! i) \<noteq> Originator_NONE"

definition oown :: "adapter \<Rightarrow> nat \<Rightarrow> nat \<times> nat" where
  "oown a i = (ori_Wcid (BAOriEntry a ! i), ori_TID (BAOriEntry a ! i))"

definition oarrs :: "adapter \<Rightarrow> nat list list" where "oarrs a = map BAOriWcidArray (Content a)"

definition table_dims :: "adapter \<Rightarrow> bool" where
  "table_dims a \<longleftrightarrow> length (Content a) = 32 \<and> length (BARecEntry a) = 128 \<and> length (BAOriEntry a) = 128"

lemmas table_views = rused_def rown_def rarrs_def oused_def oown_def oarrs_def table_dims_def

lemma find_range:
  "find P [1..<n] = Some i \<Longrightarrow> 1 \<le> i \<and> i < n \<and> P i"
  "find P [1..<n] = None \<Longrightarrow> 1 \<le> i \<Longrightarrow> i < n \<Longrightarrow> \<not> P i"
  by (auto simp: find_Some_iff find_None_iff)

interpretation rt: session_table rused rown rarrs numAsRecipient table_dims
  "\<lambda>a. BATableAllocRecEntry a 0" BATableFreeRecEntry
proof
  fix a :: adapter and k
  assume a: "table_dims a" "numAsRecipient a < 127" "0 \<le> numAsRecipient a" and k: "1 \<le> k" "k < 128" "\<not> rused a k"
  obtain i where i: "find (\<lambda>i. REC_BA_Status (BARecEntry a ! i) = Recipient_NONE) [1..<128] = Some i"
    using find_range(2)[of "\<lambda>i. REC_BA_Status (BARecEntry a ! i) = Recipient_NONE" 128 k] a(1) k
    by (cases "find (\<lambda>i. REC_BA_Status (BARecEntry a ! i) = Recipient_NONE) [1..<128]") (auto simp: table_views)
  show "\<exists>i s'. BATableAllocRecEntry a 0 = (Some i, i, s') \<and> 1 \<le> i \<and> i < 128 \<and> \<not> rused a i \<and> table_dims s' \<and>
      rused s' = (rused a)(i := True) \<and> rown s' = rown a \<and> rarrs s' = rarrs a \<and>
      numAsRecipient s' = numAsRecipient a + 1"
    using i find_range(1)[OF i] a
    by (auto simp: BATableAllocRecEntry_def table_sizes table_views upd_rec_def fun_eq_iff nth_list_update)
next
  fix a :: adapter and i w t
  assume a: "table_dims a" "rused a i" "rown a i = (w, t)" "w < 32" "t < 8"
    "length (rarrs a) = 32" "length (rarrs a ! w) = 8" "1 \<le> numAsRecipient a" "numAsRecipient a < 128"
  then show "\<exists>s'. BATableFreeRecEntry a i = Some s' \<and> table_dims s' \<and> rused s' = (rused a)(i := False) \<and>
      rown s' = rown a \<and> rarrs s' = (rarrs a)[w := (rarrs a ! w)[t := 0]] \<and>
      numAsRecipient s' = numAsRecipient a - 1"
    by (auto simp: BATableFreeRecEntry_def table_sizes table_views upd_rec_def upd_mac_def fun_eq_iff
        nth_list_update map_update)
qed (simp add: BATableAllocRecEntry_def table_sizes)

interpretation ot: session_table oused oown oarrs numAsOriginator table_dims
  "\<lambda>a. BATableAllocOriEntry a 0" BATableFreeOriEntry
proof
  fix a :: adapter and k
  assume a: "table_dims a" "numAsOriginator a < 127" "0 \<le> numAsOriginator a" and k: "1 \<le> k" "k < 128" "\<not> oused a k"
  obtain i where i: "find (\<lambda>i. ORI_BA_Status (BAOriEntry a ! i) = Originator_NONE) [1..<128] = Some i"
    using find_range(2)[of "\<lambda>i. ORI_BA_Status (BAOriEntry a ! i) = Originator_NONE" 128 k] a(1) k
    by (cases "find (\<lambda>i. ORI_BA_Status (BAOriEntry a ! i) = Originator_NONE) [1..<128]") (auto simp: table_views)
  show "\<exists>i s'. BATableAllocOriEntry a 0 = (Some i, i, s') \<and> 1 \<le> i \<and> i < 128 \<and> \<not> oused a i \<and> table_dims s' \<and>
      oused s' = (oused a)(i := True) \<and> oown s' = oown a \<and> oarrs s' = oarrs a \<and>
      numAsOriginator s' = numAsOriginator a + 1"
    using i find_range(1)[OF i] a
    by (auto simp: BATableAllocOriEntry_def table_sizes table_views upd_ori_def fun_eq_iff nth_list_update)
next
  fix a :: adapter and i w t
  assume a: "table_dims a" "oused a i" "oown a i = (w, t)" "w < 32" "t < 8"
    "length (oarrs a) = 32" "length (oarrs a ! w) = 8" "1 \<le> numAsOriginator a" "numAsOriginator a < 128"
  then show "\<exists>s'. BATableFreeOriEntry a i = Some s' \<and> table_dims s' \<and> oused s' = (oused a)(i := False) \<and>
      oown s' = oown a \<and> oarrs s' = (oarrs a)[w := (oarrs a ! w)[t := 0]] \<and>
      numAsOriginator s' = numAsOriginator a - 1"
    by (auto simp: BATableFreeOriEntry_def table_sizes table_views upd_ori_def upd_mac_def fun_eq_iff
        nth_list_update map_update Let_def)
qed (simp add: BATableAllocOriEntry_def table_sizes)

end
