(* ===== verification/BaKeep.thy ===== *)
theory BaKeep
  imports BaConserve BaTables
begin

text \<open>What the operations on one recipient session leave alone, on every branch and for every
  frame: the rest of the adapter, the identity, window and state of the session. They keep the
  list counters right and the sequence numbers in range. These are the facts the table invariant
  needs of them.\<close>

section \<open>The frame of a session operation\<close>

definition rec_static :: "BA_REC_ENTRY \<Rightarrow> nat \<times> nat \<times> int \<times> ralink_timer \<times> REC_BLOCKACK_STATUS" where
  "rec_static e = (rec_Wcid e, rec_TID e, rec_BAWinSize e, RECBATimer e, REC_BA_Status e)"

definition seqs_ok :: "BA_REC_ENTRY \<Rightarrow> bool" where
  "seqs_ok e \<longleftrightarrow> (\<forall>m \<in> set (next_mpdus (reorder_list e)). seq_ok (Sequence m))"

definition lists_ok :: "'a ba_ctx_scheme \<Rightarrow> BA_REC_ENTRY \<Rightarrow> bool" where
  "lists_ok a e \<longleftrightarrow> lists_wf a e \<and> seqs_ok e"

definition keeps :: "'a ba_ctx_scheme \<Rightarrow> BA_REC_ENTRY \<Rightarrow> 'a ba_ctx_scheme \<Rightarrow> BA_REC_ENTRY \<Rightarrow> bool" where
  "keeps a e a' e' \<longleftrightarrow> ba_ctx.more a' = ba_ctx.more a \<and> OS_HZ a' = OS_HZ a \<and>
    rec_static e' = rec_static e \<and> lists_ok a' e'"

text \<open>The last number passed up: none, and then nothing is pending, or a 12-bit number.\<close>

definition ind_ok :: "BA_REC_ENTRY \<Rightarrow> bool" where
  "ind_ok e \<longleftrightarrow> (LastIndSeq e = RESET_RCV_SEQ \<and> next_mpdus (reorder_list e) = []) \<or> seq_ok (LastIndSeq e)"

lemma keeps_refl: "lists_ok a e \<Longrightarrow> keeps a e a e"
  by (simp add: keeps_def)

lemma keeps_trans: "keeps a e a1 e1 \<Longrightarrow> keeps a1 e1 a2 e2 \<Longrightarrow> keeps a e a2 e2"
  by (simp add: keeps_def)

lemma keeps_lists: "keeps a e a' e' \<Longrightarrow> lists_ok a' e'"
  by (simp add: keeps_def)

lemma keeps_entry:
  "keeps a e a' e' \<Longrightarrow> reorder_list e'' = reorder_list e' \<Longrightarrow> rec_static e'' = rec_static e' \<Longrightarrow> keeps a e a' e''"
  "keeps a e a' e' \<Longrightarrow> rec_static e = rec_static e0 \<Longrightarrow> keeps a e0 a' e'"
  by (simp_all add: keeps_def lists_ok_def lists_wf_def seqs_ok_def)

lemma keeps_log: "keeps a e a' e' \<Longrightarrow> keeps a e (log_call a' c) e'"
  by (simp add: keeps_def log_call_def lists_ok_def lists_wf_def)

lemma keeps_indicate: "keeps a e a' e' \<Longrightarrow> keeps a e (INDICATE_LEGACY_OR_AMSDU a' rx b) e'"
  by (simp add: INDICATE_eq keeps_log)

lemma set_drop_subset: "x \<in> set (drop n xs) \<Longrightarrow> x \<in> set xs"
  by (rule in_set_dropD)

lemma release_keeps:
  assumes "lists_ok a e" "pre @ rest = next_mpdus (reorder_list e)"
  shows "keeps a e (pass_up a pre) (e\<lparr>reorder_list := drop_list (length pre) (reorder_list e)\<rparr>)"
proof -
  have ms: "next_mpdus (reorder_list e) = pre @ rest" using assms(2) by simp
  then show ?thesis
    using assms(1)
    by (auto simp: keeps_def lists_ok_def lists_wf_def seqs_ok_def rec_static_def pass_up_def list_wf_def drop_list_def)
qed

lemma last_prefix_in:
  assumes "pre @ drop (length pre) ms = ms" "pre \<noteq> []"
  shows "last pre \<in> set ms"
  using assms last_in_set[of pre] by (metis append_is_Nil_conv in_set_conv_decomp Un_iff set_append)

lemma in_order_keeps:
  assumes "lists_ok a e"
  shows "\<exists>a' e' t. ba_indicate_reordering_mpdus_in_order a e s = Some (a', e', t) \<and> keeps a e a' e' \<and>
    LastIndSeq e' = LastIndSeq e \<and> (t = RESET_RCV_SEQ \<or> seq_ok t)"
proof -
  let ?ms = "next_mpdus (reorder_list e)"
  let ?pre = "run_prefix s ?ms"
  have "?pre = [] \<or> seq_ok (USHORT (Sequence (last ?pre)))"
    using last_prefix_in[OF run_prefix_prefix, of s ?ms] assms
    by (cases "?pre = []") (auto simp: lists_ok_def seqs_ok_def seq_ok_def)
  then show ?thesis
    using release_keeps[OF assms run_prefix_prefix[of s ?ms]] assms
    by (auto simp: in_order_eq lists_ok_def lists_wf_def Let_def)
qed

lemma le_seq_keeps:
  assumes "lists_ok a e"
  shows "\<exists>a' e'. ba_indicate_reordering_mpdus_le_seq a e s = Some (a', e') \<and> keeps a e a' e' \<and>
    LastIndSeq e' = LastIndSeq e"
  using release_keeps[OF assms le_prefix_prefix[of s "next_mpdus (reorder_list e)"]] assms
  by (simp add: le_seq_eq lists_ok_def lists_wf_def Let_def)

lemma refresh_keeps:
  assumes "lists_ok a e"
  shows "\<exists>a' e'. ba_refresh_reordering_mpdus a e = (a', e') \<and> keeps a e a' e' \<and>
    LastIndSeq e' = RESET_RCV_SEQ \<and> next_mpdus (reorder_list e') = [] \<and> qlen (reorder_list e') = 0"
proof -
  have "drop_list (length (next_mpdus (reorder_list e))) (reorder_list e) = \<lparr>next_mpdus = [], qlen = 0\<rparr>"
    using assms by (simp add: drop_list_def lists_ok_def lists_wf_def list_wf_def)
  then show ?thesis
    using release_keeps[OF assms, of "next_mpdus (reorder_list e)" "[]"] assms
    by (auto simp: refresh_eq lists_ok_def lists_wf_def rec_static_def intro: keeps_entry(1))
qed

lemma flush_keeps:
  assumes "lists_ok a e" "ind_ok e"
  shows "\<exists>a' e'. ba_flush_reordering_timeout_mpdus a e now = Some (a', e') \<and> keeps a e a' e' \<and> ind_ok e'"
proof (cases "qlen (reorder_list e) \<le> 0")
  case True
  then show ?thesis
    using keeps_refl[OF assms(1)] assms(2) by (simp add: ba_flush_reordering_timeout_mpdus_def)
next
  case False
  then have "seq_ok (LastIndSeq e)"
    using assms by (auto simp: ind_ok_def lists_ok_def lists_wf_def list_wf_def)
  then have S: "seq_ok ((LastIndSeq e + 1) AND MAXSEQ)" by (simp add: and_MAXSEQ seq_ok_def)
  let ?S = "(LastIndSeq e + 1) AND MAXSEQ"
  obtain ar er where r: "ba_refresh_reordering_mpdus a e = (ar, er)" "keeps a e ar er"
      "LastIndSeq er = RESET_RCV_SEQ" "next_mpdus (reorder_list er) = []"
    using refresh_keeps[OF assms(1)] by blast
  obtain a1 e1 where l: "ba_indicate_reordering_mpdus_le_seq a e ?S = Some (a1, e1)" "keeps a e a1 e1"
    using le_seq_keeps[OF assms(1)] by blast
  let ?e2 = "e1\<lparr>LastIndSeqAtTimer := now, LastIndSeq := ?S\<rparr>"
  have c2: "keeps a e a1 ?e2" using l(2) by (rule keeps_entry(1)) (simp_all add: rec_static_def)
  obtain a3 e3 t where i: "ba_indicate_reordering_mpdus_in_order a1 ?e2 ?S = Some (a3, e3, t)"
      "keeps a1 ?e2 a3 e3" "LastIndSeq e3 = ?S" "t = RESET_RCV_SEQ \<or> seq_ok t"
    using in_order_keeps[OF keeps_lists[OF c2], of ?S] by auto
  have c3: "keeps a e a3 e3" by (rule keeps_trans[OF c2 i(2)])
  show ?thesis
    using r l i keeps_refl[OF assms(1)] assms(2) c3 S
    by (auto simp: ba_flush_reordering_timeout_mpdus_def Let_def ind_ok_def rec_static_def
        intro: keeps_entry(1))
qed

section \<open>Queueing\<close>

lemma alloc_keeps:
  assumes "lists_ok a e"
  shows "\<exists>blk a'. ba_mpdu_blk_alloc a = (blk, a') \<and> keeps a e a' e"
proof -
  have "list_wf (freelist a)" using assms by (simp add: lists_ok_def lists_wf_def)
  then show ?thesis
    using assms
    by (cases rule: alloc_cases) (auto simp: keeps_def lists_ok_def lists_wf_def list_wf_def drop_list_def)
qed

lemma insert_keeps:
  assumes k: "keeps a e a' e'" and s: "seq_ok (Sequence m)"
    and ins: "ba_reordering_mpdu_insertsorted (reorder_list e') m = (b, l)"
  shows "keeps a e a' (e'\<lparr>reorder_list := l\<rparr>)"
proof (cases "insert_scan (next_mpdus (reorder_list e')) m")
  case None
  then show ?thesis using k ins by (auto simp: ba_reordering_mpdu_insertsorted_def)
next
  case (Some ms)
  have "mset ms = add_mset m (mset (next_mpdus (reorder_list e')))" by (rule insert_scan_mset[OF Some])
  then have set: "set ms = insert m (set (next_mpdus (reorder_list e')))" by (metis set_mset_add_mset_insert set_mset_mset)
  then show ?thesis
    using k ins s Some insert_scan_length[OF Some]
    by (auto simp: ba_reordering_mpdu_insertsorted_def keeps_def lists_ok_def lists_wf_def list_wf_def
        seqs_ok_def rec_static_def)
qed

lemma free_keeps: "keeps a e a' e' \<Longrightarrow> keeps a e (ba_mpdu_blk_free a' m) e'"
  by (auto simp: keeps_def lists_ok_def lists_wf_def list_wf_def ba_mpdu_blk_free_def ba_enqueue_def)

lemma enqueue_keeps:
  assumes ok: "lists_ok a e" and s: "seq_ok (rx_Sequence rx)"
  shows "\<exists>a' e'. ba_enqueue_reordering_packet a e rx b = Some (a', e') \<and> keeps a e a' e' \<and>
    (LastIndSeq e' = LastIndSeq e \<or> seq_ok (LastIndSeq e'))"
proof -
  obtain blk a1 where al: "ba_mpdu_blk_alloc a = (blk, a1)" "keeps a e a1 e" using alloc_keeps[OF ok] by blast
  obtain a2 e2 where l: "ba_indicate_reordering_mpdus_le_seq a1 e (rx_Sequence rx) = Some (a2, e2)"
      "keeps a1 e a2 e2"
    using le_seq_keeps[OF keeps_lists[OF al(2)]] by blast
  have refuse: "keeps a e (INDICATE_LEGACY_OR_AMSDU a2 rx b) (e2\<lparr>LastIndSeq := rx_Sequence rx\<rparr>)"
    using keeps_trans[OF al(2) l(2)]
    by (intro keeps_indicate) (rule keeps_entry(1), simp_all add: rec_static_def)
  show ?thesis
  proof (cases "blk \<noteq> None \<and> \<not> RX_BLK_TEST_FLAG rx fRX_EAP")
    case False
    then show ?thesis
      using al(1) l(1) refuse s by (auto simp: ba_enqueue_reordering_packet_def Let_def)
  next
    case True
    let ?m = "(the blk)\<lparr>Sequence := rx_Sequence rx, OpMode := rx_OpMode rx,
                bAMSDU := RX_BLK_TEST_FLAG rx fRX_AMSDU, pPacket := pRxPacket rx\<rparr>"
    obtain q l' where ins: "ba_reordering_mpdu_insertsorted (reorder_list e) ?m = (q, l')" by fastforce
    have k: "keeps a e a1 (e\<lparr>reorder_list := l'\<rparr>)" by (rule insert_keeps[OF al(2) _ ins]) (simp add: s)
    then show ?thesis
      using True al(1) ins
      by (cases q) (auto simp: ba_enqueue_reordering_packet_def Let_def intro!: free_keeps keeps_log)
  qed
qed

section \<open>The whole step\<close>

lemma cases_keeps:
  assumes ok: "lists_ok a e" and s: "seq_ok (rx_Sequence rx)" and live: "seq_ok (LastIndSeq e)"
  shows "\<exists>a' e'. ampdu_cases a e rx b now = Some (a', e') \<and> keeps a e a' e' \<and> seq_ok (LastIndSeq e')"
proof -
  let ?s = "rx_Sequence rx" and ?w = "USHORT (win_start_seq (rx_Sequence rx) (rec_BAWinSize e))"
  have w: "seq_ok ?w" by (simp add: win_start_seq_def and_MAXSEQ seq_ok_def Let_def)
  obtain a1 e1 where l: "ba_indicate_reordering_mpdus_le_seq a e ?w = Some (a1, e1)" "keeps a e a1 e1"
    using le_seq_keeps[OF ok] by blast
  let ?e2 = "e1\<lparr>LastIndSeq := ?w, LastIndSeqAtTimer := now\<rparr>"
  have c2: "keeps a e a1 ?e2" using l(2) by (rule keeps_entry(1)) (simp_all add: rec_static_def)
  obtain a3 e3 where q: "ba_enqueue_reordering_packet a1 ?e2 rx b = Some (a3, e3)" "keeps a1 ?e2 a3 e3"
      "LastIndSeq e3 = LastIndSeq ?e2 \<or> seq_ok (LastIndSeq e3)"
    using enqueue_keeps[OF keeps_lists[OF c2] s] by blast
  have q3: "seq_ok (LastIndSeq e3)" using q(3) w by auto
  obtain a4 e4 t where i: "ba_indicate_reordering_mpdus_in_order a3 e3 (LastIndSeq e3) = Some (a4, e4, t)"
      "keeps a3 e3 a4 e4" "LastIndSeq e4 = LastIndSeq e3" "t = RESET_RCV_SEQ \<or> seq_ok t"
    using in_order_keeps[OF keeps_lists[OF q(2)]] by blast
  have beyond: "keeps a e a4 e4" by (rule keeps_trans[OF keeps_trans[OF c2 q(2)] i(2)])
  let ?i = "INDICATE_LEGACY_OR_AMSDU a rx b"
  have ci: "keeps a e ?i (e\<lparr>LastIndSeq := ?s\<rparr>)"
    by (rule keeps_entry(1)[OF keeps_indicate[OF keeps_refl[OF ok]]]) (simp_all add: rec_static_def)
  obtain a5 e5 u where j: "ba_indicate_reordering_mpdus_in_order ?i (e\<lparr>LastIndSeq := ?s\<rparr>) ?s = Some (a5, e5, u)"
      "keeps ?i (e\<lparr>LastIndSeq := ?s\<rparr>) a5 e5" "LastIndSeq e5 = ?s" "u = RESET_RCV_SEQ \<or> seq_ok u"
    using in_order_keeps[OF keeps_lists[OF ci]] by fastforce
  have inord: "keeps a e a5 e5" by (rule keeps_trans[OF ci j(2)])
  obtain aq eq where w': "ba_enqueue_reordering_packet a e rx b = Some (aq, eq)" "keeps a e aq eq"
      "LastIndSeq eq = LastIndSeq e \<or> seq_ok (LastIndSeq eq)"
    using enqueue_keeps[OF ok s] by blast
  obtain ad ed where d: "drop_packet a e rx = (ad, ed)" "keeps a e ad ed" "LastIndSeq ed = LastIndSeq e"
    using keeps_entry(1)[OF keeps_log[OF keeps_refl[OF ok]], of "e\<lparr>nDropPacket := nDropPacket e + 1\<rparr>"]
    by (simp add: drop_packet_def rec_static_def)
  have ush: "seq_ok (USHORT t)" if "t \<noteq> RESET_RCV_SEQ" using i(4) that by (auto simp: seq_ok_def)
  let ?e5 = "(if u \<noteq> RESET_RCV_SEQ then e5\<lparr>LastIndSeq := u\<rparr> else e5)\<lparr>LastIndSeqAtTimer := now\<rparr>"
  let ?e4 = "if t \<noteq> RESET_RCV_SEQ then e4\<lparr>LastIndSeq := USHORT t\<rparr> else e4"
  have k5: "keeps a e a5 ?e5" by (rule keeps_entry(1)[OF inord]) (simp_all add: rec_static_def)
  have k4: "keeps a e a4 ?e4" by (rule keeps_entry(1)[OF beyond]) (simp_all add: rec_static_def)
  have s5: "seq_ok (LastIndSeq ?e5)" using j(3,4) s by auto
  have s4: "seq_ok (LastIndSeq ?e4)" using i(3) q3 ush by auto
  have sd: "seq_ok (LastIndSeq ed)" and sq: "seq_ok (LastIndSeq eq)" using d(3) w'(3) live by auto
  have "ampdu_cases a e rx b now \<in> {Some (a5, ?e5), Some (ad, ed), Some (aq, eq), Some (a4, ?e4)}"
    using l(1) q(1) i(1) j(1) w'(1) d(1) by (simp add: ampdu_cases_def Let_def)
  then show ?thesis using k5 k4 s5 s4 d(2) w'(2) sd sq by auto
qed

lemma session_rx_keeps:
  assumes ok: "lists_ok a e" "ind_ok e" and s: "seq_ok (rx_Sequence rx)"
  shows "\<exists>a' e'. ampdu_session_rx a e rx b now = Some (a', e') \<and> keeps a e a' e' \<and> ind_ok e'"
proof -
  let ?e0 = "e\<lparr>rcvSeq := rx_Sequence rx\<rparr>"
  have ok0: "lists_ok a ?e0" "ind_ok ?e0" using ok by (simp_all add: lists_ok_def lists_wf_def seqs_ok_def ind_ok_def)
  obtain a1 e1 where f: "ba_flush_reordering_timeout_mpdus a ?e0 now = Some (a1, e1)" "keeps a ?e0 a1 e1" "ind_ok e1"
    using flush_keeps[OF ok0] by blast
  let ?e2 = "e1\<lparr>LastIndSeqAtTimer := now\<rparr>"
  have c: "keeps a e a1 ?e2"
    by (rule keeps_entry(1)[OF keeps_entry(2)[OF f(2)]]) (simp_all add: rec_static_def)
  show ?thesis
  proof (cases "LastIndSeq e1 = RESET_RCV_SEQ")
    case True
    then show ?thesis
      using f(1) keeps_entry(1)[OF keeps_indicate[OF c], of "?e2\<lparr>LastIndSeq := rx_Sequence rx, LastIndSeqAtTimer := now\<rparr>"] s
      by (auto simp: ampdu_session_rx_def Let_def rec_static_def ind_ok_def)
  next
    case False
    then have "seq_ok (LastIndSeq ?e2)" using f(3) by (auto simp: ind_ok_def)
    then obtain a3 e3 where cs: "ampdu_cases a1 ?e2 rx b now = Some (a3, e3)" "keeps a1 ?e2 a3 e3" "seq_ok (LastIndSeq e3)"
      using cases_keeps[OF keeps_lists[OF c] s] by blast
    then show ?thesis
      using f(1) False keeps_trans[OF c cs(2)] by (auto simp: ampdu_session_rx_def Let_def ind_ok_def)
  qed
qed

lemma bar_session_keeps:
  assumes ok: "lists_ok a e" "ind_ok e" and s: "seq_ok StartSeq"
  shows "\<exists>a' e'. bar_session_rx a e StartSeq = Some (a', e') \<and> keeps a e a' e' \<and> ind_ok e' \<and>
    (next_mpdus (reorder_list e) = [] \<longrightarrow> next_mpdus (reorder_list e') = [])"
proof -
  obtain a1 e1 where l: "ba_indicate_reordering_mpdus_le_seq a e StartSeq = Some (a1, e1)" "keeps a e a1 e1"
    using le_seq_keeps[OF ok(1)] by blast
  have "next_mpdus (reorder_list e) = [] \<longrightarrow> next_mpdus (reorder_list e1) = []"
    using l(1) ok(1) by (auto simp: le_seq_eq lists_ok_def lists_wf_def Let_def)
  moreover have "seq_ok (if StartSeq = 0 then MAXSEQ else StartSeq - 1)"
    using s by (auto simp: seq_ok_def MAXSEQ_def)
  ultimately show ?thesis
    using l keeps_refl[OF ok(1)] ok(2)
    by (auto simp: bar_session_rx_def Let_def rec_static_def ind_ok_def intro: keeps_entry(1))
qed

end
