(* ===== verification/BaInv.thy ===== *)
theory BaInv
  imports BaKeep
begin

text \<open>The invariant of the block-ack tables: both tables are linked with the per-station arrays,
  the counters count, the two per-station bitmaps say which TIDs have a session, and every recipient
  entry has a well-formed list, window and timer. The moves of a session (take a slot, complete,
  change, free) are shown to keep it, independently of the handlers.\<close>

section \<open>The invariant\<close>

definition rec_entry_ok :: "BA_REC_ENTRY \<Rightarrow> bool" where
  "rec_entry_ok e \<longleftrightarrow> list_wf (reorder_list e) \<and> seqs_ok e \<and> ind_ok e \<and>
    0 \<le> rec_BAWinSize e \<and> rec_BAWinSize e < 256 \<and>
    (REC_BA_Status e = Recipient_NONE \<and> next_mpdus (reorder_list e) = [] \<or>
     REC_BA_Status e = Recipient_Accept \<and> tm_Valid (RECBATimer e) \<and> 1 \<le> rec_BAWinSize e)"

definition rxbit :: "adapter \<Rightarrow> nat \<Rightarrow> nat \<Rightarrow> bool" where
  "rxbit a w t = bit (RXBAbitmap (Content a ! w)) t"

definition rec_inv :: "adapter \<Rightarrow> bool" where
  "rec_inv a \<longleftrightarrow> table_dims a \<and> tab_ok (rused a) (rown a) (rarrs a) (numAsRecipient a) \<and>
    (\<forall>i<128. rec_entry_ok (BARecEntry a ! i)) \<and>
    (\<forall>w<32. \<forall>t<8. rxbit a w t \<longleftrightarrow> rarrs a ! w ! t \<noteq> 0)"

definition ori_entry_ok :: "BA_ORI_ENTRY \<Rightarrow> bool" where
  "ori_entry_ok e \<longleftrightarrow> ORI_BA_Status e \<noteq> Originator_USED \<and> 0 \<le> ori_BAWinSize e \<and> ori_BAWinSize e < 256 \<and>
    (ORI_BA_Status e \<noteq> Originator_NONE \<longrightarrow> tm_Valid (ORIBATimer e))"

definition txbit :: "adapter \<Rightarrow> nat \<Rightarrow> nat \<Rightarrow> bool" where
  "txbit a w t = bit (TXBAbitmap (Content a ! w)) t"

definition odone :: "adapter \<Rightarrow> nat \<Rightarrow> bool" where
  "odone a i \<longleftrightarrow> oused a i \<and> ORI_BA_Status (BAOriEntry a ! i) = Originator_Done"

definition ori_inv :: "adapter \<Rightarrow> bool" where
  "ori_inv a \<longleftrightarrow> table_dims a \<and> tab_ok (oused a) (oown a) (oarrs a) (numAsOriginator a) \<and>
    (\<forall>i<128. ori_entry_ok (BAOriEntry a ! i)) \<and>
    (\<forall>w<32. \<forall>t<8. txbit a w t \<longleftrightarrow> odone a (oarrs a ! w ! t)) \<and>
    numDoneOriginator a = int (card {i. odone a i})"

definition sta_inv :: "adapter \<Rightarrow> bool" where
  "sta_inv a \<longleftrightarrow> list_wf (freelist a) \<and> 0 \<le> RxBAWinLimit a \<and> RxBAWinLimit a < 256 \<and>
    (\<forall>w<32. length (TxSeq (Content a ! w)) = 8 \<and> (IS_HT_STA (Content a ! w) \<longrightarrow> Aid (Content a ! w) = w))"

definition ba_inv :: "adapter \<Rightarrow> bool" where
  "ba_inv a \<longleftrightarrow> rec_inv a \<and> ori_inv a \<and> sta_inv a"

section \<open>What each part reads\<close>

definition rec_part where
  "rec_part a = (length (BAOriEntry a), BARecEntry a, numAsRecipient a,
     map (\<lambda>st. (BARecWcidArray st, RXBAbitmap st)) (Content a))"

definition ori_part where
  "ori_part a = (length (BARecEntry a), BAOriEntry a, numAsOriginator a, numDoneOriginator a,
     map (\<lambda>st. (BAOriWcidArray st, TXBAbitmap st)) (Content a))"

definition sta_part where
  "sta_part a = (list_wf (freelist a), RxBAWinLimit a,
     map (\<lambda>st. (TxSeq st, IS_HT_STA st, Aid st)) (Content a))"

definition parts where "parts a = (rec_part a, ori_part a, sta_part a)"

lemma map_eq_nthD: "map f xs = map f ys \<Longrightarrow> length xs = length ys"
  by (rule map_eq_imp_length_eq)

lemma rec_inv_cong:
  assumes "rec_part a' = rec_part a"
  shows "rec_inv a' \<longleftrightarrow> rec_inv a"
proof -
  have e: "BARecEntry a' = BARecEntry a" "numAsRecipient a' = numAsRecipient a" "length (BAOriEntry a') = length (BAOriEntry a)"
    and m: "map (\<lambda>st. (BARecWcidArray st, RXBAbitmap st)) (Content a') = map (\<lambda>st. (BARecWcidArray st, RXBAbitmap st)) (Content a)"
    using assms by (simp_all add: rec_part_def)
  have l: "length (Content a') = length (Content a)" using m by (rule map_eq_imp_length_eq)
  have arr: "rarrs a' = rarrs a" using arg_cong[OF m, of "map fst"] by (simp add: rarrs_def comp_def)
  have "rxbit a' w = rxbit a w" if "w < length (Content a)" for w
    using arg_cong[OF m, of "\<lambda>xs. snd (xs ! w)"] that l by (simp add: rxbit_def fun_eq_iff)
  moreover have "rused a' = rused a" "rown a' = rown a" by (simp_all add: rused_def rown_def fun_eq_iff e)
  ultimately show ?thesis using e l arr by (auto simp: rec_inv_def table_dims_def)
qed

lemma ori_inv_cong:
  assumes "ori_part a' = ori_part a"
  shows "ori_inv a' \<longleftrightarrow> ori_inv a"
proof -
  have e: "BAOriEntry a' = BAOriEntry a" "numAsOriginator a' = numAsOriginator a"
      "numDoneOriginator a' = numDoneOriginator a" "length (BARecEntry a') = length (BARecEntry a)"
    and m: "map (\<lambda>st. (BAOriWcidArray st, TXBAbitmap st)) (Content a') = map (\<lambda>st. (BAOriWcidArray st, TXBAbitmap st)) (Content a)"
    using assms by (simp_all add: ori_part_def)
  have l: "length (Content a') = length (Content a)" using m by (rule map_eq_imp_length_eq)
  have arr: "oarrs a' = oarrs a" using arg_cong[OF m, of "map fst"] by (simp add: oarrs_def comp_def)
  have "txbit a' w = txbit a w" if "w < length (Content a)" for w
    using arg_cong[OF m, of "\<lambda>xs. snd (xs ! w)"] that l by (simp add: txbit_def fun_eq_iff)
  moreover have "oused a' = oused a" "oown a' = oown a" "odone a' = odone a"
    by (simp_all add: oused_def oown_def odone_def fun_eq_iff e)
  ultimately show ?thesis using e l arr by (auto simp: ori_inv_def table_dims_def)
qed

lemma sta_inv_cong:
  assumes "sta_part a' = sta_part a" "length (Content a) = 32"
  shows "sta_inv a' \<longleftrightarrow> sta_inv a"
proof -
  have e: "list_wf (freelist a') = list_wf (freelist a)" "RxBAWinLimit a' = RxBAWinLimit a"
    and m: "map (\<lambda>st. (TxSeq st, IS_HT_STA st, Aid st)) (Content a') = map (\<lambda>st. (TxSeq st, IS_HT_STA st, Aid st)) (Content a)"
    using assms by (simp_all add: sta_part_def)
  have l: "length (Content a') = length (Content a)" using m by (rule map_eq_imp_length_eq)
  have "TxSeq (Content a' ! w) = TxSeq (Content a ! w) \<and> IS_HT_STA (Content a' ! w) = IS_HT_STA (Content a ! w) \<and>
      Aid (Content a' ! w) = Aid (Content a ! w)" if "w < 32" for w
    using arg_cong[OF m, of "\<lambda>xs. xs ! w"] that l assms(2) by simp
  then show ?thesis using e by (auto simp: sta_inv_def)
qed

lemma ba_inv_dims: "ba_inv a \<Longrightarrow> length (Content a) = 32" "ba_inv a \<Longrightarrow> length (BARecEntry a) = 128"
  "ba_inv a \<Longrightarrow> length (BAOriEntry a) = 128"
  by (simp_all add: ba_inv_def rec_inv_def table_dims_def)

lemma ba_inv_cong:
  assumes "parts a' = parts a" "ba_inv a"
  shows "ba_inv a'"
  using assms rec_inv_cong[of a' a] ori_inv_cong[of a' a] sta_inv_cong[of a' a] ba_inv_dims(1)[OF assms(2)]
  by (simp add: parts_def ba_inv_def)

section \<open>Updates that leave a part alone\<close>

lemma map_upd_mac:
  assumes "\<And>st. F (g st) = F st"
  shows "map F (Content (upd_mac a w g)) = map F (Content a)"
  by (cases "w < length (Content a)") (simp_all add: upd_mac_def map_update assms list_update_same_conv list_update_beyond)

lemma part_upd_mac [simp]:
  "(\<And>st. BARecWcidArray (g st) = BARecWcidArray st \<and> RXBAbitmap (g st) = RXBAbitmap st) \<Longrightarrow>
    rec_part (upd_mac a w g) = rec_part a"
  "(\<And>st. BAOriWcidArray (g st) = BAOriWcidArray st \<and> TXBAbitmap (g st) = TXBAbitmap st) \<Longrightarrow>
    ori_part (upd_mac a w g) = ori_part a"
  "(\<And>st. TxSeq (g st) = TxSeq st \<and> IS_HT_STA (g st) = IS_HT_STA st \<and> Aid (g st) = Aid st) \<Longrightarrow>
    sta_part (upd_mac a w g) = sta_part a"
  using map_upd_mac[of "\<lambda>st. (BARecWcidArray st, RXBAbitmap st)" g a w]
    map_upd_mac[of "\<lambda>st. (BAOriWcidArray st, TXBAbitmap st)" g a w]
    map_upd_mac[of "\<lambda>st. (TxSeq st, IS_HT_STA st, Aid st)" g a w]
  by (simp_all add: rec_part_def ori_part_def sta_part_def) (simp_all add: upd_mac_def)

lemma part_upd_entry [simp]:
  "ori_part (upd_rec a i g) = ori_part a" "sta_part (upd_rec a i g) = sta_part a"
  "rec_part (upd_ori a i h) = rec_part a" "sta_part (upd_ori a i h) = sta_part a"
  by (simp_all add: upd_rec_def upd_ori_def rec_part_def ori_part_def sta_part_def)

lemma part_counters [simp]:
  "ori_part (a\<lparr>numAsRecipient := n\<rparr>) = ori_part a" "sta_part (a\<lparr>numAsRecipient := n\<rparr>) = sta_part a"
  "rec_part (a\<lparr>numAsOriginator := n\<rparr>) = rec_part a" "sta_part (a\<lparr>numAsOriginator := n\<rparr>) = sta_part a"
  "rec_part (a\<lparr>numDoneOriginator := n\<rparr>) = rec_part a" "sta_part (a\<lparr>numDoneOriginator := n\<rparr>) = sta_part a"
  by (simp_all add: rec_part_def ori_part_def sta_part_def)

lemma part_log [simp]:
  "rec_part (log_call a c) = rec_part a" "ori_part (log_call a c) = ori_part a" "sta_part (log_call a c) = sta_part a"
  "rec_part (a\<lparr>alloc_results := r\<rparr>) = rec_part a" "ori_part (a\<lparr>alloc_results := r\<rparr>) = ori_part a"
  "sta_part (a\<lparr>alloc_results := r\<rparr>) = sta_part a"
  by (simp_all add: log_call_def rec_part_def ori_part_def sta_part_def)

lemma take_alloc_parts: "take_alloc a = (r, a') \<Longrightarrow> parts a' = parts a"
  by (auto simp: take_alloc_def parts_def split: list.splits)

text \<open>A session operation of the reordering buffer changes the free list and the log only.\<close>

lemma more_fields:
  fixes a a' :: adapter
  assumes "ba_ctx.more a' = ba_ctx.more a"
  shows "Content a' = Content a" "BARecEntry a' = BARecEntry a" "BAOriEntry a' = BAOriEntry a"
    "numAsRecipient a' = numAsRecipient a" "numAsOriginator a' = numAsOriginator a"
    "numDoneOriginator a' = numDoneOriginator a" "RxBAWinLimit a' = RxBAWinLimit a"
    "alloc_results a' = alloc_results a"
  using assms by (cases a; cases a'; simp)+

section \<open>The moves of a recipient session\<close>

lemma rec_invD:
  assumes "rec_inv a"
  shows "length (Content a) = 32" "length (BARecEntry a) = 128" "length (BAOriEntry a) = 128"
    "tab_ok (rused a) (rown a) (rarrs a) (numAsRecipient a)" "i < 128 \<Longrightarrow> rec_entry_ok (BARecEntry a ! i)"
    "w < 32 \<Longrightarrow> t < 8 \<Longrightarrow> rxbit a w t \<longleftrightarrow> rarrs a ! w ! t \<noteq> 0"
    "w < 32 \<Longrightarrow> length (BARecWcidArray (Content a ! w)) = 8"
    "w < 32 \<Longrightarrow> rarrs a ! w = BARecWcidArray (Content a ! w)"
proof -
  show 8: "rarrs a ! w = BARecWcidArray (Content a ! w)" if "w < 32"
    using assms that by (simp add: rarrs_def rec_inv_def table_dims_def)
  show "length (BARecWcidArray (Content a ! w)) = 8" if "w < 32"
    using assms that tab_okD(2)[of "rused a" "rown a" "rarrs a" "numAsRecipient a" w]
    unfolding 8[OF that] rec_inv_def by simp
qed (use assms in \<open>auto simp: rec_inv_def table_dims_def\<close>)

lemma rec_entries_update:
  assumes "\<forall>i<128. rec_entry_ok (es ! i)" "rec_entry_ok e'" "length es = 128"
  shows "\<forall>i<128. rec_entry_ok (es[k := e'] ! i)"
proof (intro allI impI)
  fix i :: nat assume "i < 128"
  then show "rec_entry_ok (es[k := e'] ! i)" using assms by (cases "k = i") simp_all
qed

lemma rec_take:
  assumes inv: "rec_inv a" and i: "\<not> rused a i" "1 \<le> i" "i < 128"
    and wt: "w < 32" "t < 8" "rarrs a ! w ! t = 0"
    and e': "rec_entry_ok e'" "REC_BA_Status e' = Recipient_Accept" "rec_Wcid e' = w" "rec_TID e' = t"
    and a': "BARecEntry a' = (BARecEntry a)[i := e']" "numAsRecipient a' = numAsRecipient a + 1"
      "rarrs a' = (rarrs a)[w := (rarrs a ! w)[t := i]]" "table_dims a'"
      "\<And>w' t'. w' < 32 \<Longrightarrow> t' < 8 \<Longrightarrow> rxbit a' w' t' \<longleftrightarrow> rxbit a w' t' \<or> (w' = w \<and> t' = t)"
  shows "rec_inv a'"
proof -
  note d = rec_invD[OF inv]
  have u: "rused a' = (rused a)(i := True)"
    using e'(2) i d(2) by (auto simp: rused_def a'(1) fun_eq_iff nth_list_update)
  have o: "rown a' = (rown a)(i := (w, t))"
    using e'(3,4) i d(2) by (auto simp: rown_def a'(1) fun_eq_iff nth_list_update)
  have tab: "tab_ok (rused a') (rown a') (rarrs a') (numAsRecipient a')"
    using tab_ok_add[OF d(4) i wt] by (simp add: u o a'(2,3))
  have "rxbit a' w' t' \<longleftrightarrow> rarrs a' ! w' ! t' \<noteq> 0" if "w' < 32" "t' < 8" for w' t'
    using arr_update_nth[OF tab_okD(1)[OF d(4)] wt(1,2) tab_okD(2)[OF d(4) wt(1)] that, of i]
      a'(5)[OF that] d(6)[OF that] i(2) unfolding a'(3) by auto
  then show ?thesis
    using tab a'(4) rec_entries_update[of "BARecEntry a" e' i] d(2,5) e'(1) by (simp add: rec_inv_def a'(1))
qed

lemma rec_free:
  assumes inv: "rec_inv a" and i: "rused a i" "rown a i = (w, t)"
    and e': "rec_entry_ok e'" "REC_BA_Status e' = Recipient_NONE" "rec_Wcid e' = w" "rec_TID e' = t"
    and a': "BARecEntry a' = (BARecEntry a)[i := e']" "numAsRecipient a' = numAsRecipient a - 1"
      "rarrs a' = (rarrs a)[w := (rarrs a ! w)[t := 0]]" "table_dims a'"
      "\<And>w' t'. w' < 32 \<Longrightarrow> t' < 8 \<Longrightarrow> rxbit a' w' t' \<longleftrightarrow> rxbit a w' t' \<and> \<not> (w' = w \<and> t' = t)"
  shows "rec_inv a'"
proof -
  note d = rec_invD[OF inv]
  have ib: "i < 128" using tab_okD(4)[OF d(4) i(1)] .
  obtain wt: "w < 32" "t < 8" using tab_ok_owner[OF d(4) i(1)] i(2) by auto
  have u: "rused a' = (rused a)(i := False)"
    using e'(2) ib d(2) by (auto simp: rused_def a'(1) fun_eq_iff nth_list_update)
  have o: "rown a' = rown a"
    using e'(3,4) ib d(2) i(2) by (auto simp: rown_def a'(1) fun_eq_iff nth_list_update)
  have tab: "tab_ok (rused a') (rown a') (rarrs a') (numAsRecipient a')"
    using tab_ok_del[OF d(4) i] by (simp add: u o a'(2,3))
  have "rxbit a' w' t' \<longleftrightarrow> rarrs a' ! w' ! t' \<noteq> 0" if "w' < 32" "t' < 8" for w' t'
    using arr_update_nth[OF tab_okD(1)[OF d(4)] wt(1,2) tab_okD(2)[OF d(4) wt(1)] that, of 0]
      a'(5)[OF that] d(6)[OF that] unfolding a'(3) by auto
  then show ?thesis
    using tab a'(4) rec_entries_update[of "BARecEntry a" e' i] d(2,5) e'(1) by (simp add: rec_inv_def a'(1))
qed

lemma rec_change:
  assumes inv: "rec_inv a"
    and e': "i < 128 \<Longrightarrow> rec_entry_ok e' \<and> REC_BA_Status e' = REC_BA_Status (BARecEntry a ! i) \<and>
        rec_Wcid e' = rec_Wcid (BARecEntry a ! i) \<and> rec_TID e' = rec_TID (BARecEntry a ! i)"
    and a': "BARecEntry a' = (BARecEntry a)[i := e']" "numAsRecipient a' = numAsRecipient a"
      "rarrs a' = rarrs a" "table_dims a'"
      "\<And>w' t'. w' < 32 \<Longrightarrow> t' < 8 \<Longrightarrow> rxbit a' w' t' \<longleftrightarrow> rxbit a w' t'"
  shows "rec_inv a'"
proof (cases "i < 128")
  case True
  note d = rec_invD[OF inv]
  have "rused a' = rused a" "rown a' = rown a"
    using e'[OF True] True d(2) by (auto simp: rused_def rown_def a'(1) fun_eq_iff nth_list_update)
  then show ?thesis
    using d(4,6) a' e'[OF True] rec_entries_update[of "BARecEntry a" e' i] d(2,5) by (simp add: rec_inv_def)
next
  case False
  have "BARecEntry a' = BARecEntry a" using False rec_invD(2)[OF inv] a'(1) by (simp add: list_update_beyond)
  then have "rused a' = rused a" "rown a' = rown a" by (simp_all add: rused_def rown_def fun_eq_iff)
  then show ?thesis
    using inv a'(2-) \<open>BARecEntry a' = BARecEntry a\<close> by (simp add: rec_inv_def)
qed

section \<open>The moves of an originator session\<close>

lemma ori_invD:
  assumes "ori_inv a"
  shows "length (Content a) = 32" "length (BARecEntry a) = 128" "length (BAOriEntry a) = 128"
    "tab_ok (oused a) (oown a) (oarrs a) (numAsOriginator a)" "i < 128 \<Longrightarrow> ori_entry_ok (BAOriEntry a ! i)"
    "w < 32 \<Longrightarrow> t < 8 \<Longrightarrow> txbit a w t \<longleftrightarrow> odone a (oarrs a ! w ! t)"
    "w < 32 \<Longrightarrow> length (BAOriWcidArray (Content a ! w)) = 8"
    "w < 32 \<Longrightarrow> oarrs a ! w = BAOriWcidArray (Content a ! w)"
    "numDoneOriginator a = int (card {i. odone a i})" "finite {i. odone a i}"
proof -
  show 8: "oarrs a ! w = BAOriWcidArray (Content a ! w)" if "w < 32"
    using assms that by (simp add: oarrs_def ori_inv_def table_dims_def)
  show "length (BAOriWcidArray (Content a ! w)) = 8" if "w < 32"
    using assms that tab_okD(2)[of "oused a" "oown a" "oarrs a" "numAsOriginator a" w]
    unfolding 8[OF that] ori_inv_def by simp
  show "finite {i. odone a i}"
    using tab_okD(8)[of "oused a" "oown a" "oarrs a" "numAsOriginator a"] assms
    by (auto simp: ori_inv_def odone_def intro: finite_subset[rotated])
qed (use assms in \<open>auto simp: ori_inv_def table_dims_def\<close>)

lemma ori_entries_update:
  assumes "\<forall>i<128. ori_entry_ok (es ! i)" "ori_entry_ok e'" "length es = 128"
  shows "\<forall>i<128. ori_entry_ok (es[k := e'] ! i)"
proof (intro allI impI)
  fix i :: nat assume "i < 128"
  then show "ori_entry_ok (es[k := e'] ! i)" using assms by (cases "k = i") simp_all
qed

lemma ori_take:
  assumes inv: "ori_inv a" and i: "\<not> oused a i" "1 \<le> i" "i < 128"
    and wt: "w < 32" "t < 8" "oarrs a ! w ! t = 0"
    and e': "ori_entry_ok e'" "ORI_BA_Status e' = Originator_WaitRes" "ori_Wcid e' = w" "ori_TID e' = t"
    and a': "BAOriEntry a' = (BAOriEntry a)[i := e']" "numAsOriginator a' = numAsOriginator a + 1"
      "numDoneOriginator a' = numDoneOriginator a"
      "oarrs a' = (oarrs a)[w := (oarrs a ! w)[t := i]]" "table_dims a'"
      "\<And>w' t'. w' < 32 \<Longrightarrow> t' < 8 \<Longrightarrow> txbit a' w' t' \<longleftrightarrow> txbit a w' t'"
  shows "ori_inv a'"
proof -
  note d = ori_invD[OF inv]
  have u: "oused a' = (oused a)(i := True)"
    using e'(2) i d(3) by (auto simp: oused_def a'(1) fun_eq_iff nth_list_update)
  have o: "oown a' = (oown a)(i := (w, t))"
    using e'(3,4) i d(3) by (auto simp: oown_def a'(1) fun_eq_iff nth_list_update)
  have dn: "odone a' = odone a"
    using e'(2) i d(3) by (auto simp: odone_def u oused_def a'(1) fun_eq_iff nth_list_update)
  have tab: "tab_ok (oused a') (oown a') (oarrs a') (numAsOriginator a')"
    using tab_ok_add[OF d(4) i wt] by (simp add: u o a'(2,4))
  have "txbit a' w' t' \<longleftrightarrow> odone a' (oarrs a' ! w' ! t')" if "w' < 32" "t' < 8" for w' t'
    using arr_update_nth[OF tab_okD(1)[OF d(4)] wt(1,2) tab_okD(2)[OF d(4) wt(1)] that, of i]
      a'(6)[OF that] d(6)[OF that] i(1) wt(3) unfolding a'(4) dn by (auto simp: odone_def oused_def)
  then show ?thesis
    using tab a'(5) ori_entries_update[of "BAOriEntry a" e' i] d(3,5,9) e'(1) by (simp add: ori_inv_def a'(1,3) dn)
qed

lemma card_odone_pos: "ori_inv a \<Longrightarrow> odone a i \<Longrightarrow> 0 < card {i. odone a i}"
  using ori_invD(10)[of a] by (auto simp: card_gt_0_iff)

lemma card_odone_remove:
  assumes "ori_inv a"
  shows "int (card {j. odone a j \<and> j \<noteq> i}) = numDoneOriginator a - (if odone a i then 1 else 0)"
proof -
  have eq: "{j. odone a j \<and> j \<noteq> i} = {j. odone a j} - {i}" by auto
  show ?thesis
  proof (cases "odone a i")
    case True
    have "Suc (card ({j. odone a j} - {i})) = card {j. odone a j}"
      using True ori_invD(10)[OF assms] by (intro card_Suc_Diff1) auto
    then show ?thesis using True ori_invD(9)[OF assms] eq by simp
  next
    case False
    then have "{j. odone a j} - {i} = {j. odone a j}" by auto
    then show ?thesis using False ori_invD(9)[OF assms] eq by simp
  qed
qed

lemma ori_free:
  assumes inv: "ori_inv a" and i: "oused a i" "oown a i = (w, t)"
    and e': "ori_entry_ok e'" "ORI_BA_Status e' = Originator_NONE" "ori_Wcid e' = w" "ori_TID e' = t"
    and a': "BAOriEntry a' = (BAOriEntry a)[i := e']" "numAsOriginator a' = numAsOriginator a - 1"
      "numDoneOriginator a' = numDoneOriginator a - (if odone a i then 1 else 0)"
      "oarrs a' = (oarrs a)[w := (oarrs a ! w)[t := 0]]" "table_dims a'"
      "\<And>w' t'. w' < 32 \<Longrightarrow> t' < 8 \<Longrightarrow> txbit a' w' t' \<longleftrightarrow> txbit a w' t' \<and> \<not> (odone a i \<and> w' = w \<and> t' = t)"
  shows "ori_inv a'"
proof -
  note d = ori_invD[OF inv]
  have ib: "i < 128" using tab_okD(4)[OF d(4) i(1)] .
  obtain wt: "w < 32" "t < 8" "oarrs a ! w ! t = i" using tab_ok_owner[OF d(4) i(1)] i(2) by auto
  have u: "oused a' = (oused a)(i := False)"
    using e'(2) ib d(3) by (auto simp: oused_def a'(1) fun_eq_iff nth_list_update)
  have o: "oown a' = oown a"
    using e'(3,4) ib d(3) i(2) by (auto simp: oown_def a'(1) fun_eq_iff nth_list_update)
  have dn: "odone a' j \<longleftrightarrow> odone a j \<and> j \<noteq> i" for j
    using ib d(3) by (auto simp: odone_def u a'(1) nth_list_update)
  have tab: "tab_ok (oused a') (oown a') (oarrs a') (numAsOriginator a')"
    using tab_ok_del[OF d(4) i] by (simp add: u o a'(2,4))
  have "txbit a' w' t' \<longleftrightarrow> odone a' (oarrs a' ! w' ! t')" if w't': "w' < 32" "t' < 8" for w' t'
  proof -
    have arr: "oarrs a' ! w' ! t' = (if w' = w \<and> t' = t then 0 else oarrs a ! w' ! t')"
      unfolding a'(4) by (rule arr_update_nth[OF tab_okD(1)[OF d(4)] wt(1,2) tab_okD(2)[OF d(4) wt(1)] w't'])
    show ?thesis
    proof (cases "w' = w \<and> t' = t")
      case True
      then show ?thesis using arr a'(6)[OF w't'] d(6)[OF w't'] wt(3) by (simp add: dn odone_def oused_def)
    next
      case False
      then have "oarrs a ! w' ! t' \<noteq> i"
        using tab_okD(6)[OF d(4) w't'] i(2) tab_okD(3)[OF d(4) i(1)] by auto
      moreover have "oarrs a' ! w' ! t' = oarrs a ! w' ! t'" using False arr by auto
      ultimately show ?thesis using False a'(6)[OF w't'] d(6)[OF w't'] by (auto simp: dn)
    qed
  qed
  then show ?thesis
    using tab a'(3,5) ori_entries_update[of "BAOriEntry a" e' i] d(3,5) e'(1) card_odone_remove[OF inv, of i]
    by (simp add: ori_inv_def a'(1) dn)
qed

text \<open>An entry that waits becomes an established session.\<close>

lemma ori_complete:
  assumes inv: "ori_inv a" and i: "oused a i" "oown a i = (w, t)" "\<not> odone a i"
    and e': "ori_entry_ok e'" "ORI_BA_Status e' = Originator_Done" "ori_Wcid e' = w" "ori_TID e' = t"
    and a': "BAOriEntry a' = (BAOriEntry a)[i := e']" "numAsOriginator a' = numAsOriginator a"
      "numDoneOriginator a' = numDoneOriginator a + 1" "oarrs a' = oarrs a" "table_dims a'"
      "\<And>w' t'. w' < 32 \<Longrightarrow> t' < 8 \<Longrightarrow> txbit a' w' t' \<longleftrightarrow> txbit a w' t' \<or> (w' = w \<and> t' = t)"
  shows "ori_inv a'"
proof -
  note d = ori_invD[OF inv]
  have ib: "i < 128" using tab_okD(4)[OF d(4) i(1)] .
  obtain wt: "w < 32" "t < 8" "oarrs a ! w ! t = i" using tab_ok_owner[OF d(4) i(1)] i(2) by auto
  have u: "oused a' = oused a" and o: "oown a' = oown a"
    using e'(2-4) ib d(3) i by (auto simp: oused_def oown_def a'(1) fun_eq_iff nth_list_update)
  have dn: "odone a' j \<longleftrightarrow> odone a j \<or> j = i" for j
    using ib d(3) i(1) e'(2) by (auto simp: odone_def u a'(1) nth_list_update)
  have "txbit a' w' t' \<longleftrightarrow> odone a' (oarrs a' ! w' ! t')" if w't': "w' < 32" "t' < 8" for w' t'
  proof -
    have "(w', t') = (w, t)" if "oarrs a ! w' ! t' = i"
      using tab_okD(6)[OF d(4) w't'] that i(2) tab_okD(3)[OF d(4) i(1)] by auto
    then show ?thesis using a'(4) a'(6)[OF w't'] d(6)[OF w't'] wt(3) by (auto simp: dn)
  qed
  moreover have "{j. odone a' j} = insert i {j. odone a j}" using dn by auto
  ultimately show ?thesis
    using d(4) a'(2-5) ori_entries_update[of "BAOriEntry a" e' i] d(3,5,9,10) e'(1) i(3)
    by (simp add: ori_inv_def a'(1) u o)
qed

lemma ori_change:
  assumes inv: "ori_inv a"
    and e': "i < 128 \<Longrightarrow> ori_entry_ok e' \<and> ORI_BA_Status e' = ORI_BA_Status (BAOriEntry a ! i) \<and>
        ori_Wcid e' = ori_Wcid (BAOriEntry a ! i) \<and> ori_TID e' = ori_TID (BAOriEntry a ! i)"
    and a': "BAOriEntry a' = (BAOriEntry a)[i := e']" "numAsOriginator a' = numAsOriginator a"
      "numDoneOriginator a' = numDoneOriginator a" "oarrs a' = oarrs a" "table_dims a'"
      "\<And>w' t'. w' < 32 \<Longrightarrow> t' < 8 \<Longrightarrow> txbit a' w' t' \<longleftrightarrow> txbit a w' t'"
  shows "ori_inv a'"
proof (cases "i < 128")
  case True
  note d = ori_invD[OF inv]
  have "oused a' = oused a" "oown a' = oown a"
    using e'[OF True] True d(3) by (auto simp: oused_def oown_def a'(1) fun_eq_iff nth_list_update)
  moreover have "odone a' = odone a"
    using e'[OF True] True d(3) calculation(1) by (auto simp: odone_def a'(1) fun_eq_iff nth_list_update)
  ultimately show ?thesis
    using d(4,6,9) a' e'[OF True] ori_entries_update[of "BAOriEntry a" e' i] d(3,5) by (simp add: ori_inv_def)
next
  case False
  have e: "BAOriEntry a' = BAOriEntry a" using False ori_invD(3)[OF inv] a'(1) by (simp add: list_update_beyond)
  then have "oused a' = oused a" "oown a' = oown a" "odone a' = odone a"
    by (simp_all add: oused_def oown_def odone_def fun_eq_iff)
  then show ?thesis using inv a'(2-) e by (simp add: ori_inv_def)
qed

end
