(* ===== verification/BaHandlers.thy ===== *)
theory BaHandlers
  imports BaInv
begin

text \<open>Every operation of the session code returns and keeps the table invariant when it is called
  with a TID the per-station arrays have.\<close>

section \<open>Receiving and flushing\<close>

lemma ba_invD:
  assumes "ba_inv a"
  shows "rec_inv a" "ori_inv a" "sta_inv a" "list_wf (freelist a)" "0 \<le> RxBAWinLimit a" "RxBAWinLimit a < 256"
    "w < 32 \<Longrightarrow> length (TxSeq (Content a ! w)) = 8"
    "w < 32 \<Longrightarrow> IS_HT_STA (Content a ! w) \<Longrightarrow> Aid (Content a ! w) = w"
    "w < 32 \<Longrightarrow> length (BARecWcidArray (Content a ! w)) = 8"
    "w < 32 \<Longrightarrow> length (BAOriWcidArray (Content a ! w)) = 8"
  using assms by (simp_all add: ba_inv_def sta_inv_def rec_invD(7) ori_invD(7))

lemma ba_inv_lists:
  assumes "ba_inv a" "i < 128"
  shows "lists_ok a (BARecEntry a ! i)" "ind_ok (BARecEntry a ! i)"
  using ba_invD(4)[OF assms(1)] rec_invD(5)[OF ba_invD(1)[OF assms(1)] assms(2)]
  by (simp_all add: lists_ok_def lists_wf_def rec_entry_ok_def)

lemma rec_arr_bound:
  assumes "ba_inv a" "w < 32" "t < 8"
  shows "BARecWcidArray (Content a ! w) ! t < 128"
proof (cases "BARecWcidArray (Content a ! w) ! t = 0")
  case False
  note d = rec_invD[OF ba_invD(1)[OF assms(1)]]
  show ?thesis using tab_okD(4)[OF d(4) tab_okD(5)[OF d(4) assms(2,3)]] False d(8)[OF assms(2)] by simp
qed simp

lemma ori_arr_bound:
  assumes "ba_inv a" "w < 32" "t < 8"
  shows "BAOriWcidArray (Content a ! w) ! t < 128"
proof (cases "BAOriWcidArray (Content a ! w) ! t = 0")
  case False
  note d = ori_invD[OF ba_invD(2)[OF assms(1)]]
  show ?thesis using tab_okD(4)[OF d(4) tab_okD(5)[OF d(4) assms(2,3)]] False d(8)[OF assms(2)] by simp
qed simp

lemma keeps_parts:
  fixes a a' :: adapter
  assumes "keeps a e a' e'" "ba_inv a"
  shows "parts a' = parts a"
proof -
  have "list_wf (freelist a')" using assms(1) by (simp add: keeps_def lists_ok_def lists_wf_def)
  then show ?thesis
    using more_fields[of a' a] assms ba_invD(4)[OF assms(2)]
    by (simp add: keeps_def parts_def rec_part_def ori_part_def sta_part_def)
qed

lemma upd_rec_inv:
  assumes inv: "ba_inv a" and i: "i < 128"
    and e': "rec_entry_ok (g (BARecEntry a ! i))" "REC_BA_Status (g (BARecEntry a ! i)) = REC_BA_Status (BARecEntry a ! i)"
      "rec_Wcid (g (BARecEntry a ! i)) = rec_Wcid (BARecEntry a ! i)" "rec_TID (g (BARecEntry a ! i)) = rec_TID (BARecEntry a ! i)"
  shows "ba_inv (upd_rec a i g)"
proof -
  have "rec_inv (upd_rec a i g)"
    using e' ba_inv_dims[OF inv]
    by (intro rec_change[OF ba_invD(1)[OF inv], where e' = "g (BARecEntry a ! i)" and i = i])
      (simp_all add: upd_rec_def rarrs_def table_dims_def rxbit_def)
  moreover have "ori_inv (upd_rec a i g)" using ori_inv_cong[of "upd_rec a i g" a] ba_invD(2)[OF inv] by simp
  moreover have "sta_inv (upd_rec a i g)"
    using sta_inv_cong[of "upd_rec a i g" a] ba_invD(3)[OF inv] ba_inv_dims(1)[OF inv] by simp
  ultimately show ?thesis by (simp add: ba_inv_def)
qed

text \<open>A session operation on entry \<open>i\<close>, written back to the table.\<close>

lemma entry_step:
  fixes a a' :: adapter
  assumes inv: "ba_inv a" and i: "i < 128" and k: "keeps a (BARecEntry a ! i) a' e'" and ind: "ind_ok e'"
    and mt: "REC_BA_Status (BARecEntry a ! i) = Recipient_NONE \<Longrightarrow> next_mpdus (reorder_list e') = []"
  shows "ba_inv (upd_rec a' i (\<lambda>_. e'))"
proof -
  have inv': "ba_inv a'" by (rule ba_inv_cong[OF keeps_parts[OF k inv] inv])
  have e: "BARecEntry a' = BARecEntry a" using more_fields(2)[of a' a] k by (simp add: keeps_def)
  have st: "rec_static e' = rec_static (BARecEntry a ! i)" and l: "lists_ok a' e'" using k by (simp_all add: keeps_def)
  have "rec_entry_ok e'"
    using rec_invD(5)[OF ba_invD(1)[OF inv] i] st l ind mt
    by (auto simp: rec_entry_ok_def rec_static_def lists_ok_def lists_wf_def)
  then show ?thesis using st by (intro upd_rec_inv[OF inv' i]) (simp_all add: e rec_static_def)
qed

lemma Indicate_AMPDU_inv:
  assumes inv: "ba_inv a" and s: "seq_ok (rx_Sequence rx)" and t: "RxWITID rx < 8"
  shows "\<exists>a'. Indicate_AMPDU_Packet a rx b now = Some a' \<and> ba_inv a'"
proof (cases "(\<not> RX_BLK_TEST_FLAG rx fRX_AMSDU \<and> DataSize rx > MAX_RX_PKT_LEN) \<or> \<not> RxWIWirelessCliID rx < 32")
  case True
  have "ba_inv (log_call a c)" for c by (rule ba_inv_cong[OF _ inv]) (simp add: parts_def)
  then show ?thesis using True by (auto simp: Indicate_AMPDU_Packet_def table_sizes Let_def)
next
  case False
  let ?w = "RxWIWirelessCliID rx" and ?t = "RxWITID rx"
  let ?i = "BARecWcidArray (Content a ! ?w) ! ?t"
  have i: "?i < 128" using rec_arr_bound[OF inv _ t] False by simp
  have log: "ba_inv (INDICATE_LEGACY_OR_AMSDU a rx b)"
    by (rule ba_inv_cong[OF _ inv]) (simp add: parts_def INDICATE_eq)
  obtain a' e' where r: "ampdu_session_rx a (BARecEntry a ! ?i) rx b now = Some (a', e')"
      "keeps a (BARecEntry a ! ?i) a' e'" "ind_ok e'"
    using session_rx_keeps[OF ba_inv_lists[OF inv i] s] by blast
  have "ba_inv (upd_rec a' ?i (\<lambda>_. e'))" if "?i \<noteq> 0"
  proof (rule entry_step[OF inv i r(2,3)])
    assume none: "REC_BA_Status (BARecEntry a ! ?i) = Recipient_NONE"
    have "rused a ?i"
      using tab_okD(5)[OF rec_invD(4)[OF ba_invD(1)[OF inv]], of ?w ?t] that False t
        rec_invD(8)[OF ba_invD(1)[OF inv], of ?w] by simp
    then show "next_mpdus (reorder_list e') = []" using none by (simp add: rused_def)
  qed
  then show ?thesis
    using False log r(1) i t ba_inv_dims[OF inv] ba_invD(9)[OF inv, of ?w]
    by (auto simp: Indicate_AMPDU_Packet_def table_sizes Let_def)
qed

lemma BASEQ_seq_ok: "seq_ok (BASEQ_CONTROL_StartSeq w)"
proof -
  have "uint w < 4096 * 16" using uint_lt2p[of w] by simp
  then have "uint (drop_bit 4 w) < 4096"
    by (simp add: drop_bit_eq_div uint_div)
  then show ?thesis by (simp add: BASEQ_CONTROL_StartSeq_def seq_ok_def)
qed

lemma CntlEnqueueForRecv_inv:
  assumes inv: "ba_inv a"
  shows "\<exists>r a'. CntlEnqueueForRecv a w len c s = Some (r, a') \<and> ba_inv a'"
proof (cases "w < 32 \<and> BAR_CONTROL_TID c < 8")
  case False
  then show ?thesis using inv by (auto simp: CntlEnqueueForRecv_def Let_def table_sizes)
next
  case True
  let ?t = "BAR_CONTROL_TID c"
  let ?i = "BARecWcidArray (Content a ! w) ! ?t"
  have i: "?i < 128" using rec_arr_bound[OF inv] True by simp
  obtain a' e' where r: "bar_session_rx a (BARecEntry a ! ?i) (BASEQ_CONTROL_StartSeq s) = Some (a', e')"
      "keeps a (BARecEntry a ! ?i) a' e'" "ind_ok e'"
      "next_mpdus (reorder_list (BARecEntry a ! ?i)) = [] \<longrightarrow> next_mpdus (reorder_list e') = []"
    using bar_session_keeps[OF ba_inv_lists[OF inv i] BASEQ_seq_ok] by blast
  have "ba_inv (upd_rec a' ?i (\<lambda>_. e'))"
    using r(4) rec_invD(5)[OF ba_invD(1)[OF inv] i]
    by (intro entry_step[OF inv i r(2,3)]) (auto simp: rec_entry_ok_def)
  then show ?thesis
    using True inv r(1) i ba_inv_dims[OF inv] ba_invD(9)[OF inv, of w]
    by (auto simp: CntlEnqueueForRecv_def Let_def table_sizes)
qed

lemma flush_empty:
  "lists_ok a e \<Longrightarrow> next_mpdus (reorder_list e) = [] \<Longrightarrow> ba_flush_reordering_timeout_mpdus a e now = Some (a, e)"
  by (simp add: ba_flush_reordering_timeout_mpdus_def lists_ok_def lists_wf_def list_wf_def)

lemma flush_entry_inv:
  assumes inv: "ba_inv a" and i: "i < 128"
  shows "\<exists>a' e'. ba_flush_reordering_timeout_mpdus a (BARecEntry a ! i) now = Some (a', e') \<and>
    ba_inv (upd_rec a' i (\<lambda>_. e')) \<and> Content (upd_rec a' i (\<lambda>_. e')) = Content a"
proof -
  obtain a' e' where r: "ba_flush_reordering_timeout_mpdus a (BARecEntry a ! i) now = Some (a', e')"
      "keeps a (BARecEntry a ! i) a' e'" "ind_ok e'"
    using flush_keeps[OF ba_inv_lists[OF inv i]] by blast
  have "ba_inv (upd_rec a' i (\<lambda>_. e'))"
    using r(1) rec_invD(5)[OF ba_invD(1)[OF inv] i] flush_empty[OF ba_inv_lists(1)[OF inv i], of now]
    by (intro entry_step[OF inv i r(2,3)]) (auto simp: rec_entry_ok_def)
  moreover have "Content (upd_rec a' i (\<lambda>_. e')) = Content a"
    using r(2) more_fields(1)[of a' a] by (simp add: upd_rec_def keeps_def)
  ultimately show ?thesis using r(1) by blast
qed

lemma maintain_tids_inv:
  assumes "ba_inv a" "w < 32" "\<forall>t \<in> set ts. t < 8"
  shows "\<exists>a'. maintain_tids a w ts now = Some a' \<and> ba_inv a' \<and> Content a' = Content a"
  using assms
proof (induction ts arbitrary: a)
  case (Cons t ts)
  let ?i = "BARecWcidArray (Content a ! w) ! t"
  have i: "?i < 128" using rec_arr_bound[OF Cons.prems(1,2)] Cons.prems(3) by simp
  obtain a' e' where r: "ba_flush_reordering_timeout_mpdus a (BARecEntry a ! ?i) now = Some (a', e')"
      "ba_inv (upd_rec a' ?i (\<lambda>_. e'))" "Content (upd_rec a' ?i (\<lambda>_. e')) = Content a"
    using flush_entry_inv[OF Cons.prems(1) i] by blast
  then show ?case
    using Cons.IH[OF r(2) Cons.prems(2)] Cons.prems i ba_inv_dims[OF Cons.prems(1)] ba_invD(9)[OF Cons.prems(1,2)]
    by simp
qed simp

lemma maintain_wcids_inv:
  assumes "ba_inv a" "\<forall>w \<in> set ws. w < 32"
  shows "\<exists>a'. maintain_wcids a ws now = Some a' \<and> ba_inv a'"
  using assms
proof (induction ws arbitrary: a)
  case (Cons w ws)
  obtain a1 where a1: "maintain_tids a w [0..<8] now = Some a1" "ba_inv a1"
    using maintain_tids_inv[OF Cons.prems(1), of w "[0..<8]" now] Cons.prems(2) by auto
  then show ?case
    using Cons.IH[OF a1(2)] Cons.IH[OF Cons.prems(1)] Cons.prems ba_inv_dims[OF Cons.prems(1)]
    by (simp add: table_sizes)
qed simp

lemma Maintain_inv: "ba_inv a \<Longrightarrow> \<exists>a'. BaReOrderingBufferMaintain a now = Some a' \<and> ba_inv a'"
  unfolding BaReOrderingBufferMaintain_def by (intro maintain_wcids_inv) (auto simp: table_sizes)

lemma IdleTimeout_inv:
  assumes inv: "ba_inv a" and i: "i < 128"
  shows "\<exists>a'. BARecSessionIdleTimeout a i now = Some a' \<and> ba_inv a'"
proof -
  obtain a' e' where r: "ba_refresh_reordering_mpdus a (BARecEntry a ! i) = (a', e')"
      "keeps a (BARecEntry a ! i) a' e'" "LastIndSeq e' = RESET_RCV_SEQ" "next_mpdus (reorder_list e') = []"
    using refresh_keeps[OF ba_inv_lists(1)[OF inv i]] by blast
  have "ba_inv (upd_rec a' i (\<lambda>_. e'))"
    by (rule entry_step[OF inv i r(2)]) (simp_all add: ind_ok_def r(3,4))
  then show ?thesis using r(1) inv i ba_inv_dims[OF inv] by (auto simp: BARecSessionIdleTimeout_def)
qed

section \<open>Frames sent\<close>

lemma MlmeDELBAAction_inv:
  assumes inv: "ba_inv a" and t: "dq_TID i < 8"
  shows "\<exists>a'. MlmeDELBAAction a i len = Some a' \<and> parts a' = parts a"
proof (cases "MlmeDelBAReqSanity a i len \<and> VALID_WCID (dq_Wcid i)")
  case True
  obtain r1 a1 where t1: "take_alloc a = (r1, a1)" by fastforce
  obtain r2 a2 where t2: "take_alloc a1 = (r2, a2)" by fastforce
  have p1: "parts a1 = parts a" and p2: "parts a2 = parts a"
    using take_alloc_parts[OF t1] take_alloc_parts[OF t2] by simp_all
  have inv2: "ba_inv a2" by (rule ba_inv_cong[OF p2 inv])
  have w: "dq_Wcid i < 32" using True by (simp add: VALID_WCID_def table_sizes)
  have "nth_opt (Content a2) (dq_Wcid i) = Some (Content a2 ! dq_Wcid i)"
    "dq_TID i < length (BAOriWcidArray (Content a2 ! dq_Wcid i))"
    "dq_TID i < length (TxSeq (Content a2 ! dq_Wcid i))"
    using w t ba_inv_dims[OF inv2] ba_invD(7,10)[OF inv2 w] by simp_all
  then show ?thesis
    using True t1 t2 p1 p2 by (cases r1; cases r2) (simp_all add: MlmeDELBAAction_def parts_def Let_def)
next
  case False
  then show ?thesis by (auto simp: MlmeDELBAAction_def)
qed

lemma MlmeADDBAAction_inv:
  assumes inv: "ba_inv a" and t: "aq_TID i < 8"
  shows "\<exists>a'. MlmeADDBAAction a i len = Some a' \<and> parts a' = parts a"
proof (cases "MlmeAddBAReqSanity i len \<and> VALID_WCID (aq_Wcid i)")
  case True
  obtain r1 a1 where t1: "take_alloc a = (r1, a1)" by fastforce
  have p1: "parts a1 = parts a" by (rule take_alloc_parts[OF t1])
  have inv1: "ba_inv a1" by (rule ba_inv_cong[OF p1 inv])
  have w: "aq_Wcid i < 32" using True by (simp add: VALID_WCID_def table_sizes)
  have "nth_opt (Content a1) (aq_Wcid i) = Some (Content a1 ! aq_Wcid i)"
    "aq_TID i < length (BAOriWcidArray (Content a1 ! aq_Wcid i))"
    "aq_TID i < length (TxSeq (Content a1 ! aq_Wcid i))" "aq_TID i < length MapUserPriorityToAccessCategory"
    using w t ba_inv_dims[OF inv1] ba_invD(7,10)[OF inv1 w]
    by (simp_all add: MapUserPriorityToAccessCategory_def)
  then show ?thesis
    using True t1 p1 by (cases r1) (simp_all add: MlmeADDBAAction_def parts_def Let_def)
next
  case False
  then show ?thesis by (auto simp: MlmeADDBAAction_def)
qed

lemma send_delba_inv:
  assumes inv: "ba_inv a" and t: "t < 8"
  shows "\<exists>b a'. send_delba a w t ini = (b, Some a') \<and> parts a' = parts a"
proof -
  obtain r a1 where t1: "take_alloc a = (r, a1)" by fastforce
  have p1: "parts a1 = parts a" by (rule take_alloc_parts[OF t1])
  let ?q = "\<lparr>dq_Wcid = w, dq_Addr = Addr (Content a1 ! w), dq_TID = t, dq_Initiator = ini\<rparr>"
  obtain a2 where "MlmeDELBAAction a1 ?q sizeof_MLME_DELBA_REQ_STRUCT = Some a2" "parts a2 = parts a1"
    using MlmeDELBAAction_inv[OF ba_inv_cong[OF p1 inv], of ?q] t by auto
  then show ?thesis using t1 p1 by (cases r) (auto simp: send_delba_def)
qed

end
