(* ===== verification/BaSessions.thy ===== *)
theory BaSessions
  imports BaHandlers
begin

text \<open>Setting up, completing and tearing down sessions keeps the table invariant, on every
  branch of the handlers, whatever the outcome of their allocations.\<close>

section \<open>Originator sessions\<close>

lemma timer_valid [simp]:
  "tm_Valid (RTMPInitTimer t r)" "tm_Valid (RTMPSetTimer h t v) = tm_Valid t"
  "tm_Valid (RTMPCancelTimer t) = tm_Valid t" "tm_Valid (t\<lparr>tm_TimerValue := v\<rparr>) = tm_Valid t"
  by (auto simp: timer_defs Let_def)

lemma upd_nth [simp]:
  "i < length (BAOriEntry a) \<Longrightarrow> BAOriEntry (upd_ori a i g) ! i = g (BAOriEntry a ! i)"
  "i < length (BARecEntry a) \<Longrightarrow> BARecEntry (upd_rec a i h) ! i = h (BARecEntry a ! i)"
  "w < length (Content a) \<Longrightarrow> Content (upd_mac a w f) ! w = f (Content a ! w)"
  by (simp_all add: upd_ori_def upd_rec_def upd_mac_def)

lemma upd_sel [simp]:
  "Content (upd_ori a i g) = Content a" "BARecEntry (upd_ori a i g) = BARecEntry a"
  "Content (upd_rec a i h) = Content a" "BAOriEntry (upd_rec a i h) = BAOriEntry a"
  "BAOriEntry (upd_mac a w f) = BAOriEntry a" "BARecEntry (upd_mac a w f) = BARecEntry a"
  "length (BAOriEntry (upd_ori a i g)) = length (BAOriEntry a)"
  "length (BARecEntry (upd_rec a i h)) = length (BARecEntry a)"
  "length (Content (upd_mac a w f)) = length (Content a)"
  "RxBAWinLimit (upd_ori a i g) = RxBAWinLimit a" "alloc_results (upd_ori a i g) = alloc_results a"
  by (simp_all add: upd_ori_def upd_rec_def upd_mac_def)

lemma part_dims:
  "parts a' = parts a \<Longrightarrow> table_dims a \<Longrightarrow> table_dims a'"
  using map_eq_imp_length_eq[of _ "Content a'" _ "Content a"]
  by (auto simp: parts_def rec_part_def ori_part_def table_dims_def)

lemma ba_invI:
  assumes "ba_inv a" "ori_inv a'" "rec_part a' = rec_part a" "sta_part a' = sta_part a"
  shows "ba_inv a'"
  using assms rec_inv_cong[OF assms(3)] sta_inv_cong[OF assms(4)] by (simp add: ba_inv_def rec_invD(1))

lemma ba_invI_rec:
  assumes "ba_inv a" "rec_inv a'" "ori_part a' = ori_part a" "sta_part a' = sta_part a"
  shows "ba_inv a'"
  using assms ori_inv_cong[OF assms(3)] sta_inv_cong[OF assms(4)] by (simp add: ba_inv_def rec_invD(1))

text \<open>The counters stay in range.\<close>

lemma counters_range:
  assumes "ba_inv a"
  shows "0 \<le> numAsOriginator a" "numAsOriginator a \<le> 127" "0 \<le> numAsRecipient a" "numAsRecipient a \<le> 127"
    "0 \<le> numDoneOriginator a" "numDoneOriginator a \<le> 127"
proof -
  note o = ori_invD[OF ba_invD(2)[OF assms]] and r = rec_invD[OF ba_invD(1)[OF assms]]
  show "numAsOriginator a \<le> 127" "numAsRecipient a \<le> 127" by (rule tab_count_bound[OF o(4)], rule tab_count_bound[OF r(4)])
  have "card {i. odone a i} \<le> card {i. oused a i}"
    by (rule card_mono[OF tab_okD(8)[OF o(4)]]) (auto simp: odone_def)
  then show "numDoneOriginator a \<le> 127" using o(9) tab_okD(7)[OF o(4)] tab_count_bound[OF o(4)] by simp
qed (use tab_okD(7)[OF ori_invD(4)[OF ba_invD(2)[OF assms]]] tab_okD(7)[OF rec_invD(4)[OF ba_invD(1)[OF assms]]]
      ori_invD(9)[OF ba_invD(2)[OF assms]] in simp_all)

lemma used_counter_pos:
  assumes "ba_inv a"
  shows "oused a i \<Longrightarrow> 1 \<le> numAsOriginator a" "rused a i \<Longrightarrow> 1 \<le> numAsRecipient a"
    "odone a i \<Longrightarrow> 1 \<le> numDoneOriginator a"
proof -
  note o = ori_invD[OF ba_invD(2)[OF assms]] and r = rec_invD[OF ba_invD(1)[OF assms]]
  show "oused a i \<Longrightarrow> 1 \<le> numAsOriginator a"
    using tab_okD(7,8)[OF o(4)] by (auto simp: Suc_le_eq card_gt_0_iff)
  show "rused a i \<Longrightarrow> 1 \<le> numAsRecipient a"
    using tab_okD(7,8)[OF r(4)] by (auto simp: Suc_le_eq card_gt_0_iff)
  show "odone a i \<Longrightarrow> 1 \<le> numDoneOriginator a"
    using o(9,10) by (auto simp: Suc_le_eq card_gt_0_iff)
qed

lemma FreeOri_inv:
  assumes inv: "ba_inv a"
  shows "\<exists>a'. BATableFreeOriEntry a i = Some a' \<and> ba_inv a' \<and> \<not> oused a' i"
proof (cases "oused a i")
  case False
  then show ?thesis
    using inv ba_inv_dims[OF inv] by (auto simp: BATableFreeOriEntry_def table_sizes oused_def)
next
  case True
  note o = ori_invD[OF ba_invD(2)[OF inv]]
  let ?e = "BAOriEntry a ! i" and ?w = "ori_Wcid (BAOriEntry a ! i)" and ?t = "ori_TID (BAOriEntry a ! i)"
  obtain wt: "?w < 32" "?t < 8" using tab_ok_owner[OF o(4) True] by (auto simp: oown_def)
  let ?a1 = "upd_mac a ?w (\<lambda>st. st\<lparr>BAOriWcidArray := (BAOriWcidArray st)[?t := 0]\<rparr>)"
  let ?a2 = "if ORI_BA_Status ?e = Originator_Done
             then upd_mac (?a1\<lparr>numDoneOriginator := ULONG (numDoneOriginator ?a1 - 1)\<rparr>) ?w
                    (\<lambda>st. st\<lparr>TXBAbitmap := bit_clear (TXBAbitmap st) ?t\<rparr>)
             else ?a1"
  let ?a3 = "upd_ori (?a2\<lparr>numAsOriginator := ULONG (numAsOriginator ?a2 - 1)\<rparr>) i
               (\<lambda>e. e\<lparr>ORI_BA_Status := Originator_NONE, ori_Token := 0\<rparr>)"
  have ib: "1 \<le> i" "i < 128" using tab_okD(3,4)[OF o(4) True] by auto
  have res: "BATableFreeOriEntry a i = Some ?a3"
    using True ib wt o(1,3,7) by (simp add: BATableFreeOriEntry_def table_sizes oused_def Let_def)
  have c: "1 \<le> numAsOriginator a" "numAsOriginator a \<le> 127"
    using used_counter_pos(1)[OF inv True] counters_range(2)[OF inv] by auto
  have cd: "odone a i \<Longrightarrow> 1 \<le> numDoneOriginator a" "numDoneOriginator a \<le> 127"
    using used_counter_pos(3)[OF inv] counters_range(6)[OF inv] by auto
  have dn: "odone a i \<longleftrightarrow> ORI_BA_Status ?e = Originator_Done" using True by (simp add: odone_def)
  have "ori_inv ?a3"
  proof (rule ori_free[OF ba_invD(2)[OF inv] True, of ?w ?t])
    show "ori_entry_ok (?e\<lparr>ORI_BA_Status := Originator_NONE, ori_Token := 0\<rparr>)"
      using o(5)[OF ib(2)] by (simp add: ori_entry_ok_def)
    show "BAOriEntry ?a3 = (BAOriEntry a)[i := ?e\<lparr>ORI_BA_Status := Originator_NONE, ori_Token := 0\<rparr>]"
      by (simp add: upd_ori_def upd_mac_def)
    show "numAsOriginator ?a3 = numAsOriginator a - 1"
      using c by (simp add: upd_ori_def upd_mac_def)
    show "numDoneOriginator ?a3 = numDoneOriginator a - (if odone a i then 1 else 0)"
      using cd by (cases "odone a i") (simp_all add: dn upd_ori_def upd_mac_def)
    show "oarrs ?a3 = (oarrs a)[?w := (oarrs a ! ?w)[?t := 0]]"
      using wt o(1) by (simp add: oarrs_def upd_ori_def upd_mac_def map_update)
    show "table_dims ?a3" using o(1-3) by (simp add: table_dims_def upd_ori_def upd_mac_def)
    show "txbit ?a3 w' t' \<longleftrightarrow> txbit a w' t' \<and> \<not> (odone a i \<and> w' = ?w \<and> t' = ?t)" if "w' < 32" "t' < 8" for w' t'
      using wt o(1) that by (auto simp: txbit_def dn upd_ori_def upd_mac_def nth_list_update)
  qed (simp_all add: oown_def)
  moreover have "rec_part ?a3 = rec_part a" "sta_part ?a3 = sta_part a" by simp_all
  moreover have "\<not> oused ?a3 i" using ib o(3) by (simp add: oused_def upd_ori_def upd_mac_def)
  ultimately show ?thesis using res ba_invI[OF inv] by blast
qed

lemma ori_change_inv:
  assumes inv: "ba_inv a"
    and e': "i < 128 \<Longrightarrow> ori_entry_ok (g (BAOriEntry a ! i)) \<and>
        ORI_BA_Status (g (BAOriEntry a ! i)) = ORI_BA_Status (BAOriEntry a ! i) \<and>
        ori_Wcid (g (BAOriEntry a ! i)) = ori_Wcid (BAOriEntry a ! i) \<and>
        ori_TID (g (BAOriEntry a ! i)) = ori_TID (BAOriEntry a ! i)"
  shows "ba_inv (upd_ori a i g)"
proof (rule ba_invI[OF inv])
  show "ori_inv (upd_ori a i g)"
    by (rule ori_change[OF ba_invD(2)[OF inv] e'])
      (use ba_inv_dims[OF inv] in \<open>simp_all add: upd_ori_def oarrs_def table_dims_def txbit_def\<close>)
qed simp_all

lemma ori_timer_inv:
  assumes inv: "ba_inv a" and v: "\<And>t. tm_Valid t \<Longrightarrow> tm_Valid (f t)"
  shows "ba_inv (upd_ori a i (\<lambda>e. e\<lparr>ORIBATimer := f (ORIBATimer e)\<rparr>))"
  using ori_invD(5)[OF ba_invD(2)[OF inv], of i] v
  by (intro ori_change_inv[OF inv]) (simp add: ori_entry_ok_def)

lemma ori_lookup:
  assumes "ba_inv a" "w < 32" "t < 8"
  shows "nth_opt (Content a) w = Some (Content a ! w)"
    "nth_opt (BAOriWcidArray (Content a ! w)) t = Some (BAOriWcidArray (Content a ! w) ! t)"
    "nth_opt (BAOriEntry a) (BAOriWcidArray (Content a ! w) ! t) = Some (BAOriEntry a ! (BAOriWcidArray (Content a ! w) ! t))"
  using ba_inv_dims[OF assms(1)] assms(2,3) ba_invD(10)[OF assms(1,2)] ori_arr_bound[OF assms] by simp_all

lemma OriTearDown_inv:
  assumes inv: "ba_inv a" and t: "TID < 8"
  shows "\<exists>a'. BAOriSessionTearDown a w TID p f = Some a' \<and> ba_inv a'"
proof (cases "w < 32")
  case False
  then show ?thesis using inv by (simp add: BAOriSessionTearDown_def table_sizes)
next
  case True
  note look = ori_lookup[OF inv True t]
  let ?i = "BAOriWcidArray (Content a ! w) ! TID"
  let ?e = "BAOriEntry a ! ?i"
  obtain b a1 where s1: "send_delba a w TID ORIGINATOR = (b, Some a1)" "parts a1 = parts a"
    using send_delba_inv[OF inv t] by blast
  have inv1: "ba_inv a1" by (rule ba_inv_cong[OF s1(2) inv])
  have fin: "\<exists>a'. BATableFreeOriEntry (upd_ori x ?i (\<lambda>e. e\<lparr>ORIBATimer := RTMPCancelTimer (ORIBATimer e)\<rparr>)) ?i = Some a' \<and> ba_inv a'"
    if "ba_inv x" for x
    using FreeOri_inv[OF ori_timer_inv[OF that, of RTMPCancelTimer ?i], of ?i] by auto
  show ?thesis
  proof (cases "?i = 0 \<or> ?i \<ge> 128")
    case True
    then show ?thesis
      using look inv inv1 s1(1) \<open>w < 32\<close> by (auto simp: BAOriSessionTearDown_def table_sizes)
  next
    case False
    then show ?thesis
      using look fin[OF inv] fin[OF inv1] s1(1) inv1 \<open>w < 32\<close>
      by (cases b) (auto simp: BAOriSessionTearDown_def table_sizes)
  qed
qed

lemma SetupTimeout_inv:
  assumes inv: "ba_inv a" and i: "oused a i"
  shows "\<exists>a'. BAOriSessionSetupTimeout a i = Some a' \<and> ba_inv a'"
proof -
  note o = ori_invD[OF ba_invD(2)[OF inv]]
  let ?e = "BAOriEntry a ! i"
  obtain wt: "ori_Wcid ?e < 32" "ori_TID ?e < 8" using tab_ok_owner[OF o(4) i] by (auto simp: oown_def)
  have ib: "i < 128" using tab_okD(4)[OF o(4) i] .
  obtain a1 where f: "BATableFreeOriEntry a (BAOriWcidArray (Content a ! ori_Wcid ?e) ! ori_TID ?e) = Some a1" "ba_inv a1"
    using FreeOri_inv[OF inv] by blast
  have set: "ba_inv (set_ori_timer x i ORI_BA_SESSION_TIMEOUT)" if "ba_inv x" for x
    unfolding set_ori_timer_def by (rule ori_timer_inv[OF that]) simp
  let ?l = "log_call a (MlmeEnqueue_ADD_BA (Aid (Content a ! ori_Wcid ?e) mod 256) (Addr (Content a ! ori_Wcid ?e))
              (nat (RxBAWinLimit a)) (ori_TID ?e) (ori_Token ?e))"
  have invl: "ba_inv ?l" by (rule ba_inv_cong[OF _ inv]) (simp add: parts_def)
  have "BAOriEntry ?l = BAOriEntry a" by (simp add: log_call_def)
  then have "ba_inv (upd_ori ?l i (\<lambda>e. e\<lparr>ori_Token := (ori_Token e + 1) mod 256\<rparr>))"
    using o(5)[OF ib] by (intro ori_change_inv[OF invl]) (simp add: ori_entry_ok_def)
  then show ?thesis
    using f inv set[OF inv] set wt ib o(1,3,7)
    by (auto simp: BAOriSessionSetupTimeout_def Let_def)
qed

text \<open>A taken originator slot is initialised before the handler returns.\<close>

lemma OriSetUp_inv:
  assumes inv: "ba_inv a" and w: "w < 32" "Aid (Content a ! w) = w"
  shows "\<exists>a'. BAOriSessionSetUp a w TID TimeOut Delay forced = Some a' \<and> ba_inv a'"
proof (cases "TID \<ge> 8 \<or> \<not> AutoBA a \<and> \<not> forced \<or> \<not> FixedTxMode_HT a")
  case True
  then show ?thesis using inv by (auto simp: BAOriSessionSetUp_def table_sizes)
next
  case False
  then have t: "TID < 8" by simp
  note o = ori_invD[OF ba_invD(2)[OF inv]] and look = ori_lookup[OF inv w(1) t]
  let ?st = "Content a ! w"
  let ?j = "BAOriWcidArray ?st ! TID"
  show ?thesis
  proof (cases "?j = 0")
    case False
    then have "oused a ?j" using tab_okD(5)[OF o(4) w(1) t] o(8)[OF w(1)] by simp
    then have "ORI_BA_Status (BAOriEntry a ! ?j) \<ge> Originator_WaitRes"
      using o(5)[OF ori_arr_bound[OF inv w(1) t]]
      by (cases "ORI_BA_Status (BAOriEntry a ! ?j)")
        (simp_all add: oused_def ori_entry_ok_def less_eq_ORI_BLOCKACK_STATUS_def)
    then show ?thesis
      using \<open>\<not> (TID \<ge> 8 \<or> \<not> AutoBA a \<and> \<not> forced \<or> \<not> FixedTxMode_HT a)\<close> False look inv
      by (simp add: BAOriSessionSetUp_def table_sizes Let_def)
  next
    case True
    show ?thesis
    proof (cases "numAsOriginator a < 127")
      case full: False
      then have "BATableAllocOriEntry a 0 = (None, 0, a)" by (simp add: BATableAllocOriEntry_def table_sizes)
      then show ?thesis
        using \<open>\<not> (TID \<ge> 8 \<or> \<not> AutoBA a \<and> \<not> forced \<or> \<not> FixedTxMode_HT a)\<close> True look inv
        by (simp add: BAOriSessionSetUp_def table_sizes Let_def)
    next
      case room: True
      obtain i a1 where al: "BATableAllocOriEntry a 0 = (Some i, i, a1)" "1 \<le> i" "i < 128" "\<not> oused a i"
        using ot.alloc_good[of a] room o(1-4) by (auto simp: table_dims_def)
      have a1: "a1 = upd_ori (a\<lparr>numAsOriginator := ULONG (numAsOriginator a + 1)\<rparr>) i (\<lambda>e. e\<lparr>ORI_BA_Status := Originator_USED\<rparr>)"
        using al(1) by (auto simp: BATableAllocOriEntry_def table_sizes split: if_splits option.splits)
      define a4 where "a4 = upd_ori (upd_ori (upd_mac a1 w (\<lambda>st. st\<lparr>BAOriWcidArray := (BAOriWcidArray st)[TID := i]\<rparr>)) i
          (\<lambda>e. e\<lparr>ORI_BA_Status := Originator_WaitRes, ori_Wcid := Aid ?st mod 256,
                  ori_BAWinSize := RxBAWinLimit a, ori_Sequence := TxSeq ?st ! TID, ori_Token := 1,
                  ori_TID := TID, ori_TimeOutValue := TimeOut\<rparr>)) i
          (\<lambda>e. e\<lparr>ORIBATimer := (if \<not> bit_test (TXBAbitmap ?st) TID then RTMPInitTimer (ORIBATimer e) False
                              else RTMPCancelTimer (ORIBATimer e))\<rparr>)"
      have clear: "\<not> bit_test (TXBAbitmap ?st) TID"
        using o(6)[OF w(1) t] True o(8)[OF w(1)] by (simp add: bit_test_iff txbit_def odone_def oused_def)
      have c: "0 \<le> numAsOriginator a" using counters_range(1)[OF inv] .
      have "ori_inv a4"
        by (rule ori_take[OF ba_invD(2)[OF inv] al(4,2,3) w(1) t, where e' = "BAOriEntry a4 ! i"])
          (use al(2,3) True o(1-3,7,8) w t clear room c ba_invD(5,6)[OF inv] in
            \<open>simp_all add: a4_def a1 upd_ori_def upd_mac_def oarrs_def map_update table_dims_def txbit_def
               ori_entry_ok_def nth_list_update\<close>)
      then have inv4: "ba_inv a4"
        by (rule ba_invI[OF inv]) (simp_all add: a4_def a1)
      have "ba_inv (set_ori_timer a4 i d)" for d
        unfolding set_ori_timer_def by (rule ori_timer_inv[OF inv4]) simp
      moreover have "ORI_BA_Status (BAOriEntry a1 ! i) = Originator_USED" "i < length (BAOriEntry a1)"
        using al(3) o(3) by (simp_all add: a1 upd_ori_def)
      ultimately show ?thesis
        using \<open>\<not> (TID \<ge> 8 \<or> \<not> AutoBA a \<and> \<not> forced \<or> \<not> FixedTxMode_HT a)\<close> True look al(1) inv
        by (simp add: BAOriSessionSetUp_def table_sizes Let_def a4_def less_eq_ORI_BLOCKACK_STATUS_def)
    qed
  qed
qed

lemma MaxWinSize_range:
  assumes "0 \<le> x" "x < 256"
  shows "0 \<le> BA_MaxWinSizeReasign a st x" "BA_MaxWinSizeReasign a st x \<le> x"
  using assms UCHAR_range[of "2 ^ (MaxRAmpduFactor st + 3)"] UCHAR_range[of "2 ^ (MaxRAmpduFactor st + 3) * 10 div 16 - 1"]
  by (auto simp: BA_MaxWinSizeReasign_def Let_def min_def simp del: UCHAR_range)

lemma sta_part_upd: "ba_inv a \<Longrightarrow> sta_part a' = sta_part a \<Longrightarrow> sta_inv a'"
  using sta_inv_cong[of a' a] ba_inv_dims(1)[of a] ba_invD(3)[of a] by simp

lemma OriAdd_inv:
  assumes inv: "ba_inv a" and w: "w < 32" and t: "BA_PARM_TID (arsp_BaParm f) < 8"
  shows "\<exists>a'. BAOriSessionAdd a w f = Some a' \<and> ba_inv a'"
proof -
  let ?t = "BA_PARM_TID (arsp_BaParm f)"
  note o = ori_invD[OF ba_invD(2)[OF inv]] and look = ori_lookup[OF inv w t]
  let ?st = "Content a ! w"
  let ?i = "BAOriWcidArray ?st ! ?t"
  let ?e = "BAOriEntry a ! ?i"
  show ?thesis
  proof (cases "?i \<noteq> 0 \<and> ori_TID ?e = ?t \<and> ORI_BA_Status ?e = Originator_WaitRes")
    case False
    then show ?thesis using look inv by (auto simp: BAOriSessionAdd_def Let_def)
  next
    case True
    have used: "oused a ?i" using tab_okD(5)[OF o(4) w t] o(8)[OF w] True by simp
    have own: "oown a ?i = (w, ?t)" using tab_okD(6)[OF o(4) w t] o(8)[OF w] True by simp
    have ib: "?i < 128" by (rule ori_arr_bound[OF inv w t])
    let ?m0 = "UCHAR (BA_PARM_BufSize (arsp_BaParm f))"
    let ?win = "BA_MaxWinSizeReasign a ?st (min (ori_BAWinSize ?e) (if ?m0 > 0 then ?m0 - 1 else 0))"
    have "0 \<le> min (ori_BAWinSize ?e) (if ?m0 > 0 then ?m0 - 1 else 0)"
      "min (ori_BAWinSize ?e) (if ?m0 > 0 then ?m0 - 1 else 0) < 256"
      using o(5)[OF ib] by (auto simp: ori_entry_ok_def)
    then have win: "0 \<le> ?win" "?win < 256"
      using MaxWinSize_range[of "min (ori_BAWinSize ?e) (if ?m0 > 0 then ?m0 - 1 else 0)" a ?st] by auto
    define a4 where "a4 = upd_ori (upd_mac (upd_ori ((upd_ori a ?i (\<lambda>e. e\<lparr>
              ori_BAWinSize := BA_MaxWinSizeReasign a ?st (min (ori_BAWinSize e) (if ?m0 > 0 then ?m0 - 1 else 0)),
              ori_TimeOutValue := arsp_TimeOutValue f, ORI_BA_Status := Originator_Done\<rparr>))
              \<lparr>numDoneOriginator := ULONG (numDoneOriginator (upd_ori a ?i (\<lambda>e. e\<lparr>
              ori_BAWinSize := BA_MaxWinSizeReasign a ?st (min (ori_BAWinSize e) (if ?m0 > 0 then ?m0 - 1 else 0)),
              ori_TimeOutValue := arsp_TimeOutValue f, ORI_BA_Status := Originator_Done\<rparr>)) + 1)\<rparr>) ?i
              (\<lambda>e. e\<lparr>ori_Sequence := TxSeq ?st ! ?t\<rparr>)) w (\<lambda>st. st\<lparr>TXBAbitmap := bit_set (TXBAbitmap st) ?t\<rparr>)) ?i
              (\<lambda>e. e\<lparr>ORIBATimer := (RTMPCancelTimer (ORIBATimer e))\<lparr>tm_TimerValue := 0\<rparr>\<rparr>)"
    have "ori_inv a4"
      by (rule ori_complete[OF ba_invD(2)[OF inv] used own, where e' = "BAOriEntry a4 ! ?i"])
        (use True ib o(1-3,5,7,8) own used w t win counters_range(5,6)[OF inv] o(5)[OF ib] in
          \<open>auto simp: a4_def upd_ori_def upd_mac_def oarrs_def map_update table_dims_def txbit_def
             ori_entry_ok_def nth_list_update odone_def oown_def list_update_same_conv\<close>)
    then have inv4: "ba_inv a4" by (rule ba_invI[OF inv]) (simp_all add: a4_def)
    obtain r a5 where al: "take_alloc a4 = (r, a5)" by fastforce
    have inv5: "ba_inv a5" by (rule ba_inv_cong[OF take_alloc_parts[OF al] inv4])
    have e5: "BAOriEntry a5 = BAOriEntry a4" using al by (auto simp: take_alloc_def split: list.splits)
    let ?e5 = "BAOriEntry a5 ! ?i"
    have e5w: "ori_Wcid ?e5 = w" "tm_TimerValue (ORIBATimer ?e5) = 0"
      using own ib o(3) by (simp_all add: e5 a4_def oown_def)
    have "ba_inv (log_call a5 c)" for c by (rule ba_inv_cong[OF _ inv5]) (simp add: parts_def)
    moreover have "nth_opt (Content a5) w = Some (Content a5 ! w)" using ba_inv_dims(1)[OF inv5] w by simp
    ultimately show ?thesis
      using True look al inv5 e5w
      by (cases r) (simp_all add: BAOriSessionAdd_def Let_def a4_def)
  qed
qed

section \<open>Recipient sessions\<close>

lemma rec_lookup:
  assumes "ba_inv a" "w < 32" "t < 8"
  shows "nth_opt (Content a) w = Some (Content a ! w)"
    "nth_opt (BARecWcidArray (Content a ! w)) t = Some (BARecWcidArray (Content a ! w) ! t)"
    "nth_opt (BARecEntry a) (BARecWcidArray (Content a ! w) ! t) = Some (BARecEntry a ! (BARecWcidArray (Content a ! w) ! t))"
  using ba_inv_dims[OF assms(1)] assms(2,3) ba_invD(9)[OF assms(1,2)] rec_arr_bound[OF assms] by simp_all

lemma rec_window_range: "1 \<le> rec_window a p" "rec_window a p < 256"
  using UCHAR_range[of "BA_PARM_BufSize p"] UCHAR_range[of "RxBAWinLimit a"]
  by (auto simp: rec_window_def Let_def min_def simp del: UCHAR_range)

text \<open>The entry of a session after it was (re)started.\<close>

definition fresh_session :: "adapter \<Rightarrow> nat \<Rightarrow> nat \<Rightarrow> int \<Rightarrow> bool" where
  "fresh_session a w t W \<longleftrightarrow> (let i = BARecWcidArray (Content a ! w) ! t; e = BARecEntry a ! i in
    i \<noteq> 0 \<and> REC_BA_Status e = Recipient_Accept \<and> rec_Wcid e = w \<and> rec_TID e = t \<and> rec_BAWinSize e = W \<and>
    LastIndSeq e = RESET_RCV_SEQ \<and> next_mpdus (reorder_list e) = [] \<and> qlen (reorder_list e) = 0 \<and>
    session_ok e \<and> rxbit a w t \<and> \<not> bit (BADeclineBitmap (Content a ! w)) t)"

lemma RecAdd_inv:
  assumes inv: "ba_inv a" and w: "w < 32" "Aid (Content a ! w) = w" and t: "BA_PARM_TID (areq_BaParm f) < 8"
  shows "\<exists>ok a'. BARecSessionAdd a w f = Some (ok, a') \<and> ba_inv a' \<and>
    (ok \<longrightarrow> fresh_session a' w (BA_PARM_TID (areq_BaParm f)) (rec_window a (areq_BaParm f))) \<and>
    (\<not> ok \<longleftrightarrow> numAsRecipient a \<ge> 127 \<and> BARecWcidArray (Content a ! w) ! BA_PARM_TID (areq_BaParm f) = 0) \<and>
    RxBAWinLimit a' = RxBAWinLimit a \<and> alloc_results a' = alloc_results a"
proof -
  let ?t = "BA_PARM_TID (areq_BaParm f)" and ?W = "rec_window a (areq_BaParm f)"
  note r = rec_invD[OF ba_invD(1)[OF inv]] and look = rec_lookup[OF inv w(1) t]
  let ?st = "Content a ! w"
  let ?j = "BARecWcidArray ?st ! ?t"
  let ?g = "\<lambda>e. e\<lparr>REC_BA_Status := Recipient_Accept, rec_BAWinSize := ?W,
              rec_Wcid := Aid ?st mod 256, rec_TID := ?t, rec_TimeOutValue := areq_TimeOutValue f,
              LastIndSeq := RESET_RCV_SEQ,
              RECBATimer := (if bit_test (RXBAbitmap ?st) ?t then RTMPCancelTimer (RECBATimer e)
                             else RTMPInitTimer (RECBATimer e) True)\<rparr>"
  let ?m = "\<lambda>i st. st\<lparr>RXBAbitmap := bit_set (RXBAbitmap st) ?t, BARecWcidArray := (BARecWcidArray st)[?t := i],
              BADeclineBitmap := bit_clear (BADeclineBitmap st) ?t\<rparr>"
  let ?fin = "\<lambda>a1 i. log_call (upd_mac (upd_rec a1 i ?g) w (?m i)) (RTMP_ADD_BA_SESSION_TO_ASIC (Aid ?st) ?t)"
  have W: "1 \<le> ?W" "?W < 256" by (rule rec_window_range)+
  have tb: "?t < 16" using t by simp
  show ?thesis
  proof (cases "?j = 0")
    case True
    show ?thesis
    proof (cases "numAsRecipient a < 127")
      case full: False
      then have "BATableAllocRecEntry a 0 = (None, 0, a)" by (simp add: BATableAllocRecEntry_def table_sizes)
      then show ?thesis using True full look inv by (auto simp: BARecSessionAdd_def Let_def)
    next
      case room: True
      obtain i a1 where al: "BATableAllocRecEntry a 0 = (Some i, i, a1)" "1 \<le> i" "i < 128" "\<not> rused a i"
        using rt.alloc_good[of a] room r(1-4) by (auto simp: table_dims_def)
      have a1: "a1 = upd_rec (a\<lparr>numAsRecipient := ULONG (numAsRecipient a + 1)\<rparr>) i (\<lambda>e. e\<lparr>REC_BA_Status := Recipient_USED\<rparr>)"
        using al(1) by (auto simp: BATableAllocRecEntry_def table_sizes split: if_splits option.splits)
      let ?a' = "?fin a1 i"
      have none: "REC_BA_Status (BARecEntry a ! i) = Recipient_NONE"
        using al(2-4) r(2) by (simp add: rused_def)
      have ent: "list_wf (reorder_list (BARecEntry a ! i))" "next_mpdus (reorder_list (BARecEntry a ! i)) = []"
        using r(5)[OF al(3)] none by (auto simp: rec_entry_ok_def)
      have clear: "\<not> bit_test (RXBAbitmap ?st) ?t"
        using r(6)[OF w(1) t] True r(8)[OF w(1)] by (simp add: bit_test_iff rxbit_def)
      have c: "0 \<le> numAsRecipient a" using counters_range(3)[OF inv] .
      have "rec_inv ?a'"
        by (rule rec_take[OF ba_invD(1)[OF inv] al(4,2,3) w(1) t, where e' = "BARecEntry ?a' ! i"])
          (use al(2,3) True r(1-3,7,8) w t tb clear room c ent W in
            \<open>simp_all add: a1 upd_rec_def upd_mac_def log_call_def rarrs_def map_update table_dims_def rxbit_def
               rec_entry_ok_def nth_list_update seqs_ok_def ind_ok_def\<close>)
      then have "ba_inv ?a'"
        by (rule ba_invI_rec[OF inv]) (simp_all add: a1)
      moreover have "fresh_session ?a' w ?t ?W"
        using al(2,3) r(1-3,7) w t tb ent W
        by (simp add: fresh_session_def Let_def a1 upd_rec_def upd_mac_def log_call_def rxbit_def session_ok_def list_wf_def)
      moreover have "RxBAWinLimit ?a' = RxBAWinLimit a" "alloc_results ?a' = alloc_results a"
        by (simp_all add: a1 log_call_def upd_mac_def upd_rec_def)
      ultimately show ?thesis
        using True look al(1) room by (auto simp: BARecSessionAdd_def Let_def simp del: One_nat_def)
    qed
  next
    case False
    note j = rec_arr_bound[OF inv w(1) t]
    have used: "rused a ?j" using tab_okD(5)[OF r(4) w(1) t] r(8)[OF w(1)] False by simp
    have own: "rown a ?j = (w, ?t)" using tab_okD(6)[OF r(4) w(1) t] r(8)[OF w(1)] False by simp
    obtain ar er where rf: "ba_refresh_reordering_mpdus a (BARecEntry a ! ?j) = (ar, er)"
        "keeps a (BARecEntry a ! ?j) ar er" "LastIndSeq er = RESET_RCV_SEQ" "next_mpdus (reorder_list er) = []"
        "qlen (reorder_list er) = 0"
      using refresh_keeps[OF ba_inv_lists(1)[OF inv j]] by blast
    let ?a1 = "upd_rec ar ?j (\<lambda>_. er)"
    have inv1: "ba_inv ?a1"
      by (rule entry_step[OF inv j rf(2)]) (simp_all add: ind_ok_def rf(3,4))
    have more: "Content ar = Content a" "length (BARecEntry ar) = 128" "length (BAOriEntry ar) = 128"
      using more_fields[of ar a] rf(2) r(2,3) by (simp_all add: keeps_def)
    have st: "rec_static er = rec_static (BARecEntry a ! ?j)" using rf(2) by (simp add: keeps_def)
    have acc: "REC_BA_Status er = Recipient_Accept" "rec_Wcid er = w" "rec_TID er = ?t" "tm_Valid (RECBATimer er)"
      using used own r(5)[OF j] st by (auto simp: rused_def rown_def rec_entry_ok_def rec_static_def)
    have set: "bit (RXBAbitmap ?st) ?t" using r(6)[OF w(1) t] False r(8)[OF w(1)] by (simp add: rxbit_def)
    let ?a' = "?fin ?a1 ?j"
    have arr: "(BARecWcidArray ?st)[?t := ?j] = BARecWcidArray ?st" by simp
    have "rec_inv ?a'"
      by (rule rec_change[OF ba_invD(1)[OF inv1], where e' = "BARecEntry ?a' ! ?j" and i = ?j])
        (use j more r(1,7) w t tb acc rf(3-5) W set in
          \<open>auto simp: upd_rec_def upd_mac_def log_call_def rarrs_def map_update table_dims_def rxbit_def
             rec_entry_ok_def nth_list_update seqs_ok_def ind_ok_def list_wf_def list_update_same_conv\<close>)
    then have "ba_inv ?a'"
      by (rule ba_invI_rec[OF inv1]) simp_all
    moreover have "fresh_session ?a' w ?t ?W"
      using j more r(1,7) w t tb rf(3-5) acc W False
      by (simp add: fresh_session_def Let_def upd_rec_def upd_mac_def log_call_def rxbit_def session_ok_def list_wf_def)
    moreover have "RxBAWinLimit ?a' = RxBAWinLimit a" "alloc_results ?a' = alloc_results a"
      using more_fields(7,8)[of ar a] rf(2) by (simp_all add: log_call_def upd_mac_def upd_rec_def keeps_def)
    ultimately show ?thesis
      using False look rf(1) by (auto simp: BARecSessionAdd_def Let_def)
  qed
qed

lemma send_delba_tables:
  assumes "send_delba a w t ini = (b, Some a')"
  shows "BARecEntry a' = BARecEntry a" "Content a' = Content a" "numAsRecipient a' = numAsRecipient a"
  using assms
  by (auto simp: send_delba_def MlmeDELBAAction_def take_alloc_def log_call_def Let_def
      split: list.splits if_splits bool.splits prod.splits Option.bind_splits)

lemma RecTearDown_inv:
  assumes inv: "ba_inv a" and t: "TID < 8"
  shows "\<exists>a'. BARecSessionTearDown a w TID p = Some a' \<and> ba_inv a'"
proof (cases "w < 32")
  case False
  then show ?thesis using inv by (simp add: BARecSessionTearDown_def table_sizes)
next
  case w: True
  note r = rec_invD[OF ba_invD(1)[OF inv]] and look = rec_lookup[OF inv w t]
  let ?j = "BARecWcidArray (Content a ! w) ! TID"
  show ?thesis
  proof (cases "?j = 0")
    case True
    then show ?thesis using inv look w by (simp add: BARecSessionTearDown_def table_sizes)
  next
    case False
    note j = rec_arr_bound[OF inv w t]
    let ?e = "BARecEntry a ! ?j"
    have used: "rused a ?j" using tab_okD(5)[OF r(4) w t] r(8)[OF w] False by simp
    have own: "rown a ?j = (w, TID)" using tab_okD(6)[OF r(4) w t] r(8)[OF w] False by simp
    have acc: "REC_BA_Status ?e = Recipient_Accept" "rec_Wcid ?e = w" "rec_TID ?e = TID" "tm_Valid (RECBATimer ?e)"
      using used own r(5)[OF j] by (auto simp: rused_def rown_def rec_entry_ok_def)
    let ?a1 = "upd_rec a ?j (\<lambda>e. e\<lparr>RECBATimer := RTMPCancelTimer (RECBATimer e)\<rparr>)"
    have inv1: "ba_inv ?a1"
      using r(5)[OF j] by (intro upd_rec_inv[OF inv j]) (auto simp: rec_entry_ok_def seqs_ok_def ind_ok_def)
    obtain b a2 where sd: "send_delba ?a1 w TID RECIPIENT = (b, Some a2)" "parts a2 = parts ?a1"
      using send_delba_inv[OF inv1 t] by blast
    have fin: "\<exists>a'. (let (a3, e3) = ba_refresh_reordering_mpdus x (BARecEntry x ! ?j);
               a4 = upd_rec a3 ?j (\<lambda>_. e3\<lparr>LastIndSeq := RESET_RCV_SEQ, rec_BAWinSize := 0\<rparr>);
               a5 = upd_mac a4 w (\<lambda>st. st\<lparr>RXBAbitmap := bit_clear (RXBAbitmap st) TID,
                          BARecWcidArray := (BARecWcidArray st)[TID := 0]\<rparr>)
             in BATableFreeRecEntry (log_call a5 (RTMP_DEL_BA_SESSION_FROM_ASIC w TID)) ?j) = Some a' \<and> ba_inv a'"
      if x: "ba_inv x" "BARecEntry x = BARecEntry ?a1" "Content x = Content a" "numAsRecipient x = numAsRecipient a" for x
    proof -
      note rx = rec_invD[OF ba_invD(1)[OF x(1)]]
      obtain a3 e3 where rf: "ba_refresh_reordering_mpdus x (BARecEntry x ! ?j) = (a3, e3)"
          "keeps x (BARecEntry x ! ?j) a3 e3" "LastIndSeq e3 = RESET_RCV_SEQ" "next_mpdus (reorder_list e3) = []"
          "qlen (reorder_list e3) = 0"
        using refresh_keeps[OF ba_inv_lists(1)[OF x(1) j]] by blast
      have more: "Content a3 = Content a" "BARecEntry a3 = BARecEntry x" "length (BAOriEntry a3) = 128"
          "numAsRecipient a3 = numAsRecipient a"
        using more_fields[of a3 x] rf(2) rx(3) x by (simp_all add: keeps_def)
      have p3: "ori_part a3 = ori_part x" "sta_part a3 = sta_part x"
        using keeps_parts[OF rf(2) x(1)] by (simp_all add: parts_def)
      have st: "rec_static e3 = rec_static (BARecEntry x ! ?j)" using rf(2) by (simp add: keeps_def)
      have e3: "REC_BA_Status e3 = Recipient_Accept" "rec_Wcid e3 = w" "rec_TID e3 = TID"
        using st acc j r(2) by (simp_all add: rec_static_def x(2))
      have usedx: "rused x ?j" "rown x ?j = (w, TID)"
        using used own j r(2) x(2) by (simp_all add: rused_def rown_def upd_rec_def)
      let ?a5 = "log_call (upd_mac (upd_rec a3 ?j (\<lambda>_. e3\<lparr>LastIndSeq := RESET_RCV_SEQ, rec_BAWinSize := 0\<rparr>)) w
          (\<lambda>st. st\<lparr>RXBAbitmap := bit_clear (RXBAbitmap st) TID, BARecWcidArray := (BARecWcidArray st)[TID := 0]\<rparr>))
          (RTMP_DEL_BA_SESSION_FROM_ASIC w TID)"
      let ?a6 = "upd_mac ?a5 w (\<lambda>st. st\<lparr>BARecWcidArray := (BARecWcidArray st)[TID := 0]\<rparr>)"
      let ?a' = "upd_rec (?a6\<lparr>numAsRecipient := ULONG (numAsRecipient ?a6 - 1)\<rparr>) ?j (\<lambda>e. e\<lparr>REC_BA_Status := Recipient_NONE\<rparr>)"
      have e5: "BARecEntry ?a5 ! ?j = e3\<lparr>LastIndSeq := RESET_RCV_SEQ, rec_BAWinSize := 0\<rparr>"
        "length (BARecEntry ?a5) = 128" "Content ?a5 ! w = (Content a ! w)\<lparr>RXBAbitmap := bit_clear (RXBAbitmap (Content a ! w)) TID,
            BARecWcidArray := (BARecWcidArray (Content a ! w))[TID := 0]\<rparr>" "length (Content ?a5) = 32"
        using more j w r(1,2) x(2) by (simp_all add: upd_rec_def upd_mac_def log_call_def)
      have res: "BATableFreeRecEntry ?a5 ?j = Some ?a'"
        using e5 e3 False j w t r(7)[OF w] by (simp add: BATableFreeRecEntry_def table_sizes Let_def del: upd_sel)
      have c: "1 \<le> numAsRecipient a" "numAsRecipient a \<le> 127"
        using used_counter_pos(2)[OF inv used] counters_range(4)[OF inv] by auto
      have "rec_inv ?a'"
        by (rule rec_free[OF ba_invD(1)[OF x(1)] usedx, where e' = "BARecEntry ?a' ! ?j"])
          (use j more r(1,2,7) w t e3 rf(3-5) c x(2-4) in
            \<open>auto simp: upd_rec_def upd_mac_def log_call_def rarrs_def map_update table_dims_def rxbit_def
               rec_entry_ok_def nth_list_update seqs_ok_def ind_ok_def list_wf_def\<close>)
      then have "ba_inv ?a'" by (rule ba_invI_rec[OF x(1)]) (simp_all add: p3)
      then show ?thesis using rf(1) res by (simp add: Let_def)
    qed
    have inv2: "ba_inv a2" by (rule ba_inv_cong[OF sd(2) inv1])
    have fin1: "Content ?a1 = Content a" "numAsRecipient ?a1 = numAsRecipient a" by (simp_all add: upd_rec_def)
    note f1 = fin[OF inv1 refl fin1] and f2 = fin[OF inv2 send_delba_tables(1)[OF sd(1)]]
    have f2': "Content a2 = Content a" "numAsRecipient a2 = numAsRecipient a"
      using send_delba_tables[OF sd(1)] fin1 by simp_all
    show ?thesis
      using False look w acc sd(1) inv2 f1 f2[OF f2']
      by (cases p; cases b) (simp_all add: BARecSessionTearDown_def table_sizes Let_def)
  qed
qed

lemma TearDown_tids_inv:
  assumes "ba_inv a" "\<forall>t \<in> set ts. t < 8"
  shows "\<exists>a'. BASessionTearDown_tids a w ts = Some a' \<and> ba_inv a'"
  using assms
proof (induction ts arbitrary: a)
  case (Cons t ts)
  have t: "t < 8" using Cons.prems(2) by simp
  obtain a1 where a1: "BAOriSessionTearDown a w t False False = Some a1" "ba_inv a1"
    using OriTearDown_inv[OF Cons.prems(1) t] by blast
  obtain a2 where a2: "BARecSessionTearDown a1 w t False = Some a2" "ba_inv a2"
    using RecTearDown_inv[OF a1(2) t] by blast
  show ?case using Cons.IH[OF a2(2)] Cons.prems(2) a1(1) a2(1) by auto
qed simp

lemma TearDownALL_inv: "ba_inv a \<Longrightarrow> \<exists>a'. BASessionTearDownALL a w = Some a' \<and> ba_inv a'"
  unfolding BASessionTearDownALL_def by (rule TearDown_tids_inv) (simp_all add: table_sizes)

section \<open>The action frames\<close>

lemma sta_write_inv:
  assumes inv: "ba_inv a"
    and g: "\<And>st. BARecWcidArray (g st) = BARecWcidArray st \<and> RXBAbitmap (g st) = RXBAbitmap st \<and>
      BAOriWcidArray (g st) = BAOriWcidArray st \<and> TXBAbitmap (g st) = TXBAbitmap st \<and>
      TxSeq (g st) = TxSeq st \<and> IS_HT_STA (g st) = IS_HT_STA st \<and> Aid (g st) = Aid st"
  shows "ba_inv (upd_mac a w g)"
  by (rule ba_inv_cong[OF _ inv]) (simp add: parts_def g)

text \<open>The status an ADDBA request is answered with.\<close>

definition addba_status :: "adapter \<Rightarrow> nat \<Rightarrow> ADDBA_REQ_MSG \<Rightarrow> nat \<Rightarrow> int" where
  "addba_status a w f len =
    (if \<not> fst (PeerAddBAReqActionSanity f len) then 1
     else if bBADecline a \<or> \<not> IS_HT_STA (Content a ! w) then 37
     else if numAsRecipient a \<ge> 127 \<and> BARecWcidArray (Content a ! w) ! BA_PARM_TID (areq_BaParm f) = 0 then 38
     else 0)"

lemma AddBAReq_inv:
  assumes inv: "ba_inv a" and w: "w < 32" and t: "BA_PARM_TID (areq_BaParm f) < 8"
  shows "\<exists>a1 a2 r. take_alloc a1 = (r, a2) \<and> ba_inv a1 \<and> rec_window a2 = rec_window a \<and>
    alloc_results a1 = alloc_results a \<and>
    (addba_status a w f len = 0 \<longrightarrow>
      fresh_session a1 w (BA_PARM_TID (areq_BaParm f)) (rec_window a (areq_BaParm f))) \<and>
    (addba_status a w f len \<notin> {0, 38} \<longrightarrow> a1 = a) \<and>
    PeerAddBAReqAction a w f len = Some (if \<not> r then a2 else
      log_call a2 (MiniportMMRequest QID_AC_BE
        (FRAME_ADDBA_RSP (ActHeaderInit a2 (snd (PeerAddBAReqActionSanity f len))) (areq_Token f)
          (addba_status a w f len)
          (BA_PARM_word False IMMED_BA (BA_PARM_TID (areq_BaParm f)) (rec_window a2 (areq_BaParm f))) 0)))"
proof (cases "fst (PeerAddBAReqActionSanity f len) \<and> \<not> bBADecline a \<and> IS_HT_STA (Content a ! w)")
  case False
  obtain r a2 where al: "take_alloc a = (r, a2)" by fastforce
  moreover have "rec_window a2 = rec_window a"
    using al by (auto simp: take_alloc_def rec_window_def fun_eq_iff split: list.splits)
  ultimately show ?thesis
    using False inv w ba_inv_dims(1)[OF inv]
    by (intro exI[of _ a] exI[of _ a2] exI[of _ r])
      (cases r; auto simp: PeerAddBAReqAction_def table_sizes addba_status_def Let_def split: prod.splits)
next
  case True
  have aid: "Aid (Content a ! w) = w" using ba_invD(8)[OF inv w] True by simp
  obtain ok a1 where add: "BARecSessionAdd a w f = Some (ok, a1)" "ba_inv a1"
      "ok \<longrightarrow> fresh_session a1 w (BA_PARM_TID (areq_BaParm f)) (rec_window a (areq_BaParm f))"
      "\<not> ok \<longleftrightarrow> numAsRecipient a \<ge> 127 \<and> BARecWcidArray (Content a ! w) ! BA_PARM_TID (areq_BaParm f) = 0"
      "RxBAWinLimit a1 = RxBAWinLimit a" "alloc_results a1 = alloc_results a"
    using RecAdd_inv[OF inv w aid t] by blast
  obtain r a2 where al: "take_alloc a1 = (r, a2)" by fastforce
  moreover have "rec_window a2 = rec_window a"
    using al add(5) by (auto simp: take_alloc_def rec_window_def fun_eq_iff split: list.splits)
  ultimately show ?thesis
    using True inv w ba_inv_dims(1)[OF inv] add
    by (intro exI[of _ a1] exI[of _ a2] exI[of _ r])
      (cases r; cases ok; auto simp: PeerAddBAReqAction_def table_sizes addba_status_def Let_def split: prod.splits)
qed

lemma PeerAddBAReq_inv:
  assumes inv: "ba_inv a" and t: "BA_PARM_TID (areq_BaParm f) < 8"
  shows "\<exists>a'. PeerAddBAReqAction a w f len = Some a' \<and> ba_inv a'"
proof (cases "w < 32")
  case True
  obtain a1 a2 r c where s: "take_alloc a1 = (r, a2)" "ba_inv a1"
      "PeerAddBAReqAction a w f len = Some (if \<not> r then a2 else log_call a2 c)"
    using AddBAReq_inv[OF inv True t, of len] by metis
  have "ba_inv a2" by (rule ba_inv_cong[OF take_alloc_parts[OF s(1)] s(2)])
  moreover from this have "ba_inv (log_call a2 c)" by (rule ba_inv_cong[rotated]) (simp add: parts_def)
  ultimately show ?thesis using s(3) by simp
qed (simp add: PeerAddBAReqAction_def table_sizes inv)

lemma PeerAddBARsp_inv:
  assumes inv: "ba_inv a" and t: "BA_PARM_TID (arsp_BaParm f) < 8"
  shows "\<exists>a'. PeerAddBARspAction a w f len = Some a' \<and> ba_inv a'"
proof (cases "w < 32 \<and> PeerAddBARspActionSanity f len")
  case True
  then have w: "w < 32" by simp
  obtain a1 where a1: "(if arsp_StatusCode f = 0 then BAOriSessionAdd a w f
        else BAOriSessionTearDown a w (BA_PARM_TID (arsp_BaParm f)) True False) = Some a1" "ba_inv a1"
    using OriAdd_inv[OF inv w t] OriTearDown_inv[OF inv t, of w True False] by (cases "arsp_StatusCode f = 0") fastforce+
  have "ba_inv (upd_mac a1 w (\<lambda>st. st\<lparr>BADeclineBitmap := bit_set (BADeclineBitmap st) (BA_PARM_TID (arsp_BaParm f))\<rparr>))"
    by (rule sta_write_inv[OF a1(2)]) simp
  then show ?thesis using True a1 by (simp add: PeerAddBARspAction_def table_sizes)
qed (auto simp: PeerAddBARspAction_def table_sizes inv)

lemma PeerDelBA_inv:
  assumes inv: "ba_inv a" and t: "DELBA_PARM_TID p < 8"
  shows "\<exists>a'. PeerDelBAAction a w p len = Some a' \<and> ba_inv a'"
  using RecTearDown_inv[OF inv t] OriTearDown_inv[OF inv t] inv by (simp add: PeerDelBAAction_def)

lemma SendPSMP_inv:
  assumes inv: "ba_inv a" and w: "w < 32"
  shows "\<exists>a'. SendPSMPAction a w m = Some a' \<and> ba_inv a'"
proof -
  obtain r a1 where al: "take_alloc a = (r, a1)" by fastforce
  have inv1: "ba_inv a1" by (rule ba_inv_cong[OF take_alloc_parts[OF al] inv])
  have "ba_inv (log_call a1 c)" for c by (rule ba_inv_cong[OF _ inv1]) (simp add: parts_def)
  then show ?thesis
    using al inv1 w ba_inv_dims(1)[OF inv1] by (cases r) (simp_all add: SendPSMPAction_def)
qed

end
