(* ===== verification/BaEvents.thy ===== *)
theory BaEvents
  imports BaSessions
begin

text \<open>The session code as a transition system: the events that reach it (frames received, MLME
  requests, timers, the periodic flush, tear-down of a station), the states reachable from the
  initialised tables, and the invariant of all of them.\<close>

section \<open>Events and reachable states\<close>

datatype ba_event =
    Ev_AddBAReq nat ADDBA_REQ_MSG nat
  | Ev_AddBARsp nat ADDBA_RSP_MSG nat
  | Ev_DelBA nat "16 word" nat
  | Ev_BAR nat nat "16 word" "16 word"
  | Ev_AMPDU RX_BLK nat tick
  | Ev_Maintain tick
  | Ev_OriSetUp nat nat int int bool
  | Ev_OriTimeout nat
  | Ev_RecIdle nat tick
  | Ev_MlmeADDBA MLME_ADDBA_REQ nat
  | Ev_MlmeDELBA MLME_DELBA_REQ nat
  | Ev_TearDownALL nat

fun ba_exec :: "ba_event \<Rightarrow> adapter \<Rightarrow> adapter option" where
  "ba_exec (Ev_AddBAReq w f len) a = PeerAddBAReqAction a w f len"
| "ba_exec (Ev_AddBARsp w f len) a = PeerAddBARspAction a w f len"
| "ba_exec (Ev_DelBA w p len) a = PeerDelBAAction a w p len"
| "ba_exec (Ev_BAR w len c s) a = map_option snd (CntlEnqueueForRecv a w len c s)"
| "ba_exec (Ev_AMPDU rx b now) a = Indicate_AMPDU_Packet a rx b now"
| "ba_exec (Ev_Maintain now) a = BaReOrderingBufferMaintain a now"
| "ba_exec (Ev_OriSetUp w t to d forced) a = BAOriSessionSetUp a w t to d forced"
| "ba_exec (Ev_OriTimeout i) a = BAOriSessionSetupTimeout a i"
| "ba_exec (Ev_RecIdle i now) a = BARecSessionIdleTimeout a i now"
| "ba_exec (Ev_MlmeADDBA q len) a = MlmeADDBAAction a q len"
| "ba_exec (Ev_MlmeDELBA q len) a = MlmeDELBAAction a q len"
| "ba_exec (Ev_TearDownALL w) a = BASessionTearDownALL a w"

text \<open>What the driver relies on in an event: a TID below 8 (the fields of the frames have four
  bits), a 12-bit sequence number, a timer of an entry in use, a station that is in the table.\<close>

fun ev_ok :: "adapter \<Rightarrow> ba_event \<Rightarrow> bool" where
  "ev_ok a (Ev_AddBAReq w f len) = (BA_PARM_TID (areq_BaParm f) < 8)"
| "ev_ok a (Ev_AddBARsp w f len) = (BA_PARM_TID (arsp_BaParm f) < 8)"
| "ev_ok a (Ev_DelBA w p len) = (DELBA_PARM_TID p < 8)"
| "ev_ok a (Ev_BAR w len c s) = True"
| "ev_ok a (Ev_AMPDU rx b now) = (seq_ok (rx_Sequence rx) \<and> RxWITID rx < 8)"
| "ev_ok a (Ev_Maintain now) = True"
| "ev_ok a (Ev_OriSetUp w t to d forced) = (w < 32 \<and> Aid (Content a ! w) = w)"
| "ev_ok a (Ev_OriTimeout i) = oused a i"
| "ev_ok a (Ev_RecIdle i now) = (i < 128)"
| "ev_ok a (Ev_MlmeADDBA q len) = (aq_TID q < 8)"
| "ev_ok a (Ev_MlmeDELBA q len) = (dq_TID q < 8)"
| "ev_ok a (Ev_TearDownALL w) = True"

text \<open>The adapter when the tables are initialised: stations without sessions, empty lists.\<close>

definition ba_start :: "adapter \<Rightarrow> bool" where
  "ba_start a \<longleftrightarrow> table_dims a \<and> list_wf (freelist a) \<and> 0 \<le> RxBAWinLimit a \<and> RxBAWinLimit a < 256 \<and>
    (\<forall>w<32. BARecWcidArray (Content a ! w) = replicate 8 0 \<and> BAOriWcidArray (Content a ! w) = replicate 8 0 \<and>
      length (TxSeq (Content a ! w)) = 8 \<and> (IS_HT_STA (Content a ! w) \<longrightarrow> Aid (Content a ! w) = w) \<and>
      RXBAbitmap (Content a ! w) = 0 \<and> TXBAbitmap (Content a ! w) = 0) \<and>
    (\<forall>i<128. reorder_list (BARecEntry a ! i) = \<lparr>next_mpdus = [], qlen = 0\<rparr> \<and> seq_ok (LastIndSeq (BARecEntry a ! i)) \<and>
      0 \<le> rec_BAWinSize (BARecEntry a ! i) \<and> rec_BAWinSize (BARecEntry a ! i) < 256) \<and>
    (\<forall>i<128. 0 \<le> ori_BAWinSize (BAOriEntry a ! i) \<and> ori_BAWinSize (BAOriEntry a ! i) < 256)"

inductive ba_reach :: "adapter \<Rightarrow> bool" where
  reach_start: "ba_start a \<Longrightarrow> ba_reach (BATableInit a)"
| reach_step: "ba_reach a \<Longrightarrow> ev_ok a ev \<Longrightarrow> ba_exec ev a = Some a' \<Longrightarrow> ba_reach a'"

inductive_cases ba_reachE: "ba_reach a"

section \<open>The invariant of the reachable states\<close>

lemma tab_ok_empty:
  assumes "\<And>i. \<not> used i" "length arrs = 32" "\<forall>xs \<in> set arrs. xs = replicate 8 0"
  shows "tab_ok used own arrs 0"
proof (rule tab_okI)
  fix w t assume wt: "w < (32::nat)" "t < (8::nat)" "arrs ! w ! t \<noteq> 0"
  have "arrs ! w = replicate 8 0" using assms(2,3) wt(1) by simp
  then show "used (arrs ! w ! t) \<and> own (arrs ! w ! t) = (w, t)" using wt by simp
qed (use assms in auto)

lemma BATableInit_inv:
  assumes s: "ba_start a"
  shows "ba_inv (BATableInit a)"
proof -
  let ?b = "BATableInit a"
  have d: "length (Content a) = 32" "length (BARecEntry a) = 128" "length (BAOriEntry a) = 128"
    using s by (simp_all add: ba_start_def table_dims_def)
  have dims: "table_dims ?b" using d by (simp add: table_dims_def BATableInit_def)
  have nr: "\<not> rused ?b i" and no: "\<not> oused ?b i" for i by (auto simp: rused_def oused_def BATableInit_def)
  have arrs: "\<forall>xs \<in> set (rarrs ?b). xs = replicate 8 0" "\<forall>xs \<in> set (oarrs ?b). xs = replicate 8 0"
    "length (rarrs ?b) = 32" "length (oarrs ?b) = 32"
    using s d by (auto simp: rarrs_def oarrs_def BATableInit_def ba_start_def in_set_conv_nth)
  have "rec_entry_ok (BARecEntry ?b ! i)" "ori_entry_ok (BAOriEntry ?b ! i)" if "i < 128" for i
    using s d that
    by (auto simp: BATableInit_def rec_entry_ok_def ori_entry_ok_def ba_start_def list_wf_def seqs_ok_def ind_ok_def)
  moreover have "\<not> rxbit ?b w t \<and> rarrs ?b ! w ! t = 0 \<and> \<not> txbit ?b w t \<and> \<not> odone ?b (oarrs ?b ! w ! t)"
    if "w < 32" "t < 8" for w t
    using s d that no by (simp add: ba_start_def BATableInit_def rxbit_def txbit_def rarrs_def odone_def)
  moreover have "numAsRecipient ?b = 0" "numAsOriginator ?b = 0" "numDoneOriginator ?b = 0"
    by (simp_all add: BATableInit_def)
  moreover have "tab_ok (rused ?b) own (rarrs ?b) 0" "tab_ok (oused ?b) own (oarrs ?b) 0" for own
    by (rule tab_ok_empty[OF nr arrs(3,1)], rule tab_ok_empty[OF no arrs(4,2)])
  moreover have "{i. odone ?b i} = {}" using no by (simp add: odone_def)
  ultimately have "rec_inv ?b" "ori_inv ?b"
    using dims by (simp_all add: rec_inv_def ori_inv_def)
  moreover have "sta_inv ?b" using s by (simp add: sta_inv_def ba_start_def BATableInit_def)
  ultimately show ?thesis by (simp add: ba_inv_def)
qed

lemma parts_SomeI:
  "ba_inv a \<Longrightarrow> \<exists>a'. x = Some a' \<and> parts a' = parts a \<Longrightarrow> \<exists>a'. x = Some a' \<and> ba_inv a'"
  using ba_inv_cong by blast

text \<open>One event.\<close>

lemma ba_exec_inv:
  assumes inv: "ba_inv a" and ok: "ev_ok a ev"
  shows "\<exists>a'. ba_exec ev a = Some a' \<and> ba_inv a'"
proof (cases ev)
  case (Ev_BAR w len c s)
  obtain r a' where "CntlEnqueueForRecv a w len c s = Some (r, a')" "ba_inv a'"
    using CntlEnqueueForRecv_inv[OF inv] by blast
  then show ?thesis using Ev_BAR by simp
next
  case (Ev_MlmeADDBA q len)
  then show ?thesis using parts_SomeI[OF inv MlmeADDBAAction_inv[OF inv, of q len]] ok by simp
next
  case (Ev_MlmeDELBA q len)
  then show ?thesis using parts_SomeI[OF inv MlmeDELBAAction_inv[OF inv, of q len]] ok by simp
qed (use ok in \<open>simp_all add: PeerAddBAReq_inv[OF inv] PeerAddBARsp_inv[OF inv] PeerDelBA_inv[OF inv]
       Indicate_AMPDU_inv[OF inv] Maintain_inv[OF inv] OriSetUp_inv[OF inv] SetupTimeout_inv[OF inv]
       IdleTimeout_inv[OF inv] TearDownALL_inv[OF inv]\<close>)

lemma ba_reach_inv: "ba_reach a \<Longrightarrow> ba_inv a"
proof (induction rule: ba_reach.induct)
  case (reach_start a)
  then show ?case by (rule BATableInit_inv)
next
  case (reach_step a ev a')
  then show ?case using ba_exec_inv[OF reach_step.IH reach_step.hyps(2)] by simp
qed

section \<open>Tearing down a station\<close>

text \<open>When every allocation succeeds, tear-down empties the arrays of the station and leaves
  those of the others.\<close>

lemma take_alloc_all: "alloc_results a = [] \<Longrightarrow> take_alloc a = (True, a)"
  by (simp add: take_alloc_def)

lemma send_delba_all:
  assumes "alloc_results a = []" "send_delba a w t ini = (b, Some a')"
  shows "b" "alloc_results a' = []" "oarrs a' = oarrs a" "rarrs a' = rarrs a" "BAOriEntry a' = BAOriEntry a"
  using assms send_delba_tables[OF assms(2)]
  by (auto simp: send_delba_def MlmeDELBAAction_def take_alloc_all log_call_def Let_def oarrs_def rarrs_def
      split: if_splits Option.bind_splits)

definition arr_clear :: "nat list list \<Rightarrow> nat \<Rightarrow> nat \<Rightarrow> nat list list" where
  "arr_clear arrs w t = arrs[w := (arrs ! w)[t := 0]]"

lemma arr_clear_same: "w < length arrs \<Longrightarrow> t < length (arrs ! w) \<Longrightarrow> arrs ! w ! t = 0 \<Longrightarrow> arr_clear arrs w t = arrs"
  by (metis arr_clear_def list_update_id)

lemma arr_clear_beyond: "length arrs \<le> w \<Longrightarrow> arr_clear arrs w t = arrs"
  by (simp add: arr_clear_def list_update_beyond)

lemma FreeOri_effect:
  assumes inv: "ba_inv a" and i: "oused a i" "oown a i = (w, t)" and r: "BATableFreeOriEntry a i = Some a'"
  shows "alloc_results a' = alloc_results a" "oarrs a' = arr_clear (oarrs a) w t" "rarrs a' = rarrs a"
proof -
  note o = ori_invD[OF ba_invD(2)[OF inv]]
  have wt: "w < 32" "t < 8" using tab_ok_owner[OF o(4) i(1)] i(2) by auto
  have e: "ori_Wcid (BAOriEntry a ! i) = w" "ori_TID (BAOriEntry a ! i) = t" using i(2) by (simp_all add: oown_def)
  have ib: "1 \<le> i" "i < 128" using tab_okD(3,4)[OF o(4) i(1)] by auto
  show "alloc_results a' = alloc_results a" "oarrs a' = arr_clear (oarrs a) w t" "rarrs a' = rarrs a"
    using r i(1) ib wt o(1,3,7) e
    by (auto simp: BATableFreeOriEntry_def table_sizes oused_def Let_def oarrs_def rarrs_def upd_ori_def
        upd_mac_def map_update arr_clear_def list_update_same_conv split: if_splits)
qed

lemma OriTearDown_effect:
  assumes inv: "ba_inv a" and t: "TID < 8" and al: "alloc_results a = []"
    and r: "BAOriSessionTearDown a w TID p False = Some a'"
  shows "alloc_results a' = [] \<and> oarrs a' = arr_clear (oarrs a) w TID \<and> rarrs a' = rarrs a"
proof (cases "w < 32")
  case False
  then show ?thesis
    using r al ba_inv_dims(1)[OF inv] by (auto simp: BAOriSessionTearDown_def table_sizes arr_clear_beyond oarrs_def)
next
  case w: True
  note o = ori_invD[OF ba_invD(2)[OF inv]] and look = ori_lookup[OF inv w t]
  let ?i = "BAOriWcidArray (Content a ! w) ! TID"
  show ?thesis
  proof (cases "?i = 0")
    case True
    then show ?thesis
      using r look w al t o(7,8)[OF w] o(1) arr_clear_same[of w "oarrs a" TID]
      by (simp add: BAOriSessionTearDown_def table_sizes oarrs_def)
  next
    case False
    have used: "oused a ?i" using tab_okD(5)[OF o(4) w t] o(8)[OF w] False by simp
    have own: "oown a ?i = (w, TID)" using tab_okD(6)[OF o(4) w t] o(8)[OF w] False by simp
    have ib: "?i < 128" by (rule ori_arr_bound[OF inv w t])
    obtain b a1 where s1: "send_delba a w TID ORIGINATOR = (b, Some a1)" "parts a1 = parts a"
      using send_delba_inv[OF inv t] by blast
    note s2 = send_delba_all[OF al s1(1)]
    have inv1: "ba_inv a1" by (rule ba_inv_cong[OF s1(2) inv])
    have fin: "alloc_results a' = [] \<and> oarrs a' = arr_clear (oarrs a) w TID \<and> rarrs a' = rarrs a"
      if x: "ba_inv x" "alloc_results x = []" "oarrs x = oarrs a" "rarrs x = rarrs a" "BAOriEntry x = BAOriEntry a"
        and f: "BATableFreeOriEntry (upd_ori x ?i (\<lambda>e. e\<lparr>ORIBATimer := RTMPCancelTimer (ORIBATimer e)\<rparr>)) ?i = Some a'" for x
    proof -
      let ?y = "upd_ori x ?i (\<lambda>e. e\<lparr>ORIBATimer := RTMPCancelTimer (ORIBATimer e)\<rparr>)"
      have y: "oused ?y ?i" "oown ?y ?i = (w, TID)" "alloc_results ?y = []" "oarrs ?y = oarrs a" "rarrs ?y = rarrs a"
        using x used own ib ba_inv_dims(3)[OF inv] by (simp_all add: oused_def oown_def oarrs_def rarrs_def)
      have "ba_inv ?y" by (rule ori_timer_inv[OF x(1)]) simp
      then show ?thesis using FreeOri_effect[OF _ y(1,2) f] y by simp
    qed
    have s2': "alloc_results a1 = []" "oarrs a1 = oarrs a" "rarrs a1 = rarrs a" "BAOriEntry a1 = BAOriEntry a" "b"
      using s2 by auto
    show ?thesis
      using r look w False ib s1(1) s2'(5) fin[OF inv al refl refl refl] fin[OF inv1 s2'(1-4)]
      by (simp add: BAOriSessionTearDown_def table_sizes split: if_splits)
  qed
qed

lemma RecTearDown_effect:
  assumes inv: "ba_inv a" and t: "TID < 8" and al: "alloc_results a = []"
    and r: "BARecSessionTearDown a w TID p = Some a'"
  shows "alloc_results a' = [] \<and> rarrs a' = arr_clear (rarrs a) w TID \<and> oarrs a' = oarrs a"
proof (cases "w < 32")
  case False
  then show ?thesis
    using r al ba_inv_dims(1)[OF inv] by (auto simp: BARecSessionTearDown_def table_sizes arr_clear_beyond rarrs_def)
next
  case w: True
  note o = rec_invD[OF ba_invD(1)[OF inv]] and look = rec_lookup[OF inv w t]
  let ?j = "BARecWcidArray (Content a ! w) ! TID"
  show ?thesis
  proof (cases "?j = 0")
    case True
    then show ?thesis
      using r look w al t o(7,8)[OF w] o(1) arr_clear_same[of w "rarrs a" TID]
      by (simp add: BARecSessionTearDown_def table_sizes rarrs_def)
  next
    case False
    note j = rec_arr_bound[OF inv w t]
    have acc: "REC_BA_Status (BARecEntry a ! ?j) = Recipient_Accept" "rec_Wcid (BARecEntry a ! ?j) = w"
        "rec_TID (BARecEntry a ! ?j) = TID"
      using tab_okD(5,6)[OF o(4) w t] o(8)[OF w] False o(5)[OF j] by (auto simp: rused_def rown_def rec_entry_ok_def)
    let ?a1 = "upd_rec a ?j (\<lambda>e. e\<lparr>RECBATimer := RTMPCancelTimer (RECBATimer e)\<rparr>)"
    have inv1: "ba_inv ?a1"
      using o(5)[OF j] by (intro upd_rec_inv[OF inv j]) (auto simp: rec_entry_ok_def seqs_ok_def ind_ok_def)
    obtain b a2 where sd: "send_delba ?a1 w TID RECIPIENT = (b, Some a2)" "parts a2 = parts ?a1"
      using send_delba_inv[OF inv1 t] by blast
    have al1: "alloc_results ?a1 = []" using al by (simp add: upd_rec_def)
    note s2 = send_delba_all[OF al1 sd(1)] and s3 = send_delba_tables[OF sd(1)]
    have fin: "alloc_results a' = [] \<and> rarrs a' = arr_clear (rarrs a) w TID \<and> oarrs a' = oarrs a"
      if x: "alloc_results x = []" "Content x = Content a" "BARecEntry x = BARecEntry ?a1" "lists_ok x (BARecEntry x ! ?j)"
        and f: "(case ba_refresh_reordering_mpdus x (BARecEntry x ! ?j) of (a3, e3) \<Rightarrow>
           BATableFreeRecEntry (log_call (upd_mac (upd_rec a3 ?j (\<lambda>_. e3\<lparr>LastIndSeq := RESET_RCV_SEQ, rec_BAWinSize := 0\<rparr>)) w
             (\<lambda>st. st\<lparr>RXBAbitmap := bit_clear (RXBAbitmap st) TID, BARecWcidArray := (BARecWcidArray st)[TID := 0]\<rparr>))
             (RTMP_DEL_BA_SESSION_FROM_ASIC w TID)) ?j) = Some a'" for x
    proof -
      obtain a3 e3 where rf: "ba_refresh_reordering_mpdus x (BARecEntry x ! ?j) = (a3, e3)"
          "keeps x (BARecEntry x ! ?j) a3 e3"
        using refresh_keeps[OF x(4)] by blast
      have more: "Content a3 = Content a" "BARecEntry a3 = BARecEntry ?a1" "alloc_results a3 = []"
        using more_fields[of a3 x] rf(2) x by (simp_all add: keeps_def)
      have st: "rec_Wcid e3 = w" "rec_TID e3 = TID" "REC_BA_Status e3 = Recipient_Accept"
        using rf(2) x(3) acc j o(2) by (simp_all add: keeps_def rec_static_def)
      show ?thesis
        using f rf(1) more st False j w t o(1,2,7)
        by (auto simp: BATableFreeRecEntry_def table_sizes Let_def log_call_def upd_mac_def upd_rec_def
            rarrs_def oarrs_def arr_clear_def map_update list_update_same_conv)
    qed
    have x1: "lists_ok ?a1 (BARecEntry ?a1 ! ?j)" by (rule ba_inv_lists(1)[OF inv1 j])
    have x2: "lists_ok a2 (BARecEntry a2 ! ?j)" by (rule ba_inv_lists(1)[OF ba_inv_cong[OF sd(2) inv1] j])
    have c: "Content ?a1 = Content a" "Content a2 = Content a" "BARecEntry a2 = BARecEntry ?a1" "alloc_results a2 = []" "b"
      using s2 s3 by (simp_all add: upd_rec_def)
    show ?thesis
      using r False look w acc sd(1) c(5) fin[OF al1 c(1) refl x1] fin[OF c(4,2,3) x2]
      by (cases p) (simp_all add: BARecSessionTearDown_def table_sizes Let_def)
  qed
qed

lemma TearDown_tids_effect:
  assumes "ba_inv a" "\<forall>t \<in> set ts. t < 8" "alloc_results a = []"
    and "BASessionTearDown_tids a w ts = Some a'"
  shows "alloc_results a' = [] \<and> rarrs a' = fold (\<lambda>t arrs. arr_clear arrs w t) ts (rarrs a) \<and>
    oarrs a' = fold (\<lambda>t arrs. arr_clear arrs w t) ts (oarrs a)"
  using assms
proof (induction ts arbitrary: a)
  case (Cons t ts)
  have t: "t < 8" using Cons.prems(2) by simp
  obtain a1 where a1: "BAOriSessionTearDown a w t False False = Some a1" "ba_inv a1"
    using OriTearDown_inv[OF Cons.prems(1) t] by blast
  obtain a2 where a2: "BARecSessionTearDown a1 w t False = Some a2" "ba_inv a2"
    using RecTearDown_inv[OF a1(2) t] by blast
  have e1: "alloc_results a1 = []" "oarrs a1 = arr_clear (oarrs a) w t" "rarrs a1 = rarrs a"
    using OriTearDown_effect[OF Cons.prems(1) t Cons.prems(3) a1(1)] by auto
  have e2: "alloc_results a2 = []" "rarrs a2 = arr_clear (rarrs a1) w t" "oarrs a2 = oarrs a1"
    using RecTearDown_effect[OF a1(2) t e1(1) a2(1)] by auto
  have "BASessionTearDown_tids a2 w ts = Some a'" using Cons.prems(4) a1(1) a2(1) by simp
  then show ?case using Cons.IH[OF a2(2) _ e2(1)] Cons.prems(2) e1 e2 by simp
qed simp

lemma arr_clear_length [simp]: "length (arr_clear arrs w t) = length arrs"
  by (simp add: arr_clear_def)

lemma arr_clear_nth:
  "arr_clear arrs w t ! v = (if v = w \<and> w < length arrs then (arrs ! w)[t := 0] else arrs ! v)"
  by (cases "w < length arrs"; cases "v = w") (simp_all add: arr_clear_def list_update_beyond)

lemma fold_clear_nth:
  "w < length arrs \<Longrightarrow> fold (\<lambda>t arrs. arr_clear arrs w t) ts arrs ! v =
    (if v = w then fold (\<lambda>t xs. xs[t := 0]) ts (arrs ! w) else arrs ! v)"
  by (induction ts arbitrary: arrs) (auto simp: arr_clear_nth)

lemma fold_zero:
  "length xs = 8 \<Longrightarrow> fold (\<lambda>t xs. xs[t := 0]) [0..<8] xs = replicate 8 (0::nat)"
  by (rule nth_equalityI) (auto simp: upt_rec[of 0] upt_rec numeral_eq_Suc nth_list_update nth_Cons less_Suc_eq)

text \<open>Tearing down a station with memory available: both of its arrays are empty afterwards, those of
  the other stations as they were.\<close>

lemma TearDownALL_clears:
  assumes "ba_inv a" and "w < 32" and "alloc_results a = []"
  shows "\<exists>a'. BASessionTearDownALL a w = Some a' \<and> ba_inv a' \<and> alloc_results a' = [] \<and>
    BARecWcidArray (Content a' ! w) = replicate 8 0 \<and> BAOriWcidArray (Content a' ! w) = replicate 8 0 \<and>
    (\<forall>v<32. v \<noteq> w \<longrightarrow> BARecWcidArray (Content a' ! v) = BARecWcidArray (Content a ! v) \<and>
      BAOriWcidArray (Content a' ! v) = BAOriWcidArray (Content a ! v))"
proof -
  obtain a' where a': "BASessionTearDownALL a w = Some a'" "ba_inv a'" using TearDownALL_inv[OF assms(1)] by blast
  have e: "rarrs a' = fold (\<lambda>t arrs. arr_clear arrs w t) [0..<8] (rarrs a)"
      "oarrs a' = fold (\<lambda>t arrs. arr_clear arrs w t) [0..<8] (oarrs a)" "alloc_results a' = []"
    using TearDown_tids_effect[OF assms(1) _ assms(3), of "[0..<8]" w a'] a'(1)
    by (simp_all add: BASessionTearDownALL_def table_sizes)
  note r = rec_invD(8)[OF ba_invD(1)[OF a'(2)]] and o = ori_invD(8)[OF ba_invD(2)[OF a'(2)]]
  have len: "w < length (rarrs a)" "w < length (oarrs a)"
    using assms(2) ba_inv_dims(1)[OF assms(1)] by (simp_all add: rarrs_def oarrs_def)
  have r0: "rarrs a ! v = BARecWcidArray (Content a ! v)" "oarrs a ! v = BAOriWcidArray (Content a ! v)" if "v < 32" for v
    using that rec_invD(8)[OF ba_invD(1)[OF assms(1)]] ori_invD(8)[OF ba_invD(2)[OF assms(1)]] by auto
  have "BARecWcidArray (Content a' ! v) = (if v = w then replicate 8 0 else BARecWcidArray (Content a ! v))"
    "BAOriWcidArray (Content a' ! v) = (if v = w then replicate 8 0 else BAOriWcidArray (Content a ! v))"
    if "v < 32" for v
    using r[OF that] o[OF that] fold_clear_nth[OF len(1)] fold_clear_nth[OF len(2)] r0[OF that] assms(2)
      fold_zero[of "BARecWcidArray (Content a ! w)"] fold_zero[of "BAOriWcidArray (Content a ! w)"]
      ba_invD(9,10)[OF assms(1), of w]
    by (cases "v = w"; simp add: e r0[OF assms(2)])+
  then show ?thesis using a' e(3) assms(2) by simp
qed

end
