(* ===== verification/BaSessionProps.thy ===== *)
theory BaSessionProps
  imports BaEvents
begin

text \<open>The properties of the block-ack session tables and of the handlers that work on them, each
  with the theorem that applies it at a concrete adapter.\<close>

section \<open>A concrete adapter\<close>

text \<open>Station 1 is an associated HT station, the window limit is 64, every allocation
  succeeds.\<close>

definition wit_sta :: "nat \<Rightarrow> MAC_TABLE_ENTRY" where
  "wit_sta w = \<lparr>EntryType = (if w = 1 then ENTRY_CLIENT else ENTRY_NONE), Addr = replicate 6 (of_nat (2 * w)), Aid = w,
     RXBAbitmap = 0, TXBAbitmap = 0, BADeclineBitmap = 0, BARecWcidArray = replicate 8 0,
     BAOriWcidArray = replicate 8 0, TxSeq = replicate 8 0, IS_HT_STA = (w = 1), is_RALINK_CHIPSET = False,
     MaxRAmpduFactor = 3, WepDisabled = True\<rparr>"

definition wit_timer :: ralink_timer where
  "wit_timer = \<lparr>tm_Valid = False, tm_State = False, tm_PeriodicType = False, tm_Repeat = False,
     tm_TimerValue = 0, tm_pending = False, tm_timeout = 0\<rparr>"

definition wit_rec0 :: BA_REC_ENTRY where
  "wit_rec0 = \<lparr>rec_Wcid = 0, rec_TID = 0, rec_BAWinSize = 0, LastIndSeq = 0, rec_TimeOutValue = 0,
     RECBATimer = wit_timer, LastIndSeqAtTimer = 0, nDropPacket = 0, rcvSeq = 0,
     REC_BA_Status = Recipient_NONE, reorder_list = \<lparr>next_mpdus = [], qlen = 0\<rparr>\<rparr>"

definition wit_ori0 :: BA_ORI_ENTRY where
  "wit_ori0 = \<lparr>ori_Wcid = 0, ori_TID = 0, ori_BAWinSize = 0, ori_Token = 0, ori_Sequence = 0,
     ori_TimeOutValue = 0, ORI_BA_Status = Originator_NONE, ORIBATimer = wit_timer\<rparr>"

definition wit_ad0 :: adapter where
  "wit_ad0 = \<lparr>freelist = \<lparr>next_mpdus = [], qlen = 0\<rparr>, OS_HZ = 1000, calls = [],
     Content = map wit_sta [0..<32], numAsRecipient = 0, numAsOriginator = 0, numDoneOriginator = 0,
     BAOriEntry = replicate 128 wit_ori0, BARecEntry = replicate 128 wit_rec0, RxBAWinLimit = 64,
     AutoBA = True, bBADecline = False, FixedTxMode_HT = True, IS_MT7601 = True, MACVersion = 0,
     STA_TGN_WIFI_ON = False, MONITOR_or_ATE_ON = False, ADHOC_ON = False, Bssid = replicate 6 1,
     CurrentAddress = replicate 6 3, scan_while_connected = False, HALT_or_NIC_NOT_EXIST = False,
     alloc_results = []\<rparr>"

definition wit_ad :: adapter where "wit_ad = BATableInit wit_ad0"

text \<open>An immediate-BA request for TID 5 with 32 buffers, and one for TID 9.\<close>

definition wit_req :: ADDBA_REQ_MSG where
  "wit_req = \<lparr>areq_Addr2 = replicate 6 2, areq_Token = 1, areq_BaParm = 0x0816, areq_TimeOutValue = 0\<rparr>"

definition wit_req9 :: ADDBA_REQ_MSG where
  "wit_req9 = \<lparr>areq_Addr2 = replicate 6 2, areq_Token = 1, areq_BaParm = 0x0826, areq_TimeOutValue = 0\<rparr>"

lemma wit_ad_reach: "ba_reach wit_ad"
  unfolding wit_ad_def
  by (rule reach_start)
    (simp add: ba_start_def table_dims_def wit_ad0_def wit_sta_def wit_rec0_def wit_ori0_def list_wf_def seq_ok_def)

lemma wit_ad_inv: "ba_inv wit_ad"
  by (rule ba_reach_inv[OF wit_ad_reach])

lemma wit_ad_sel:
  "w < 32 \<Longrightarrow> Content wit_ad ! w = wit_sta w" "numAsRecipient wit_ad = 0" "bBADecline wit_ad = False"
  "alloc_results wit_ad = []" "RxBAWinLimit wit_ad = 64"
  by (simp_all add: wit_ad_def BATableInit_def wit_ad0_def)

lemma wit_req_parm: "BA_PARM_TID (areq_BaParm wit_req) = 5" "BA_PARM_BAPolicy (areq_BaParm wit_req)"
  "BA_PARM_TID (areq_BaParm wit_req9) = 9" "BA_PARM_BAPolicy (areq_BaParm wit_req9)"
  by (simp_all add: wit_req_def wit_req9_def BA_PARM_TID_def BA_PARM_BAPolicy_def)

section \<open>The tables\<close>

text \<open>C5. The block-ack tables stay consistent: in every state reachable from the initialised tables
  by any sequence of received frames, requests, timers, flushes and tear-downs, with any allocation
  outcomes, both tables are linked one-to-one with the per-station TID arrays, the three counters equal
  the numbers of used and established entries, the per-station bitmaps say exactly which TIDs have a
  session, every pending list and its counter agree, and every session in use has an initialised timer
  and a window of 1 to 255.\<close>

theorem reachable_tables_consistent:
  assumes "ba_reach a"
  shows "ba_inv a"
  using assms by (rule ba_reach_inv)

theorem reachable_tables_consistent_witness: "ba_inv wit_ad"
  using reachable_tables_consistent[OF wit_ad_reach] .

text \<open>C6. No handler faults: from every reachable state, every event whose TID is below 8 (and whose
  other fields are as the driver relies on) is handled without a null block being followed and without
  an access outside the station table, the session tables or the per-station arrays, and leads to a
  reachable state.\<close>

theorem events_do_not_fault:
  assumes "ba_reach a" and "ev_ok a ev"
  shows "\<exists>a'. ba_exec ev a = Some a' \<and> ba_reach a'"
proof -
  obtain a' where "ba_exec ev a = Some a'" using ba_exec_inv[OF ba_reach_inv[OF assms(1)] assms(2)] by blast
  then show ?thesis using reach_step[OF assms] by blast
qed

theorem events_do_not_fault_witness:
  "\<exists>a'. PeerAddBAReqAction wit_ad 1 wit_req 33 = Some a' \<and> ba_reach a'"
  using events_do_not_fault[OF wit_ad_reach, of "Ev_AddBAReq 1 wit_req 33"] wit_req_parm by simp



text \<open>The search for a free slot finds one whenever there is one: under the invariant both
  allocation routines fail exactly when all 127 slots of their table are in use (so their fall-through,
  which returns the last entry without taking it, is never reached).\<close>

theorem allocation_fails_only_when_full:
  assumes "ba_inv a"
  shows "(fst (BATableAllocRecEntry a 0) = None \<longleftrightarrow>
      (\<forall>i. 1 \<le> i \<and> i < 128 \<longrightarrow> REC_BA_Status (BARecEntry a ! i) \<noteq> Recipient_NONE)) \<and>
    (fst (BATableAllocOriEntry a 0) = None \<longleftrightarrow>
      (\<forall>i. 1 \<le> i \<and> i < 128 \<longrightarrow> ORI_BA_Status (BAOriEntry a ! i) \<noteq> Originator_NONE))"
proof -
  have "rt.good a" "ot.good a" using assms by (simp_all add: ba_inv_def rec_inv_def ori_inv_def)
  then show ?thesis
    using rt.alloc_fails_iff_full[of a] ot.alloc_fails_iff_full[of a] ba_inv_dims[OF assms]
    by (simp add: rused_def oused_def)
qed

theorem allocation_fails_only_when_full_witness:
  "fst (BATableAllocRecEntry wit_ad 0) \<noteq> None \<and> fst (BATableAllocOriEntry wit_ad 0) \<noteq> None"
proof -
  have "REC_BA_Status (BARecEntry wit_ad ! 1) = Recipient_NONE" "ORI_BA_Status (BAOriEntry wit_ad ! 1) = Originator_NONE"
    by (simp_all add: wit_ad_def BATableInit_def wit_ad0_def)
  then show ?thesis using allocation_fails_only_when_full[OF wit_ad_inv] by fastforce
qed

text \<open>Tearing down a station: when allocations succeed, \<open>BASessionTearDownALL\<close> leaves the
  station with no session of either kind on any TID, keeps the tables consistent, and does not touch
  the sessions of any other station.\<close>

theorem station_teardown_clears:
  assumes "ba_inv a" and "w < 32" and "alloc_results a = []"
  shows "\<exists>a'. BASessionTearDownALL a w = Some a' \<and> ba_inv a' \<and>
    BARecWcidArray (Content a' ! w) = replicate 8 0 \<and> BAOriWcidArray (Content a' ! w) = replicate 8 0 \<and>
    (\<forall>v<32. v \<noteq> w \<longrightarrow> BARecWcidArray (Content a' ! v) = BARecWcidArray (Content a ! v) \<and>
      BAOriWcidArray (Content a' ! v) = BAOriWcidArray (Content a ! v))"
  using TearDownALL_clears[OF assms] by blast

theorem station_teardown_clears_witness:
  "\<exists>a'. BASessionTearDownALL wit_ad 1 = Some a' \<and> BARecWcidArray (Content a' ! 1) = replicate 8 0"
  using station_teardown_clears[OF wit_ad_inv, of 1] wit_ad_sel(4) by auto

text \<open>When the memory for the DELBA message cannot be allocated, an active tear-down of a
  recipient session gives up before freeing it: the station still points to the session, the entry
  stays in use and counted, only its timer is off. (Deletion of the station proceeds all the same.)\<close>

theorem teardown_without_memory_keeps_session:
  assumes "ba_inv a" and "w < 32" and "t < 8" and "BARecWcidArray (Content a ! w) ! t \<noteq> 0"
    and "alloc_results a = False # rs"
  shows "\<exists>a'. BARecSessionTearDown a w t False = Some a' \<and> Content a' = Content a \<and>
    numAsRecipient a' = numAsRecipient a \<and> rused a' (BARecWcidArray (Content a ! w) ! t)"
proof -
  note r = rec_invD[OF ba_invD(1)[OF assms(1)]] and look = rec_lookup[OF assms(1-3)]
  let ?j = "BARecWcidArray (Content a ! w) ! t"
  have j: "?j < 128" by (rule rec_arr_bound[OF assms(1-3)])
  have used: "rused a ?j" using tab_okD(5)[OF r(4) assms(2,3)] r(8)[OF assms(2)] assms(4) by simp
  have "rown a ?j = (w, t)" using tab_okD(6)[OF r(4) assms(2,3)] r(8)[OF assms(2)] assms(4) by simp
  then have "t = rec_TID (BARecEntry a ! ?j) \<and> REC_BA_Status (BARecEntry a ! ?j) = Recipient_Accept"
    using used r(5)[OF j] by (auto simp: rown_def rused_def rec_entry_ok_def)
  then show ?thesis
    using look assms used r(2) j
    by (simp add: BARecSessionTearDown_def table_sizes Let_def send_delba_def take_alloc_def upd_rec_def rused_def)
qed

text \<open>The witness adapter with one recipient session, on TID 5 of station 1.\<close>

definition wit_ad1 :: adapter where
  "wit_ad1 = (upd_mac (upd_rec wit_ad 1 (\<lambda>e. e\<lparr>REC_BA_Status := Recipient_Accept, rec_BAWinSize := 32,
       rec_Wcid := 1, rec_TID := 5, LastIndSeq := RESET_RCV_SEQ, RECBATimer := RTMPInitTimer (RECBATimer e) True\<rparr>)) 1
     (\<lambda>st. st\<lparr>RXBAbitmap := bit_set (RXBAbitmap st) 5, BARecWcidArray := (BARecWcidArray st)[5 := 1]\<rparr>))
     \<lparr>numAsRecipient := 1\<rparr>"

lemma wit_ad1_inv: "ba_inv wit_ad1"
proof -
  note r = rec_invD[OF ba_invD(1)[OF wit_ad_inv]]
  have "\<not> rused wit_ad 1" by (simp add: rused_def wit_ad_def BATableInit_def wit_ad0_def)
  moreover have "rarrs wit_ad ! 1 ! 5 = 0" using r(8)[of 1] by (simp add: wit_ad_sel wit_sta_def)
  moreover have "reorder_list (BARecEntry wit_ad ! 1) = \<lparr>next_mpdus = [], qlen = 0\<rparr>"
    by (simp add: wit_ad_def BATableInit_def wit_ad0_def wit_rec0_def)
  ultimately have "rec_inv wit_ad1"
    by (intro rec_take[OF ba_invD(1)[OF wit_ad_inv], of 1 1 5 "BARecEntry wit_ad1 ! 1"])
      (use r(1-3,7) wit_ad_sel(2) in \<open>simp_all add: wit_ad1_def upd_rec_def upd_mac_def rarrs_def map_update
         table_dims_def rxbit_def rec_entry_ok_def seqs_ok_def ind_ok_def list_wf_def nth_list_update\<close>)
  then show ?thesis
    by (rule ba_invI_rec[OF wit_ad_inv]) (simp_all add: wit_ad1_def)
qed

lemma wit_ad1_sel: "BARecWcidArray (Content wit_ad1 ! 1) ! 5 = 1"
  using ba_inv_dims(1)[OF wit_ad_inv] by (simp add: wit_ad1_def upd_mac_def upd_rec_def wit_ad_sel wit_sta_def)

theorem teardown_without_memory_keeps_session_witness:
  "\<exists>a'. BARecSessionTearDown (wit_ad1\<lparr>alloc_results := [False]\<rparr>) 1 5 False = Some a' \<and> rused a' 1"
proof -
  have "ba_inv (wit_ad1\<lparr>alloc_results := [False]\<rparr>)"
    by (rule ba_inv_cong[OF _ wit_ad1_inv]) (simp add: parts_def)
  then show ?thesis
    using teardown_without_memory_keeps_session[of "wit_ad1\<lparr>alloc_results := [False]\<rparr>" 1 5 "[]"] wit_ad1_sel by auto
qed

text \<open>C8. A peer can drive the session code out of its arrays: the TID field of the ADDBA frames has
  four bits, nothing checks it, and for an accepted request of a known HT station with a TID of 8 or
  more the handler reads the per-station array outside its eight entries.\<close>

theorem peer_tid_out_of_bounds:
  assumes "ba_inv a" and "w < 32" and "sizeof_FRAME_ADDBA_REQ \<le> len" and "BA_PARM_BAPolicy (areq_BaParm f)"
    and "\<not> bBADecline a" and "IS_HT_STA (Content a ! w)" and "8 \<le> BA_PARM_TID (areq_BaParm f)"
  shows "PeerAddBAReqAction a w f len = None"
  using assms ba_inv_dims(1)[OF assms(1)] ba_invD(9)[OF assms(1,2)]
  by (simp add: PeerAddBAReqAction_def table_sizes PeerAddBAReqActionSanity_def IMMED_BA_def BARecSessionAdd_def Let_def)

theorem peer_tid_out_of_bounds_witness: "PeerAddBAReqAction wit_ad 1 wit_req9 33 = None"
  using peer_tid_out_of_bounds[OF wit_ad_inv, of 1 33 wit_req9] wit_req_parm
  by (simp add: frame_sizes wit_ad_sel wit_sta_def)

text \<open>Sessions do not disturb each other: receiving an MPDU of one session leaves every other
  entry of the recipient table, the originator table and the station table as they were.\<close>

theorem receive_isolates_sessions:
  assumes "ba_inv a" and "seq_ok (rx_Sequence rx)" and "RxWITID rx < 8" and "RxWIWirelessCliID rx < 32"
    and "i \<noteq> BARecWcidArray (Content a ! RxWIWirelessCliID rx) ! RxWITID rx"
  shows "\<exists>a'. Indicate_AMPDU_Packet a rx b now = Some a' \<and> BARecEntry a' ! i = BARecEntry a ! i \<and>
    BAOriEntry a' = BAOriEntry a \<and> Content a' = Content a"
proof -
  let ?w = "RxWIWirelessCliID rx" and ?t = "RxWITID rx"
  let ?i = "BARecWcidArray (Content a ! ?w) ! ?t"
  have ib: "?i < 128" by (rule rec_arr_bound[OF assms(1,4,3)])
  obtain a' e' where r: "ampdu_session_rx a (BARecEntry a ! ?i) rx b now = Some (a', e')"
      "keeps a (BARecEntry a ! ?i) a' e'"
    using session_rx_keeps[OF ba_inv_lists[OF assms(1) ib] assms(2)] by blast
  have m: "Content a' = Content a" "BARecEntry a' = BARecEntry a" "BAOriEntry a' = BAOriEntry a"
    using more_fields[of a' a] r(2) by (simp_all add: keeps_def)
  show ?thesis
    using r(1) m assms(5) rec_lookup[OF assms(1,4,3)] assms(4)
    by (auto simp: Indicate_AMPDU_Packet_def Let_def table_sizes INDICATE_eq log_call_def upd_rec_def)
qed

theorem receive_isolates_sessions_witness:
  "\<exists>a'. Indicate_AMPDU_Packet wit_ad1 \<lparr>rx_Sequence = 7, pRxPacket = 9, DataSize = 100, rx_Flags = 0,
      rx_OpMode = 0, RxWIWirelessCliID = 1, RxWITID = 5\<rparr> 0 0 = Some a' \<and> BARecEntry a' ! 2 = BARecEntry wit_ad1 ! 2"
  using receive_isolates_sessions[OF wit_ad1_inv, of "\<lparr>rx_Sequence = 7, pRxPacket = 9, DataSize = 100, rx_Flags = 0,
      rx_OpMode = 0, RxWIWirelessCliID = 1, RxWITID = 5\<rparr>" 2 0 0] wit_ad1_sel
  by (auto simp: seq_ok_def)

lemma field_values:
  "n < 16 \<Longrightarrow> unat (take_bit 4 (of_nat n :: 16 word)) = n"
  "0 \<le> b \<Longrightarrow> b < 1024 \<Longrightarrow> uint (take_bit 10 (of_int b :: 16 word)) = b"
  "0 \<le> b \<Longrightarrow> b < 4096 \<Longrightarrow> uint (take_bit 12 (of_int b :: 16 word)) = b"
  by (simp_all add: unsigned_take_bit_eq unat_of_nat take_bit_nat_eq_self uint_word_of_int take_bit_int_eq_self)

lemma ba_parm_fields:
  fixes t b :: "16 word"
  shows "take_bit 4 (drop_bit 2 (of_bool am OR push_bit 1 (of_bool p) OR push_bit 2 (take_bit 4 t) OR
      push_bit 6 (take_bit 10 b))) = take_bit 4 t"
    and "drop_bit 6 (of_bool am OR push_bit 1 (of_bool p) OR push_bit 2 (take_bit 4 t) OR
      push_bit 6 (take_bit 10 b)) = take_bit 10 b"
    and "bit (of_bool am OR push_bit 1 (of_bool p) OR push_bit 2 (take_bit 4 t) OR push_bit 6 (take_bit 10 b)) 1 = p"
  by (rule bit_word_eqI, auto simp: bit_simps)+

lemma control_fields:
  fixes t x :: "16 word"
  shows "drop_bit 12 (push_bit 11 (of_bool i) OR push_bit 12 (take_bit 4 t)) = take_bit 4 t"
    and "bit (push_bit 11 (of_bool i) OR push_bit 12 (take_bit 4 t)) 11 = i"
    and "drop_bit 12 (of_bool a OR push_bit 1 (of_bool m) OR push_bit 2 (of_bool c) OR push_bit 12 (take_bit 4 t)) = take_bit 4 t"
    and "drop_bit 4 (take_bit 4 x OR push_bit 4 (take_bit 12 t)) = take_bit 12 t"
  by (rule bit_word_eqI, auto simp: bit_simps) (auto simp: bit_simps intro!: bit_word_eqI)

text \<open>The parameter words on the air: encoding and then decoding the ADDBA, DELBA and BAR
  parameter fields gives back the policy, a four-bit TID, a ten-bit buffer size, the initiator and a
  twelve-bit starting number.\<close>

theorem parameter_words_roundtrip:
  assumes "TID < 16" and "0 \<le> BufSize" and "BufSize < 1024" and "0 \<le> StartSeq" and "StartSeq < 4096"
  shows "BA_PARM_TID (BA_PARM_word am pol TID BufSize) = TID \<and>
    BA_PARM_BAPolicy (BA_PARM_word am pol TID BufSize) = pol \<and>
    BA_PARM_BufSize (BA_PARM_word am pol TID BufSize) = BufSize \<and>
    DELBA_PARM_TID (DELBA_PARM_word ini TID) = TID \<and> DELBA_PARM_Initiator (DELBA_PARM_word ini TID) = ini \<and>
    BAR_CONTROL_TID (BAR_CONTROL_word ack mtid compr TID) = TID \<and>
    BASEQ_CONTROL_StartSeq (BASEQ_CONTROL_word frag StartSeq) = StartSeq"
  unfolding BA_PARM_TID_def BA_PARM_BAPolicy_def BA_PARM_BufSize_def BA_PARM_word_def ba_parm_fields
    DELBA_PARM_TID_def DELBA_PARM_Initiator_def DELBA_PARM_word_def BAR_CONTROL_TID_def BAR_CONTROL_word_def
    BASEQ_CONTROL_StartSeq_def BASEQ_CONTROL_word_def control_fields
  using assms by (simp only: field_values simp_thms)

theorem parameter_words_roundtrip_witness: "BA_PARM_TID (BA_PARM_word False True 5 64) = 5"
  using parameter_words_roundtrip[of 5 64 0 False True] by simp

end
