(* ===== verification/MlmeQueue.thy ===== *)
theory MlmeQueue
  imports WifiPrelude "HOL-Library.Monad_Syntax"
begin

text \<open>The message queue of the MLME task (common/mlme.c, include/mlme.h): a circular array of
  \<open>MAX_LEN_OF_MLME_QUEUE\<close> elements with a head, a tail and a count, its operations, and the bounded
  first-in first-out contract they provide. An access outside the array, or a copy past the end of a
  buffer, is \<open>None\<close>.\<close>

section \<open>Data\<close>

definition MGMT_DMA_BUFFER_SIZE :: nat where "MGMT_DMA_BUFFER_SIZE = 1600"
definition MAX_LEN_OF_MLME_QUEUE :: nat where "MAX_LEN_OF_MLME_QUEUE = 40"
definition RESERVED_WCID :: byte where "RESERVED_WCID = 0xff"

record MLME_QUEUE_ELEM =
  qe_Msg :: "byte list"
  qe_Machine :: "32 word"
  qe_MsgType :: "32 word"
  qe_MsgLen :: "32 word"
  qe_TimeStampLow :: "32 word"
  qe_TimeStampHigh :: "32 word"
  qe_Rssi0 :: byte
  qe_Rssi1 :: byte
  qe_Rssi2 :: byte
  qe_AntSel :: byte
  qe_Signal :: byte
  qe_Channel :: byte
  qe_Wcid :: byte
  qe_Occupied :: bool
  qe_OpMode :: byte
  qe_Priv :: "32 word"

record MLME_QUEUE =
  q_Num :: "32 word"
  q_Head :: "32 word"
  q_Tail :: "32 word"
  q_Entry :: "MLME_QUEUE_ELEM list"

text \<open>\<open>NdisMoveMemory(dst, src, n)\<close> on byte arrays.\<close>

definition move_memory :: "byte list \<Rightarrow> byte list \<Rightarrow> nat \<Rightarrow> byte list option" where
  "move_memory dst src n =
    (if n \<le> length dst \<and> n \<le> length src then Some (take n src @ drop n dst) else None)"

section \<open>Operations (common/mlme.c)\<close>

definition MlmeQueueInit :: "MLME_QUEUE \<Rightarrow> MLME_QUEUE" where
  "MlmeQueueInit q = q\<lparr>q_Num := 0, q_Head := 0, q_Tail := 0,
    q_Entry := map (\<lambda>e. e\<lparr>qe_Occupied := False, qe_MsgLen := 0,
      qe_Msg := replicate MGMT_DMA_BUFFER_SIZE 0\<rparr>) (q_Entry q)\<rparr>"

definition MlmeQueueEmpty :: "MLME_QUEUE \<Rightarrow> bool" where
  "MlmeQueueEmpty q = (q_Num q = 0)"

definition MlmeQueueFull :: "MLME_QUEUE \<Rightarrow> nat \<Rightarrow> bool option" where
  "MlmeQueueFull q SendId =
    (if SendId = 0
     then (if of_nat (MAX_LEN_OF_MLME_QUEUE div 2) \<le> q_Num q then Some True
           else do { e \<leftarrow> nth_opt (q_Entry q) (unat (q_Tail q)); Some (qe_Occupied e) })
     else Some (q_Num q = of_nat MAX_LEN_OF_MLME_QUEUE))"

definition MlmeQueueDestroy :: "MLME_QUEUE \<Rightarrow> MLME_QUEUE" where
  "MlmeQueueDestroy q = q\<lparr>q_Num := 0, q_Head := 0, q_Tail := 0\<rparr>"

text \<open>The section both enqueue functions run under the queue lock: take the slot at the tail, advance
  the tail, count the element, and fill the slot with \<open>fill\<close>.\<close>

definition queue_next :: "32 word \<Rightarrow> 32 word" where
  "queue_next i = (if i + 1 = of_nat MAX_LEN_OF_MLME_QUEUE then 0 else i + 1)"

definition queue_put ::
  "MLME_QUEUE \<Rightarrow> (MLME_QUEUE_ELEM \<Rightarrow> MLME_QUEUE_ELEM option) \<Rightarrow> MLME_QUEUE option" where
  "queue_put q fill = do {
     slot \<leftarrow> nth_opt (q_Entry q) (unat (q_Tail q));
     e \<leftarrow> fill slot;
     Some (q\<lparr>q_Tail := queue_next (q_Tail q), q_Num := q_Num q + 1,
            q_Entry := (q_Entry q)[unat (q_Tail q) := e]\<rparr>)}"

text \<open>Copying the message: nothing happens when \<open>Msg\<close> is the null pointer.\<close>

definition copy_msg :: "byte list option \<Rightarrow> 32 word \<Rightarrow> MLME_QUEUE_ELEM \<Rightarrow> MLME_QUEUE_ELEM option" where
  "copy_msg Msg MsgLen e =
    (case Msg of None \<Rightarrow> Some e
     | Some m \<Rightarrow> do { b \<leftarrow> move_memory (qe_Msg e) m (unat MsgLen); Some (e\<lparr>qe_Msg := b\<rparr>) })"

text \<open>The body of \<open>MlmeEnqueue\<close> after its test of the adapter flags.\<close>

definition mlme_enqueue ::
  "MLME_QUEUE \<Rightarrow> 32 word \<Rightarrow> 32 word \<Rightarrow> 32 word \<Rightarrow> byte list option \<Rightarrow> 32 word
    \<Rightarrow> (bool \<times> MLME_QUEUE) option" where
  "mlme_enqueue q Machine MsgType MsgLen Msg Priv =
    (if MsgLen > of_nat MGMT_DMA_BUFFER_SIZE then Some (False, q)
     else do {
       full \<leftarrow> MlmeQueueFull q 1;
       if full then Some (False, q)
       else do {
         q' \<leftarrow> queue_put q (\<lambda>e. copy_msg Msg MsgLen
           (e\<lparr>qe_Wcid := RESERVED_WCID, qe_Occupied := True, qe_Machine := Machine,
              qe_MsgType := MsgType, qe_MsgLen := MsgLen, qe_Priv := Priv\<rparr>));
         Some (True, q') } })"

text \<open>\<open>MlmeDequeue\<close> returns a pointer to the element, here its index, and does not test that
  the queue has one.\<close>

definition MlmeDequeue :: "MLME_QUEUE \<Rightarrow> 32 word \<times> MLME_QUEUE" where
  "MlmeDequeue q = (q_Head q, q\<lparr>q_Num := q_Num q - 1, q_Head := queue_next (q_Head q)\<rparr>)"

text \<open>The release of a handled element at the end of the \<open>MlmeHandler\<close> loop.\<close>

definition free_elem :: "32 word \<Rightarrow> MLME_QUEUE \<Rightarrow> MLME_QUEUE option" where
  "free_elem i q = do {
     e \<leftarrow> nth_opt (q_Entry q) (unat i);
     Some (q\<lparr>q_Entry := (q_Entry q)[unat i := e\<lparr>qe_Occupied := False, qe_MsgLen := 0\<rparr>]\<rparr>) }"

section \<open>Well-formed queues and their contents\<close>

text \<open>\<open>q_index q k\<close>: the slot of the \<open>k\<close>-th queued element; \<open>q_abs\<close>: the queued elements
  in order.\<close>

definition q_index :: "MLME_QUEUE \<Rightarrow> nat \<Rightarrow> nat" where
  "q_index q k = (unat (q_Head q) + k) mod 40"

definition q_abs :: "MLME_QUEUE \<Rightarrow> MLME_QUEUE_ELEM list" where
  "q_abs q = map (\<lambda>k. q_Entry q ! q_index q k) [0..<unat (q_Num q)]"

definition q_slots :: "MLME_QUEUE \<Rightarrow> nat set" where
  "q_slots q = q_index q ` {..<unat (q_Num q)}"

definition queue_inv :: "MLME_QUEUE \<Rightarrow> bool" where
  "queue_inv q \<longleftrightarrow> length (q_Entry q) = 40 \<and> (\<forall>e \<in> set (q_Entry q). length (qe_Msg e) = 1600) \<and>
    unat (q_Num q) \<le> 40 \<and> unat (q_Head q) < 40 \<and>
    unat (q_Tail q) = (unat (q_Head q) + unat (q_Num q)) mod 40"

text \<open>Occupied slots are those of queued elements and the slots in \<open>B\<close>, whose elements have left
  the queue and are being handled.\<close>

definition occ_inv :: "MLME_QUEUE \<Rightarrow> nat set \<Rightarrow> bool" where
  "occ_inv q B \<longleftrightarrow> (\<forall>i<40. qe_Occupied (q_Entry q ! i) \<longleftrightarrow> i \<in> q_slots q \<union> B)"

lemma queue_invD:
  assumes "queue_inv q"
  shows "length (q_Entry q) = 40" "i < 40 \<Longrightarrow> length (qe_Msg (q_Entry q ! i)) = 1600"
    "unat (q_Num q) \<le> 40" "unat (q_Head q) < 40" "unat (q_Tail q) < 40"
    "unat (q_Tail q) = (unat (q_Head q) + unat (q_Num q)) mod 40"
  using assms by (auto simp: queue_inv_def)

lemma q_index_less [simp]: "q_index q k < 40"
  by (simp add: q_index_def)

lemma q_index_update [simp]:
  "q_index (q\<lparr>q_Num := n\<rparr>) = q_index q" "q_index (q\<lparr>q_Tail := t\<rparr>) = q_index q"
  "q_index (q\<lparr>q_Entry := es\<rparr>) = q_index q"
  by (simp_all add: q_index_def fun_eq_iff)

lemma q_index_inj_le: "q_index q j = q_index q k \<Longrightarrow> k \<le> j \<Longrightarrow> j < 40 \<Longrightarrow> j = k"
  by (auto simp: q_index_def mod_eq_dvd_iff_nat dest: dvd_imp_le)

lemma q_index_inj: "q_index q j = q_index q k \<Longrightarrow> j < 40 \<Longrightarrow> k < 40 \<Longrightarrow> j = k"
  using q_index_inj_le[of q j k] q_index_inj_le[of q k j] by linarith

lemma length_q_abs [simp]: "length (q_abs q) = unat (q_Num q)"
  by (simp add: q_abs_def)

lemma unat_inc:
  assumes "unat (i :: 32 word) \<le> 40"
  shows "unat (i + 1) = unat i + 1"
proof -
  have "unat i + unat (1 :: 32 word) < 2 ^ LENGTH(32)" using assms by simp
  then show ?thesis by (simp only: unat_add_lem) simp
qed

lemma unat_queue_next: "unat i < 40 \<Longrightarrow> unat (queue_next i) = (unat i + 1) mod 40"
proof -
  assume i: "unat i < 40"
  then have inc: "unat (i + 1) = unat i + 1" by (intro unat_inc) simp
  have "i + 1 = (40 :: 32 word) \<longleftrightarrow> unat i = 39"
    using inc by (auto simp: word_unat_eq_iff)
  then show ?thesis
    using i inc by (auto simp: queue_next_def MAX_LEN_OF_MLME_QUEUE_def)
qed

lemma unat_dec: "(n :: 32 word) \<noteq> 0 \<Longrightarrow> unat (n - 1) = unat n - 1"
  by (rule unat_minus_one)

lemma q_abs_Nil [simp]: "q_abs q = [] \<longleftrightarrow> q_Num q = 0"
  by (simp add: q_abs_def unat_eq_zero)

subsection \<open>Appending\<close>

lemma queue_put_refines:
  assumes "queue_inv q" "unat (q_Num q) < 40"
    and "fill (q_Entry q ! unat (q_Tail q)) = Some e" "length (qe_Msg e) = 1600"
  obtains q' where "queue_put q fill = Some q'" "queue_inv q'" "q_abs q' = q_abs q @ [e]"
    "q_Head q' = q_Head q" "q_Entry q' = (q_Entry q)[unat (q_Tail q) := e]"
    "q_slots q' = insert (unat (q_Tail q)) (q_slots q)" "q_Num q' = q_Num q + 1"
proof -
  let ?q = "q\<lparr>q_Tail := queue_next (q_Tail q), q_Num := q_Num q + 1,
    q_Entry := (q_Entry q)[unat (q_Tail q) := e]\<rparr>"
  note D = queue_invD[OF assms(1)]
  have num: "unat (q_Num q + 1) = unat (q_Num q) + 1" by (rule unat_inc) (use assms(2) in simp)
  have tail: "unat (q_Tail q) = q_index q (unat (q_Num q))" using D(6) by (simp add: q_index_def)
  have idx: "q_index ?q = q_index q" by simp
  have put: "queue_put q fill = Some ?q" using D assms(3) by (simp add: queue_put_def)
  have inv: "queue_inv ?q"
    unfolding queue_inv_def using D assms(2,4) num unat_queue_next[OF D(5)]
    by (auto simp: in_set_conv_nth nth_list_update mod_simps)
  have old: "(q_Entry q)[unat (q_Tail q) := e] ! q_index q k = q_Entry q ! q_index q k"
    if "k < unat (q_Num q)" for k
  proof -
    have "q_index q k \<noteq> unat (q_Tail q)" using q_index_inj[of q k "unat (q_Num q)"] that assms(2) tail by auto
    then show ?thesis by simp
  qed
  have abs: "q_abs ?q = q_abs q @ [e]"
    using old D(1,5) by (simp add: q_abs_def idx num tail)
  have slots: "q_slots ?q = insert (unat (q_Tail q)) (q_slots q)"
    by (simp add: q_slots_def idx num tail lessThan_Suc)
  show ?thesis by (rule that[OF put inv abs]) (use slots in simp_all)
qed

lemma occ_inv_put:
  assumes "occ_inv q B" "length (q_Entry q) = 40" "qe_Occupied e"
    and "q_Entry q' = (q_Entry q)[i := e]" "q_slots q' = insert i (q_slots q)" "i < 40"
  shows "occ_inv q' B"
  using assms by (auto simp: occ_inv_def nth_list_update)

subsection \<open>Removing\<close>

lemma dequeue_refines:
  assumes "queue_inv q" "q_Num q \<noteq> 0" "MlmeDequeue q = (i, q')"
  shows "queue_inv q'" "q_Entry q' = q_Entry q" "unat i < 40"
    "q_abs q = q_Entry q ! unat i # q_abs q'" "q_slots q = insert (unat i) (q_slots q')"
    "unat i \<notin> q_slots q'" "unat (q_Num q') = unat (q_Num q) - 1" "i = q_Head q"
proof -
  note D = queue_invD[OF assms(1)]
  have q': "q' = q\<lparr>q_Num := q_Num q - 1, q_Head := queue_next (q_Head q)\<rparr>" and i: "i = q_Head q"
    using assms(3) by (auto simp: MlmeDequeue_def)
  have num: "unat (q_Num q - 1) = unat (q_Num q) - 1" by (rule unat_dec[OF assms(2)])
  have pos: "0 < unat (q_Num q)" using assms(2) by (simp add: unat_gt_0)
  have tail: "(unat (q_Head q) + unat (q_Num q)) mod 40 =
      ((unat (q_Head q) + 1) mod 40 + (unat (q_Num q) - 1)) mod 40"
    using pos by (cases "unat (q_Num q)") (simp_all add: mod_simps)
  have idx: "q_index q' k = q_index q (Suc k)" for k
    using unat_queue_next[OF D(4)] by (simp add: q_index_def q' mod_simps)
  have idx0: "q_index q 0 = unat i" using D(4) i by (simp add: q_index_def)
  have up: "[0..<unat (q_Num q)] = 0 # map Suc [0..<unat (q_Num q) - 1]"
    using pos by (simp add: upt_conv_Cons map_Suc_upt)
  show "queue_inv q'"
    unfolding queue_inv_def using D num pos unat_queue_next[OF D(4)] tail
    by (auto simp: q' in_set_conv_nth intro: le_trans[OF diff_le_self])
  show "q_Entry q' = q_Entry q" "unat (q_Num q') = unat (q_Num q) - 1" "i = q_Head q"
    using num i by (simp_all add: q')
  show "unat i < 40" using D(4) i by simp
  show "q_abs q = q_Entry q ! unat i # q_abs q'"
    unfolding q_abs_def up by (simp add: idx[unfolded q'] idx0 q' num comp_def)
  have lt: "{..<unat (q_Num q)} = insert 0 (Suc ` {..<unat (q_Num q) - 1})"
    using pos by (metis Suc_pred' lessThan_Suc_eq_insert_0)
  show "q_slots q = insert (unat i) (q_slots q')"
    unfolding q_slots_def lt by (simp add: image_image idx[unfolded q'] idx0 q' num)
  show "unat i \<notin> q_slots q'"
  proof
    assume "unat i \<in> q_slots q'"
    then obtain k where k: "k < unat (q_Num q) - 1" "q_index q 0 = q_index q (Suc k)"
      by (auto simp: q_slots_def idx[unfolded q'] idx0 q' num)
    from k(1) D(3) have "Suc k < 40" by linarith
    then show False using q_index_inj[OF k(2)] by simp
  qed
qed

lemma free_elem_refines:
  assumes "queue_inv q" "unat i < 40" "unat i \<notin> q_slots q"
  obtains q' where "free_elem i q = Some q'" "queue_inv q'" "q_abs q' = q_abs q"
    "q_slots q' = q_slots q" "q_Head q' = q_Head q" "q_Num q' = q_Num q"
    "q_Entry q' = (q_Entry q)[unat i := (q_Entry q ! unat i)\<lparr>qe_Occupied := False, qe_MsgLen := 0\<rparr>]"
proof -
  note D = queue_invD[OF assms(1)]
  let ?e = "(q_Entry q ! unat i)\<lparr>qe_Occupied := False, qe_MsgLen := 0\<rparr>"
  let ?q = "q\<lparr>q_Entry := (q_Entry q)[unat i := ?e]\<rparr>"
  have fr: "free_elem i q = Some ?q" using D(1) assms(2) by (simp add: free_elem_def)
  have idx: "q_index ?q = q_index q" by simp
  have inv: "queue_inv ?q"
    unfolding queue_inv_def using D assms(2) by (auto simp: in_set_conv_nth nth_list_update)
  have "q_Entry ?q ! q_index q k = q_Entry q ! q_index q k" if "k < unat (q_Num q)" for k
  proof -
    have "q_index q k \<in> q_slots q" using that by (simp add: q_slots_def)
    then have "q_index q k \<noteq> unat i" using assms(3) by metis
    then show ?thesis by simp
  qed
  then have abs: "q_abs ?q = q_abs q" by (simp add: q_abs_def idx)
  show ?thesis by (rule that[OF fr inv abs]) (simp_all add: q_slots_def idx)
qed

section \<open>The first-in first-out contract\<close>

text \<open>What the rest of the driver relies on: a queue of bounded capacity whose \<open>push\<close> appends or
  refuses, and whose \<open>pop\<close> returns the oldest message.\<close>

locale bounded_fifo =
  fixes inv :: "'q \<Rightarrow> bool"
    and ok :: "'e \<Rightarrow> bool"
    and view :: "'q \<Rightarrow> 'e list"
    and cap :: nat
    and push :: "'e \<Rightarrow> 'q \<Rightarrow> (bool \<times> 'q) option"
    and pop :: "'q \<Rightarrow> ('e \<times> 'q) option"
  assumes view_cap: "inv q \<Longrightarrow> length (view q) \<le> cap"
    and push_room: "inv q \<Longrightarrow> ok e \<Longrightarrow> length (view q) < cap \<Longrightarrow>
      \<exists>q'. push e q = Some (True, q') \<and> inv q' \<and> view q' = view q @ [e]"
    and push_full: "inv q \<Longrightarrow> ok e \<Longrightarrow> length (view q) = cap \<Longrightarrow> push e q = Some (False, q)"
    and pop_oldest: "inv q \<Longrightarrow> view q = e # es \<Longrightarrow> \<exists>q'. pop q = Some (e, q') \<and> inv q' \<and> view q' = es"
begin

fun push_all :: "'e list \<Rightarrow> 'q \<Rightarrow> (bool list \<times> 'q) option" where
  "push_all [] q = Some ([], q)"
| "push_all (e # es) q = do {
     (b, q1) \<leftarrow> push e q; (bs, q2) \<leftarrow> push_all es q1; Some (b # bs, q2) }"

fun pop_many :: "nat \<Rightarrow> 'q \<Rightarrow> ('e list \<times> 'q) option" where
  "pop_many 0 q = Some ([], q)"
| "pop_many (Suc n) q = do { (e, q1) \<leftarrow> pop q; (es, q2) \<leftarrow> pop_many n q1; Some (e # es, q2) }"

text \<open>A burst of messages: those that fit are accepted in order, the rest are refused and change
  nothing.\<close>

lemma push_all_burst:
  assumes "inv q" "list_all ok es"
  shows "\<exists>q'. push_all es q = Some (map (\<lambda>i. length (view q) + i < cap) [0..<length es], q') \<and> inv q' \<and>
    view q' = view q @ take (cap - length (view q)) es"
  using assms
proof (induction es arbitrary: q)
  case (Cons e es)
  have up: "[0..<Suc n] = 0 # map Suc [0..<n]" for n by (simp add: upt_conv_Cons map_Suc_upt)
  show ?case
  proof (cases "length (view q) < cap")
    case True
    with push_room Cons.prems obtain q1 where q1: "push e q = Some (True, q1)" "inv q1" "view q1 = view q @ [e]"
      by (metis list.pred_inject(2))
    from Cons.IH[OF q1(2)] Cons.prems obtain q2 where
      "push_all es q1 = Some (map (\<lambda>i. length (view q1) + i < cap) [0..<length es], q2)" "inv q2"
      "view q2 = view q1 @ take (cap - length (view q1)) es" by auto
    moreover have "cap - length (view q) = Suc (cap - Suc (length (view q)))" using True by simp
    ultimately show ?thesis using q1 True unfolding length_Cons up
      by (auto simp: comp_def)
  next
    case False
    then have full: "length (view q) = cap" using view_cap[OF Cons.prems(1)] by simp
    from Cons.IH[OF Cons.prems(1)] Cons.prems obtain q2 where
      "push_all es q = Some (map (\<lambda>i. length (view q) + i < cap) [0..<length es], q2)" "inv q2"
      "view q2 = view q @ take (cap - length (view q)) es" by auto
    then show ?thesis using push_full[OF Cons.prems(1) _ full, of e] Cons.prems(2) full unfolding length_Cons up
      by (auto simp: comp_def)
  qed
qed simp

lemma pop_many_oldest:
  assumes "inv q" "n \<le> length (view q)"
  shows "\<exists>q'. pop_many n q = Some (take n (view q), q') \<and> inv q' \<and> view q' = drop n (view q)"
  using assms
proof (induction n arbitrary: q)
  case (Suc n)
  then obtain e es where v: "view q = e # es" by (cases "view q") auto
  with pop_oldest Suc.prems(1) obtain q1 where "pop q = Some (e, q1)" "inv q1" "view q1 = es" by blast
  with Suc.IH[of q1] Suc.prems(2) v show ?case by auto
qed simp

text \<open>What is pushed on a queue comes out in the same order, after what was there before.\<close>

lemma push_all_pop_many:
  assumes "inv q" "list_all ok es" "length (view q) + length es \<le> cap"
  shows "\<exists>q1 q2. push_all es q = Some (replicate (length es) True, q1) \<and>
    pop_many (length (view q) + length es) q1 = Some (view q @ es, q2) \<and> inv q2 \<and> view q2 = []"
proof -
  obtain q1 where q1: "push_all es q = Some (map (\<lambda>i. length (view q) + i < cap) [0..<length es], q1)" "inv q1"
    "view q1 = view q @ take (cap - length (view q)) es" using push_all_burst[OF assms(1,2)] by blast
  have "map (\<lambda>i. length (view q) + i < cap) [0..<length es] = replicate (length es) True"
    using assms(3) by (auto intro!: nth_equalityI)
  moreover have v1: "view q1 = view q @ es" using q1(3) assms(3) by simp
  moreover from pop_many_oldest[OF q1(2), of "length (view q) + length es"] v1
  obtain q2 where "pop_many (length (view q) + length es) q1 = Some (view q @ es, q2)" "inv q2" "view q2 = []"
    by auto
  ultimately show ?thesis using q1(1) by auto
qed

end

text \<open>The message of an element: its machine, type, the bytes that count, and the private word.\<close>

type_synonym mlme_msg = "32 word \<times> 32 word \<times> byte list \<times> 32 word"

definition msg_of :: "MLME_QUEUE_ELEM \<Rightarrow> mlme_msg" where
  "msg_of e = (qe_Machine e, qe_MsgType e, take (unat (qe_MsgLen e)) (qe_Msg e), qe_Priv e)"

definition q_msgs :: "MLME_QUEUE \<Rightarrow> mlme_msg list" where
  "q_msgs q = map msg_of (q_abs q)"

definition msg_fits :: "mlme_msg \<Rightarrow> bool" where
  "msg_fits m \<longleftrightarrow> length (fst (snd (snd m))) \<le> MGMT_DMA_BUFFER_SIZE"

definition q_push :: "mlme_msg \<Rightarrow> MLME_QUEUE \<Rightarrow> (bool \<times> MLME_QUEUE) option" where
  "q_push m q = (case m of (ma, ty, bs, pr) \<Rightarrow> mlme_enqueue q ma ty (of_nat (length bs)) (Some bs) pr)"

text \<open>Taking a message and releasing its slot, as one turn of the \<open>MlmeHandler\<close> loop does.\<close>

definition q_pop :: "MLME_QUEUE \<Rightarrow> (mlme_msg \<times> MLME_QUEUE) option" where
  "q_pop q = do {
     (i, q1) \<leftarrow> Some (MlmeDequeue q);
     e \<leftarrow> nth_opt (q_Entry q1) (unat i);
     q2 \<leftarrow> free_elem i q1;
     Some (msg_of e, q2) }"

definition queue_idle :: "MLME_QUEUE \<Rightarrow> bool" where
  "queue_idle q \<longleftrightarrow> queue_inv q \<and> occ_inv q {}"

lemma length_move_memory: "move_memory d s n = Some r \<Longrightarrow> length r = length d"
  by (auto simp: move_memory_def split: if_splits)

lemma mlme_enqueue_full:
  "MsgLen > 1600 \<or> q_Num q = 40 \<Longrightarrow> mlme_enqueue q ma ty MsgLen Msg pr = Some (False, q)"
  by (auto simp: mlme_enqueue_def MlmeQueueFull_def MGMT_DMA_BUFFER_SIZE_def MAX_LEN_OF_MLME_QUEUE_def)

lemma mlme_enqueue_room:
  assumes "queue_inv q" "unat (q_Num q) < 40" "length bs \<le> 1600"
  obtains q' e where "mlme_enqueue q ma ty (of_nat (length bs)) (Some bs) pr = Some (True, q')"
    "queue_inv q'" "\<And>B. occ_inv q B \<Longrightarrow> occ_inv q' B" "q_msgs q' = q_msgs q @ [(ma, ty, bs, pr)]"
    "q_abs q' = q_abs q @ [e]" "qe_Machine e = ma" "qe_MsgType e = ty"
    "q_Num q' = q_Num q + 1" "q_Head q' = q_Head q"
    "q_Entry q' = (q_Entry q)[unat (q_Tail q) := e]"
proof -
  note D = queue_invD[OF assms(1)]
  let ?n = "of_nat (length bs) :: 32 word" and ?s = "q_Entry q ! unat (q_Tail q)"
  have n: "unat ?n = length bs" using assms(3) by (simp add: unat_of_nat)
  let ?f = "\<lambda>e. copy_msg (Some bs) ?n
      (e\<lparr>qe_Wcid := RESERVED_WCID, qe_Occupied := True, qe_Machine := ma,
         qe_MsgType := ty, qe_MsgLen := ?n, qe_Priv := pr\<rparr>)"
  have ls: "length (qe_Msg ?s) = 1600" using D by blast
  let ?e = "?s\<lparr>qe_Wcid := RESERVED_WCID, qe_Occupied := True, qe_Machine := ma, qe_MsgType := ty,
      qe_MsgLen := ?n, qe_Priv := pr, qe_Msg := bs @ drop (length bs) (qe_Msg ?s)\<rparr>"
  have fill: "?f ?s = Some ?e"
    using ls assms(3) n by (simp add: copy_msg_def move_memory_def)
  obtain q' where q': "queue_put q ?f = Some q'" "queue_inv q'" "q_abs q' = q_abs q @ [?e]"
    "q_Head q' = q_Head q" "q_Entry q' = (q_Entry q)[unat (q_Tail q) := ?e]"
    "q_slots q' = insert (unat (q_Tail q)) (q_slots q)" "q_Num q' = q_Num q + 1"
    by (rule queue_put_refines[OF assms(1,2), of ?f, OF fill]) (use ls assms(3) in auto)
  have size: "\<not> ?n > 1600" using n assms(3) by (simp add: word_less_nat_alt)
  have room: "q_Num q \<noteq> 40" using assms(2) by auto
  have "mlme_enqueue q ma ty ?n (Some bs) pr = Some (True, q')"
    using q'(1) size room
    by (simp add: mlme_enqueue_def MlmeQueueFull_def MGMT_DMA_BUFFER_SIZE_def MAX_LEN_OF_MLME_QUEUE_def)
  moreover have "occ_inv q' B" if "occ_inv q B" for B
    by (rule occ_inv_put[OF that D(1) _ q'(5,6)]) (use D in auto)
  moreover have "q_msgs q' = q_msgs q @ [(ma, ty, bs, pr)]"
    using q'(3) n by (simp add: q_msgs_def msg_of_def)
  ultimately show ?thesis using that[of q' ?e] q' by auto
qed

lemma q_pop_oldest:
  assumes "queue_idle q" "q_msgs q = m # ms"
  shows "\<exists>q'. q_pop q = Some (m, q') \<and> queue_idle q' \<and> q_msgs q' = ms"
proof -
  from assms have inv: "queue_inv q" and occ: "occ_inv q {}" by (auto simp: queue_idle_def)
  have nz: "q_Num q \<noteq> 0" using assms(2) by (auto simp: q_msgs_def q_abs_def)
  obtain i q1 where dq: "MlmeDequeue q = (i, q1)" by (cases "MlmeDequeue q")
  note R = dequeue_refines[OF inv nz dq]
  obtain q2 where q2: "free_elem i q1 = Some q2" "queue_inv q2" "q_abs q2 = q_abs q1" "q_slots q2 = q_slots q1"
    "q_Entry q2 = (q_Entry q1)[unat i := (q_Entry q1 ! unat i)\<lparr>qe_Occupied := False, qe_MsgLen := 0\<rparr>]"
    using free_elem_refines[OF R(1,3,6)] by metis
  have "occ_inv q2 {}"
    using occ R(3,5,6) q2(4,5) queue_invD(1)[OF inv] by (auto simp: occ_inv_def R(2) nth_list_update)
  moreover have "q_pop q = Some (m, q2)" "q_msgs q2 = ms"
    using assms(2) q2(1,3) R(2,3,4) queue_invD(1)[OF inv] by (auto simp: q_pop_def dq q_msgs_def)
  ultimately show ?thesis using q2(2) by (auto simp: queue_idle_def)
qed

interpretation mq: bounded_fifo queue_idle msg_fits q_msgs 40 q_push q_pop
proof unfold_locales
  fix q :: MLME_QUEUE and m :: mlme_msg and ms
  obtain ma ty bs pr where m: "m = (ma, ty, bs, pr)" by (cases m)
  assume idle: "queue_idle q"
  then have inv: "queue_inv q" "occ_inv q {}" by (auto simp: queue_idle_def)
  have len: "length (q_msgs q) = unat (q_Num q)" by (simp add: q_msgs_def)
  show "length (q_msgs q) \<le> 40" using len queue_invD(3)[OF inv(1)] by simp
  show "q_msgs q = m # ms \<Longrightarrow> \<exists>q'. q_pop q = Some (m, q') \<and> queue_idle q' \<and> q_msgs q' = ms"
    by (rule q_pop_oldest[OF idle])
  assume fits: "msg_fits m"
  show "length (q_msgs q) = 40 \<Longrightarrow> q_push m q = Some (False, q)"
    unfolding len by (auto simp: q_push_def m word_unat_eq_iff intro: mlme_enqueue_full)
  assume "length (q_msgs q) < 40"
  then have num: "unat (q_Num q) < 40" unfolding len .
  have "length bs \<le> 1600" using fits by (simp add: msg_fits_def m MGMT_DMA_BUFFER_SIZE_def)
  then obtain q' where "mlme_enqueue q ma ty (of_nat (length bs)) (Some bs) pr = Some (True, q')"
    "queue_inv q'" "occ_inv q' {}" "q_msgs q' = q_msgs q @ [(ma, ty, bs, pr)]"
    using mlme_enqueue_room[OF inv(1) num, of bs ma ty pr] inv(2) by metis
  then show "\<exists>q'. q_push m q = Some (True, q') \<and> queue_idle q' \<and> q_msgs q' = q_msgs q @ [m]"
    by (simp add: q_push_def m queue_idle_def)
qed

end
