(* ===== verification/MlmeFsm.thy ===== *)
theory MlmeFsm
  imports MlmeQueue RalinkTimer
begin

text \<open>The state machines of the MLME task: the generic table machinery of common/mlme.c, the tables
  that sta/assoc.c, sta/auth.c, sta/auth_rsp.c, sta/sync.c, common/action.c and common/cmm_wpa.c
  build, and the classification of received frames by \<open>MsgTypeSubst\<close>. A table cell holds the name of
  a handler; \<open>None\<close> is the null pointer.\<close>

section \<open>Tables (common/mlme.c, include/mlme.h)\<close>

datatype STATE_MACHINE_FUNC =
  Drop
  | MlmeAssocReqAction | MlmeReassocReqAction | MlmeDisassocReqAction | PeerDisassocAction
  | InvalidStateWhenAssoc | InvalidStateWhenReassoc | InvalidStateWhenDisassociate
  | PeerAssocRspAction | PeerReassocRspAction | AssocTimeoutAction | ReassocTimeoutAction
  | DisassocTimeoutAction
  | MlmeAuthReqAction | InvalidStateWhenAuth | PeerAuthRspAtSeq2Action | PeerAuthRspAtSeq4Action
  | AuthTimeoutAction
  | PeerDeauthAction
  | MlmeScanReqAction | MlmeForceScanReqAction | MlmeJoinReqAction | MlmeForceJoinReqAction
  | MlmeStartReqAction | PeerBeacon | PeerProbeReqAction | InvalidStateWhenStart
  | PeerBeaconAtJoinAction | BeaconTimeoutAtJoinAction | PeerBeaconAtScanAction | ScanTimeoutAction
  | PeerSpectrumAction | PeerQOSAction | ReservedAction | PeerBAAction | PeerHTAction
  | MlmeADDBAAction | MlmeDELBAAction | PeerPublicAction | PeerRMAction | MlmeQOSAction
  | MlmeDLSAction | MlmeInvalidAction
  | WpaEAPPacketAction | WpaEAPOLStartAction | WpaEAPOLLogoffAction | WpaEAPOLKeyAction
  | WpaEAPOLASFAlertAction
  | MlmeCntlMachinePerformAction

record STATE_MACHINE =
  sm_Base :: "32 word"
  sm_NrState :: "32 word"
  sm_NrMsg :: "32 word"
  sm_CurrState :: "32 word"
  sm_TransFunc :: "STATE_MACHINE_FUNC option list"

text \<open>The two nested loops of \<open>StateMachineInit\<close>; a store outside the array is a fault.\<close>

fun init_row :: "nat \<Rightarrow> nat \<Rightarrow> nat \<Rightarrow> STATE_MACHINE_FUNC \<Rightarrow> STATE_MACHINE_FUNC option list
    \<Rightarrow> STATE_MACHINE_FUNC option list option" where
  "init_row MsgNr i 0 f tr = Some tr"
| "init_row MsgNr i (Suc j) f tr = do {
     tr' \<leftarrow> init_row MsgNr i j f tr;
     if i * MsgNr + j < length tr' then Some (tr'[i * MsgNr + j := Some f]) else None }"

fun init_table :: "nat \<Rightarrow> nat \<Rightarrow> STATE_MACHINE_FUNC \<Rightarrow> STATE_MACHINE_FUNC option list
    \<Rightarrow> STATE_MACHINE_FUNC option list option" where
  "init_table 0 MsgNr f tr = Some tr"
| "init_table (Suc i) MsgNr f tr = do {
     tr' \<leftarrow> init_table i MsgNr f tr; init_row MsgNr i MsgNr f tr' }"

definition StateMachineInit ::
  "STATE_MACHINE \<Rightarrow> STATE_MACHINE_FUNC option list \<Rightarrow> 32 word \<Rightarrow> 32 word \<Rightarrow> STATE_MACHINE_FUNC
    \<Rightarrow> 32 word \<Rightarrow> 32 word \<Rightarrow> STATE_MACHINE option" where
  "StateMachineInit S Trans StNr MsgNr DefFunc InitState Base = do {
     tr \<leftarrow> init_table (unat StNr) (unat MsgNr) DefFunc Trans;
     Some (S\<lparr>sm_NrState := StNr, sm_NrMsg := MsgNr, sm_Base := Base, sm_TransFunc := tr,
            sm_CurrState := InitState\<rparr>) }"

definition StateMachineSetAction ::
  "32 word \<Rightarrow> 32 word \<Rightarrow> STATE_MACHINE_FUNC \<Rightarrow> STATE_MACHINE \<Rightarrow> STATE_MACHINE option" where
  "StateMachineSetAction St Msg f S =
    (let MsgIdx = Msg - sm_Base S in
     if St < sm_NrState S \<and> MsgIdx < sm_NrMsg S
     then let i = unat (St * sm_NrMsg S + MsgIdx) in
       if i < length (sm_TransFunc S)
       then Some (S\<lparr>sm_TransFunc := (sm_TransFunc S)[i := Some f]\<rparr>) else None
     else Some S)"

fun set_actions :: "(32 word \<times> 32 word \<times> STATE_MACHINE_FUNC) list \<Rightarrow> STATE_MACHINE \<Rightarrow> STATE_MACHINE option" where
  "set_actions [] S = Some S"
| "set_actions ((St, Msg, f) # as) S = do { S' \<leftarrow> StateMachineSetAction St Msg f S; set_actions as S' }"

text \<open>The cell \<open>StateMachinePerformAction\<close> reads. The index is computed in 32 bits and is not
  checked.\<close>

definition sm_cell :: "STATE_MACHINE \<Rightarrow> 32 word \<Rightarrow> 32 word \<Rightarrow> STATE_MACHINE_FUNC option option" where
  "sm_cell S MsgType CurrState =
    nth_opt (sm_TransFunc S) (unat (CurrState * sm_NrMsg S + MsgType - sm_Base S))"

section \<open>States and messages (include/rtmp_def.h, include/wpa_cmm.h)\<close>

definition ASSOC_STATE_MACHINE :: "32 word" where "ASSOC_STATE_MACHINE = 1"
definition AUTH_STATE_MACHINE :: "32 word" where "AUTH_STATE_MACHINE = 2"
definition AUTH_RSP_STATE_MACHINE :: "32 word" where "AUTH_RSP_STATE_MACHINE = 3"
definition SYNC_STATE_MACHINE :: "32 word" where "SYNC_STATE_MACHINE = 4"
definition MLME_CNTL_STATE_MACHINE :: "32 word" where "MLME_CNTL_STATE_MACHINE = 5"
definition WPA_PSK_STATE_MACHINE :: "32 word" where "WPA_PSK_STATE_MACHINE = 6"
definition ACTION_STATE_MACHINE :: "32 word" where "ACTION_STATE_MACHINE = 9"
definition WPA_STATE_MACHINE :: "32 word" where "WPA_STATE_MACHINE = 23"

definition MT2_RESET_CONF :: "32 word" where "MT2_RESET_CONF = 45"

definition ASSOC_IDLE :: "32 word" where "ASSOC_IDLE = 0"
definition ASSOC_WAIT_RSP :: "32 word" where "ASSOC_WAIT_RSP = 1"
definition REASSOC_WAIT_RSP :: "32 word" where "REASSOC_WAIT_RSP = 2"
definition DISASSOC_WAIT_RSP :: "32 word" where "DISASSOC_WAIT_RSP = 3"
definition MAX_ASSOC_STATE :: "32 word" where "MAX_ASSOC_STATE = 4"
definition MT2_MLME_ASSOC_REQ :: "32 word" where "MT2_MLME_ASSOC_REQ = 0"
definition MT2_MLME_REASSOC_REQ :: "32 word" where "MT2_MLME_REASSOC_REQ = 1"
definition MT2_MLME_DISASSOC_REQ :: "32 word" where "MT2_MLME_DISASSOC_REQ = 2"
definition MT2_PEER_DISASSOC_REQ :: "32 word" where "MT2_PEER_DISASSOC_REQ = 3"
definition MT2_PEER_ASSOC_REQ :: "32 word" where "MT2_PEER_ASSOC_REQ = 4"
definition MT2_PEER_ASSOC_RSP :: "32 word" where "MT2_PEER_ASSOC_RSP = 5"
definition MT2_PEER_REASSOC_REQ :: "32 word" where "MT2_PEER_REASSOC_REQ = 6"
definition MT2_PEER_REASSOC_RSP :: "32 word" where "MT2_PEER_REASSOC_RSP = 7"
definition MT2_DISASSOC_TIMEOUT :: "32 word" where "MT2_DISASSOC_TIMEOUT = 8"
definition MT2_ASSOC_TIMEOUT :: "32 word" where "MT2_ASSOC_TIMEOUT = 9"
definition MT2_REASSOC_TIMEOUT :: "32 word" where "MT2_REASSOC_TIMEOUT = 10"
definition MAX_ASSOC_MSG :: "32 word" where "MAX_ASSOC_MSG = 11"

definition AUTH_REQ_IDLE :: "32 word" where "AUTH_REQ_IDLE = 0"
definition AUTH_WAIT_SEQ2 :: "32 word" where "AUTH_WAIT_SEQ2 = 1"
definition AUTH_WAIT_SEQ4 :: "32 word" where "AUTH_WAIT_SEQ4 = 2"
definition MAX_AUTH_STATE :: "32 word" where "MAX_AUTH_STATE = 3"
definition MT2_MLME_AUTH_REQ :: "32 word" where "MT2_MLME_AUTH_REQ = 0"
definition MT2_PEER_AUTH_EVEN :: "32 word" where "MT2_PEER_AUTH_EVEN = 1"
definition MT2_AUTH_TIMEOUT :: "32 word" where "MT2_AUTH_TIMEOUT = 2"
definition MAX_AUTH_MSG :: "32 word" where "MAX_AUTH_MSG = 3"

definition AUTH_RSP_IDLE :: "32 word" where "AUTH_RSP_IDLE = 0"
definition AUTH_RSP_WAIT_CHAL :: "32 word" where "AUTH_RSP_WAIT_CHAL = 1"
definition MAX_AUTH_RSP_STATE :: "32 word" where "MAX_AUTH_RSP_STATE = 2"
definition MT2_PEER_AUTH_ODD :: "32 word" where "MT2_PEER_AUTH_ODD = 1"
definition MT2_PEER_DEAUTH :: "32 word" where "MT2_PEER_DEAUTH = 2"
definition MAX_AUTH_RSP_MSG :: "32 word" where "MAX_AUTH_RSP_MSG = 3"

definition SYNC_IDLE :: "32 word" where "SYNC_IDLE = 0"
definition JOIN_WAIT_BEACON :: "32 word" where "JOIN_WAIT_BEACON = 1"
definition SCAN_LISTEN :: "32 word" where "SCAN_LISTEN = 2"
definition SCAN_PENDING :: "32 word" where "SCAN_PENDING = 3"
definition MAX_SYNC_STATE :: "32 word" where "MAX_SYNC_STATE = 4"
definition MT2_MLME_SCAN_REQ :: "32 word" where "MT2_MLME_SCAN_REQ = 0"
definition MT2_MLME_JOIN_REQ :: "32 word" where "MT2_MLME_JOIN_REQ = 1"
definition MT2_MLME_START_REQ :: "32 word" where "MT2_MLME_START_REQ = 2"
definition MT2_PEER_BEACON :: "32 word" where "MT2_PEER_BEACON = 3"
definition MT2_PEER_PROBE_RSP :: "32 word" where "MT2_PEER_PROBE_RSP = 4"
definition MT2_PEER_ATIM :: "32 word" where "MT2_PEER_ATIM = 5"
definition MT2_SCAN_TIMEOUT :: "32 word" where "MT2_SCAN_TIMEOUT = 6"
definition MT2_BEACON_TIMEOUT :: "32 word" where "MT2_BEACON_TIMEOUT = 7"
definition MT2_PEER_PROBE_REQ :: "32 word" where "MT2_PEER_PROBE_REQ = 9"
definition MT2_MLME_FORCE_JOIN_REQ :: "32 word" where "MT2_MLME_FORCE_JOIN_REQ = 10"
definition MT2_MLME_FORCE_SCAN_REQ :: "32 word" where "MT2_MLME_FORCE_SCAN_REQ = 11"
definition MAX_SYNC_MSG :: "32 word" where "MAX_SYNC_MSG = 12"

definition ACT_IDLE :: "32 word" where "ACT_IDLE = 0"
definition MAX_ACT_STATE :: "32 word" where "MAX_ACT_STATE = 1"
definition MT2_PEER_SPECTRUM_CATE :: "32 word" where "MT2_PEER_SPECTRUM_CATE = 0"
definition MT2_PEER_QOS_CATE :: "32 word" where "MT2_PEER_QOS_CATE = 1"
definition MT2_PEER_DLS_CATE :: "32 word" where "MT2_PEER_DLS_CATE = 2"
definition MT2_PEER_BA_CATE :: "32 word" where "MT2_PEER_BA_CATE = 3"
definition MT2_PEER_PUBLIC_CATE :: "32 word" where "MT2_PEER_PUBLIC_CATE = 4"
definition MT2_PEER_RM_CATE :: "32 word" where "MT2_PEER_RM_CATE = 5"
definition MT2_PEER_HT_CATE :: "32 word" where "MT2_PEER_HT_CATE = 7"
definition MAX_PEER_CATE_MSG :: "32 word" where "MAX_PEER_CATE_MSG = 17"
definition MT2_MLME_ADD_BA_CATE :: "32 word" where "MT2_MLME_ADD_BA_CATE = 18"
definition MT2_MLME_ORI_DELBA_CATE :: "32 word" where "MT2_MLME_ORI_DELBA_CATE = 19"
definition MT2_MLME_REC_DELBA_CATE :: "32 word" where "MT2_MLME_REC_DELBA_CATE = 20"
definition MT2_MLME_QOS_CATE :: "32 word" where "MT2_MLME_QOS_CATE = 21"
definition MT2_MLME_DLS_CATE :: "32 word" where "MT2_MLME_DLS_CATE = 22"
definition MT2_ACT_INVALID :: "32 word" where "MT2_ACT_INVALID = 23"
definition MAX_ACT_MSG :: "32 word" where "MAX_ACT_MSG = 24"

definition WPA_PTK :: "32 word" where "WPA_PTK = 0"
definition MAX_WPA_PTK_STATE :: "32 word" where "MAX_WPA_PTK_STATE = 1"
definition MT2_EAPPacket :: "32 word" where "MT2_EAPPacket = 0"
definition MT2_EAPOLStart :: "32 word" where "MT2_EAPOLStart = 1"
definition MT2_EAPOLLogoff :: "32 word" where "MT2_EAPOLLogoff = 2"
definition MT2_EAPOLKey :: "32 word" where "MT2_EAPOLKey = 3"
definition MT2_EAPOLASFAlert :: "32 word" where "MT2_EAPOLASFAlert = 4"
definition MAX_WPA_MSG :: "32 word" where "MAX_WPA_MSG = 5"

text \<open>Every machine of the station build has base 0 (\<open>ASSOC_MACHINE_BASE\<close> and the others).\<close>

definition MACHINE_BASE :: "32 word" where "MACHINE_BASE = 0"

lemmas machine_defs = ASSOC_STATE_MACHINE_def AUTH_STATE_MACHINE_def AUTH_RSP_STATE_MACHINE_def
  SYNC_STATE_MACHINE_def MLME_CNTL_STATE_MACHINE_def WPA_PSK_STATE_MACHINE_def ACTION_STATE_MACHINE_def
  WPA_STATE_MACHINE_def MT2_RESET_CONF_def MACHINE_BASE_def

lemmas assoc_defs = ASSOC_IDLE_def ASSOC_WAIT_RSP_def REASSOC_WAIT_RSP_def DISASSOC_WAIT_RSP_def
  MAX_ASSOC_STATE_def MT2_MLME_ASSOC_REQ_def MT2_MLME_REASSOC_REQ_def MT2_MLME_DISASSOC_REQ_def
  MT2_PEER_DISASSOC_REQ_def MT2_PEER_ASSOC_REQ_def MT2_PEER_ASSOC_RSP_def MT2_PEER_REASSOC_REQ_def
  MT2_PEER_REASSOC_RSP_def MT2_DISASSOC_TIMEOUT_def MT2_ASSOC_TIMEOUT_def MT2_REASSOC_TIMEOUT_def
  MAX_ASSOC_MSG_def

lemmas auth_defs = AUTH_REQ_IDLE_def AUTH_WAIT_SEQ2_def AUTH_WAIT_SEQ4_def MAX_AUTH_STATE_def
  MT2_MLME_AUTH_REQ_def MT2_PEER_AUTH_EVEN_def MT2_AUTH_TIMEOUT_def MAX_AUTH_MSG_def
  AUTH_RSP_IDLE_def AUTH_RSP_WAIT_CHAL_def MAX_AUTH_RSP_STATE_def MT2_PEER_AUTH_ODD_def
  MT2_PEER_DEAUTH_def MAX_AUTH_RSP_MSG_def

lemmas sync_defs = SYNC_IDLE_def JOIN_WAIT_BEACON_def SCAN_LISTEN_def SCAN_PENDING_def
  MAX_SYNC_STATE_def MT2_MLME_SCAN_REQ_def MT2_MLME_JOIN_REQ_def MT2_MLME_START_REQ_def
  MT2_PEER_BEACON_def MT2_PEER_PROBE_RSP_def MT2_PEER_ATIM_def MT2_SCAN_TIMEOUT_def
  MT2_BEACON_TIMEOUT_def MT2_PEER_PROBE_REQ_def MT2_MLME_FORCE_JOIN_REQ_def
  MT2_MLME_FORCE_SCAN_REQ_def MAX_SYNC_MSG_def

lemmas act_defs = ACT_IDLE_def MAX_ACT_STATE_def MT2_PEER_SPECTRUM_CATE_def MT2_PEER_QOS_CATE_def
  MT2_PEER_DLS_CATE_def MT2_PEER_BA_CATE_def MT2_PEER_PUBLIC_CATE_def MT2_PEER_RM_CATE_def
  MT2_PEER_HT_CATE_def MAX_PEER_CATE_MSG_def MT2_MLME_ADD_BA_CATE_def MT2_MLME_ORI_DELBA_CATE_def
  MT2_MLME_REC_DELBA_CATE_def MT2_MLME_QOS_CATE_def MT2_MLME_DLS_CATE_def MT2_ACT_INVALID_def
  MAX_ACT_MSG_def

lemmas wpa_defs = WPA_PTK_def MAX_WPA_PTK_STATE_def MT2_EAPPacket_def MT2_EAPOLStart_def
  MT2_EAPOLLogoff_def MT2_EAPOLKey_def MT2_EAPOLASFAlert_def MAX_WPA_MSG_def

section \<open>Lookup after initialisation\<close>

definition sm_ok :: "STATE_MACHINE \<Rightarrow> 32 word \<Rightarrow> 32 word \<Rightarrow> bool" where
  "sm_ok S StNr MsgNr \<longleftrightarrow> sm_NrState S = StNr \<and> sm_NrMsg S = MsgNr \<and> sm_Base S = 0 \<and>
    unat StNr * unat MsgNr < 2 ^ 32 \<and> length (sm_TransFunc S) = unat StNr * unat MsgNr \<and>
    None \<notin> set (sm_TransFunc S)"

lemma cell_index:
  assumes "(st :: 32 word) < StNr" "msg < MsgNr" "unat StNr * unat MsgNr < 2 ^ 32"
  shows "unat (st * MsgNr + msg) = unat st * unat MsgNr + unat msg"
    "unat st * unat MsgNr + unat msg < unat StNr * unat MsgNr"
proof -
  have st: "Suc (unat st) \<le> unat StNr" and msg: "unat msg < unat MsgNr"
    using assms(1,2) by (simp_all add: word_less_nat_alt)
  have "unat st * unat MsgNr + unat msg < Suc (unat st) * unat MsgNr" using msg by simp
  also have "\<dots> \<le> unat StNr * unat MsgNr" by (rule mult_le_mono1[OF st])
  finally show lt: "unat st * unat MsgNr + unat msg < unat StNr * unat MsgNr" .
  then have lim: "unat st * unat MsgNr + unat msg < 2 ^ LENGTH(32)" using assms(3) by simp
  then have "unat st * unat MsgNr < 2 ^ LENGTH(32)" by linarith
  then have mul: "unat (st * MsgNr) = unat st * unat MsgNr" by (simp only: unat_mult_lem)
  show "unat (st * MsgNr + msg) = unat st * unat MsgNr + unat msg"
    using lim unfolding mul[symmetric] by (simp only: unat_add_lem)
qed

lemma cell_index_inj:
  fixes MsgNr :: nat
  assumes "a * MsgNr + b = c * MsgNr + d" "b < MsgNr" "d < MsgNr"
  shows "a = c" "b = d"
proof -
  have "(a * MsgNr + b) div MsgNr = (c * MsgNr + d) div MsgNr" using assms(1) by simp
  then show "a = c" using assms(2,3) by simp
  then show "b = d" using assms(1) by simp
qed

lemma StateMachineSetAction_ok:
  assumes "sm_ok S StNr MsgNr" "st < StNr" "msg < MsgNr"
  obtains S' where "StateMachineSetAction st msg f S = Some S'" "sm_ok S' StNr MsgNr"
    "sm_CurrState S' = sm_CurrState S"
    "\<And>st' msg'. st' < StNr \<Longrightarrow> msg' < MsgNr \<Longrightarrow>
      sm_cell S' msg' st' = (if st' = st \<and> msg' = msg then Some (Some f) else sm_cell S msg' st')"
proof -
  let ?i = "unat st * unat MsgNr + unat msg"
  let ?S = "S\<lparr>sm_TransFunc := (sm_TransFunc S)[?i := Some f]\<rparr>"
  have ok: "sm_NrState S = StNr" "sm_NrMsg S = MsgNr" "sm_Base S = 0" "unat StNr * unat MsgNr < 2 ^ 32"
    "length (sm_TransFunc S) = unat StNr * unat MsgNr" "None \<notin> set (sm_TransFunc S)"
    using assms(1) by (auto simp: sm_ok_def)
  note ix = cell_index[OF assms(2,3) ok(4)]
  have res: "StateMachineSetAction st msg f S = Some ?S"
    using assms(2,3) ok(1,2,3,5) ix by (simp add: StateMachineSetAction_def Let_def)
  have ok': "sm_ok ?S StNr MsgNr"
    using ok by (auto simp: sm_ok_def dest: set_update_subset_insert[THEN subsetD])
  have cell: "sm_cell ?S msg' st' = (if st' = st \<and> msg' = msg then Some (Some f) else sm_cell S msg' st')"
    if "st' < StNr" "msg' < MsgNr" for st' msg'
  proof -
    note ix' = cell_index[OF that ok(4)]
    have eq: "?i = unat st' * unat MsgNr + unat msg' \<longleftrightarrow> st' = st \<and> msg' = msg"
      using cell_index_inj[of "unat st" "unat MsgNr" "unat msg" "unat st'" "unat msg'"] assms(3) that(2)
      by (auto simp: word_less_nat_alt word_unat_eq_iff)
    show ?thesis using ix ix' ok(2,3,5) eq
      by (cases "st' = st \<and> msg' = msg") (auto simp: sm_cell_def nth_list_update)
  qed
  show ?thesis by (rule that[OF res ok' _ cell]) simp_all
qed

text \<open>The action a list of \<open>StateMachineSetAction\<close> calls leaves for a state and a message: the last
  one wins, and \<open>Drop\<close> where there is none.\<close>

fun action_of :: "(32 word \<times> 32 word \<times> STATE_MACHINE_FUNC) list \<Rightarrow> STATE_MACHINE_FUNC
    \<Rightarrow> 32 word \<Rightarrow> 32 word \<Rightarrow> STATE_MACHINE_FUNC" where
  "action_of [] d st msg = d"
| "action_of ((s, m, f) # as) d st msg = action_of as (if st = s \<and> msg = m then f else d) st msg"

lemma set_actions_cell:
  assumes "sm_ok S StNr MsgNr" "list_all (\<lambda>(s, m, f). s < StNr \<and> m < MsgNr) as"
  shows "\<exists>S'. set_actions as S = Some S' \<and> sm_ok S' StNr MsgNr \<and> sm_CurrState S' = sm_CurrState S \<and>
    (\<forall>st msg d. st < StNr \<longrightarrow> msg < MsgNr \<longrightarrow> sm_cell S msg st = Some (Some d) \<longrightarrow>
      sm_cell S' msg st = Some (Some (action_of as d st msg)))"
  using assms
proof (induction as arbitrary: S)
  case (Cons a as)
  obtain s m f where a: "a = (s, m, f)" by (cases a)
  with Cons.prems obtain S1 where S1: "StateMachineSetAction s m f S = Some S1" "sm_ok S1 StNr MsgNr"
    "sm_CurrState S1 = sm_CurrState S"
    "\<And>st' msg'. st' < StNr \<Longrightarrow> msg' < MsgNr \<Longrightarrow>
      sm_cell S1 msg' st' = (if st' = s \<and> msg' = m then Some (Some f) else sm_cell S msg' st')"
    using StateMachineSetAction_ok[of S StNr MsgNr s m f] by auto
  from Cons.IH[OF S1(2)] Cons.prems(2) obtain S2 where S2: "set_actions as S1 = Some S2"
    "sm_ok S2 StNr MsgNr" "sm_CurrState S2 = sm_CurrState S1"
    "\<And>st msg d. st < StNr \<Longrightarrow> msg < MsgNr \<Longrightarrow> sm_cell S1 msg st = Some (Some d) \<Longrightarrow>
      sm_cell S2 msg st = Some (Some (action_of as d st msg))" by auto
  show ?case using S1 S2 a by (auto intro!: S2(4))
qed simp

lemma init_row_fill:
  "length tr = n * MsgNr \<Longrightarrow> i < n \<Longrightarrow> j \<le> MsgNr \<Longrightarrow>
   \<exists>tr'. init_row MsgNr i j f tr = Some tr' \<and> length tr' = length tr \<and>
     (\<forall>k < length tr. tr' ! k = (if i * MsgNr \<le> k \<and> k < i * MsgNr + j then Some f else tr ! k))"
proof (induction j)
  case (Suc j)
  then obtain tr' where tr': "init_row MsgNr i j f tr = Some tr'" "length tr' = length tr"
    "\<And>k. k < length tr \<Longrightarrow> tr' ! k = (if i * MsgNr \<le> k \<and> k < i * MsgNr + j then Some f else tr ! k)" by auto
  have "i * MsgNr + j < Suc i * MsgNr" using Suc.prems(3) by simp
  also have "\<dots> \<le> n * MsgNr" using Suc.prems(2) by (intro mult_le_mono1) simp
  finally show ?case using tr' Suc.prems(1) by (auto simp: nth_list_update)
qed auto

lemma init_table_fill:
  "length tr = n * MsgNr \<Longrightarrow> i \<le> n \<Longrightarrow>
   \<exists>tr'. init_table i MsgNr f tr = Some tr' \<and> length tr' = length tr \<and>
     (\<forall>k < i * MsgNr. tr' ! k = Some f)"
proof (induction i)
  case (Suc i)
  then obtain tr1 where tr1: "init_table i MsgNr f tr = Some tr1" "length tr1 = n * MsgNr"
    "\<And>k. k < i * MsgNr \<Longrightarrow> tr1 ! k = Some f" by auto
  from init_row_fill[OF tr1(2), of i MsgNr f] Suc.prems(2) obtain tr2 where tr2:
    "init_row MsgNr i MsgNr f tr1 = Some tr2" "length tr2 = length tr1"
    "\<And>k. k < length tr1 \<Longrightarrow> tr2 ! k = (if i * MsgNr \<le> k \<and> k < i * MsgNr + MsgNr then Some f else tr1 ! k)"
    by auto
  have "Suc i * MsgNr \<le> n * MsgNr" by (rule mult_le_mono1) (use Suc.prems(2) in simp)
  then show ?case using tr1 tr2 Suc.prems(1) by (auto simp: tr2(3))
qed simp

lemma StateMachineInit_ok:
  assumes "length Trans = unat StNr * unat MsgNr" "unat StNr * unat MsgNr < 2 ^ 32"
  obtains S' where "StateMachineInit S Trans StNr MsgNr f st0 0 = Some S'" "sm_ok S' StNr MsgNr"
    "sm_CurrState S' = st0"
    "\<And>st msg. st < StNr \<Longrightarrow> msg < MsgNr \<Longrightarrow> sm_cell S' msg st = Some (Some f)"
proof -
  from init_table_fill[OF assms(1) order_refl] obtain tr where
    tr: "init_table (unat StNr) (unat MsgNr) f Trans = Some tr" "length tr = unat StNr * unat MsgNr"
    "\<And>k. k < unat StNr * unat MsgNr \<Longrightarrow> tr ! k = Some f" using assms(1) by auto
  let ?S = "S\<lparr>sm_NrState := StNr, sm_NrMsg := MsgNr, sm_Base := 0, sm_TransFunc := tr, sm_CurrState := st0\<rparr>"
  have 1: "StateMachineInit S Trans StNr MsgNr f st0 0 = Some ?S" using tr by (simp add: StateMachineInit_def)
  have 2: "sm_ok ?S StNr MsgNr" using tr assms(2) by (auto simp: sm_ok_def in_set_conv_nth)
  have 3: "sm_cell ?S msg st = Some (Some f)" if "st < StNr" "msg < MsgNr" for st msg
    using cell_index[OF that assms(2)] tr by (simp add: sm_cell_def)
  show ?thesis by (rule that[OF 1 2 _ 3]) simp_all
qed

lemma machine_init:
  assumes "length Trans = unat StNr * unat MsgNr" "unat StNr * unat MsgNr < 2 ^ 32"
    and "list_all (\<lambda>(s, m, f). s < StNr \<and> m < MsgNr) as"
  shows "\<exists>S'. do { S0 \<leftarrow> StateMachineInit S Trans StNr MsgNr Drop st0 0; set_actions as S0 } = Some S' \<and>
    sm_ok S' StNr MsgNr \<and> sm_CurrState S' = st0 \<and>
    (\<forall>st msg. st < StNr \<longrightarrow> msg < MsgNr \<longrightarrow> sm_cell S' msg st = Some (Some (action_of as Drop st msg)))"
proof -
  obtain S0 where S0: "StateMachineInit S Trans StNr MsgNr Drop st0 0 = Some S0" "sm_ok S0 StNr MsgNr"
    "sm_CurrState S0 = st0"
    "\<And>st msg. st < StNr \<Longrightarrow> msg < MsgNr \<Longrightarrow> sm_cell S0 msg st = Some (Some Drop)"
    using StateMachineInit_ok[OF assms(1,2), of S Drop st0] by blast
  from set_actions_cell[OF S0(2) assms(3)] S0 show ?thesis by auto
qed

lemma sm_cell_Some:
  assumes "sm_ok S StNr MsgNr" "st < StNr" "msg < MsgNr"
  shows "\<exists>f. sm_cell S msg st = Some (Some f)"
proof -
  have ok: "sm_NrMsg S = MsgNr" "sm_Base S = 0" "unat StNr * unat MsgNr < 2 ^ 32"
    "length (sm_TransFunc S) = unat StNr * unat MsgNr" "None \<notin> set (sm_TransFunc S)"
    using assms(1) by (auto simp: sm_ok_def)
  note ix = cell_index[OF assms(2,3) ok(3)]
  then have "sm_TransFunc S ! unat (st * MsgNr + msg) \<noteq> None"
    using ok(4,5) nth_mem by (metis)
  then show ?thesis using ix ok by (auto simp: sm_cell_def)
qed

end
