(* ===== verification/Mlme.thy ===== *)
theory Mlme
  imports MlmeFsm
begin

text \<open>The MLME task of common/mlme.c over the message queue and the state machines: initialisation,
  the two ways a message enters the queue, and the handler loop that takes messages out and runs
  the action of the addressed machine. The actions themselves are a parameter \<open>act\<close> of the
  handler: a function of the action's name, of the slot of the message, and of the state, \<open>None\<close>
  where the action faults. Configuration: the station build without WSC, P2P, DLS, TDLS, with
  \<open>RALINK_ATE\<close>.\<close>

section \<open>State (include/rtmp.h)\<close>

datatype mlme_call =
  AsicSwitchChannel byte bool
  | AsicLockChannel byte
  | RTMPResumeMsduTransmission
  | RTUSBMlmeUp

record mlme =
  Flags :: "32 word"
  ate_on :: bool
  LatchRfRegs_Channel :: byte
  CommonCfg_Channel :: byte
  Queue :: MLME_QUEUE
  bRunning :: bool
  CntlMachine_CurrState :: "32 word"
  AssocMachine :: STATE_MACHINE
  AuthMachine :: STATE_MACHINE
  AuthRspMachine :: STATE_MACHINE
  SyncMachine :: STATE_MACHINE
  WpaPskMachine :: STATE_MACHINE
  ActMachine :: STATE_MACHINE
  WpaMachine :: STATE_MACHINE
  AssocTimer :: ralink_timer
  ReassocTimer :: ralink_timer
  DisassocTimer :: ralink_timer
  AuthTimer :: ralink_timer
  BeaconTimer :: ralink_timer
  ScanTimer :: ralink_timer
  ShiftReg :: "32 word"
  mlme_calls :: "mlme_call list"

definition fRTMP_ADAPTER_MLME_RESET_IN_PROGRESS :: "32 word" where "fRTMP_ADAPTER_MLME_RESET_IN_PROGRESS = 0x20"
definition fRTMP_ADAPTER_HALT_IN_PROGRESS :: "32 word" where "fRTMP_ADAPTER_HALT_IN_PROGRESS = 0x40"
definition fRTMP_ADAPTER_NIC_NOT_EXIST :: "32 word" where "fRTMP_ADAPTER_NIC_NOT_EXIST = 0x100"
definition fRTMP_ADAPTER_SUSPEND :: "32 word" where "fRTMP_ADAPTER_SUSPEND = 0x800000"

definition RTMP_TEST_FLAG :: "'a mlme_scheme \<Rightarrow> 32 word \<Rightarrow> bool" where
  "RTMP_TEST_FLAG s f = (Flags s AND f \<noteq> 0)"

definition mlme_call :: "mlme_call \<Rightarrow> 'a mlme_scheme \<Rightarrow> 'a mlme_scheme" where
  "mlme_call c s = s\<lparr>mlme_calls := mlme_calls s @ [c]\<rparr>"

section \<open>Initialisation of the machines\<close>

text \<open>\<open>tr\<close> is the array of cells the machine is given (\<open>Mlme.AssocFunc\<close> and the others).\<close>

definition assoc_actions :: "(32 word \<times> 32 word \<times> STATE_MACHINE_FUNC) list" where
  "assoc_actions =
    [(ASSOC_IDLE, MT2_MLME_ASSOC_REQ, MlmeAssocReqAction),
     (ASSOC_IDLE, MT2_MLME_REASSOC_REQ, MlmeReassocReqAction),
     (ASSOC_IDLE, MT2_MLME_DISASSOC_REQ, MlmeDisassocReqAction),
     (ASSOC_IDLE, MT2_PEER_DISASSOC_REQ, PeerDisassocAction),
     (ASSOC_WAIT_RSP, MT2_MLME_ASSOC_REQ, InvalidStateWhenAssoc),
     (ASSOC_WAIT_RSP, MT2_MLME_REASSOC_REQ, InvalidStateWhenReassoc),
     (ASSOC_WAIT_RSP, MT2_MLME_DISASSOC_REQ, InvalidStateWhenDisassociate),
     (ASSOC_WAIT_RSP, MT2_PEER_DISASSOC_REQ, PeerDisassocAction),
     (ASSOC_WAIT_RSP, MT2_PEER_ASSOC_RSP, PeerAssocRspAction),
     (ASSOC_WAIT_RSP, MT2_PEER_REASSOC_RSP, PeerAssocRspAction),
     (ASSOC_WAIT_RSP, MT2_ASSOC_TIMEOUT, AssocTimeoutAction),
     (REASSOC_WAIT_RSP, MT2_MLME_ASSOC_REQ, InvalidStateWhenAssoc),
     (REASSOC_WAIT_RSP, MT2_MLME_REASSOC_REQ, InvalidStateWhenReassoc),
     (REASSOC_WAIT_RSP, MT2_MLME_DISASSOC_REQ, InvalidStateWhenDisassociate),
     (REASSOC_WAIT_RSP, MT2_PEER_DISASSOC_REQ, PeerDisassocAction),
     (REASSOC_WAIT_RSP, MT2_PEER_REASSOC_RSP, PeerReassocRspAction),
     (REASSOC_WAIT_RSP, MT2_PEER_ASSOC_RSP, PeerReassocRspAction),
     (REASSOC_WAIT_RSP, MT2_REASSOC_TIMEOUT, ReassocTimeoutAction),
     (DISASSOC_WAIT_RSP, MT2_MLME_ASSOC_REQ, InvalidStateWhenAssoc),
     (DISASSOC_WAIT_RSP, MT2_MLME_REASSOC_REQ, InvalidStateWhenReassoc),
     (DISASSOC_WAIT_RSP, MT2_MLME_DISASSOC_REQ, InvalidStateWhenDisassociate),
     (DISASSOC_WAIT_RSP, MT2_PEER_DISASSOC_REQ, PeerDisassocAction),
     (DISASSOC_WAIT_RSP, MT2_DISASSOC_TIMEOUT, DisassocTimeoutAction)]"

definition AssocStateMachineInit ::
  "'a mlme_scheme \<Rightarrow> STATE_MACHINE_FUNC option list \<Rightarrow> 'a mlme_scheme option" where
  "AssocStateMachineInit s tr = do {
     S \<leftarrow> do { S0 \<leftarrow> StateMachineInit (AssocMachine s) tr MAX_ASSOC_STATE MAX_ASSOC_MSG Drop ASSOC_IDLE MACHINE_BASE;
               set_actions assoc_actions S0 };
     Some (s\<lparr>AssocMachine := S, AssocTimer := RTMPInitTimer (AssocTimer s) False,
            ReassocTimer := RTMPInitTimer (ReassocTimer s) False,
            DisassocTimer := RTMPInitTimer (DisassocTimer s) False\<rparr>) }"

definition auth_actions :: "(32 word \<times> 32 word \<times> STATE_MACHINE_FUNC) list" where
  "auth_actions =
    [(AUTH_REQ_IDLE, MT2_MLME_AUTH_REQ, MlmeAuthReqAction),
     (AUTH_WAIT_SEQ2, MT2_MLME_AUTH_REQ, InvalidStateWhenAuth),
     (AUTH_WAIT_SEQ2, MT2_PEER_AUTH_EVEN, PeerAuthRspAtSeq2Action),
     (AUTH_WAIT_SEQ2, MT2_AUTH_TIMEOUT, AuthTimeoutAction),
     (AUTH_WAIT_SEQ4, MT2_MLME_AUTH_REQ, InvalidStateWhenAuth),
     (AUTH_WAIT_SEQ4, MT2_PEER_AUTH_EVEN, PeerAuthRspAtSeq4Action),
     (AUTH_WAIT_SEQ4, MT2_AUTH_TIMEOUT, AuthTimeoutAction)]"

definition AuthStateMachineInit ::
  "'a mlme_scheme \<Rightarrow> STATE_MACHINE_FUNC option list \<Rightarrow> 'a mlme_scheme option" where
  "AuthStateMachineInit s tr = do {
     S \<leftarrow> do { S0 \<leftarrow> StateMachineInit (AuthMachine s) tr MAX_AUTH_STATE MAX_AUTH_MSG Drop AUTH_REQ_IDLE MACHINE_BASE;
               set_actions auth_actions S0 };
     Some (s\<lparr>AuthMachine := S, AuthTimer := RTMPInitTimer (AuthTimer s) False\<rparr>) }"

definition auth_rsp_actions :: "(32 word \<times> 32 word \<times> STATE_MACHINE_FUNC) list" where
  "auth_rsp_actions =
    [(AUTH_RSP_IDLE, MT2_PEER_DEAUTH, PeerDeauthAction),
     (AUTH_RSP_WAIT_CHAL, MT2_PEER_DEAUTH, PeerDeauthAction)]"

definition AuthRspStateMachineInit ::
  "'a mlme_scheme \<Rightarrow> STATE_MACHINE_FUNC option list \<Rightarrow> 'a mlme_scheme option" where
  "AuthRspStateMachineInit s tr = do {
     S \<leftarrow> do { S0 \<leftarrow> StateMachineInit (AuthRspMachine s) tr MAX_AUTH_RSP_STATE MAX_AUTH_RSP_MSG Drop AUTH_RSP_IDLE MACHINE_BASE;
               set_actions auth_rsp_actions S0 };
     Some (s\<lparr>AuthRspMachine := S\<rparr>) }"

definition sync_actions :: "(32 word \<times> 32 word \<times> STATE_MACHINE_FUNC) list" where
  "sync_actions =
    [(SYNC_IDLE, MT2_MLME_SCAN_REQ, MlmeScanReqAction),
     (SYNC_IDLE, MT2_MLME_FORCE_SCAN_REQ, MlmeForceScanReqAction),
     (SYNC_IDLE, MT2_MLME_JOIN_REQ, MlmeJoinReqAction),
     (SYNC_IDLE, MT2_MLME_FORCE_JOIN_REQ, MlmeForceJoinReqAction),
     (SYNC_IDLE, MT2_MLME_START_REQ, MlmeStartReqAction),
     (SYNC_IDLE, MT2_PEER_BEACON, PeerBeacon),
     (SYNC_IDLE, MT2_PEER_PROBE_REQ, PeerProbeReqAction),
     (JOIN_WAIT_BEACON, MT2_MLME_JOIN_REQ, MlmeJoinReqAction),
     (JOIN_WAIT_BEACON, MT2_MLME_START_REQ, InvalidStateWhenStart),
     (JOIN_WAIT_BEACON, MT2_PEER_BEACON, PeerBeaconAtJoinAction),
     (JOIN_WAIT_BEACON, MT2_BEACON_TIMEOUT, BeaconTimeoutAtJoinAction),
     (JOIN_WAIT_BEACON, MT2_PEER_PROBE_RSP, PeerBeaconAtScanAction),
     (SCAN_LISTEN, MT2_MLME_JOIN_REQ, MlmeJoinReqAction),
     (SCAN_LISTEN, MT2_MLME_START_REQ, InvalidStateWhenStart),
     (SCAN_LISTEN, MT2_PEER_BEACON, PeerBeaconAtScanAction),
     (SCAN_LISTEN, MT2_PEER_PROBE_RSP, PeerBeaconAtScanAction),
     (SCAN_LISTEN, MT2_SCAN_TIMEOUT, ScanTimeoutAction),
     (SCAN_PENDING, MT2_MLME_SCAN_REQ, MlmeScanReqAction),
     (SCAN_PENDING, MT2_PEER_BEACON, PeerBeacon)]"

definition SyncStateMachineInit ::
  "'a mlme_scheme \<Rightarrow> STATE_MACHINE_FUNC option list \<Rightarrow> 'a mlme_scheme option" where
  "SyncStateMachineInit s tr = do {
     S \<leftarrow> do { S0 \<leftarrow> StateMachineInit (SyncMachine s) tr MAX_SYNC_STATE MAX_SYNC_MSG Drop SYNC_IDLE MACHINE_BASE;
               set_actions sync_actions S0 };
     Some (s\<lparr>SyncMachine := S, BeaconTimer := RTMPInitTimer (BeaconTimer s) False,
            ScanTimer := RTMPInitTimer (ScanTimer s) False\<rparr>) }"

definition act_actions :: "(32 word \<times> 32 word \<times> STATE_MACHINE_FUNC) list" where
  "act_actions =
    [(ACT_IDLE, MT2_PEER_SPECTRUM_CATE, PeerSpectrumAction),
     (ACT_IDLE, MT2_PEER_QOS_CATE, PeerQOSAction),
     (ACT_IDLE, MT2_PEER_DLS_CATE, ReservedAction),
     (ACT_IDLE, MT2_PEER_BA_CATE, PeerBAAction),
     (ACT_IDLE, MT2_PEER_HT_CATE, PeerHTAction),
     (ACT_IDLE, MT2_MLME_ADD_BA_CATE, MlmeADDBAAction),
     (ACT_IDLE, MT2_MLME_ORI_DELBA_CATE, MlmeDELBAAction),
     (ACT_IDLE, MT2_MLME_REC_DELBA_CATE, MlmeDELBAAction),
     (ACT_IDLE, MT2_PEER_PUBLIC_CATE, PeerPublicAction),
     (ACT_IDLE, MT2_PEER_RM_CATE, PeerRMAction),
     (ACT_IDLE, MT2_MLME_QOS_CATE, MlmeQOSAction),
     (ACT_IDLE, MT2_MLME_DLS_CATE, MlmeDLSAction),
     (ACT_IDLE, MT2_ACT_INVALID, MlmeInvalidAction)]"

definition ActionStateMachineInit ::
  "'a mlme_scheme \<Rightarrow> STATE_MACHINE_FUNC option list \<Rightarrow> 'a mlme_scheme option" where
  "ActionStateMachineInit s tr = do {
     S \<leftarrow> do { S0 \<leftarrow> StateMachineInit (ActMachine s) tr MAX_ACT_STATE MAX_ACT_MSG Drop ACT_IDLE MACHINE_BASE;
               set_actions act_actions S0 };
     Some (s\<lparr>ActMachine := S\<rparr>) }"

definition wpa_actions :: "(32 word \<times> 32 word \<times> STATE_MACHINE_FUNC) list" where
  "wpa_actions =
    [(WPA_PTK, MT2_EAPPacket, WpaEAPPacketAction),
     (WPA_PTK, MT2_EAPOLStart, WpaEAPOLStartAction),
     (WPA_PTK, MT2_EAPOLLogoff, WpaEAPOLLogoffAction),
     (WPA_PTK, MT2_EAPOLKey, WpaEAPOLKeyAction),
     (WPA_PTK, MT2_EAPOLASFAlert, WpaEAPOLASFAlertAction)]"

definition WpaStateMachineInit ::
  "'a mlme_scheme \<Rightarrow> STATE_MACHINE_FUNC option list \<Rightarrow> 'a mlme_scheme option" where
  "WpaStateMachineInit s tr = do {
     S \<leftarrow> do { S0 \<leftarrow> StateMachineInit (WpaMachine s) tr MAX_WPA_PTK_STATE MAX_WPA_MSG Drop WPA_PTK MACHINE_BASE;
               set_actions wpa_actions S0 };
     Some (s\<lparr>WpaMachine := S\<rparr>) }"

text \<open>The initialisation of the machines in \<open>MlmeInit\<close>, each with the array it is given.\<close>

definition mlme_init_machines ::
  "'a mlme_scheme \<Rightarrow> (STATE_MACHINE_FUNC option list \<times> STATE_MACHINE_FUNC option list \<times>
     STATE_MACHINE_FUNC option list \<times> STATE_MACHINE_FUNC option list \<times>
     STATE_MACHINE_FUNC option list \<times> STATE_MACHINE_FUNC option list) \<Rightarrow> 'a mlme_scheme option" where
  "mlme_init_machines s arrays = (case arrays of
     (AssocFunc, AuthFunc, AuthRspFunc, SyncFunc, WpaFunc, ActFunc) \<Rightarrow> do {
       s1 \<leftarrow> AssocStateMachineInit s AssocFunc;
       s2 \<leftarrow> AuthStateMachineInit s1 AuthFunc;
       s3 \<leftarrow> AuthRspStateMachineInit s2 AuthRspFunc;
       s4 \<leftarrow> SyncStateMachineInit s3 SyncFunc;
       s5 \<leftarrow> WpaStateMachineInit (s4\<lparr>CntlMachine_CurrState := 0\<rparr>) WpaFunc;
       ActionStateMachineInit s5 ActFunc })"

section \<open>Classification of received frames\<close>

definition LENGTH_802_1_H :: nat where "LENGTH_802_1_H = 8"

definition BTYPE_DATA :: byte where "BTYPE_DATA = 2"

text \<open>The frame-control bit fields of byte 0 (include/rtmp_comm.h, little endian).\<close>

definition FC_Type :: "byte \<Rightarrow> byte" where "FC_Type b = take_bit 2 (drop_bit 2 b)"
definition FC_SubType :: "byte \<Rightarrow> byte" where "FC_SubType b = drop_bit 4 b"

definition SUBTYPE_ASSOC_REQ :: byte where "SUBTYPE_ASSOC_REQ = 0"
definition SUBTYPE_ASSOC_RSP :: byte where "SUBTYPE_ASSOC_RSP = 1"
definition SUBTYPE_REASSOC_REQ :: byte where "SUBTYPE_REASSOC_REQ = 2"
definition SUBTYPE_REASSOC_RSP :: byte where "SUBTYPE_REASSOC_RSP = 3"
definition SUBTYPE_PROBE_REQ :: byte where "SUBTYPE_PROBE_REQ = 4"
definition SUBTYPE_ATIM :: byte where "SUBTYPE_ATIM = 9"
definition SUBTYPE_DISASSOC :: byte where "SUBTYPE_DISASSOC = 10"
definition SUBTYPE_AUTH :: byte where "SUBTYPE_AUTH = 11"
definition SUBTYPE_DEAUTH :: byte where "SUBTYPE_DEAUTH = 12"
definition SUBTYPE_ACTION :: byte where "SUBTYPE_ACTION = 13"
definition SUBTYPE_ACTION_NO_ACK :: byte where "SUBTYPE_ACTION_NO_ACK = 14"

lemmas subtype_defs = SUBTYPE_ASSOC_REQ_def SUBTYPE_ASSOC_RSP_def SUBTYPE_REASSOC_REQ_def
  SUBTYPE_REASSOC_RSP_def SUBTYPE_PROBE_REQ_def SUBTYPE_PROBE_RSP_def SUBTYPE_BEACON_def
  SUBTYPE_ATIM_def SUBTYPE_DISASSOC_def SUBTYPE_AUTH_def SUBTYPE_DEAUTH_def SUBTYPE_ACTION_def
  SUBTYPE_ACTION_NO_ACK_def

definition AUTH_MODE_OPEN :: "16 word" where "AUTH_MODE_OPEN = 0"
definition AUTH_MODE_KEY :: "16 word" where "AUTH_MODE_KEY = 1"

definition WpaMsgTypeSubst :: "byte \<Rightarrow> 32 word \<Rightarrow> bool \<times> 32 word" where
  "WpaMsgTypeSubst EAPType MsgType =
    (if EAPType = 0 then (True, MT2_EAPPacket)
     else if EAPType = 1 then (True, MT2_EAPOLStart)
     else if EAPType = 2 then (True, MT2_EAPOLLogoff)
     else if EAPType = 3 then (True, MT2_EAPOLKey)
     else if EAPType = 4 then (True, MT2_EAPOLASFAlert)
     else (False, MsgType))"

text \<open>A little-endian 16-bit field of the frame.\<close>

definition le16 :: "byte list \<Rightarrow> nat \<Rightarrow> 16 word option" where
  "le16 f i = do { lo \<leftarrow> nth_opt f i; hi \<leftarrow> nth_opt f (i + 1);
     Some (ucast lo OR push_bit 8 (ucast hi)) }"

text \<open>\<open>MsgTypeSubst\<close> on the bytes of the frame: the returned flag, the machine and the message type,
  which keep their initial values \<open>ma\<close> and \<open>ty\<close> where the code does not assign them; \<open>None\<close> is a
  read past the end of the frame.\<close>

definition MsgTypeSubst :: "byte list \<Rightarrow> 32 word \<Rightarrow> 32 word \<Rightarrow> (bool \<times> 32 word \<times> 32 word) option" where
  "MsgTypeSubst f ma ty = do {
     fc \<leftarrow> nth_opt f 0;
     if FC_Type fc = BTYPE_DATA then do {
       EAPType \<leftarrow> nth_opt f (LENGTH_802_11 + LENGTH_802_1_H + 1);
       let (ok, ty') = WpaMsgTypeSubst EAPType ty;
       Some (ok, WPA_STATE_MACHINE, ty') }
     else let sub = FC_SubType fc in
       if sub = SUBTYPE_ASSOC_REQ then Some (True, ASSOC_STATE_MACHINE, MT2_PEER_ASSOC_REQ)
       else if sub = SUBTYPE_ASSOC_RSP then Some (True, ASSOC_STATE_MACHINE, MT2_PEER_ASSOC_RSP)
       else if sub = SUBTYPE_REASSOC_REQ then Some (True, ASSOC_STATE_MACHINE, MT2_PEER_REASSOC_REQ)
       else if sub = SUBTYPE_REASSOC_RSP then Some (True, ASSOC_STATE_MACHINE, MT2_PEER_REASSOC_RSP)
       else if sub = SUBTYPE_PROBE_REQ then Some (True, SYNC_STATE_MACHINE, MT2_PEER_PROBE_REQ)
       else if sub = SUBTYPE_PROBE_RSP then Some (True, SYNC_STATE_MACHINE, MT2_PEER_PROBE_RSP)
       else if sub = SUBTYPE_BEACON then Some (True, SYNC_STATE_MACHINE, MT2_PEER_BEACON)
       else if sub = SUBTYPE_ATIM then Some (True, SYNC_STATE_MACHINE, MT2_PEER_ATIM)
       else if sub = SUBTYPE_DISASSOC then Some (True, ASSOC_STATE_MACHINE, MT2_PEER_DISASSOC_REQ)
       else if sub = SUBTYPE_AUTH then do {
         Seq \<leftarrow> le16 f (LENGTH_802_11 + 2);
         Alg \<leftarrow> le16 f LENGTH_802_11;
         if Seq = 1 \<or> Seq = 3 then Some (True, AUTH_RSP_STATE_MACHINE, MT2_PEER_AUTH_ODD)
         else if Seq = 2 \<or> Seq = 4 then
           (if Alg = AUTH_MODE_OPEN \<or> Alg = AUTH_MODE_KEY
            then Some (True, AUTH_STATE_MACHINE, MT2_PEER_AUTH_EVEN) else Some (True, ma, ty))
         else Some (False, ma, ty) }
       else if sub = SUBTYPE_DEAUTH then Some (True, AUTH_RSP_STATE_MACHINE, MT2_PEER_DEAUTH)
       else if sub = SUBTYPE_ACTION \<or> sub = SUBTYPE_ACTION_NO_ACK then do {
         cat \<leftarrow> nth_opt f LENGTH_802_11;
         Some (True, ACTION_STATE_MACHINE,
           if ucast (cat AND 0x7F) > MAX_PEER_CATE_MSG then MT2_ACT_INVALID else ucast (cat AND 0x7F)) }
       else Some (False, ma, ty) }"

section \<open>Messages enter the queue\<close>

definition MlmeEnqueue ::
  "'a mlme_scheme \<Rightarrow> 32 word \<Rightarrow> 32 word \<Rightarrow> 32 word \<Rightarrow> byte list option \<Rightarrow> 32 word
    \<Rightarrow> (bool \<times> 'a mlme_scheme) option" where
  "MlmeEnqueue s Machine MsgType MsgLen Msg Priv =
    (if RTMP_TEST_FLAG s (fRTMP_ADAPTER_HALT_IN_PROGRESS OR fRTMP_ADAPTER_NIC_NOT_EXIST) then Some (False, s)
     else do {
       (ok, q) \<leftarrow> mlme_enqueue (Queue s) Machine MsgType MsgLen Msg Priv;
       Some (ok, s\<lparr>Queue := q\<rparr>) })"

text \<open>What the receive path knows of a frame beside its bytes.\<close>

record rx_info =
  ri_Wcid :: "32 word"
  ri_TimeStampHigh :: "32 word"
  ri_TimeStampLow :: "32 word"
  ri_Rssi0 :: byte
  ri_Rssi1 :: byte
  ri_Rssi2 :: byte
  ri_AntSel :: byte
  ri_Signal :: byte
  ri_OpMode :: byte

definition MlmeEnqueueForRecv ::
  "'a mlme_scheme \<Rightarrow> rx_info \<Rightarrow> 32 word \<Rightarrow> byte list \<Rightarrow> (bool \<times> 'a mlme_scheme) option" where
  "MlmeEnqueueForRecv s r MsgLen Msg =
    (if ate_on s then Some (False, s)
     else if RTMP_TEST_FLAG s (fRTMP_ADAPTER_HALT_IN_PROGRESS OR fRTMP_ADAPTER_NIC_NOT_EXIST) then Some (False, s)
     else if MsgLen > of_nat MGMT_DMA_BUFFER_SIZE then Some (False, s)
     else do {
       full \<leftarrow> MlmeQueueFull (Queue s) 0;
       if full then Some (False, s)
       else do {
         (ok, Machine, MsgType) \<leftarrow> MsgTypeSubst Msg 0xff 0;
         if \<not> ok then Some (False, s)
         else do {
           q \<leftarrow> queue_put (Queue s) (\<lambda>e. copy_msg (Some Msg) MsgLen
             (e\<lparr>qe_Occupied := True, qe_Machine := Machine, qe_MsgType := MsgType, qe_MsgLen := MsgLen,
                qe_TimeStampLow := ri_TimeStampLow r, qe_TimeStampHigh := ri_TimeStampHigh r,
                qe_Rssi0 := ri_Rssi0 r, qe_Rssi1 := ri_Rssi1 r, qe_Rssi2 := ri_Rssi2 r,
                qe_AntSel := ri_AntSel r, qe_Signal := ri_Signal r, qe_Wcid := ucast (ri_Wcid r),
                qe_OpMode := ri_OpMode r, qe_Priv := 0, qe_Channel := LatchRfRegs_Channel s\<rparr>));
           Some (True, mlme_call RTUSBMlmeUp (s\<lparr>Queue := q\<rparr>)) } } })"

section \<open>The handler\<close>

definition MlmeRestartStateMachine :: "'a mlme_scheme \<Rightarrow> 'a mlme_scheme" where
  "MlmeRestartStateMachine s =
    (let s1 = s\<lparr>AssocTimer := RTMPCancelTimer (AssocTimer s), ReassocTimer := RTMPCancelTimer (ReassocTimer s),
                DisassocTimer := RTMPCancelTimer (DisassocTimer s), AuthTimer := RTMPCancelTimer (AuthTimer s),
                BeaconTimer := RTMPCancelTimer (BeaconTimer s), ScanTimer := RTMPCancelTimer (ScanTimer s)\<rparr>;
         s2 = mlme_call (AsicSwitchChannel (CommonCfg_Channel s) False) s1;
         s3 = mlme_call (AsicLockChannel (CommonCfg_Channel s)) s2;
         s4 = mlme_call RTMPResumeMsduTransmission s3
     in s4\<lparr>CntlMachine_CurrState := 0, AssocMachine := (AssocMachine s)\<lparr>sm_CurrState := ASSOC_IDLE\<rparr>,
           AuthMachine := (AuthMachine s)\<lparr>sm_CurrState := AUTH_REQ_IDLE\<rparr>,
           AuthRspMachine := (AuthRspMachine s)\<lparr>sm_CurrState := AUTH_RSP_IDLE\<rparr>,
           SyncMachine := (SyncMachine s)\<lparr>sm_CurrState := SYNC_IDLE\<rparr>,
           ActMachine := (ActMachine s)\<lparr>sm_CurrState := ACT_IDLE\<rparr>\<rparr>)"

type_synonym 'a handler = "STATE_MACHINE_FUNC \<Rightarrow> 32 word \<Rightarrow> 'a mlme_scheme \<Rightarrow> 'a mlme_scheme option"

text \<open>\<open>Drop\<close> is in the sources and does nothing; the other actions are the parameter.\<close>

definition run_action :: "'a handler \<Rightarrow> STATE_MACHINE_FUNC \<Rightarrow> 32 word \<Rightarrow> 'a mlme_scheme \<Rightarrow> 'a mlme_scheme option" where
  "run_action act f i s = (if f = Drop then Some s else act f i s)"

definition StateMachinePerformAction ::
  "'a handler \<Rightarrow> STATE_MACHINE \<Rightarrow> MLME_QUEUE_ELEM \<Rightarrow> 32 word \<Rightarrow> 'a mlme_scheme \<Rightarrow> 'a mlme_scheme option" where
  "StateMachinePerformAction act S e i s = do {
     cell \<leftarrow> sm_cell S (qe_MsgType e) (sm_CurrState S);
     (case cell of None \<Rightarrow> Some s | Some f \<Rightarrow> run_action act f i s) }"

text \<open>The switch of \<open>MlmeHandler\<close> on the machine of the element in slot \<open>i\<close>; an unknown machine
  is reported and ignored.\<close>

definition mlme_dispatch :: "'a handler \<Rightarrow> 32 word \<Rightarrow> 'a mlme_scheme \<Rightarrow> 'a mlme_scheme option" where
  "mlme_dispatch act i s = do {
     e \<leftarrow> nth_opt (q_Entry (Queue s)) (unat i);
     if qe_MsgType e = MT2_RESET_CONF then Some (MlmeRestartStateMachine s)
     else if qe_Machine e = ASSOC_STATE_MACHINE then StateMachinePerformAction act (AssocMachine s) e i s
     else if qe_Machine e = AUTH_STATE_MACHINE then StateMachinePerformAction act (AuthMachine s) e i s
     else if qe_Machine e = AUTH_RSP_STATE_MACHINE then StateMachinePerformAction act (AuthRspMachine s) e i s
     else if qe_Machine e = SYNC_STATE_MACHINE then StateMachinePerformAction act (SyncMachine s) e i s
     else if qe_Machine e = MLME_CNTL_STATE_MACHINE then run_action act MlmeCntlMachinePerformAction i s
     else if qe_Machine e = WPA_PSK_STATE_MACHINE then StateMachinePerformAction act (WpaPskMachine s) e i s
     else if qe_Machine e = ACTION_STATE_MACHINE then StateMachinePerformAction act (ActMachine s) e i s
     else if qe_Machine e = WPA_STATE_MACHINE then StateMachinePerformAction act (WpaMachine s) e i s
     else Some s }"

text \<open>The tests that leave the loop.\<close>

definition mlme_stop :: "'a mlme_scheme \<Rightarrow> bool" where
  "mlme_stop s \<longleftrightarrow> RTMP_TEST_FLAG s fRTMP_ADAPTER_MLME_RESET_IN_PROGRESS \<or>
    RTMP_TEST_FLAG s fRTMP_ADAPTER_HALT_IN_PROGRESS \<or> RTMP_TEST_FLAG s fRTMP_ADAPTER_NIC_NOT_EXIST \<or>
    RTMP_TEST_FLAG s fRTMP_ADAPTER_SUSPEND \<or> ate_on s"

text \<open>One turn of the loop: dequeue, run, release the element.\<close>

definition mlme_turn :: "'a handler \<Rightarrow> 'a mlme_scheme \<Rightarrow> 'a mlme_scheme option" where
  "mlme_turn act s = do {
     (i, q) \<leftarrow> Some (MlmeDequeue (Queue s));
     s1 \<leftarrow> mlme_dispatch act i (s\<lparr>Queue := q\<rparr>);
     q2 \<leftarrow> free_elem i (Queue s1);
     Some (s1\<lparr>Queue := q2\<rparr>) }"

text \<open>The loop; \<open>None\<close> also stands for not returning.\<close>

partial_function (option) mlme_loop :: "'a handler \<Rightarrow> 'a mlme_scheme \<Rightarrow> 'a mlme_scheme option" where
  "mlme_loop act s =
    (if MlmeQueueEmpty (Queue s) then Some s
     else if mlme_stop s then Some s
     else do { s' \<leftarrow> mlme_turn act s; mlme_loop act s' })"

definition MlmeHandler :: "'a handler \<Rightarrow> 'a mlme_scheme \<Rightarrow> 'a mlme_scheme option" where
  "MlmeHandler act s =
    (if bRunning s then Some s
     else do { s' \<leftarrow> mlme_loop act (s\<lparr>bRunning := True\<rparr>); Some (s'\<lparr>bRunning := False\<rparr>) })"

section \<open>Random bytes\<close>

definition LFSR_MASK :: "32 word" where "LFSR_MASK = 0x80000057"

text \<open>One turn of the shift register: the new register and the bit.\<close>

definition lfsr_step :: "32 word \<Rightarrow> 32 word \<times> byte" where
  "lfsr_step r = (if r AND 1 \<noteq> 0 then (drop_bit 1 (r XOR LFSR_MASK) OR 0x80000000, 1) else (drop_bit 1 r, 0))"

fun random_bits :: "nat \<Rightarrow> 32 word \<Rightarrow> byte \<Rightarrow> 32 word \<times> byte" where
  "random_bits 0 r R = (r, R)"
| "random_bits (Suc n) r R = (case lfsr_step r of (r', b) \<Rightarrow> random_bits n r' (push_bit 1 R OR b))"

text \<open>\<open>now\<close>: the system up time, which seeds a register that is zero.\<close>

definition RandomByte :: "32 word \<Rightarrow> 'a mlme_scheme \<Rightarrow> byte \<times> 'a mlme_scheme" where
  "RandomByte now s =
    (let r0 = (if ShiftReg s = 0 then now else ShiftReg s); (r, R) = random_bits 8 r0 0
     in (R, s\<lparr>ShiftReg := r\<rparr>))"

end
