(* ===== verification/MlmeConfirm.thy ===== *)
theory MlmeConfirm
  imports Mlme
begin

text \<open>The actions that end a pending request of the station: the timeout actions and the actions
  for a request in the wrong state (sta/assoc.c, sta/auth.c, sta/sync.c), each of which resets its
  machine and confirms to the control machine, and the timer callbacks that queue the timeouts.\<close>

definition MT2_ASSOC_CONF :: "32 word" where "MT2_ASSOC_CONF = 34"
definition MT2_AUTH_CONF :: "32 word" where "MT2_AUTH_CONF = 35"
definition MT2_DISASSOC_CONF :: "32 word" where "MT2_DISASSOC_CONF = 37"
definition MT2_REASSOC_CONF :: "32 word" where "MT2_REASSOC_CONF = 38"
definition MT2_JOIN_CONF :: "32 word" where "MT2_JOIN_CONF = 40"
definition MT2_START_CONF :: "32 word" where "MT2_START_CONF = 42"

definition MLME_SUCCESS :: "16 word" where "MLME_SUCCESS = 0"
definition MLME_REJ_TIMEOUT :: "16 word" where "MLME_REJ_TIMEOUT = 16"
definition MLME_STATE_MACHINE_REJECT :: "16 word" where "MLME_STATE_MACHINE_REJECT = 0x53"

text \<open>\<open>MlmeEnqueue(pAd, MLME_CNTL_STATE_MACHINE, conf, 2, &Status, 0)\<close>, whose result the actions
  ignore.\<close>

definition status_bytes :: "16 word \<Rightarrow> byte list" where
  "status_bytes st = [ucast st, ucast (drop_bit 8 st)]"

definition confirm :: "32 word \<Rightarrow> 16 word \<Rightarrow> 'a mlme_scheme \<Rightarrow> 'a mlme_scheme option" where
  "confirm conf st s = do {
     (ok, s') \<leftarrow> MlmeEnqueue s MLME_CNTL_STATE_MACHINE conf 2 (Some (status_bytes st)) 0; Some s' }"

definition set_assoc_state :: "32 word \<Rightarrow> 'a mlme_scheme \<Rightarrow> 'a mlme_scheme" where
  "set_assoc_state st s = s\<lparr>AssocMachine := (AssocMachine s)\<lparr>sm_CurrState := st\<rparr>\<rparr>"

definition set_auth_state :: "32 word \<Rightarrow> 'a mlme_scheme \<Rightarrow> 'a mlme_scheme" where
  "set_auth_state st s = s\<lparr>AuthMachine := (AuthMachine s)\<lparr>sm_CurrState := st\<rparr>\<rparr>"

definition set_sync_state :: "32 word \<Rightarrow> 'a mlme_scheme \<Rightarrow> 'a mlme_scheme" where
  "set_sync_state st s = s\<lparr>SyncMachine := (SyncMachine s)\<lparr>sm_CurrState := st\<rparr>\<rparr>"

definition do_AssocTimeoutAction :: "'a mlme_scheme \<Rightarrow> 'a mlme_scheme option" where
  "do_AssocTimeoutAction s = confirm MT2_ASSOC_CONF MLME_REJ_TIMEOUT (set_assoc_state ASSOC_IDLE s)"

definition do_ReassocTimeoutAction :: "'a mlme_scheme \<Rightarrow> 'a mlme_scheme option" where
  "do_ReassocTimeoutAction s = confirm MT2_REASSOC_CONF MLME_REJ_TIMEOUT (set_assoc_state ASSOC_IDLE s)"

definition do_DisassocTimeoutAction :: "'a mlme_scheme \<Rightarrow> 'a mlme_scheme option" where
  "do_DisassocTimeoutAction s = confirm MT2_DISASSOC_CONF MLME_SUCCESS (set_assoc_state ASSOC_IDLE s)"

definition do_InvalidStateWhenAssoc :: "'a mlme_scheme \<Rightarrow> 'a mlme_scheme option" where
  "do_InvalidStateWhenAssoc s = confirm MT2_ASSOC_CONF MLME_STATE_MACHINE_REJECT (set_assoc_state ASSOC_IDLE s)"

definition do_InvalidStateWhenReassoc :: "'a mlme_scheme \<Rightarrow> 'a mlme_scheme option" where
  "do_InvalidStateWhenReassoc s = confirm MT2_REASSOC_CONF MLME_STATE_MACHINE_REJECT (set_assoc_state ASSOC_IDLE s)"

definition do_InvalidStateWhenDisassociate :: "'a mlme_scheme \<Rightarrow> 'a mlme_scheme option" where
  "do_InvalidStateWhenDisassociate s =
    confirm MT2_DISASSOC_CONF MLME_STATE_MACHINE_REJECT (set_assoc_state ASSOC_IDLE s)"

definition do_AuthTimeoutAction :: "'a mlme_scheme \<Rightarrow> 'a mlme_scheme option" where
  "do_AuthTimeoutAction s = confirm MT2_AUTH_CONF MLME_REJ_TIMEOUT (set_auth_state AUTH_REQ_IDLE s)"

definition do_InvalidStateWhenAuth :: "'a mlme_scheme \<Rightarrow> 'a mlme_scheme option" where
  "do_InvalidStateWhenAuth s = confirm MT2_AUTH_CONF MLME_STATE_MACHINE_REJECT (set_auth_state AUTH_REQ_IDLE s)"

definition do_BeaconTimeoutAtJoinAction :: "'a mlme_scheme \<Rightarrow> 'a mlme_scheme option" where
  "do_BeaconTimeoutAtJoinAction s = confirm MT2_JOIN_CONF MLME_REJ_TIMEOUT (set_sync_state SYNC_IDLE s)"

definition do_InvalidStateWhenStart :: "'a mlme_scheme \<Rightarrow> 'a mlme_scheme option" where
  "do_InvalidStateWhenStart s = confirm MT2_START_CONF MLME_STATE_MACHINE_REJECT (set_sync_state SYNC_IDLE s)"

lemmas confirm_actions_def = do_AssocTimeoutAction_def do_ReassocTimeoutAction_def
  do_DisassocTimeoutAction_def do_InvalidStateWhenAssoc_def do_InvalidStateWhenReassoc_def
  do_InvalidStateWhenDisassociate_def do_AuthTimeoutAction_def do_InvalidStateWhenAuth_def
  do_BeaconTimeoutAtJoinAction_def do_InvalidStateWhenStart_def

text \<open>The actions of this theory; every other action is \<open>other\<close>.\<close>

definition station_actions :: "'a handler \<Rightarrow> 'a handler" where
  "station_actions other f i s =
    (case f of
       AssocTimeoutAction \<Rightarrow> do_AssocTimeoutAction s
     | ReassocTimeoutAction \<Rightarrow> do_ReassocTimeoutAction s
     | DisassocTimeoutAction \<Rightarrow> do_DisassocTimeoutAction s
     | InvalidStateWhenAssoc \<Rightarrow> do_InvalidStateWhenAssoc s
     | InvalidStateWhenReassoc \<Rightarrow> do_InvalidStateWhenReassoc s
     | InvalidStateWhenDisassociate \<Rightarrow> do_InvalidStateWhenDisassociate s
     | AuthTimeoutAction \<Rightarrow> do_AuthTimeoutAction s
     | InvalidStateWhenAuth \<Rightarrow> do_InvalidStateWhenAuth s
     | BeaconTimeoutAtJoinAction \<Rightarrow> do_BeaconTimeoutAtJoinAction s
     | InvalidStateWhenStart \<Rightarrow> do_InvalidStateWhenStart s
     | _ \<Rightarrow> other f i s)"

section \<open>Timer callbacks\<close>

definition queue_timeout :: "32 word \<Rightarrow> 32 word \<Rightarrow> 'a mlme_scheme \<Rightarrow> 'a mlme_scheme option" where
  "queue_timeout ma ty s = do {
     (ok, s') \<leftarrow> MlmeEnqueue s ma ty 0 None 0; Some (mlme_call RTUSBMlmeUp s') }"

definition AssocTimeout :: "'a mlme_scheme \<Rightarrow> 'a mlme_scheme option" where
  "AssocTimeout s =
    (if RTMP_TEST_FLAG s (fRTMP_ADAPTER_HALT_IN_PROGRESS OR fRTMP_ADAPTER_NIC_NOT_EXIST) then Some s
     else queue_timeout ASSOC_STATE_MACHINE MT2_ASSOC_TIMEOUT s)"

definition ReassocTimeout :: "'a mlme_scheme \<Rightarrow> 'a mlme_scheme option" where
  "ReassocTimeout s =
    (if RTMP_TEST_FLAG s (fRTMP_ADAPTER_HALT_IN_PROGRESS OR fRTMP_ADAPTER_NIC_NOT_EXIST) then Some s
     else queue_timeout ASSOC_STATE_MACHINE MT2_REASSOC_TIMEOUT s)"

definition DisassocTimeout :: "'a mlme_scheme \<Rightarrow> 'a mlme_scheme option" where
  "DisassocTimeout s =
    (if RTMP_TEST_FLAG s (fRTMP_ADAPTER_HALT_IN_PROGRESS OR fRTMP_ADAPTER_NIC_NOT_EXIST) then Some s
     else queue_timeout ASSOC_STATE_MACHINE MT2_DISASSOC_TIMEOUT s)"

end
