(* ===== verification/MlmeInv.thy ===== *)
theory MlmeInv
  imports MlmeConfirm
begin

text \<open>The invariant of the MLME task, what initialisation and the operations do to it, and the
  contract a handler of messages has to meet for the loop to return.\<close>

section \<open>Machines and messages in range\<close>

definition machine_inv :: "STATE_MACHINE \<Rightarrow> 32 word \<Rightarrow> 32 word \<Rightarrow> bool" where
  "machine_inv S StNr MsgNr \<longleftrightarrow> sm_ok S StNr MsgNr \<and> sm_CurrState S < StNr"

text \<open>A message the handler can dispatch: its type is in the range of the machine it names. No
  table belongs to \<open>WPA_PSK_STATE_MACHINE\<close>.\<close>

definition msg_ok :: "32 word \<Rightarrow> 32 word \<Rightarrow> bool" where
  "msg_ok ma ty \<longleftrightarrow> ma \<noteq> WPA_PSK_STATE_MACHINE \<and>
    (ma = ASSOC_STATE_MACHINE \<longrightarrow> ty < MAX_ASSOC_MSG) \<and> (ma = AUTH_STATE_MACHINE \<longrightarrow> ty < MAX_AUTH_MSG) \<and>
    (ma = AUTH_RSP_STATE_MACHINE \<longrightarrow> ty < MAX_AUTH_RSP_MSG) \<and> (ma = SYNC_STATE_MACHINE \<longrightarrow> ty < MAX_SYNC_MSG) \<and>
    (ma = ACTION_STATE_MACHINE \<longrightarrow> ty < MAX_ACT_MSG) \<and> (ma = WPA_STATE_MACHINE \<longrightarrow> ty < MAX_WPA_MSG)"

definition elem_ok :: "MLME_QUEUE_ELEM \<Rightarrow> bool" where
  "elem_ok e \<longleftrightarrow> msg_ok (qe_Machine e) (qe_MsgType e)"

section \<open>Initialisation\<close>

lemmas table_defs = assoc_defs auth_defs sync_defs act_defs wpa_defs MACHINE_BASE_def

lemma machine_bounds:
  "list_all (\<lambda>(s, m, f). s < MAX_ASSOC_STATE \<and> m < MAX_ASSOC_MSG) assoc_actions"
  "list_all (\<lambda>(s, m, f). s < MAX_AUTH_STATE \<and> m < MAX_AUTH_MSG) auth_actions"
  "list_all (\<lambda>(s, m, f). s < MAX_AUTH_RSP_STATE \<and> m < MAX_AUTH_RSP_MSG) auth_rsp_actions"
  "list_all (\<lambda>(s, m, f). s < MAX_SYNC_STATE \<and> m < MAX_SYNC_MSG) sync_actions"
  "list_all (\<lambda>(s, m, f). s < MAX_ACT_STATE \<and> m < MAX_ACT_MSG) act_actions"
  "list_all (\<lambda>(s, m, f). s < MAX_WPA_PTK_STATE \<and> m < MAX_WPA_MSG) wpa_actions"
  by (simp_all add: assoc_actions_def auth_actions_def auth_rsp_actions_def sync_actions_def
      act_actions_def wpa_actions_def table_defs)

definition table_of :: "STATE_MACHINE \<Rightarrow> 32 word \<Rightarrow> 32 word \<Rightarrow>
    (32 word \<times> 32 word \<times> STATE_MACHINE_FUNC) list \<Rightarrow> bool" where
  "table_of S StNr MsgNr as \<longleftrightarrow> machine_inv S StNr MsgNr \<and>
    (\<forall>st<StNr. \<forall>msg<MsgNr. sm_cell S msg st = Some (Some (action_of as Drop st msg)))"

lemma machine_init_table:
  assumes "length tr = unat StNr * unat MsgNr" "unat StNr * unat MsgNr < 2 ^ 32" "0 < StNr"
    and "list_all (\<lambda>(s, m, f). s < StNr \<and> m < MsgNr) as"
  shows "\<exists>S'. do { S0 \<leftarrow> StateMachineInit S tr StNr MsgNr Drop 0 0; set_actions as S0 } = Some S' \<and>
    table_of S' StNr MsgNr as \<and> sm_CurrState S' = 0"
  using machine_init[OF assms(1,2,4), of S 0] assms(3) by (auto simp: table_of_def machine_inv_def)

definition tables_built :: "'a mlme_scheme \<Rightarrow> bool" where
  "tables_built s \<longleftrightarrow> table_of (AssocMachine s) MAX_ASSOC_STATE MAX_ASSOC_MSG assoc_actions \<and>
    table_of (AuthMachine s) MAX_AUTH_STATE MAX_AUTH_MSG auth_actions \<and>
    table_of (AuthRspMachine s) MAX_AUTH_RSP_STATE MAX_AUTH_RSP_MSG auth_rsp_actions \<and>
    table_of (SyncMachine s) MAX_SYNC_STATE MAX_SYNC_MSG sync_actions \<and>
    table_of (ActMachine s) MAX_ACT_STATE MAX_ACT_MSG act_actions \<and>
    table_of (WpaMachine s) MAX_WPA_PTK_STATE MAX_WPA_MSG wpa_actions"

definition mlme_inv :: "'a mlme_scheme \<Rightarrow> bool" where
  "mlme_inv s \<longleftrightarrow> queue_inv (Queue s) \<and> tables_built s \<and> list_all elem_ok (q_abs (Queue s))"

lemma tables_built_update [simp]:
  "tables_built (s\<lparr>Queue := q\<rparr>) = tables_built s" "tables_built (s\<lparr>bRunning := b\<rparr>) = tables_built s"
  "tables_built (mlme_call c s) = tables_built s"
  by (simp_all add: tables_built_def mlme_call_def)

lemma table_of_reset: "table_of S StNr MsgNr as \<Longrightarrow> st < StNr \<Longrightarrow> table_of (S\<lparr>sm_CurrState := st\<rparr>) StNr MsgNr as"
  unfolding table_of_def machine_inv_def sm_ok_def sm_cell_def by auto

lemma restart_keeps [simp]:
  "Queue (MlmeRestartStateMachine s) = Queue s" "Flags (MlmeRestartStateMachine s) = Flags s"
  "ate_on (MlmeRestartStateMachine s) = ate_on s" "bRunning (MlmeRestartStateMachine s) = bRunning s"
  by (simp_all add: MlmeRestartStateMachine_def mlme_call_def Let_def)

lemma restart_tables: "tables_built s \<Longrightarrow> tables_built (MlmeRestartStateMachine s)"
  by (simp add: MlmeRestartStateMachine_def mlme_call_def Let_def tables_built_def table_of_reset
      assoc_defs auth_defs sync_defs act_defs wpa_defs)

text \<open>The actions a machine's table can hold.\<close>

definition machine_funcs :: "32 word \<Rightarrow> STATE_MACHINE_FUNC set" where
  "machine_funcs ma =
    (if ma = MLME_CNTL_STATE_MACHINE then {MlmeCntlMachinePerformAction}
     else insert Drop ((\<lambda>a. snd (snd a)) ` set
       (if ma = ASSOC_STATE_MACHINE then assoc_actions else if ma = AUTH_STATE_MACHINE then auth_actions
        else if ma = AUTH_RSP_STATE_MACHINE then auth_rsp_actions else if ma = SYNC_STATE_MACHINE then sync_actions
        else if ma = ACTION_STATE_MACHINE then act_actions else if ma = WPA_STATE_MACHINE then wpa_actions else [])))"

lemma action_of_mem: "action_of as d st msg \<in> insert d ((\<lambda>a. snd (snd a)) ` set as)"
proof (induction as d st msg rule: action_of.induct)
  case (2 s m f as d st msg)
  then show ?case by (simp only: action_of.simps list.set image_insert snd_conv) (auto split: if_splits)
qed simp

lemma perform_action_defined:
  assumes "table_of S StNr MsgNr as" "qe_MsgType e < MsgNr"
  shows "\<exists>f. StateMachinePerformAction act S e i s = run_action act f i s \<and>
    f \<in> insert Drop ((\<lambda>a. snd (snd a)) ` set as)"
proof -
  let ?f = "action_of as Drop (sm_CurrState S) (qe_MsgType e)"
  have "sm_cell S (qe_MsgType e) (sm_CurrState S) = Some (Some ?f)"
    using assms by (auto simp: table_of_def machine_inv_def)
  then have "StateMachinePerformAction act S e i s = run_action act ?f i s"
    by (simp add: StateMachinePerformAction_def)
  then show ?thesis using action_of_mem[of as Drop] by blast
qed

text \<open>Dispatching an element in range is running one action of its machine, restarting the machines,
  or nothing.\<close>

lemma mlme_dispatch_cases:
  assumes "tables_built s" "unat i < length (q_Entry (Queue s))" "elem_ok (q_Entry (Queue s) ! unat i)"
  shows "(\<exists>f \<in> machine_funcs (qe_Machine (q_Entry (Queue s) ! unat i)). mlme_dispatch act i s = run_action act f i s) \<or>
    mlme_dispatch act i s = Some (MlmeRestartStateMachine s) \<or> mlme_dispatch act i s = Some s"
proof -
  let ?e = "q_Entry (Queue s) ! unat i"
  let ?run = "\<lambda>S. \<exists>f \<in> machine_funcs (qe_Machine ?e). StateMachinePerformAction act S ?e i s = run_action act f i s"
  have P: "\<exists>f. StateMachinePerformAction act S ?e i s = run_action act f i s \<and>
      f \<in> insert Drop ((\<lambda>a. snd (snd a)) ` set as)"
    if "table_of S StNr MsgNr as" "qe_MsgType ?e < MsgNr" for S StNr MsgNr as
    by (rule perform_action_defined[OF that])
  note T = assms(1)[unfolded tables_built_def] and E = assms(3)[unfolded elem_ok_def msg_ok_def]
  have m: "qe_Machine ?e \<noteq> WPA_PSK_STATE_MACHINE" using E by blast
  have "?run (AssocMachine s)" if "qe_Machine ?e = ASSOC_STATE_MACHINE"
    using P[of "AssocMachine s"] T E that by (auto simp: machine_funcs_def machine_defs)
  moreover have "?run (AuthMachine s)" if "qe_Machine ?e = AUTH_STATE_MACHINE"
    using P[of "AuthMachine s"] T E that by (auto simp: machine_funcs_def machine_defs)
  moreover have "?run (AuthRspMachine s)" if "qe_Machine ?e = AUTH_RSP_STATE_MACHINE"
    using P[of "AuthRspMachine s"] T E that by (auto simp: machine_funcs_def machine_defs)
  moreover have "?run (SyncMachine s)" if "qe_Machine ?e = SYNC_STATE_MACHINE"
    using P[of "SyncMachine s"] T E that by (auto simp: machine_funcs_def machine_defs)
  moreover have "?run (ActMachine s)" if "qe_Machine ?e = ACTION_STATE_MACHINE"
    using P[of "ActMachine s"] T E that by (auto simp: machine_funcs_def machine_defs)
  moreover have "?run (WpaMachine s)" if "qe_Machine ?e = WPA_STATE_MACHINE"
    using P[of "WpaMachine s"] T E that by (auto simp: machine_funcs_def machine_defs)
  moreover have "MlmeCntlMachinePerformAction \<in> machine_funcs (qe_Machine ?e)"
    if "qe_Machine ?e = MLME_CNTL_STATE_MACHINE" using that by (simp add: machine_funcs_def)
  ultimately show ?thesis
    unfolding mlme_dispatch_def nth_opt_Some[OF assms(2)] Option.bind.simps
    using m by auto
qed

lemmas table_sizes = MAX_ASSOC_STATE_def MAX_ASSOC_MSG_def MAX_AUTH_STATE_def MAX_AUTH_MSG_def
  MAX_AUTH_RSP_STATE_def MAX_AUTH_RSP_MSG_def MAX_SYNC_STATE_def MAX_SYNC_MSG_def MAX_ACT_STATE_def
  MAX_ACT_MSG_def MAX_WPA_PTK_STATE_def MAX_WPA_MSG_def

lemmas idle_defs = ASSOC_IDLE_def AUTH_REQ_IDLE_def AUTH_RSP_IDLE_def SYNC_IDLE_def ACT_IDLE_def
  WPA_PTK_def MACHINE_BASE_def

lemma AssocStateMachineInit_ok:
  assumes "length tr = 44"
  shows "\<exists>S. AssocStateMachineInit s tr = Some (s\<lparr>AssocMachine := S, AssocTimer := RTMPInitTimer (AssocTimer s) False, ReassocTimer := RTMPInitTimer (ReassocTimer s) False, DisassocTimer := RTMPInitTimer (DisassocTimer s) False\<rparr>) \<and> table_of S MAX_ASSOC_STATE MAX_ASSOC_MSG assoc_actions \<and> sm_CurrState S = 0"
proof -
  obtain S where S: "do { S0 \<leftarrow> StateMachineInit (AssocMachine s) tr MAX_ASSOC_STATE MAX_ASSOC_MSG Drop 0 0; set_actions assoc_actions S0 } = Some S"
    "table_of S MAX_ASSOC_STATE MAX_ASSOC_MSG assoc_actions" "sm_CurrState S = 0"
    using machine_init_table[OF _ _ _ machine_bounds(1), of tr "AssocMachine s"] assms by (auto simp: table_sizes)
  then show ?thesis by (intro exI[of _ S]) (simp add: AssocStateMachineInit_def idle_defs)
qed

lemma AuthStateMachineInit_ok:
  assumes "length tr = 9"
  shows "\<exists>S. AuthStateMachineInit s tr = Some (s\<lparr>AuthMachine := S, AuthTimer := RTMPInitTimer (AuthTimer s) False\<rparr>) \<and> table_of S MAX_AUTH_STATE MAX_AUTH_MSG auth_actions \<and> sm_CurrState S = 0"
proof -
  obtain S where S: "do { S0 \<leftarrow> StateMachineInit (AuthMachine s) tr MAX_AUTH_STATE MAX_AUTH_MSG Drop 0 0; set_actions auth_actions S0 } = Some S"
    "table_of S MAX_AUTH_STATE MAX_AUTH_MSG auth_actions" "sm_CurrState S = 0"
    using machine_init_table[OF _ _ _ machine_bounds(2), of tr "AuthMachine s"] assms by (auto simp: table_sizes)
  then show ?thesis by (intro exI[of _ S]) (simp add: AuthStateMachineInit_def idle_defs)
qed

lemma AuthRspStateMachineInit_ok:
  assumes "length tr = 6"
  shows "\<exists>S. AuthRspStateMachineInit s tr = Some (s\<lparr>AuthRspMachine := S\<rparr>) \<and> table_of S MAX_AUTH_RSP_STATE MAX_AUTH_RSP_MSG auth_rsp_actions \<and> sm_CurrState S = 0"
proof -
  obtain S where S: "do { S0 \<leftarrow> StateMachineInit (AuthRspMachine s) tr MAX_AUTH_RSP_STATE MAX_AUTH_RSP_MSG Drop 0 0; set_actions auth_rsp_actions S0 } = Some S"
    "table_of S MAX_AUTH_RSP_STATE MAX_AUTH_RSP_MSG auth_rsp_actions" "sm_CurrState S = 0"
    using machine_init_table[OF _ _ _ machine_bounds(3), of tr "AuthRspMachine s"] assms by (auto simp: table_sizes)
  then show ?thesis by (intro exI[of _ S]) (simp add: AuthRspStateMachineInit_def idle_defs)
qed

lemma SyncStateMachineInit_ok:
  assumes "length tr = 48"
  shows "\<exists>S. SyncStateMachineInit s tr = Some (s\<lparr>SyncMachine := S, BeaconTimer := RTMPInitTimer (BeaconTimer s) False, ScanTimer := RTMPInitTimer (ScanTimer s) False\<rparr>) \<and> table_of S MAX_SYNC_STATE MAX_SYNC_MSG sync_actions \<and> sm_CurrState S = 0"
proof -
  obtain S where S: "do { S0 \<leftarrow> StateMachineInit (SyncMachine s) tr MAX_SYNC_STATE MAX_SYNC_MSG Drop 0 0; set_actions sync_actions S0 } = Some S"
    "table_of S MAX_SYNC_STATE MAX_SYNC_MSG sync_actions" "sm_CurrState S = 0"
    using machine_init_table[OF _ _ _ machine_bounds(4), of tr "SyncMachine s"] assms by (auto simp: table_sizes)
  then show ?thesis by (intro exI[of _ S]) (simp add: SyncStateMachineInit_def idle_defs)
qed

lemma ActionStateMachineInit_ok:
  assumes "length tr = 24"
  shows "\<exists>S. ActionStateMachineInit s tr = Some (s\<lparr>ActMachine := S\<rparr>) \<and> table_of S MAX_ACT_STATE MAX_ACT_MSG act_actions \<and> sm_CurrState S = 0"
proof -
  obtain S where S: "do { S0 \<leftarrow> StateMachineInit (ActMachine s) tr MAX_ACT_STATE MAX_ACT_MSG Drop 0 0; set_actions act_actions S0 } = Some S"
    "table_of S MAX_ACT_STATE MAX_ACT_MSG act_actions" "sm_CurrState S = 0"
    using machine_init_table[OF _ _ _ machine_bounds(5), of tr "ActMachine s"] assms by (auto simp: table_sizes)
  then show ?thesis by (intro exI[of _ S]) (simp add: ActionStateMachineInit_def idle_defs)
qed

lemma WpaStateMachineInit_ok:
  assumes "length tr = 5"
  shows "\<exists>S. WpaStateMachineInit s tr = Some (s\<lparr>WpaMachine := S\<rparr>) \<and> table_of S MAX_WPA_PTK_STATE MAX_WPA_MSG wpa_actions \<and> sm_CurrState S = 0"
proof -
  obtain S where S: "do { S0 \<leftarrow> StateMachineInit (WpaMachine s) tr MAX_WPA_PTK_STATE MAX_WPA_MSG Drop 0 0; set_actions wpa_actions S0 } = Some S"
    "table_of S MAX_WPA_PTK_STATE MAX_WPA_MSG wpa_actions" "sm_CurrState S = 0"
    using machine_init_table[OF _ _ _ machine_bounds(6), of tr "WpaMachine s"] assms by (auto simp: table_sizes)
  then show ?thesis by (intro exI[of _ S]) (simp add: WpaStateMachineInit_def idle_defs)
qed

text \<open>The fields that initialisation leaves alone.\<close>

definition mlme_keeps :: "'a mlme_scheme \<Rightarrow> 'a mlme_scheme \<Rightarrow> bool" where
  "mlme_keeps s s' \<longleftrightarrow> Queue s' = Queue s \<and> bRunning s' = bRunning s \<and> Flags s' = Flags s \<and> ate_on s' = ate_on s"

lemma mlme_init_machines_tables:
  assumes "length a1 = 44" "length a2 = 9" "length a3 = 6" "length a4 = 48" "length a5 = 5" "length a6 = 24"
  shows "\<exists>s'. mlme_init_machines s (a1, a2, a3, a4, a5, a6) = Some s' \<and> tables_built s' \<and> mlme_keeps s s'"
proof -
  from AssocStateMachineInit_ok[OF assms(1), of s] obtain S1 s1 where 1: "AssocStateMachineInit s a1 = Some s1"
    "table_of S1 MAX_ASSOC_STATE MAX_ASSOC_MSG assoc_actions" "AssocMachine s1 = S1" "mlme_keeps s s1" by (force simp: mlme_keeps_def)
  from AuthStateMachineInit_ok[OF assms(2), of s1] obtain S2 s2 where 2: "AuthStateMachineInit s1 a2 = Some s2"
    "table_of S2 MAX_AUTH_STATE MAX_AUTH_MSG auth_actions" "AssocMachine s2 = S1" "AuthMachine s2 = S2"
    "mlme_keeps s s2" using 1 by (force simp: mlme_keeps_def)
  from AuthRspStateMachineInit_ok[OF assms(3), of s2] obtain S3 s3 where 3: "AuthRspStateMachineInit s2 a3 = Some s3"
    "table_of S3 MAX_AUTH_RSP_STATE MAX_AUTH_RSP_MSG auth_rsp_actions" "AssocMachine s3 = S1" "AuthMachine s3 = S2"
    "AuthRspMachine s3 = S3" "mlme_keeps s s3" using 2 by (force simp: mlme_keeps_def)
  from SyncStateMachineInit_ok[OF assms(4), of s3] obtain S4 s4 where 4: "SyncStateMachineInit s3 a4 = Some s4"
    "table_of S4 MAX_SYNC_STATE MAX_SYNC_MSG sync_actions" "AssocMachine s4 = S1" "AuthMachine s4 = S2"
    "AuthRspMachine s4 = S3" "SyncMachine s4 = S4" "mlme_keeps s s4" using 3 by (force simp: mlme_keeps_def)
  from WpaStateMachineInit_ok[OF assms(5), of "s4\<lparr>CntlMachine_CurrState := 0\<rparr>"] obtain S5 s5 where 5:
    "WpaStateMachineInit (s4\<lparr>CntlMachine_CurrState := 0\<rparr>) a5 = Some s5"
    "table_of S5 MAX_WPA_PTK_STATE MAX_WPA_MSG wpa_actions" "AssocMachine s5 = S1" "AuthMachine s5 = S2"
    "AuthRspMachine s5 = S3" "SyncMachine s5 = S4" "WpaMachine s5 = S5" "mlme_keeps s s5" using 4 by (force simp: mlme_keeps_def)
  from ActionStateMachineInit_ok[OF assms(6), of s5] obtain S6 s6 where 6: "ActionStateMachineInit s5 a6 = Some s6"
    "table_of S6 MAX_ACT_STATE MAX_ACT_MSG act_actions" "AssocMachine s6 = S1" "AuthMachine s6 = S2"
    "AuthRspMachine s6 = S3" "SyncMachine s6 = S4" "WpaMachine s6 = S5" "ActMachine s6 = S6" "mlme_keeps s s6"
    using 5 by (force simp: mlme_keeps_def)
  have "tables_built s6" using 1(2) 2(2) 3(2) 4(2) 5(2) 6(2-) by (simp add: tables_built_def)
  moreover have "mlme_init_machines s (a1, a2, a3, a4, a5, a6) = Some s6"
    using 1(1) 2(1) 3(1) 4(1) 5(1) 6(1) by (simp add: mlme_init_machines_def)
  ultimately show ?thesis using 6(9) by blast
qed

section \<open>Received frames\<close>

lemma WpaMsgTypeSubst_ok: "WpaMsgTypeSubst e ty = (True, ty') \<Longrightarrow> ty' < MAX_WPA_MSG"
  by (auto simp: WpaMsgTypeSubst_def wpa_defs split: if_splits)

lemma category_in_range:
  "(if ucast (cat AND 0x7F) > MAX_PEER_CATE_MSG then MT2_ACT_INVALID else ucast (cat AND (0x7F :: byte))) < MAX_ACT_MSG"
  by (auto simp: act_defs word_less_nat_alt word_le_nat_alt)

lemma le16_Some: "i + 1 < length f \<Longrightarrow> \<exists>v. le16 f i = Some v"
  by (simp add: le16_def)

text \<open>A frame that reaches the end of the EAPOL type field is classified without reading past its
  end, and a class it is given is in range.\<close>

lemma MsgTypeSubst_in_range:
  assumes "34 \<le> length f"
  shows "\<exists>ok ma ty. MsgTypeSubst f 0xff 0 = Some (ok, ma, ty) \<and> (ok \<longrightarrow> msg_ok ma ty)"
proof -
  obtain seq where seq: "le16 f (LENGTH_802_11 + 2) = Some seq"
    using le16_Some[of "LENGTH_802_11 + 2" f] assms by (auto simp: LENGTH_802_11_def)
  obtain alg where alg: "le16 f LENGTH_802_11 = Some alg"
    using le16_Some[of LENGTH_802_11 f] assms by (auto simp: LENGTH_802_11_def)
  have "0 < length f" using assms by linarith
  then have fc: "nth_opt f 0 = Some (f ! 0)" by simp
  have et: "nth_opt f (LENGTH_802_11 + LENGTH_802_1_H + 1) = Some (f ! 33)"
    and cat: "nth_opt f LENGTH_802_11 = Some (f ! 24)"
    using assms by (simp_all add: LENGTH_802_11_def LENGTH_802_1_H_def)
  obtain wok wty where w: "WpaMsgTypeSubst (f ! 33) 0 = (wok, wty)" by (cases "WpaMsgTypeSubst (f ! 33) 0")
  have wr: "wok \<longrightarrow> wty < MAX_WPA_MSG" using w WpaMsgTypeSubst_ok[of "f ! 33" 0 wty] by (cases wok) auto
  have unknown: "msg_ok 0xff 0" by (simp add: msg_ok_def machine_defs)
  show ?thesis
  proof (cases "FC_Type (f ! 0) = BTYPE_DATA")
    case True
    then show ?thesis using wr et w by (simp add: MsgTypeSubst_def fc msg_ok_def machine_defs)
  next
    case False
    define sub where "sub = FC_SubType (f ! 0)"
    consider (auth) "sub = SUBTYPE_AUTH" | (act) "sub = SUBTYPE_ACTION \<or> sub = SUBTYPE_ACTION_NO_ACK"
      | (other) "sub \<noteq> SUBTYPE_AUTH" "sub \<noteq> SUBTYPE_ACTION" "sub \<noteq> SUBTYPE_ACTION_NO_ACK" by blast
    then show ?thesis
    proof cases
      case auth
      then show ?thesis using False unknown seq
        by (auto simp: MsgTypeSubst_def fc alg sub_def[symmetric] Let_def subtype_defs msg_ok_def machine_defs auth_defs)
    next
      case act
      then have "MsgTypeSubst f 0xff 0 = Some (True, ACTION_STATE_MACHINE,
         if ucast (f ! 24 AND 0x7F) > MAX_PEER_CATE_MSG then MT2_ACT_INVALID else ucast (f ! 24 AND 0x7F))"
        using False by (auto simp: MsgTypeSubst_def fc cat sub_def[symmetric] Let_def subtype_defs)
      moreover have "msg_ok ACTION_STATE_MACHINE
         (if ucast (f ! 24 AND 0x7F) > MAX_PEER_CATE_MSG then MT2_ACT_INVALID else ucast (f ! 24 AND 0x7F))"
        using category_in_range[of "f ! 24"] by (simp add: msg_ok_def machine_defs)
      ultimately show ?thesis by blast
    next
      case other
      then show ?thesis using False
        by (auto simp: MsgTypeSubst_def fc sub_def[symmetric] Let_def msg_ok_def machine_defs assoc_defs auth_defs sync_defs)
    qed
  qed
qed

section \<open>The loop\<close>

text \<open>A weight on messages that counts every message at least once bounds the work that is left: the
  messages in the queue and those their handlers will add.\<close>

definition q_weight :: "(MLME_QUEUE_ELEM \<Rightarrow> nat) \<Rightarrow> MLME_QUEUE \<Rightarrow> nat" where
  "q_weight w q = sum_list (map w (q_abs q))"

text \<open>What a handler of messages has to meet: run on an element of its machine, in a state in order
  whose work fits the queue, it returns, keeps the invariant and the head of the queue, and the
  messages it adds weigh less than the element it consumes.\<close>

definition handler_ok :: "'a handler \<Rightarrow> (MLME_QUEUE_ELEM \<Rightarrow> nat) \<Rightarrow> bool" where
  "handler_ok act w \<longleftrightarrow> (\<forall>e. 0 < w e) \<and>
    (\<forall>f i s e. mlme_inv s \<and> unat i < 40 \<and> e = q_Entry (Queue s) ! unat i \<and> elem_ok e \<and>
        f \<in> machine_funcs (qe_Machine e) \<and> q_weight w (Queue s) + w e \<le> 40 \<longrightarrow>
      (\<exists>s'. run_action act f i s = Some s' \<and> mlme_inv s' \<and> q_Head (Queue s') = q_Head (Queue s) \<and>
        q_weight w (Queue s') < q_weight w (Queue s) + w e))"

lemma q_weight_bound:
  assumes "\<forall>e. 0 < w e"
  shows "unat (q_Num q) \<le> q_weight w q"
proof -
  have "length es \<le> sum_list (map w es)" for es
  proof (induction es)
    case (Cons e es)
    have "0 < w e" using assms by simp
    with Cons show ?case by simp
  qed simp
  from this[of "q_abs q"] show ?thesis by (simp add: q_weight_def)
qed

lemma slot_before_head:
  assumes "queue_inv q" "unat (q_Num q) \<le> 39" "unat (q_Head q) = (unat i + 1) mod 40" "unat i < 40"
  shows "unat i \<notin> q_slots q"
proof
  assume "unat i \<in> q_slots q"
  then obtain k where k: "k < unat (q_Num q)" "unat i = (unat (q_Head q) + k) mod 40"
    by (auto simp: q_slots_def q_index_def)
  then have "unat i = (unat i + Suc k) mod 40" unfolding assms(3) by (simp add: mod_simps)
  then have "(unat i + Suc k) mod 40 = unat i mod 40" using assms(4) by simp
  then have "40 dvd Suc k" by (simp add: mod_eq_dvd_iff_nat)
  then have "40 \<le> Suc k" by (rule dvd_imp_le) simp
  then show False using k(1) assms(2) by simp
qed

lemma mlme_turn_ok:
  assumes "handler_ok act w" "mlme_inv s" "\<not> MlmeQueueEmpty (Queue s)" "q_weight w (Queue s) \<le> 40"
  obtains s' where "mlme_turn act s = Some s'" "mlme_inv s'" "q_weight w (Queue s') < q_weight w (Queue s)"
proof -
  have inv: "queue_inv (Queue s)" and nz: "q_Num (Queue s) \<noteq> 0" and mi: "tables_built s"
    and eo: "list_all elem_ok (q_abs (Queue s))"
    using assms(2,3) by (auto simp: mlme_inv_def MlmeQueueEmpty_def)
  have pos: "\<forall>e. 0 < w e" using assms(1) by (simp add: handler_ok_def)
  obtain i q where dq: "MlmeDequeue (Queue s) = (i, q)" by (cases "MlmeDequeue (Queue s)")
  note R = dequeue_refines[OF inv nz dq]
  let ?s = "s\<lparr>Queue := q\<rparr>"
  let ?e = "q_Entry q ! unat i"
  have inv1: "mlme_inv ?s" using R(1) mi eo unfolding R(4) by (simp add: mlme_inv_def)
  have w1: "q_weight w (Queue s) = w ?e + q_weight w q" by (simp add: q_weight_def R(2,4))
  have head: "unat (q_Head q) = (unat i + 1) mod 40"
    using dq unat_queue_next[OF queue_invD(4)[OF inv]] by (auto simp: MlmeDequeue_def)
  have el: "unat i < length (q_Entry (Queue ?s))" "elem_ok (q_Entry (Queue ?s) ! unat i)"
    using R(2,3,4) queue_invD(1)[OF inv] eo by auto
  have "\<exists>s1. mlme_dispatch act i ?s = Some s1 \<and> mlme_inv s1 \<and> q_Head (Queue s1) = q_Head q \<and>
      q_weight w (Queue s1) < q_weight w (Queue s)"
  proof -
    have r: "mlme_inv (MlmeRestartStateMachine ?s)"
      using inv1 by (simp add: mlme_inv_def restart_tables)
    have lt: "q_weight w q < q_weight w (Queue s)" using pos w1 by simp
    from mlme_dispatch_cases[of ?s i act] mi el consider
      (run) f where "f \<in> machine_funcs (qe_Machine ?e)" "mlme_dispatch act i ?s = run_action act f i ?s"
      | (restart) "mlme_dispatch act i ?s = Some (MlmeRestartStateMachine ?s)"
      | (none) "mlme_dispatch act i ?s = Some ?s" by auto
    then show ?thesis
    proof cases
      case run
      have "mlme_inv ?s \<and> unat i < 40 \<and> ?e = q_Entry (Queue ?s) ! unat i \<and> elem_ok ?e \<and>
          f \<in> machine_funcs (qe_Machine ?e) \<and> q_weight w (Queue ?s) + w ?e \<le> 40"
        using inv1 R(3) el run(1) assms(4) w1 by simp
      then obtain s1 where "run_action act f i ?s = Some s1" "mlme_inv s1" "q_Head (Queue s1) = q_Head (Queue ?s)"
        "q_weight w (Queue s1) < q_weight w (Queue ?s) + w ?e"
        using assms(1) unfolding handler_ok_def by blast
      then show ?thesis using run(2) w1 by simp
    qed (use inv1 r lt in auto)
  qed
  then obtain s1 where s1: "mlme_dispatch act i ?s = Some s1" "mlme_inv s1" "q_Head (Queue s1) = q_Head q"
    "q_weight w (Queue s1) < q_weight w (Queue s)" by blast
  have qi: "queue_inv (Queue s1)" using s1(2) by (simp add: mlme_inv_def)
  have num: "unat (q_Num (Queue s1)) \<le> 39"
    using q_weight_bound[OF pos, of "Queue s1"] s1(4) assms(4) by simp
  have out: "unat i \<notin> q_slots (Queue s1)"
    by (rule slot_before_head[OF qi num _ R(3)]) (simp add: s1(3) head)
  obtain q2 where q2: "free_elem i (Queue s1) = Some q2" "queue_inv q2" "q_abs q2 = q_abs (Queue s1)"
    using free_elem_refines[OF qi R(3) out] by metis
  have turn: "mlme_turn act s = Some (s1\<lparr>Queue := q2\<rparr>)"
    by (simp add: mlme_turn_def dq s1(1) q2(1))
  have inv2: "mlme_inv (s1\<lparr>Queue := q2\<rparr>)" using s1(2) q2 by (simp add: mlme_inv_def)
  show ?thesis using that[OF turn inv2] s1(4) q2(3) by (simp add: q_weight_def)
qed

lemma mlme_loop_returns:
  assumes "handler_ok act w" "mlme_inv s" "q_weight w (Queue s) \<le> 40"
  shows "\<exists>s'. mlme_loop act s = Some s' \<and> mlme_inv s' \<and> (MlmeQueueEmpty (Queue s') \<or> mlme_stop s')"
  using assms(2,3)
proof (induction "q_weight w (Queue s)" arbitrary: s rule: less_induct)
  case less
  show ?case
  proof (cases "MlmeQueueEmpty (Queue s) \<or> mlme_stop s")
    case True
    then show ?thesis using less.prems by (subst mlme_loop.simps) auto
  next
    case False
    then have ne: "\<not> MlmeQueueEmpty (Queue s)" by simp
    obtain s' where s': "mlme_turn act s = Some s'" "mlme_inv s'" "q_weight w (Queue s') < q_weight w (Queue s)"
      by (rule mlme_turn_ok[OF assms(1) less.prems(1) ne less.prems(2)])
    from less.hyps[OF s'(3,2)] less.prems(2) s'(3) False s'(1) show ?thesis by (subst mlme_loop.simps) simp
  qed
qed

section \<open>The two enqueue functions\<close>

lemma MlmeEnqueueForRecv_ok:
  assumes "mlme_inv s" "34 \<le> length f" "length f \<le> 1600"
  shows "\<exists>ok s'. MlmeEnqueueForRecv s r (of_nat (length f)) f = Some (ok, s') \<and> mlme_inv s' \<and>
    (ok \<longrightarrow> unat (q_Num (Queue s)) < 20 \<and> q_Num (Queue s') = q_Num (Queue s) + 1) \<and> (\<not> ok \<longrightarrow> s' = s)"
proof -
  have qi: "queue_inv (Queue s)" using assms(1) by (simp add: mlme_inv_def)
  note D = queue_invD[OF qi]
  let ?n = "of_nat (length f) :: 32 word"
  have n: "unat ?n = length f" using assms(3) by (simp add: unat_of_nat)
  have n': "\<not> ?n > 1600" using n assms(3) by (simp add: word_less_nat_alt)
  obtain ok ma ty where c: "MsgTypeSubst f 0xff 0 = Some (ok, ma, ty)" "ok \<longrightarrow> msg_ok ma ty"
    using MsgTypeSubst_in_range[OF assms(2)] by blast
  consider (refuse) "MlmeEnqueueForRecv s r ?n f = Some (False, s)"
    | (take) "ok" "unat (q_Num (Queue s)) < 20" "\<not> ate_on s"
      "\<not> RTMP_TEST_FLAG s (fRTMP_ADAPTER_HALT_IN_PROGRESS OR fRTMP_ADAPTER_NIC_NOT_EXIST)"
      "\<not> qe_Occupied (q_Entry (Queue s) ! unat (q_Tail (Queue s)))"
  proof -
    have full: "MlmeQueueFull (Queue s) 0 = Some (20 \<le> q_Num (Queue s) \<or> qe_Occupied (q_Entry (Queue s) ! unat (q_Tail (Queue s))))"
      using D by (simp add: MlmeQueueFull_def MAX_LEN_OF_MLME_QUEUE_def)
    show ?thesis
    proof (cases "ok \<and> unat (q_Num (Queue s)) < 20 \<and> \<not> ate_on s \<and>
        \<not> RTMP_TEST_FLAG s (fRTMP_ADAPTER_HALT_IN_PROGRESS OR fRTMP_ADAPTER_NIC_NOT_EXIST) \<and>
        \<not> qe_Occupied (q_Entry (Queue s) ! unat (q_Tail (Queue s)))")
      case True
      then show ?thesis using that(2) by blast
    next
      case False
      then have "MlmeEnqueueForRecv s r ?n f = Some (False, s)"
        using full c(1) by (cases ok) (auto simp: MlmeEnqueueForRecv_def word_le_nat_alt)
      then show ?thesis by (rule that(1))
    qed
  qed
  then show ?thesis
  proof cases
    case refuse
    then show ?thesis using assms(1) by auto
  next
    case take
    let ?f = "\<lambda>e. copy_msg (Some f) ?n
        (e\<lparr>qe_Occupied := True, qe_Machine := ma, qe_MsgType := ty, qe_MsgLen := ?n,
           qe_TimeStampLow := ri_TimeStampLow r, qe_TimeStampHigh := ri_TimeStampHigh r,
           qe_Rssi0 := ri_Rssi0 r, qe_Rssi1 := ri_Rssi1 r, qe_Rssi2 := ri_Rssi2 r,
           qe_AntSel := ri_AntSel r, qe_Signal := ri_Signal r, qe_Wcid := ucast (ri_Wcid r),
           qe_OpMode := ri_OpMode r, qe_Priv := 0, qe_Channel := LatchRfRegs_Channel s\<rparr>)"
    let ?slot = "q_Entry (Queue s) ! unat (q_Tail (Queue s))"
    have ls: "length (qe_Msg ?slot) = 1600" using D by blast
    obtain e where e: "?f ?slot = Some e" "length (qe_Msg e) = 1600" "elem_ok e"
      using ls assms(3) n c(2) take(1) by (simp add: copy_msg_def move_memory_def elem_ok_def)
    obtain q' where q': "queue_put (Queue s) ?f = Some q'" "queue_inv q'" "q_abs q' = q_abs (Queue s) @ [e]"
      "q_Num q' = q_Num (Queue s) + 1"
      by (rule queue_put_refines[OF qi _, of ?f, OF _ e(1,2)]) (use take(2) in auto)
    have "MlmeEnqueueForRecv s r ?n f = Some (True, mlme_call RTUSBMlmeUp (s\<lparr>Queue := q'\<rparr>))"
      using take n' c(1) q'(1) D unfolding MlmeEnqueueForRecv_def
      by (simp add: MlmeQueueFull_def MAX_LEN_OF_MLME_QUEUE_def MGMT_DMA_BUFFER_SIZE_def word_le_nat_alt)
    moreover have "mlme_inv (mlme_call RTUSBMlmeUp (s\<lparr>Queue := q'\<rparr>))"
      using assms(1) q' e(3) by (simp add: mlme_inv_def) (simp add: mlme_call_def)
    ultimately show ?thesis using take(2) q'(4) by (auto simp: mlme_call_def)
  qed
qed

lemma MlmeEnqueue_ok:
  assumes "mlme_inv s" "length bs \<le> 1600" "msg_ok ma ty"
  shows "\<exists>ok s'. MlmeEnqueue s ma ty (of_nat (length bs)) (Some bs) pr = Some (ok, s') \<and> mlme_inv s' \<and>
    q_Head (Queue s') = q_Head (Queue s) \<and> bRunning s' = bRunning s \<and>
    (ok \<longrightarrow> q_msgs (Queue s') = q_msgs (Queue s) @ [(ma, ty, bs, pr)] \<and>
      (\<exists>e. q_abs (Queue s') = q_abs (Queue s) @ [e] \<and> qe_Machine e = ma)) \<and>
    (\<not> ok \<longrightarrow> s' = s)"
proof -
  have qi: "queue_inv (Queue s)" using assms(1) by (simp add: mlme_inv_def)
  show ?thesis
  proof (cases "RTMP_TEST_FLAG s (fRTMP_ADAPTER_HALT_IN_PROGRESS OR fRTMP_ADAPTER_NIC_NOT_EXIST) \<or> q_Num (Queue s) = 40")
    case True
    then have "MlmeEnqueue s ma ty (of_nat (length bs)) (Some bs) pr = Some (False, s)"
      by (auto simp: MlmeEnqueue_def mlme_enqueue_full)
    then show ?thesis using assms(1) by auto
  next
    case False
    then have "unat (q_Num (Queue s)) < 40"
      using queue_invD(3)[OF qi] by (auto simp: word_unat_eq_iff order_less_le)
    from mlme_enqueue_room[OF qi this assms(2), of ma ty pr] obtain q' e where q':
      "mlme_enqueue (Queue s) ma ty (of_nat (length bs)) (Some bs) pr = Some (True, q')" "queue_inv q'"
      "q_msgs q' = q_msgs (Queue s) @ [(ma, ty, bs, pr)]" "q_abs q' = q_abs (Queue s) @ [e]"
      "qe_Machine e = ma" "qe_MsgType e = ty" "q_Num q' = q_Num (Queue s) + 1" "q_Head q' = q_Head (Queue s)"
      by metis
    then have "MlmeEnqueue s ma ty (of_nat (length bs)) (Some bs) pr = Some (True, s\<lparr>Queue := q'\<rparr>)"
      using False by (simp add: MlmeEnqueue_def)
    moreover have "mlme_inv (s\<lparr>Queue := q'\<rparr>)"
      using assms(1,3) q' by (simp add: mlme_inv_def elem_ok_def)
    ultimately show ?thesis using q' by auto
  qed
qed

section \<open>The station's confirming actions meet the contract\<close>

text \<open>A message to the control machine weighs 1, any other 2: its handler may confirm once.\<close>

definition conf_weight :: "MLME_QUEUE_ELEM \<Rightarrow> nat" where
  "conf_weight e = (if qe_Machine e = MLME_CNTL_STATE_MACHINE then 1 else 2)"

lemma MlmeEnqueue_NULL: "MlmeEnqueue s ma ty 0 (Some []) pr = MlmeEnqueue s ma ty 0 None pr"
proof -
  have "copy_msg (Some []) 0 = copy_msg None 0" by (simp add: copy_msg_def move_memory_def fun_eq_iff)
  then show ?thesis by (simp add: MlmeEnqueue_def mlme_enqueue_def cong: if_cong)
qed

lemma confirm_ok:
  assumes "mlme_inv s"
  shows "\<exists>s'. confirm conf st s = Some s' \<and> mlme_inv s' \<and> q_Head (Queue s') = q_Head (Queue s) \<and>
    q_weight conf_weight (Queue s') \<le> q_weight conf_weight (Queue s) + 1"
proof -
  have "msg_ok MLME_CNTL_STATE_MACHINE conf" by (simp add: msg_ok_def machine_defs)
  from MlmeEnqueue_ok[OF assms, of "status_bytes st", OF _ this, of 0] obtain ok s' where s':
    "MlmeEnqueue s MLME_CNTL_STATE_MACHINE conf 2 (Some (status_bytes st)) 0 = Some (ok, s')" "mlme_inv s'"
    "q_Head (Queue s') = q_Head (Queue s)"
    "ok \<longrightarrow> (\<exists>e. q_abs (Queue s') = q_abs (Queue s) @ [e] \<and> qe_Machine e = MLME_CNTL_STATE_MACHINE)"
    "\<not> ok \<longrightarrow> s' = s" by (auto simp: status_bytes_def)
  then show ?thesis by (cases ok) (auto simp: confirm_def q_weight_def conf_weight_def)
qed

lemma confirm_answers:
  assumes "mlme_inv s" "unat (q_Num (Queue s)) < 40"
    and "\<not> RTMP_TEST_FLAG s (fRTMP_ADAPTER_HALT_IN_PROGRESS OR fRTMP_ADAPTER_NIC_NOT_EXIST)"
  shows "\<exists>s'. confirm conf st s = Some s' \<and> mlme_inv s' \<and>
    q_msgs (Queue s') = q_msgs (Queue s) @ [(MLME_CNTL_STATE_MACHINE, conf, status_bytes st, 0)]"
proof -
  have qi: "queue_inv (Queue s)" using assms(1) by (simp add: mlme_inv_def)
  have l: "length (status_bytes st) = 2" by (simp add: status_bytes_def)
  note R = mlme_enqueue_room[OF qi assms(2), of "status_bytes st" MLME_CNTL_STATE_MACHINE conf 0, unfolded l, simplified]
  obtain q' e where q': "mlme_enqueue (Queue s) MLME_CNTL_STATE_MACHINE conf 2 (Some (status_bytes st)) 0 = Some (True, q')"
    "queue_inv q'" "q_msgs q' = q_msgs (Queue s) @ [(MLME_CNTL_STATE_MACHINE, conf, status_bytes st, 0)]"
    "q_abs q' = q_abs (Queue s) @ [e]" "qe_Machine e = MLME_CNTL_STATE_MACHINE" "qe_MsgType e = conf"
    by (rule R)
  have "confirm conf st s = Some (s\<lparr>Queue := q'\<rparr>)" using q'(1) assms(3) by (simp add: confirm_def MlmeEnqueue_def)
  moreover have "mlme_inv (s\<lparr>Queue := q'\<rparr>)"
    using assms(1) q' by (simp add: mlme_inv_def elem_ok_def msg_ok_def machine_defs)
  ultimately show ?thesis using q'(3) by simp
qed

lemma set_state_inv:
  assumes "mlme_inv s"
  shows "mlme_inv (set_assoc_state ASSOC_IDLE s)" "mlme_inv (set_auth_state AUTH_REQ_IDLE s)"
    "mlme_inv (set_sync_state SYNC_IDLE s)"
  using assms by (simp_all add: mlme_inv_def set_assoc_state_def set_auth_state_def set_sync_state_def
      tables_built_def table_of_reset assoc_defs auth_defs sync_defs)

lemma set_state_Queue [simp]:
  "Queue (set_assoc_state st s) = Queue s" "Queue (set_auth_state st s) = Queue s"
  "Queue (set_sync_state st s) = Queue s"
  by (simp_all add: set_assoc_state_def set_auth_state_def set_sync_state_def)

definition confirming :: "STATE_MACHINE_FUNC set" where
  "confirming = {AssocTimeoutAction, ReassocTimeoutAction, DisassocTimeoutAction, InvalidStateWhenAssoc,
     InvalidStateWhenReassoc, InvalidStateWhenDisassociate, AuthTimeoutAction, InvalidStateWhenAuth,
     BeaconTimeoutAtJoinAction, InvalidStateWhenStart}"

lemma station_actions_confirming:
  assumes "mlme_inv s" "f \<in> confirming"
  shows "\<exists>s'. station_actions other f i s = Some s' \<and> mlme_inv s' \<and> q_Head (Queue s') = q_Head (Queue s) \<and>
    q_weight conf_weight (Queue s') \<le> q_weight conf_weight (Queue s) + 1"
proof -
  note A = set_state_inv[OF assms(1)]
  show ?thesis
    using assms(2) confirm_ok[OF A(1)] confirm_ok[OF A(2)] confirm_ok[OF A(3)]
    by (auto simp: confirming_def station_actions_def confirm_actions_def)
qed

lemma station_actions_other:
  "f \<notin> confirming \<Longrightarrow> station_actions other f i s = other f i s"
  by (cases f) (simp_all add: confirming_def station_actions_def)

text \<open>A station whose other actions add nothing to the queue and keep the invariant meets the
  contract.\<close>

definition quiet :: "'a handler \<Rightarrow> bool" where
  "quiet other \<longleftrightarrow> (\<forall>f i s. mlme_inv s \<longrightarrow>
     (\<exists>s'. other f i s = Some s' \<and> mlme_inv s' \<and> Queue s' = Queue s))"

lemma CNTL_funcs: "f \<in> machine_funcs ma \<Longrightarrow> f \<in> confirming \<Longrightarrow> ma \<noteq> MLME_CNTL_STATE_MACHINE"
  by (auto simp: machine_funcs_def confirming_def)

lemma station_actions_ok:
  assumes "quiet other"
  shows "handler_ok (station_actions other) conf_weight"
  unfolding handler_ok_def
proof (intro conjI allI impI; (elim conjE)?)
  fix f and i :: "32 word" and s :: "'a mlme_scheme" and e
  assume inv: "mlme_inv s" and e: "e = q_Entry (Queue s) ! unat i" and f: "f \<in> machine_funcs (qe_Machine e)"
  show "\<exists>s'. run_action (station_actions other) f i s = Some s' \<and> mlme_inv s' \<and>
      q_Head (Queue s') = q_Head (Queue s) \<and>
      q_weight conf_weight (Queue s') < q_weight conf_weight (Queue s) + conf_weight e"
  proof (cases "f \<in> confirming")
    case True
    then have "conf_weight e = 2" using CNTL_funcs[OF f True] by (simp add: conf_weight_def)
    moreover have "f \<noteq> Drop" using True by (auto simp: confirming_def)
    moreover obtain s' where "station_actions other f i s = Some s'" "mlme_inv s'"
      "q_Head (Queue s') = q_Head (Queue s)" "q_weight conf_weight (Queue s') \<le> q_weight conf_weight (Queue s) + 1"
      using station_actions_confirming[OF inv True] by blast
    ultimately show ?thesis by (auto simp: run_action_def)
  next
    case False
    from assms inv obtain s' where "other f i s = Some s'" "mlme_inv s'" "Queue s' = Queue s"
      unfolding quiet_def by blast
    then show ?thesis using inv
      by (auto simp: run_action_def station_actions_other[OF False] conf_weight_def)
  qed
qed (simp add: conf_weight_def)

end
