(* ===== verification/MlmeProps.thy ===== *)
theory MlmeProps
  imports MlmeInv
begin

text \<open>The properties of the MLME task: the queue, the tables, the classification of received frames,
  the handler loop, and the random byte generator.\<close>

section \<open>Concrete states\<close>

definition wit_elem :: MLME_QUEUE_ELEM where
  "wit_elem = \<lparr>qe_Msg = replicate 1600 0, qe_Machine = 0, qe_MsgType = 0, qe_MsgLen = 0, qe_TimeStampLow = 0,
    qe_TimeStampHigh = 0, qe_Rssi0 = 0, qe_Rssi1 = 0, qe_Rssi2 = 0, qe_AntSel = 0, qe_Signal = 0, qe_Channel = 0,
    qe_Wcid = 0, qe_Occupied = False, qe_OpMode = 0, qe_Priv = 0\<rparr>"

definition wit_queue :: MLME_QUEUE where
  "wit_queue = MlmeQueueInit \<lparr>q_Num = 7, q_Head = 3, q_Tail = 9, q_Entry = replicate 40 wit_elem\<rparr>"

definition wit_timer :: ralink_timer where
  "wit_timer = \<lparr>tm_Valid = False, tm_State = False, tm_PeriodicType = False, tm_Repeat = False,
    tm_TimerValue = 0, tm_pending = False, tm_timeout = 0\<rparr>"

definition wit_machine :: STATE_MACHINE where
  "wit_machine = \<lparr>sm_Base = 0, sm_NrState = 0, sm_NrMsg = 0, sm_CurrState = 0, sm_TransFunc = []\<rparr>"

definition wit_mlme0 :: mlme where
  "wit_mlme0 = \<lparr>Flags = 0, ate_on = False, LatchRfRegs_Channel = 6, CommonCfg_Channel = 6, Queue = wit_queue,
    bRunning = False, CntlMachine_CurrState = 0, AssocMachine = wit_machine, AuthMachine = wit_machine,
    AuthRspMachine = wit_machine, SyncMachine = wit_machine, WpaPskMachine = wit_machine, ActMachine = wit_machine,
    WpaMachine = wit_machine, AssocTimer = wit_timer, ReassocTimer = wit_timer, DisassocTimer = wit_timer,
    AuthTimer = wit_timer, BeaconTimer = wit_timer, ScanTimer = wit_timer, ShiftReg = 1, mlme_calls = []\<rparr>"

definition wit_arrays where
  "wit_arrays = (replicate 44 None, replicate 9 None, replicate 6 None, replicate 48 None, replicate 5 None,
    replicate 24 (None :: STATE_MACHINE_FUNC option))"

definition wit_mlme :: mlme where
  "wit_mlme = the (mlme_init_machines wit_mlme0 wit_arrays)"

lemma MlmeQueueInit_idle:
  assumes "length (q_Entry q) = 40"
  shows "queue_idle (MlmeQueueInit q)" "q_msgs (MlmeQueueInit q) = []"
  using assms by (auto simp: queue_idle_def queue_inv_def occ_inv_def q_slots_def q_msgs_def q_abs_def
      MlmeQueueInit_def MGMT_DMA_BUFFER_SIZE_def)

lemma wit_queue: "queue_idle wit_queue" "q_msgs wit_queue = []" "q_Num wit_queue = 0"
  unfolding wit_queue_def by (rule MlmeQueueInit_idle; simp)+ (simp add: MlmeQueueInit_def)

lemma wit_mlme: "mlme_init_machines wit_mlme0 wit_arrays = Some wit_mlme" "tables_built wit_mlme"
  "Queue wit_mlme = wit_queue" "mlme_inv wit_mlme" "bRunning wit_mlme = False" "Flags wit_mlme = 0"
proof -
  obtain s where s: "mlme_init_machines wit_mlme0 wit_arrays = Some s" "tables_built s" "mlme_keeps wit_mlme0 s"
    using mlme_init_machines_tables[of "replicate 44 None" "replicate 9 None" "replicate 6 None"
        "replicate 48 None" "replicate 5 None" "replicate 24 None" wit_mlme0]
    by (auto simp: wit_arrays_def)
  then have k: "Queue s = wit_queue" "bRunning s = False" "Flags s = 0"
    by (simp_all add: mlme_keeps_def wit_mlme0_def)
  have w: "wit_mlme = s" by (simp add: wit_mlme_def s(1))
  show "mlme_init_machines wit_mlme0 wit_arrays = Some wit_mlme" "tables_built wit_mlme"
    "Queue wit_mlme = wit_queue" "bRunning wit_mlme = False" "Flags wit_mlme = 0"
    using s k by (simp_all add: w)
  then show "mlme_inv wit_mlme"
    using wit_queue by (simp add: mlme_inv_def queue_idle_def q_abs_def)
qed

text \<open>The station with every action outside the development doing nothing.\<close>

definition wit_other :: "unit handler" where
  "wit_other f i s = Some s"


section \<open>The queue\<close>

text \<open>C11. The message queue is a bounded first-in first-out buffer: on a queue in order, with its 40
  slots, messages of at most 1600 bytes are accepted as long as there is a free slot, and come out in
  the order they went in, byte for byte, after those that were there before.\<close>

theorem mlme_queue_fifo:
  assumes "queue_idle q" and "list_all msg_fits ms" and "length (q_msgs q) + length ms \<le> 40"
  shows "\<exists>q1 q2. mq.push_all ms q = Some (replicate (length ms) True, q1) \<and>
    mq.pop_many (length (q_msgs q) + length ms) q1 = Some (q_msgs q @ ms, q2) \<and> queue_idle q2 \<and> q_msgs q2 = []"
  by (rule mq.push_all_pop_many[OF assms])

theorem mlme_queue_fifo_witness:
  "\<exists>q1 q2. mq.push_all [(1, 0, [7, 8], 5), (5, 34, [], 0)] wit_queue = Some ([True, True], q1) \<and>
    mq.pop_many 2 q1 = Some ([(1, 0, [7, 8], 5), (5, 34, [], 0)], q2) \<and> queue_idle q2 \<and> q_msgs q2 = []"
  using mlme_queue_fifo[OF wit_queue(1), of "[(1, 0, [7, 8], 5), (5, 34, [], 0)]"] wit_queue(2)
  by (simp add: msg_fits_def MGMT_DMA_BUFFER_SIZE_def numeral_2_eq_2)

section \<open>The tables\<close>

text \<open>The table of the authentication machine, as the comment above \<open>AuthStateMachineInit\<close> draws it.\<close>

definition auth_table :: "32 word \<Rightarrow> 32 word \<Rightarrow> STATE_MACHINE_FUNC" where
  "auth_table st msg =
    (if msg = MT2_MLME_AUTH_REQ then (if st = AUTH_REQ_IDLE then MlmeAuthReqAction else InvalidStateWhenAuth)
     else if msg = MT2_PEER_AUTH_EVEN then
       (if st = AUTH_REQ_IDLE then Drop
        else if st = AUTH_WAIT_SEQ2 then PeerAuthRspAtSeq2Action else PeerAuthRspAtSeq4Action)
     else (if st = AUTH_REQ_IDLE then Drop else AuthTimeoutAction))"

lemma less_3_cases: "(x :: 32 word) < 3 \<Longrightarrow> x = 0 \<or> x = 1 \<or> x = 2"
  by (simp add: word_less_nat_alt word_unat_eq_iff) linarith

lemma auth_action_of: "st < MAX_AUTH_STATE \<Longrightarrow> msg < MAX_AUTH_MSG \<Longrightarrow>
    action_of auth_actions Drop st msg = auth_table st msg"
  unfolding MAX_AUTH_STATE_def MAX_AUTH_MSG_def
  by (drule less_3_cases, drule less_3_cases) (auto simp: auth_actions_def auth_table_def auth_defs)

text \<open>The transition tables are what the initialisation functions list: given arrays of the
  declared sizes, the initialisation writes inside them, and afterwards every cell of every machine
  holds the action last set for its state and message, and \<open>Drop\<close> where none is set; the table
  of the authentication machine is the one its comment draws.\<close>

theorem transition_tables:
  assumes "length a1 = 44" and "length a2 = 9" and "length a3 = 6" and "length a4 = 48" and "length a5 = 5"
    and "length a6 = 24"
  shows "\<exists>s'. mlme_init_machines s (a1, a2, a3, a4, a5, a6) = Some s' \<and> tables_built s' \<and>
    (\<forall>st<MAX_AUTH_STATE. \<forall>msg<MAX_AUTH_MSG. sm_cell (AuthMachine s') msg st = Some (Some (auth_table st msg)))"
proof -
  obtain s' where s': "mlme_init_machines s (a1, a2, a3, a4, a5, a6) = Some s'" "tables_built s'"
    using mlme_init_machines_tables[OF assms, of s] by blast
  then have "\<forall>st<MAX_AUTH_STATE. \<forall>msg<MAX_AUTH_MSG. sm_cell (AuthMachine s') msg st = Some (Some (auth_table st msg))"
    by (auto simp: tables_built_def table_of_def auth_action_of)
  with s' show ?thesis by blast
qed

theorem transition_tables_witness: "\<exists>s'. mlme_init_machines wit_mlme0 wit_arrays = Some s' \<and>
    sm_cell (AuthMachine s') MT2_AUTH_TIMEOUT AUTH_WAIT_SEQ2 = Some (Some AuthTimeoutAction)"
proof -
  obtain s' where s': "mlme_init_machines wit_mlme0 wit_arrays = Some s'"
    "\<forall>st<MAX_AUTH_STATE. \<forall>msg<MAX_AUTH_MSG. sm_cell (AuthMachine s') msg st = Some (Some (auth_table st msg))"
    using transition_tables[of "replicate 44 None" "replicate 9 None" "replicate 6 None"
        "replicate 48 None" "replicate 5 None" "replicate 24 None" wit_mlme0]
    by (auto simp: wit_arrays_def)
  have "AUTH_WAIT_SEQ2 < MAX_AUTH_STATE" "MT2_AUTH_TIMEOUT < MAX_AUTH_MSG" by (simp_all add: auth_defs)
  with s' show ?thesis by (auto simp: auth_table_def auth_defs)
qed

section \<open>Received frames\<close>


definition wit_deauth :: "byte list" where
  "wit_deauth = 0xC0 # replicate 33 0"


lemma wit_deauth: "MsgTypeSubst wit_deauth 0xff 0 = Some (True, AUTH_RSP_STATE_MACHINE, MT2_PEER_DEAUTH)"
  by (simp add: wit_deauth_def MsgTypeSubst_def FC_Type_def FC_SubType_def BTYPE_DATA_def subtype_defs Let_def)


text \<open>C12. Received frames cannot fill the queue: a frame of 34 to 1600 bytes is either refused,
  leaving the state as it was, or appended, and it is appended only when fewer than 20 of the 40
  elements are in use, so that half of the queue is kept for the driver's own messages.\<close>

theorem received_frames_leave_room:
  assumes "mlme_inv s" and "34 \<le> length f" and "length f \<le> 1600"
  shows "\<exists>ok s'. MlmeEnqueueForRecv s r (of_nat (length f)) f = Some (ok, s') \<and> mlme_inv s' \<and>
    (ok \<longrightarrow> unat (q_Num (Queue s)) < 20 \<and> q_Num (Queue s') = q_Num (Queue s) + 1) \<and> (\<not> ok \<longrightarrow> s' = s)"
  by (rule MlmeEnqueueForRecv_ok[OF assms])

definition wit_rx :: rx_info where
  "wit_rx = \<lparr>ri_Wcid = 1, ri_TimeStampHigh = 0, ri_TimeStampLow = 0, ri_Rssi0 = 60, ri_Rssi1 = 0, ri_Rssi2 = 0,
    ri_AntSel = 0, ri_Signal = 0, ri_OpMode = 0\<rparr>"

theorem received_frames_leave_room_witness:
  "\<exists>ok s'. MlmeEnqueueForRecv wit_mlme wit_rx 34 wit_deauth = Some (ok, s') \<and> mlme_inv s' \<and>
    (ok \<longrightarrow> q_Num (Queue s') = q_Num (Queue wit_mlme) + 1)"
  using received_frames_leave_room[OF wit_mlme(4), of wit_deauth wit_rx] by (auto simp: wit_deauth_def)

section \<open>The handler\<close>





text \<open>What each confirming action reports: the confirmation and its status.\<close>

definition confirmation :: "STATE_MACHINE_FUNC \<Rightarrow> 32 word \<times> 16 word" where
  "confirmation f = (case f of
     AssocTimeoutAction \<Rightarrow> (MT2_ASSOC_CONF, MLME_REJ_TIMEOUT)
   | ReassocTimeoutAction \<Rightarrow> (MT2_REASSOC_CONF, MLME_REJ_TIMEOUT)
   | DisassocTimeoutAction \<Rightarrow> (MT2_DISASSOC_CONF, MLME_SUCCESS)
   | InvalidStateWhenAssoc \<Rightarrow> (MT2_ASSOC_CONF, MLME_STATE_MACHINE_REJECT)
   | InvalidStateWhenReassoc \<Rightarrow> (MT2_REASSOC_CONF, MLME_STATE_MACHINE_REJECT)
   | InvalidStateWhenDisassociate \<Rightarrow> (MT2_DISASSOC_CONF, MLME_STATE_MACHINE_REJECT)
   | AuthTimeoutAction \<Rightarrow> (MT2_AUTH_CONF, MLME_REJ_TIMEOUT)
   | InvalidStateWhenAuth \<Rightarrow> (MT2_AUTH_CONF, MLME_STATE_MACHINE_REJECT)
   | BeaconTimeoutAtJoinAction \<Rightarrow> (MT2_JOIN_CONF, MLME_REJ_TIMEOUT)
   | _ \<Rightarrow> (MT2_START_CONF, MLME_STATE_MACHINE_REJECT))"

text \<open>Every confirming action answers: with a free slot in the queue, each of the timeout and
  wrong-state actions of the station appends exactly one message to the queue, for the control machine,
  with the confirmation of the request and its status in two bytes, and keeps the invariant.\<close>

theorem confirming_actions_answer:
  assumes "mlme_inv s" and "f \<in> confirming" and "unat (q_Num (Queue s)) < 40"
    and "\<not> RTMP_TEST_FLAG s (fRTMP_ADAPTER_HALT_IN_PROGRESS OR fRTMP_ADAPTER_NIC_NOT_EXIST)"
  shows "\<exists>s'. station_actions other f i s = Some s' \<and> mlme_inv s' \<and> q_msgs (Queue s') = q_msgs (Queue s) @
    [(MLME_CNTL_STATE_MACHINE, fst (confirmation f), status_bytes (snd (confirmation f)), 0)]"
proof -
  have F: "\<not> RTMP_TEST_FLAG (set_assoc_state st s) (fRTMP_ADAPTER_HALT_IN_PROGRESS OR fRTMP_ADAPTER_NIC_NOT_EXIST)"
    "\<not> RTMP_TEST_FLAG (set_auth_state st s) (fRTMP_ADAPTER_HALT_IN_PROGRESS OR fRTMP_ADAPTER_NIC_NOT_EXIST)"
    "\<not> RTMP_TEST_FLAG (set_sync_state st s) (fRTMP_ADAPTER_HALT_IN_PROGRESS OR fRTMP_ADAPTER_NIC_NOT_EXIST)" for st
    using assms(4) by (simp_all add: RTMP_TEST_FLAG_def set_assoc_state_def set_auth_state_def set_sync_state_def)
  note I = set_state_inv[OF assms(1)]
  show ?thesis
    using assms(2) confirm_answers[OF I(1) _ F(1)] confirm_answers[OF I(2) _ F(2)] confirm_answers[OF I(3) _ F(3)] assms(3)
    by (auto simp: confirming_def station_actions_def confirm_actions_def confirmation_def)
qed

theorem confirming_actions_answer_witness:
  "\<exists>s'. station_actions wit_other AuthTimeoutAction 0 wit_mlme = Some s' \<and>
    q_msgs (Queue s') = [(MLME_CNTL_STATE_MACHINE, MT2_AUTH_CONF, status_bytes MLME_REJ_TIMEOUT, 0)]"
proof -
  have "AuthTimeoutAction \<in> confirming" "unat (q_Num (Queue wit_mlme)) < 40"
    "\<not> RTMP_TEST_FLAG wit_mlme (fRTMP_ADAPTER_HALT_IN_PROGRESS OR fRTMP_ADAPTER_NIC_NOT_EXIST)"
    using wit_queue(3) wit_mlme(3,6) by (simp_all add: confirming_def RTMP_TEST_FLAG_def)
  from confirming_actions_answer[OF wit_mlme(4) this, of wit_other 0] show ?thesis
    using wit_queue(2) wit_mlme(3) by (auto simp: confirmation_def)
qed

text \<open>A message can be lost when the queue is full: after the oldest of 40 messages has been taken
  out for handling, its slot is still in use by the handler but counts as free, so a message of 1600
  bytes or less that is queued meanwhile is accepted and stored in that slot; when the handler is done
  it releases the slot, and the accepted message is left in the queue with length 0.\<close>

theorem full_queue_loses_message:
  assumes "queue_inv q" and "q_Num q = 40" and "length bs \<le> 1600"
  shows "\<exists>i q1 q2 q3. MlmeDequeue q = (i, q1) \<and>
    mlme_enqueue q1 ma ty (of_nat (length bs)) (Some bs) pr = Some (True, q2) \<and>
    last (q_msgs q2) = (ma, ty, bs, pr) \<and> free_elem i q2 = Some q3 \<and> last (q_msgs q3) = (ma, ty, [], pr)"
proof -
  obtain i q1 where dq: "MlmeDequeue q = (i, q1)" by (cases "MlmeDequeue q")
  have nz: "q_Num q \<noteq> 0" using assms(2) by simp
  note R = dequeue_refines[OF assms(1) nz dq]
  have n1: "unat (q_Num q1) = 39" using R(7) assms(2) by simp
  have h1: "unat (q_Head q1) = (unat i + 1) mod 40"
    using dq unat_queue_next[OF queue_invD(4)[OF assms(1)]] by (auto simp: MlmeDequeue_def)
  have "unat (q_Tail q1) = ((unat i + 1) mod 40 + 39) mod 40" using queue_invD(6)[OF R(1)] n1 h1 by simp
  then have t1: "unat (q_Tail q1) = unat i" using R(3) by (simp add: mod_simps)
  have lt: "unat (q_Num q1) < 40" using n1 by simp
  obtain q2 e where q2: "mlme_enqueue q1 ma ty (of_nat (length bs)) (Some bs) pr = Some (True, q2)"
    "queue_inv q2" "q_msgs q2 = q_msgs q1 @ [(ma, ty, bs, pr)]" "q_abs q2 = q_abs q1 @ [e]"
    "qe_Machine e = ma" "qe_MsgType e = ty" "q_Num q2 = q_Num q1 + 1" "q_Head q2 = q_Head q1"
    "q_Entry q2 = (q_Entry q1)[unat (q_Tail q1) := e]"
    by (rule mlme_enqueue_room[OF R(1) lt assms(3)])
  have e: "q_Entry q2 ! unat i = e" using q2(9) t1 R(3) queue_invD(1)[OF R(1)] by simp
  let ?q3 = "q2\<lparr>q_Entry := (q_Entry q2)[unat i := e\<lparr>qe_Occupied := False, qe_MsgLen := 0\<rparr>]\<rparr>"
  have fr: "free_elem i q2 = Some ?q3" using R(3) queue_invD(1)[OF q2(2)] e by (simp add: free_elem_def)
  have n2: "unat (q_Num q2) = Suc 39" using n1 unat_inc[of "q_Num q1"] q2(7) by simp
  have up: "[0..<unat (q_Num q2)] = [0..<39] @ [39]" unfolding n2 by (rule upt_Suc_append) simp
  have idx: "q_index ?q3 39 = unat i" using h1 q2(8) R(3) by (simp add: q_index_def mod_simps)
  have "last (q_abs ?q3) = e\<lparr>qe_Occupied := False, qe_MsgLen := 0\<rparr>"
    using idx R(3) queue_invD(1)[OF q2(2)] up unfolding q_abs_def by simp
  moreover have "q_abs ?q3 \<noteq> []" using n2 by (simp add: q_abs_def)
  moreover have "msg_of e = (ma, ty, bs, pr)" using q2(3,4) by (simp add: q_msgs_def)
  ultimately have "last (q_msgs ?q3) = (ma, ty, [], pr)"
    by (simp add: q_msgs_def last_map) (auto simp: msg_of_def)
  then show ?thesis using dq q2(1,3) fr by auto
qed

theorem full_queue_loses_message_witness:
  "\<exists>q q1 q2 q3 i. mq.push_all (replicate 40 (1, 9, [], 0)) wit_queue = Some (replicate 40 True, q) \<and>
    MlmeDequeue q = (i, q1) \<and> mlme_enqueue q1 5 34 2 (Some [16, 0]) 0 = Some (True, q2) \<and>
    free_elem i q2 = Some q3 \<and> last (q_msgs q3) = (5, 34, [], 0)"
proof -
  have ok: "list_all msg_fits (replicate 40 (1, 9, [], 0))"
    by (simp add: msg_fits_def list_all_iff)
  have all: "map (\<lambda>i. i < 40) [0..<40] = replicate 40 True" by (auto intro: nth_equalityI)
  obtain q where q: "mq.push_all (replicate 40 (1, 9, [], 0)) wit_queue = Some (replicate 40 True, q)"
    "queue_idle q" "length (q_msgs q) = 40"
    using mq.push_all_burst[OF wit_queue(1) ok] wit_queue(2) all by auto
  then have "queue_inv q" "q_Num q = 40" by (auto simp: queue_idle_def q_msgs_def word_unat_eq_iff)
  from full_queue_loses_message[OF this, of "[16, 0]" 5 34 0] q(1) show ?thesis by auto
qed

section \<open>Restart\<close>

text \<open>A restart puts every machine in its idle state and disarms the six request timers: no timer that
  was initialised is left pending, and nothing in the queue is touched.\<close>

theorem restart_is_idle:
  assumes "tables_built s"
  shows "tables_built (MlmeRestartStateMachine s) \<and> Queue (MlmeRestartStateMachine s) = Queue s \<and>
    sm_CurrState (AssocMachine (MlmeRestartStateMachine s)) = ASSOC_IDLE \<and>
    sm_CurrState (AuthMachine (MlmeRestartStateMachine s)) = AUTH_REQ_IDLE \<and>
    sm_CurrState (AuthRspMachine (MlmeRestartStateMachine s)) = AUTH_RSP_IDLE \<and>
    sm_CurrState (SyncMachine (MlmeRestartStateMachine s)) = SYNC_IDLE \<and>
    sm_CurrState (ActMachine (MlmeRestartStateMachine s)) = ACT_IDLE \<and>
    list_all (\<lambda>t. tm_Valid t \<longrightarrow> \<not> tm_pending t) (map (\<lambda>f. f (MlmeRestartStateMachine s))
      [AssocTimer, ReassocTimer, DisassocTimer, AuthTimer, BeaconTimer, ScanTimer])"
  using restart_tables[OF assms]
  by (auto simp: MlmeRestartStateMachine_def mlme_call_def Let_def RTMPCancelTimer_def RTMP_OS_Del_Timer_def)

theorem restart_is_idle_witness: "sm_CurrState (SyncMachine (MlmeRestartStateMachine wit_mlme)) = SYNC_IDLE"
  using restart_is_idle[OF wit_mlme(2)] by blast

section \<open>Random bytes\<close>

lemma lfsr_step_nonzero: "r \<noteq> 0 \<Longrightarrow> fst (lfsr_step r) \<noteq> 0"
proof -
  assume r: "r \<noteq> 0"
  have hi: "bit (x OR 0x80000000) 31" for x :: "32 word"
    by (simp add: bit_or_iff)
  show ?thesis
  proof (cases "r AND 1 = 0")
    case True
    have "\<exists>n. bit r n"
    proof (rule ccontr)
      assume "\<nexists>n. bit r n"
      then have "r = 0" by (auto intro: bit_eqI)
      with r show False by simp
    qed
    then obtain n where n: "bit r n" by blast
    have "n \<noteq> 0"
    proof
      assume "n = 0"
      then have "bit (r AND 1) 0" using n by (simp add: bit_and_iff)
      with True show False by simp
    qed
    with n
    have "bit (drop_bit 1 r) (n - 1)" by (simp add: bit_drop_bit_eq)
    then show ?thesis using True by (auto simp: lfsr_step_def)
  next
    case False
    then show ?thesis using hi[of "drop_bit 1 (r XOR LFSR_MASK)"] by (auto simp: lfsr_step_def)
  qed
qed

lemma random_bits_nonzero: "r \<noteq> 0 \<Longrightarrow> fst (random_bits n r R) \<noteq> 0"
proof (induction n arbitrary: r R)
  case (Suc n)
  then show ?case using lfsr_step_nonzero[of r] by (auto split: prod.splits)
qed simp

text \<open>The random byte generator never gets stuck: once the shift register is not zero, or is seeded
  from an up time that is not zero, it is not zero after any number of bytes.\<close>

theorem random_register_never_stuck:
  assumes "ShiftReg s \<noteq> 0 \<or> now \<noteq> 0" and "RandomByte now s = (b, s')"
  shows "ShiftReg s' \<noteq> 0"
  using assms random_bits_nonzero[of "if ShiftReg s = 0 then now else ShiftReg s" 8 0]
  by (auto simp: RandomByte_def Let_def split: prod.splits if_splits)

theorem random_register_never_stuck_witness: "ShiftReg (snd (RandomByte 5 wit_mlme0)) \<noteq> 0"
  using random_register_never_stuck[of wit_mlme0 5 "fst (RandomByte 5 wit_mlme0)" "snd (RandomByte 5 wit_mlme0)"]
  by simp

end
