(* ===== verification/Aes.thy ===== *)
theory Aes
  imports AesTables
begin

text \<open>The AES block cipher of common/crypt_aes.c: key expansion, encryption and decryption of one
  block. The context \<open>AES_CTX_STRUC\<close> is the state matrix, as a list of its four rows, and the
  expanded key, as the list of the columns written so far.\<close>

section \<open>Key expansion\<close>

definition AES_BLOCK_SIZES :: nat where "AES_BLOCK_SIZES = 16"
definition AES_KEY128_LENGTH :: nat where "AES_KEY128_LENGTH = 16"
definition AES_KEY192_LENGTH :: nat where "AES_KEY192_LENGTH = 24"
definition AES_KEY256_LENGTH :: nat where "AES_KEY256_LENGTH = 32"

lemmas aes_sizes = AES_BLOCK_SIZES_def AES_KEY128_LENGTH_def AES_KEY192_LENGTH_def AES_KEY256_LENGTH_def

definition sbox :: "byte \<Rightarrow> byte" where "sbox b = aes_sbox_enc ! unat b"
definition inv_sbox :: "byte \<Rightarrow> byte" where "inv_sbox b = aes_sbox_dec ! unat b"

text \<open>The columns taken from the key, and the next column after the columns \<open>W\<close>.\<close>

definition key_columns :: "byte list \<Rightarrow> nat \<Rightarrow> byte list list" where
  "key_columns Key Nk = map (\<lambda>i. [Key ! (4*i), Key ! (4*i + 1), Key ! (4*i + 2), Key ! (4*i + 3)]) [0..<Nk]"

definition rcon_byte :: "nat \<Rightarrow> nat \<Rightarrow> byte" where
  "rcon_byte i sh = ucast (drop_bit sh (aes_rcon ! i) AND 0xff)"

definition next_column :: "nat \<Rightarrow> byte list list \<Rightarrow> byte list" where
  "next_column Nk W =
    (let KeyIndex = length W; T = W ! (KeyIndex - 1);
         T' = (if KeyIndex mod Nk = 0 then
                 let rc = KeyIndex div Nk in
                 [sbox (T ! 1) XOR rcon_byte rc 24, sbox (T ! 2) XOR rcon_byte rc 16,
                  sbox (T ! 3) XOR rcon_byte rc 8, sbox (T ! 0) XOR rcon_byte rc 0]
               else if Nk > 6 \<and> KeyIndex mod Nk = 4 then
                 [sbox (T ! 0), sbox (T ! 1), sbox (T ! 2), sbox (T ! 3)]
               else T);
         P = W ! (KeyIndex - Nk)
     in [P ! 0 XOR T' ! 0, P ! 1 XOR T' ! 1, P ! 2 XOR T' ! 2, P ! 3 XOR T' ! 3])"

function expand_columns :: "nat \<Rightarrow> nat \<Rightarrow> byte list list \<Rightarrow> byte list list" where
  "expand_columns Nk n W =
    (if length W < n then expand_columns Nk n (W @ [next_column Nk W]) else W)"
  by auto
termination by (relation "measure (\<lambda>(Nk, n, W). n - length W)") auto

declare expand_columns.simps [simp del]

definition RT_AES_KeyExpansion :: "byte list \<Rightarrow> nat \<Rightarrow> byte list list" where
  "RT_AES_KeyExpansion Key KeyLength =
    (let Nk = KeyLength div 4 in expand_columns Nk (4 * (Nk + 6 + 1)) (key_columns Key Nk))"

section \<open>Rounds\<close>

text \<open>The state: four rows of four bytes. \<open>load_state\<close> and \<open>store_state\<close> are the two
  transfers between a block and the state.\<close>

type_synonym aes_state = "byte list list"

definition load_state :: "byte list \<Rightarrow> aes_state" where
  "load_state blk = map (\<lambda>r. map (\<lambda>c. blk ! (r + 4*c)) [0..<4]) [0..<4]"

definition store_state :: "aes_state \<Rightarrow> byte list" where
  "store_state s = map (\<lambda>i. s ! (i mod 4) ! (i div 4)) [0..<16]"

definition AddRoundKey :: "byte list list \<Rightarrow> nat \<Rightarrow> aes_state \<Rightarrow> aes_state" where
  "AddRoundKey W Round s =
    map (\<lambda>r. map (\<lambda>c. s ! r ! c XOR W ! (Round * 4 + c) ! r) [0..<4]) [0..<4]"

definition SubBytes :: "aes_state \<Rightarrow> aes_state" where
  "SubBytes s = map (\<lambda>r. map (\<lambda>c. sbox (s ! r ! c)) [0..<4]) [0..<4]"

definition InvSubBytes :: "aes_state \<Rightarrow> aes_state" where
  "InvSubBytes s = map (\<lambda>r. map (\<lambda>c. inv_sbox (s ! r ! c)) [0..<4]) [0..<4]"

definition ShiftRows :: "aes_state \<Rightarrow> aes_state" where
  "ShiftRows s =
    [s ! 0,
     [s ! 1 ! 1, s ! 1 ! 2, s ! 1 ! 3, s ! 1 ! 0],
     [s ! 2 ! 2, s ! 2 ! 3, s ! 2 ! 0, s ! 2 ! 1],
     [s ! 3 ! 3, s ! 3 ! 0, s ! 3 ! 1, s ! 3 ! 2]]"

definition InvShiftRows :: "aes_state \<Rightarrow> aes_state" where
  "InvShiftRows s =
    [s ! 0,
     [s ! 1 ! 3, s ! 1 ! 0, s ! 1 ! 1, s ! 1 ! 2],
     [s ! 2 ! 2, s ! 2 ! 3, s ! 2 ! 0, s ! 2 ! 1],
     [s ! 3 ! 1, s ! 3 ! 2, s ! 3 ! 3, s ! 3 ! 0]]"

definition m2 :: "byte \<Rightarrow> byte" where "m2 b = aes_mul_2 ! unat b"
definition m3 :: "byte \<Rightarrow> byte" where "m3 b = aes_mul_3 ! unat b"
definition m9 :: "byte \<Rightarrow> byte" where "m9 b = aes_mul_9 ! unat b"
definition mb :: "byte \<Rightarrow> byte" where "mb b = aes_mul_b ! unat b"
definition md :: "byte \<Rightarrow> byte" where "md b = aes_mul_d ! unat b"
definition me :: "byte \<Rightarrow> byte" where "me b = aes_mul_e ! unat b"

definition MixColumns :: "aes_state \<Rightarrow> aes_state" where
  "MixColumns s =
    [map (\<lambda>c. m2 (s ! 0 ! c) XOR m3 (s ! 1 ! c) XOR s ! 2 ! c XOR s ! 3 ! c) [0..<4],
     map (\<lambda>c. s ! 0 ! c XOR m2 (s ! 1 ! c) XOR m3 (s ! 2 ! c) XOR s ! 3 ! c) [0..<4],
     map (\<lambda>c. s ! 0 ! c XOR s ! 1 ! c XOR m2 (s ! 2 ! c) XOR m3 (s ! 3 ! c)) [0..<4],
     map (\<lambda>c. m3 (s ! 0 ! c) XOR s ! 1 ! c XOR s ! 2 ! c XOR m2 (s ! 3 ! c)) [0..<4]]"

definition InvMixColumns :: "aes_state \<Rightarrow> aes_state" where
  "InvMixColumns s =
    [map (\<lambda>c. me (s ! 0 ! c) XOR mb (s ! 1 ! c) XOR md (s ! 2 ! c) XOR m9 (s ! 3 ! c)) [0..<4],
     map (\<lambda>c. m9 (s ! 0 ! c) XOR me (s ! 1 ! c) XOR mb (s ! 2 ! c) XOR md (s ! 3 ! c)) [0..<4],
     map (\<lambda>c. md (s ! 0 ! c) XOR m9 (s ! 1 ! c) XOR me (s ! 2 ! c) XOR mb (s ! 3 ! c)) [0..<4],
     map (\<lambda>c. mb (s ! 0 ! c) XOR md (s ! 1 ! c) XOR m9 (s ! 2 ! c) XOR me (s ! 3 ! c)) [0..<4]]"

definition enc_round :: "byte list list \<Rightarrow> nat \<Rightarrow> aes_state \<Rightarrow> aes_state" where
  "enc_round W r s = AddRoundKey W r (MixColumns (ShiftRows (SubBytes s)))"

definition dec_round :: "byte list list \<Rightarrow> nat \<Rightarrow> aes_state \<Rightarrow> aes_state" where
  "dec_round W r s = InvMixColumns (AddRoundKey W r (InvSubBytes (InvShiftRows s)))"

section \<open>Blocks\<close>

text \<open>Steps 2 to 4 of the two functions: the output block. \<open>Nr\<close> is \<open>NumberOfRound\<close>.\<close>

definition aes_encrypt_block :: "byte list \<Rightarrow> nat \<Rightarrow> byte list \<Rightarrow> byte list" where
  "aes_encrypt_block Key KeyLength Plain =
    (let W = RT_AES_KeyExpansion Key KeyLength; Nr = KeyLength div 4 + 6;
         s0 = AddRoundKey W 0 (load_state Plain);
         s1 = fold (enc_round W) [1..<Nr] s0
     in store_state (AddRoundKey W Nr (ShiftRows (SubBytes s1))))"

definition aes_decrypt_block :: "byte list \<Rightarrow> nat \<Rightarrow> byte list \<Rightarrow> byte list" where
  "aes_decrypt_block Key KeyLength Cipher =
    (let W = RT_AES_KeyExpansion Key KeyLength; Nr = KeyLength div 4 + 6;
         s0 = AddRoundKey W Nr (load_state Cipher);
         s1 = fold (dec_round W) (rev [1..<Nr]) s0
     in store_state (AddRoundKey W 0 (InvSubBytes (InvShiftRows s1))))"

definition valid_key_length :: "nat \<Rightarrow> bool" where
  "valid_key_length n \<longleftrightarrow> n = AES_KEY128_LENGTH \<or> n = AES_KEY192_LENGTH \<or> n = AES_KEY256_LENGTH"

text \<open>The functions: \<open>out\<close> is the output buffer, whose first 16 bytes are written, and the last result
  is the length written back; on a refused argument or a failed allocation (\<open>alloc\<close> false) both
  stay as they were.\<close>

definition RT_AES_Encrypt ::
  "bool \<Rightarrow> byte list \<Rightarrow> nat \<Rightarrow> byte list \<Rightarrow> nat \<Rightarrow> byte list \<Rightarrow> nat \<Rightarrow> byte list \<times> nat" where
  "RT_AES_Encrypt alloc PlainBlock PlainBlockSize Key KeyLength out CipherBlockSize =
    (if PlainBlockSize \<noteq> AES_BLOCK_SIZES then (out, CipherBlockSize)
     else if \<not> valid_key_length KeyLength then (out, CipherBlockSize)
     else if CipherBlockSize < AES_BLOCK_SIZES then (out, CipherBlockSize)
     else if \<not> alloc then (out, CipherBlockSize)
     else (aes_encrypt_block Key KeyLength PlainBlock @ drop 16 out, 16))"

definition RT_AES_Decrypt ::
  "bool \<Rightarrow> byte list \<Rightarrow> nat \<Rightarrow> byte list \<Rightarrow> nat \<Rightarrow> byte list \<Rightarrow> nat \<Rightarrow> byte list \<times> nat" where
  "RT_AES_Decrypt alloc CipherBlock CipherBlockSize Key KeyLength out PlainBlockSize =
    (if PlainBlockSize < AES_BLOCK_SIZES then (out, PlainBlockSize)
     else if \<not> valid_key_length KeyLength then (out, PlainBlockSize)
     else if CipherBlockSize \<noteq> AES_BLOCK_SIZES then (out, PlainBlockSize)
     else if \<not> alloc then (out, PlainBlockSize)
     else (aes_decrypt_block Key KeyLength CipherBlock @ drop 16 out, 16))"

section \<open>Decryption undoes encryption\<close>

definition state_ok :: "aes_state \<Rightarrow> bool" where
  "state_ok s \<longleftrightarrow> length s = 4 \<and> (\<forall>r<4. length (s ! r) = 4)"

lemma upt4 [simp]: "[0..<4] = [0, 1, 2, 3]"
  by (simp add: upt_rec)

lemma length4E:
  assumes "length xs = 4"
  obtains a b c d where "xs = [a, b, c, d]"
  using assms by (auto simp: length_Suc_conv numeral_eq_Suc)

lemma state_okE:
  assumes "state_ok s"
  obtains a0 a1 a2 a3 b0 b1 b2 b3 c0 c1 c2 c3 d0 d1 d2 d3
  where "s = [[a0, a1, a2, a3], [b0, b1, b2, b3], [c0, c1, c2, c3], [d0, d1, d2, d3]]"
proof -
  obtain a b c d where s: "s = [a, b, c, d]" using assms by (auto simp: state_ok_def elim: length4E)
  have "length a = 4" "length b = 4" "length c = 4" "length d = 4"
    using assms unfolding s state_ok_def by (auto simp: numeral_eq_Suc All_less_Suc)
  with s that show ?thesis by (elim length4E) blast
qed

lemma ops_state_ok [simp]:
  "state_ok (load_state blk)" "state_ok (AddRoundKey W r s)" "state_ok (SubBytes s)" "state_ok (InvSubBytes s)"
  "state_ok s \<Longrightarrow> state_ok (ShiftRows s)" "state_ok s \<Longrightarrow> state_ok (InvShiftRows s)"
  "state_ok (MixColumns s)" "state_ok (InvMixColumns s)" "state_ok (enc_round W r s)" "state_ok (dec_round W r s)"
  by (auto simp: state_ok_def load_state_def AddRoundKey_def SubBytes_def InvSubBytes_def ShiftRows_def
      InvShiftRows_def MixColumns_def InvMixColumns_def enc_round_def dec_round_def numeral_eq_Suc All_less_Suc)

lemma InvSubBytes_SubBytes: "state_ok s \<Longrightarrow> InvSubBytes (SubBytes s) = s"
  by (elim state_okE) (simp add: InvSubBytes_def SubBytes_def sbox_def inv_sbox_def crypt_simps)

lemma InvShiftRows_ShiftRows: "state_ok s \<Longrightarrow> InvShiftRows (ShiftRows s) = s"
  by (elim state_okE) (simp add: InvShiftRows_def ShiftRows_def)

lemma AddRoundKey_twice: "state_ok s \<Longrightarrow> AddRoundKey W r (AddRoundKey W r s) = s"
  by (elim state_okE) (simp add: AddRoundKey_def xor.assoc)

lemma mix_column_inverse:
  "me (m2 a XOR m3 b XOR c XOR d) XOR mb (a XOR m2 b XOR m3 c XOR d) XOR md (a XOR b XOR m2 c XOR m3 d)
     XOR m9 (m3 a XOR b XOR c XOR m2 d) = a"
  "m9 (m2 a XOR m3 b XOR c XOR d) XOR me (a XOR m2 b XOR m3 c XOR d) XOR mb (a XOR b XOR m2 c XOR m3 d)
     XOR md (m3 a XOR b XOR c XOR m2 d) = b"
  "md (m2 a XOR m3 b XOR c XOR d) XOR m9 (a XOR m2 b XOR m3 c XOR d) XOR me (a XOR b XOR m2 c XOR m3 d)
     XOR mb (m3 a XOR b XOR c XOR m2 d) = c"
  "mb (m2 a XOR m3 b XOR c XOR d) XOR md (a XOR m2 b XOR m3 c XOR d) XOR m9 (a XOR b XOR m2 c XOR m3 d)
     XOR me (m3 a XOR b XOR c XOR m2 d) = d"
  unfolding m2_def m3_def m9_def mb_def md_def me_def aes_mul_lookup xtime_xor
  by (simp_all add: ac_simps xor_self_left)

lemma InvMixColumns_MixColumns: "state_ok s \<Longrightarrow> InvMixColumns (MixColumns s) = s"
  by (elim state_okE) (simp add: InvMixColumns_def MixColumns_def mix_column_inverse)


lemma fold_enc_ok [simp]: "state_ok s \<Longrightarrow> state_ok (fold (enc_round W) rs s)"
  by (induction rs arbitrary: s) simp_all

lemma dec_round_undoes:
  assumes "state_ok s"
  shows "dec_round W r (ShiftRows (SubBytes (enc_round W r s))) = ShiftRows (SubBytes s)"
proof -
  have "dec_round W r (ShiftRows (SubBytes (enc_round W r s))) = InvMixColumns (AddRoundKey W r (enc_round W r s))"
    by (simp add: dec_round_def InvShiftRows_ShiftRows InvSubBytes_SubBytes)
  then show ?thesis by (simp add: enc_round_def AddRoundKey_twice InvMixColumns_MixColumns)
qed

lemma dec_rounds_undo:
  "state_ok s \<Longrightarrow> fold (dec_round W) (rev rs) (ShiftRows (SubBytes (fold (enc_round W) rs s))) = ShiftRows (SubBytes s)"
  by (induction rs rule: rev_induct) (simp_all add: dec_round_undoes)

lemma load_store: "state_ok s \<Longrightarrow> load_state (store_state s) = s"
  by (elim state_okE) (simp add: load_state_def store_state_def)

lemma store_load:
  assumes "length blk = 16"
  shows "store_state (load_state blk) = blk"
proof (rule nth_equalityI)
  fix i assume "i < length (store_state (load_state blk))"
  then have i: "i < 16" by (simp add: store_state_def)
  have "i mod 4 < 4" "i div 4 < 4" using i by auto
  then have "load_state blk ! (i mod 4) ! (i div 4) = blk ! (i mod 4 + 4 * (i div 4))"
    by (simp add: load_state_def del: upt4)
  then show "store_state (load_state blk) ! i = blk ! i" using i by (simp add: store_state_def)
qed (use assms in \<open>simp add: store_state_def\<close>)

lemma length_aes_block [simp]:
  "length (aes_encrypt_block Key n b) = 16" "length (aes_decrypt_block Key n b) = 16"
  by (simp_all add: aes_encrypt_block_def aes_decrypt_block_def Let_def store_state_def)

lemma aes_decrypt_encrypt:
  assumes "length b = 16"
  shows "aes_decrypt_block Key n (aes_encrypt_block Key n b) = b"
proof -
  define W where "W = RT_AES_KeyExpansion Key n"
  define Nr where "Nr = n div 4 + 6"
  define s0 where "s0 = AddRoundKey W 0 (load_state b)"
  define s1 where "s1 = fold (enc_round W) [1..<Nr] s0"
  have s0: "state_ok s0" and s1: "state_ok s1" by (simp_all add: s0_def s1_def)
  have enc: "aes_encrypt_block Key n b = store_state (AddRoundKey W Nr (ShiftRows (SubBytes s1)))"
    by (simp add: aes_encrypt_block_def Let_def W_def Nr_def s0_def s1_def)
  have "aes_decrypt_block Key n (aes_encrypt_block Key n b) =
      store_state (AddRoundKey W 0 (InvSubBytes (InvShiftRows
        (fold (dec_round W) (rev [1..<Nr]) (ShiftRows (SubBytes s1))))))"
    unfolding enc aes_decrypt_block_def Let_def W_def[symmetric] Nr_def[symmetric]
    by (simp add: load_store AddRoundKey_twice)
  also have "\<dots> = store_state (AddRoundKey W 0 s0)"
    unfolding s1_def dec_rounds_undo[OF s0]
    by (simp add: InvShiftRows_ShiftRows InvSubBytes_SubBytes s0)
  also have "\<dots> = b" by (simp add: s0_def AddRoundKey_twice store_load assms)
  finally show ?thesis .
qed

section \<open>Block ciphers\<close>

text \<open>What the modes of operation rely on: a map on 16-byte blocks and its inverse.\<close>

locale block_cipher =
  fixes E D :: "byte list \<Rightarrow> byte list"
  assumes length_E: "length b = 16 \<Longrightarrow> length (E b) = 16"
    and length_D: "length b = 16 \<Longrightarrow> length (D b) = 16"
    and D_E: "length b = 16 \<Longrightarrow> D (E b) = b"
begin

text \<open>On the finite set of blocks the inverse is two-sided.\<close>

lemma E_D:
  assumes "length c = 16"
  shows "E (D c) = c"
proof -
  let ?B = "{b :: byte list. length b = 16}"
  have fin: "finite ?B" using finite_lists_length_eq[of "UNIV :: byte set" 16] by simp
  have "inj_on E ?B" by (rule inj_on_inverseI[of _ D]) (simp add: D_E)
  moreover have "E ` ?B \<subseteq> ?B" using length_E by auto
  ultimately have "E ` ?B = ?B" by (rule endo_inj_surj[OF fin, rotated])
  then obtain b where "length b = 16" "c = E b" using assms by blast
  then show ?thesis by (simp add: D_E)
qed

lemma E_inj: "length a = 16 \<Longrightarrow> length b = 16 \<Longrightarrow> E a = E b \<Longrightarrow> a = b"
  by (metis D_E)

end

interpretation aes: block_cipher "aes_encrypt_block Key n" "aes_decrypt_block Key n" for Key n
  by unfold_locales (simp_all add: aes_decrypt_encrypt)

end
