(* ===== verification/AesModes.thy ===== *)
theory AesModes
  imports Aes
begin

text \<open>The modes of operation of common/crypt_aes.c over the block cipher: CCM, CMAC, CBC with padding,
  and key wrap. \<open>UINT\<close> arithmetic that can wrap is written out; the allocation of the cipher
  context succeeds. \<open>None\<close> is an access outside a buffer.\<close>

section \<open>Blocks of bytes\<close>

definition xor_bytes :: "byte list \<Rightarrow> byte list \<Rightarrow> byte list" where
  "xor_bytes xs ys = map2 (XOR) xs ys"

lemma length_xor_bytes [simp]: "length (xor_bytes xs ys) = min (length xs) (length ys)"
  by (simp add: xor_bytes_def)

lemma xor_bytes_Nil [simp]: "xor_bytes [] ys = []" "xor_bytes xs [] = []"
  by (simp_all add: xor_bytes_def)

lemma xor_bytes_twice: "length ys \<ge> length xs \<Longrightarrow> xor_bytes (xor_bytes xs ys) ys = xs"
  by (rule nth_equalityI) (auto simp: xor_bytes_def xor.assoc)

text \<open>\<open>UINT\<close> subtraction.\<close>

definition usub :: "nat \<Rightarrow> nat \<Rightarrow> nat" where
  "usub a b = (if b \<le> a then a - b else a + 2 ^ 32 - b)"

lemma usub_ge [simp]: "b \<le> a \<Longrightarrow> usub a b = a - b"
  by (simp add: usub_def)

section \<open>CCM\<close>

definition len_byte :: "nat \<Rightarrow> nat \<Rightarrow> byte" where
  "len_byte n sh = word_of_nat (n div 2 ^ sh)"

text \<open>The first block: flags, nonce, payload length.\<close>

definition ccm_flags :: "nat \<Rightarrow> nat \<Rightarrow> nat \<Rightarrow> byte" where
  "ccm_flags AADLength MACLength NonceLength =
    (if AADLength > 0 then 0x40 else 0) OR word_of_nat ((MACLength - 2) div 2 * 8)
      OR word_of_nat ((15 - NonceLength) - 1)"

definition ccm_b0 :: "byte list \<Rightarrow> nat \<Rightarrow> nat \<Rightarrow> nat \<Rightarrow> byte list" where
  "ccm_b0 Nonce AADLength MACLength PayloadLength =
    (let n = length Nonce;
         b = ccm_flags AADLength MACLength n # Nonce @ replicate (15 - n) 0;
         b1 = (if n < 12 then b[12 := len_byte PayloadLength 24] else b);
         b2 = (if n < 13 then b1[13 := len_byte PayloadLength 16] else b1)
     in b2[14 := len_byte PayloadLength 8, 15 := len_byte PayloadLength 0])"

text \<open>The two loops over the associated data and the payload: a block is filled behind the prefix
  \<open>pre\<close>, which only the first block of the associated data has, and encrypted into the running MAC.\<close>

function ccm_absorb ::
  "(byte list \<Rightarrow> byte list) \<Rightarrow> byte list \<Rightarrow> byte list \<Rightarrow> byte list \<Rightarrow> byte list" where
  "ccm_absorb E mac pre xs =
    (if xs = [] \<or> 16 \<le> length pre then mac
     else let n = min (length xs) (16 - length pre);
              blk = pre @ take n xs @ replicate (16 - length pre - n) 0
       in ccm_absorb E (E (xor_bytes blk mac)) [] (drop n xs))"
  by auto
termination by (relation "measure (\<lambda>(E, mac, pre, xs). length xs)") (auto simp: min_def)

declare ccm_absorb.simps [simp del]

definition ccm_aad_prefix :: "nat \<Rightarrow> byte list" where
  "ccm_aad_prefix AADLength =
    (if 0 < AADLength \<and> AADLength < 0xFF00 then [len_byte AADLength 8, len_byte AADLength 0]
     else [0, 0, len_byte AADLength 24, len_byte AADLength 16, len_byte AADLength 8, len_byte AADLength 0])"

definition AES_CCM_MAC ::
  "byte list \<Rightarrow> byte list \<Rightarrow> nat \<Rightarrow> byte list \<Rightarrow> byte list \<Rightarrow> nat \<Rightarrow> byte list" where
  "AES_CCM_MAC Payload Key KeyLength Nonce AAD MACLength =
    (let E = aes_encrypt_block Key KeyLength;
         mac0 = E (ccm_b0 Nonce (length AAD) MACLength (length Payload));
         mac1 = ccm_absorb E mac0 (ccm_aad_prefix (length AAD)) AAD;
         mac2 = ccm_absorb E mac1 [] Payload
     in take MACLength mac2)"

text \<open>The counter block, and the loop that enciphers with it; the counter is the last byte alone.\<close>

definition ccm_ctr0 :: "byte list \<Rightarrow> byte list" where
  "ccm_ctr0 Nonce = word_of_nat ((15 - length Nonce) - 1) # Nonce @ replicate (15 - length Nonce) 0"

definition ctr_inc :: "byte list \<Rightarrow> byte list" where
  "ctr_inc ctr = ctr[15 := ctr ! 15 + 1]"

function ccm_stream :: "(byte list \<Rightarrow> byte list) \<Rightarrow> byte list \<Rightarrow> byte list \<Rightarrow> byte list" where
  "ccm_stream E ctr xs =
    (if xs = [] then []
     else xor_bytes (take 16 xs) (E (ctr_inc ctr)) @ ccm_stream E (ctr_inc ctr) (drop 16 xs))"
  by auto
termination by (relation "measure (\<lambda>(E, ctr, xs). length xs)") auto

declare ccm_stream.simps [simp del]

definition valid_mac_length :: "nat \<Rightarrow> bool" where
  "valid_mac_length n \<longleftrightarrow> n \<in> {4, 6, 8, 10, 12, 14, 16}"

text \<open>The result code, the output buffer and the length written back.\<close>

definition AES_CCM_Encrypt ::
  "byte list \<Rightarrow> byte list \<Rightarrow> nat \<Rightarrow> byte list \<Rightarrow> byte list \<Rightarrow> nat \<Rightarrow> byte list \<Rightarrow> nat
    \<Rightarrow> int \<times> byte list \<times> nat" where
  "AES_CCM_Encrypt PlainText Key KeyLength Nonce AAD MACLength out CipherTextLength =
    (if KeyLength \<noteq> AES_KEY128_LENGTH then (-1, out, CipherTextLength)
     else if length Nonce < 7 \<or> length Nonce > 13 then (-2, out, CipherTextLength)
     else if \<not> valid_mac_length MACLength then (-3, out, CipherTextLength)
     else if CipherTextLength < length PlainText + MACLength then (-4, out, CipherTextLength)
     else let E = aes_encrypt_block Key KeyLength;
              mac = AES_CCM_MAC PlainText Key KeyLength Nonce AAD MACLength;
              tag = xor_bytes mac (E (ccm_ctr0 Nonce));
              c = ccm_stream E (ccm_ctr0 Nonce) PlainText @ tag
       in (0, c @ drop (length c) out, length PlainText + MACLength))"

definition AES_CCM_Decrypt ::
  "byte list \<Rightarrow> byte list \<Rightarrow> nat \<Rightarrow> byte list \<Rightarrow> byte list \<Rightarrow> nat \<Rightarrow> byte list \<Rightarrow> nat
    \<Rightarrow> int \<times> byte list \<times> nat" where
  "AES_CCM_Decrypt CipherText Key KeyLength Nonce AAD MACLength out PlainTextLength =
    (if KeyLength \<noteq> AES_KEY128_LENGTH then (-1, out, PlainTextLength)
     else if length Nonce < 7 \<or> length Nonce > 13 then (-2, out, PlainTextLength)
     else if \<not> valid_mac_length MACLength then (-3, out, PlainTextLength)
     else if PlainTextLength < usub (length CipherText) MACLength then (-4, out, PlainTextLength)
     else let E = aes_encrypt_block Key KeyLength;
              n = length CipherText - MACLength;
              mac_c = xor_bytes (drop n CipherText) (E (ccm_ctr0 Nonce));
              p = ccm_stream E (ccm_ctr0 Nonce) (take n CipherText);
              mac = AES_CCM_MAC p Key KeyLength Nonce AAD MACLength
       in (if mac_c \<noteq> mac then -5 else 0, p @ drop n out, n))"

section \<open>CMAC\<close>

definition Const_Rb :: "byte list" where "Const_Rb = replicate 15 0 @ [0x87]"

text \<open>The shift of a block by one bit to the left, most significant byte first.\<close>

definition shift_block :: "byte list \<Rightarrow> byte list" where
  "shift_block b = map (\<lambda>i. push_bit 1 (b ! i) OR (if bit (b ! (i + 1)) 7 then 1 else 0)) [0..<15]
    @ [push_bit 1 (b ! 15)]"

definition cmac_double :: "byte list \<Rightarrow> byte list" where
  "cmac_double b = (if b ! 0 AND 0x80 > 0 then xor_bytes (shift_block b) Const_Rb else shift_block b)"

text \<open>The two subkeys; nothing is written when the key length is refused.\<close>

definition AES_CMAC_GenerateSubKey :: "byte list \<Rightarrow> nat \<Rightarrow> byte list \<Rightarrow> byte list \<Rightarrow> byte list \<times> byte list" where
  "AES_CMAC_GenerateSubKey Key KeyLength SubKey1 SubKey2 =
    (if KeyLength \<noteq> AES_KEY128_LENGTH then (SubKey1, SubKey2)
     else let K1 = cmac_double (aes_encrypt_block Key KeyLength (replicate 16 0))
       in (K1, cmac_double K1))"

function cmac_loop :: "(byte list \<Rightarrow> byte list) \<Rightarrow> byte list \<Rightarrow> byte list \<Rightarrow> byte list \<times> byte list" where
  "cmac_loop E X xs =
    (if 16 < length xs then cmac_loop E (E (xor_bytes (take 16 xs) X)) (drop 16 xs) else (X, xs))"
  by auto
termination by (relation "measure (\<lambda>(E, X, xs). length xs)") auto

declare cmac_loop.simps [simp del]

definition AES_CMAC :: "byte list \<Rightarrow> byte list \<Rightarrow> nat \<Rightarrow> byte list \<Rightarrow> nat \<Rightarrow> byte list \<times> nat" where
  "AES_CMAC PlainText Key KeyLength out MACTextLength =
    (if MACTextLength < 16 then (out, MACTextLength)
     else if KeyLength \<noteq> AES_KEY128_LENGTH then (out, MACTextLength)
     else let E = aes_encrypt_block Key KeyLength;
              (K1, K2) = AES_CMAC_GenerateSubKey Key KeyLength (replicate 16 0) (replicate 16 0);
              (X, rest) = cmac_loop E (replicate 16 0) PlainText;
              Y = (if length rest = 16 then xor_bytes (xor_bytes rest X) K1
                   else xor_bytes (xor_bytes (rest @ 0x80 # replicate (15 - length rest) 0) X) K2)
       in (E Y @ drop 16 out, 16))"

section \<open>CBC\<close>

text \<open>The encryption loop and the padded last block: \<open>prev\<close> is the IV or the cipher block before.\<close>

function cbc_encrypt :: "(byte list \<Rightarrow> byte list) \<Rightarrow> byte list \<Rightarrow> byte list \<Rightarrow> byte list" where
  "cbc_encrypt E prev xs =
    (if 16 \<le> length xs
     then let c = E (xor_bytes (take 16 xs) prev) in c @ cbc_encrypt E c (drop 16 xs)
     else let pad = 16 - length xs
       in E (xor_bytes (xs @ replicate pad (word_of_nat pad)) prev))"
  by auto
termination by (relation "measure (\<lambda>(E, prev, xs). length xs)") auto

declare cbc_encrypt.simps [simp del]

definition AES_CBC_Encrypt ::
  "byte list \<Rightarrow> byte list \<Rightarrow> nat \<Rightarrow> byte list \<Rightarrow> nat \<Rightarrow> byte list \<Rightarrow> nat \<Rightarrow> byte list \<times> nat" where
  "AES_CBC_Encrypt PlainText Key KeyLength IV IVLength out CipherTextLength =
    (let PaddingSize = 16 - length PlainText mod 16 in
     if CipherTextLength < length PlainText + PaddingSize then (out, CipherTextLength)
     else if \<not> valid_key_length KeyLength then (out, CipherTextLength)
     else if IVLength \<noteq> 16 then (out, CipherTextLength)
     else let c = cbc_encrypt (aes_encrypt_block Key KeyLength) IV PlainText
       in (c @ drop (length c) out, length c))"

text \<open>The decryption loop: \<open>room\<close> is what is left of the plain text buffer. With less than a block
  left \<open>RT_AES_Decrypt\<close> refuses, and the XOR that follows runs past the buffer.\<close>

function cbc_decrypt :: "(byte list \<Rightarrow> byte list) \<Rightarrow> byte list \<Rightarrow> nat \<Rightarrow> byte list \<Rightarrow> byte list option" where
  "cbc_decrypt D prev room xs =
    (if 16 \<le> length xs
     then (if room < 16 then None
           else case cbc_decrypt D (take 16 xs) (room - 16) (drop 16 xs) of
             None \<Rightarrow> None | Some p \<Rightarrow> Some (xor_bytes (D (take 16 xs)) prev @ p))
     else Some [])"
  by auto
termination by (relation "measure (\<lambda>(D, prev, room, xs). length xs)") auto

declare cbc_decrypt.simps [simp del]

text \<open>The length test is \<open>CipherTextLength % 4*4\<close>, as \<open>AES_BLOCK_SIZES\<close> is a macro without
  parentheses. The padding length is the last byte, unchecked; with no block at all the byte before
  the buffer is read.\<close>

definition AES_CBC_Decrypt ::
  "byte list \<Rightarrow> byte list \<Rightarrow> nat \<Rightarrow> byte list \<Rightarrow> nat \<Rightarrow> byte list \<Rightarrow> nat \<Rightarrow> (byte list \<times> nat) option" where
  "AES_CBC_Decrypt CipherText Key KeyLength IV IVLength out PlainTextLength =
    (if length CipherText mod 4 * 4 \<noteq> 0 then Some (out, PlainTextLength)
     else if \<not> valid_key_length KeyLength then Some (out, PlainTextLength)
     else if IVLength \<noteq> 16 then Some (out, PlainTextLength)
     else case cbc_decrypt (aes_decrypt_block Key KeyLength) IV PlainTextLength CipherText of
       None \<Rightarrow> None
     | Some p \<Rightarrow> if p = [] then None
         else Some (p @ drop (length p) out, usub (length p) (unat (last p))))"

section \<open>Key wrap\<close>

text \<open>One step of the two nested loops on the IV and the result buffer, for block \<open>i\<close> and step
  counter \<open>t\<close>.\<close>

definition Default_IV :: "byte list" where "Default_IV = replicate 8 0xa6"

definition get_block8 :: "byte list \<Rightarrow> nat \<Rightarrow> byte list" where
  "get_block8 R i = take 8 (drop (i*8) R)"

definition put_block8 :: "byte list \<Rightarrow> nat \<Rightarrow> byte list \<Rightarrow> byte list" where
  "put_block8 R i b = take (i*8) R @ b @ drop (i*8 + 8) R"

definition wrap_step ::
  "(byte list \<Rightarrow> byte list) \<Rightarrow> nat \<Rightarrow> nat \<times> nat \<Rightarrow> byte list \<times> byte list \<Rightarrow> byte list \<times> byte list" where
  "wrap_step E n ji st = (case ji of (j, i) \<Rightarrow> case st of (IV, R) \<Rightarrow>
     let B = E (IV @ get_block8 R i)
     in ((take 8 B)[7 := B ! 7 XOR word_of_nat (n * j + i + 1)], put_block8 R i (drop 8 B)))"

definition unwrap_step ::
  "(byte list \<Rightarrow> byte list) \<Rightarrow> nat \<Rightarrow> nat \<times> nat \<Rightarrow> byte list \<times> byte list \<Rightarrow> byte list \<times> byte list" where
  "unwrap_step D n ji st = (case ji of (j, i) \<Rightarrow> case st of (IV, R) \<Rightarrow>
     let IV' = IV[7 := IV ! 7 XOR word_of_nat (n * j + i + 1)];
         B = D (IV' @ get_block8 R i)
     in (take 8 B, put_block8 R i (drop 8 B)))"

definition wrap_order :: "nat \<Rightarrow> (nat \<times> nat) list" where
  "wrap_order n = concat (map (\<lambda>j. map (\<lambda>i. (j, i)) [0..<n]) [0..<6])"

definition unwrap_order :: "nat \<Rightarrow> (nat \<times> nat) list" where
  "unwrap_order n = concat (map (\<lambda>j. map (\<lambda>i. (j, i)) (rev [0..<n])) (rev [0..<6]))"

text \<open>\<open>alloc\<close>: the allocation of the result buffer succeeds. The result code, the output and its
  length.\<close>

definition AES_Key_Wrap :: "bool \<Rightarrow> byte list \<Rightarrow> byte list \<Rightarrow> nat \<Rightarrow> int \<times> byte list" where
  "AES_Key_Wrap alloc PlainText Key KeyLength =
    (if \<not> valid_key_length KeyLength then (-1, [])
     else if \<not> alloc then (-2, [])
     else let n = length PlainText div 8;
              (IV, R) = fold (wrap_step (aes_encrypt_block Key KeyLength) n) (wrap_order n) (Default_IV, PlainText)
       in (0, IV @ R))"

definition AES_Key_Unwrap :: "bool \<Rightarrow> byte list \<Rightarrow> byte list \<Rightarrow> nat \<Rightarrow> (int \<times> byte list) option" where
  "AES_Key_Unwrap alloc CipherText Key KeyLength =
    (if \<not> valid_key_length KeyLength then Some (-1, [])
     else if \<not> alloc then Some (-2, [])
     else if length CipherText < 8 then None
     else let n = (length CipherText - 8) div 8;
              (IV, R) = fold (unwrap_step (aes_decrypt_block Key KeyLength) n) (unwrap_order n)
                (take 8 CipherText, drop 8 CipherText)
       in Some (0, R))"

end
