(* ===== verification/AesLemmas.thy ===== *)
theory AesLemmas
  imports AesModes
begin

text \<open>The modes are inverted by their counterparts, for every block cipher: the lemmas are proved in
  the context of the locale \<open>block_cipher\<close> and used through its interpretation on AES.\<close>

lemma fold_inverse:
  assumes "\<And>x s. x \<in> set xs \<Longrightarrow> P s \<Longrightarrow> P (f x s) \<and> g x (f x s) = s" and "P s"
  shows "P (fold f xs s) \<and> fold g (rev xs) (fold f xs s) = s"
  using assms(1)
proof (induction xs rule: rev_induct)
  case (snoc x xs)
  then have "P (fold f xs s)" "fold g (rev xs) (fold f xs s) = s" by auto
  with snoc.prems show ?case by simp
qed (use assms(2) in simp)

section \<open>Lengths\<close>

lemma length_ccm_b0: "length N \<le> 13 \<Longrightarrow> length (ccm_b0 N a m p) = 16"
  by (simp add: ccm_b0_def Let_def)

lemma length_ccm_ctr0: "length N \<le> 13 \<Longrightarrow> length (ccm_ctr0 N) = 16"
  by (simp add: ccm_ctr0_def)

lemma length_ctr_inc [simp]: "length (ctr_inc c) = length c"
  by (simp add: ctr_inc_def)

lemma length_put_block8: "(i + 1) * 8 \<le> length R \<Longrightarrow> length b = 8 \<Longrightarrow> length (put_block8 R i b) = length R"
  by (simp add: put_block8_def)

lemma length_get_block8: "(i + 1) * 8 \<le> length R \<Longrightarrow> length (get_block8 R i) = 8"
  by (simp add: get_block8_def)

lemma get_put_block8: "(i + 1) * 8 \<le> length R \<Longrightarrow> length b = 8 \<Longrightarrow> get_block8 (put_block8 R i b) i = b"
  by (simp add: get_block8_def put_block8_def)

lemma put_put_block8:
  "(i + 1) * 8 \<le> length R \<Longrightarrow> length b = 8 \<Longrightarrow> put_block8 (put_block8 R i b) i c = put_block8 R i c"
  by (simp add: put_block8_def)

lemma put_get_block8: "(i + 1) * 8 \<le> length R \<Longrightarrow> put_block8 R i (get_block8 R i) = R"
  by (simp add: put_block8_def get_block8_def ac_simps flip: drop_drop)

lemma unwrap_order_rev: "unwrap_order n = rev (wrap_order n)"
  by (simp add: unwrap_order_def wrap_order_def rev_concat rev_map comp_def)

lemma wrap_order_bound: "(j, i) \<in> set (wrap_order n) \<Longrightarrow> i < n"
  by (auto simp: wrap_order_def)

context block_cipher
begin

section \<open>CBC\<close>

lemma cbc_step:
  "16 \<le> length xs \<Longrightarrow> cbc_encrypt E prev xs =
    E (xor_bytes (take 16 xs) prev) @ cbc_encrypt E (E (xor_bytes (take 16 xs) prev)) (drop 16 xs)"
  "\<not> 16 \<le> length xs \<Longrightarrow> cbc_encrypt E prev xs =
    E (xor_bytes (xs @ replicate (16 - length xs) (word_of_nat (16 - length xs))) prev)"
  by (subst cbc_encrypt.simps, simp add: Let_def)+

lemma length_cbc_encrypt:
  "length prev = 16 \<Longrightarrow> length (cbc_encrypt E prev xs) = length xs + (16 - length xs mod 16)"
proof (induction xs arbitrary: prev rule: length_induct)
  case (1 xs)
  show ?case
  proof (cases "16 \<le> length xs")
    case True
    let ?c = "E (xor_bytes (take 16 xs) prev)"
    have c: "length ?c = 16" using True 1(2) by (intro length_E) simp
    have "length (drop 16 xs) < length xs" using True by simp
    from 1(1)[rule_format, OF this c] c show ?thesis using True
      by (simp add: cbc_step mod_if[of "length xs"])
  next
    case False
    then show ?thesis using 1(2) by (simp add: cbc_step length_E)
  qed
qed

text \<open>Decryption returns the text followed by its padding.\<close>

lemma cbc_decrypt_encrypt:
  "length prev = 16 \<Longrightarrow> length xs + (16 - length xs mod 16) \<le> room \<Longrightarrow>
   cbc_decrypt D prev room (cbc_encrypt E prev xs) =
     Some (xs @ replicate (16 - length xs mod 16) (word_of_nat (16 - length xs mod 16)))"
proof (induction xs arbitrary: prev room rule: length_induct)
  case (1 xs)
  show ?case
  proof (cases "16 \<le> length xs")
    case True
    let ?c = "E (xor_bytes (take 16 xs) prev)"
    have c: "length ?c = 16" "D ?c = xor_bytes (take 16 xs) prev"
      using True 1(2) by (auto intro: length_E D_E)
    have m: "length (drop 16 xs) mod 16 = length xs mod 16" using True by (simp add: mod_if[of "length xs"])
    have "length (drop 16 xs) < length xs" using True by simp
    from 1(1)[rule_format, OF this c(1), of "room - 16"] 1(3) True m have
      "cbc_decrypt D ?c (room - 16) (cbc_encrypt E ?c (drop 16 xs)) =
        Some (drop 16 xs @ replicate (16 - length xs mod 16) (word_of_nat (16 - length xs mod 16)))" by simp
    then show ?thesis using True 1(2,3) c
      by (subst cbc_decrypt.simps) (simp add: cbc_step xor_bytes_twice)
  next
    case False
    let ?p = "xs @ replicate (16 - length xs) (word_of_nat (16 - length xs))"
    have "length (E (xor_bytes ?p prev)) = 16" "D (E (xor_bytes ?p prev)) = xor_bytes ?p prev"
      using False 1(2) by (auto intro!: length_E D_E)
    then show ?thesis using False 1(2,3)
      by (subst cbc_decrypt.simps) (simp add: cbc_step xor_bytes_twice cbc_decrypt.simps[of D _ _ "[]"])
  qed
qed

section \<open>Counter mode\<close>

lemma ccm_stream_Nil [simp]: "ccm_stream E c [] = []"
  by (simp add: ccm_stream.simps)

lemma ccm_stream_step: "xs \<noteq> [] \<Longrightarrow> ccm_stream E c xs =
    xor_bytes (take 16 xs) (E (ctr_inc c)) @ ccm_stream E (ctr_inc c) (drop 16 xs)"
  by (subst ccm_stream.simps) simp

lemma length_ccm_stream: "length c = 16 \<Longrightarrow> length (ccm_stream E c xs) = length xs"
proof (induction xs arbitrary: c rule: length_induct)
  case (1 xs)
  then show ?case by (cases "xs = []") (simp_all add: ccm_stream_step length_E)
qed

lemma ccm_stream_twice: "length c = 16 \<Longrightarrow> ccm_stream E c (ccm_stream E c xs) = xs"
proof (induction xs arbitrary: c rule: length_induct)
  case (1 xs)
  show ?case
  proof (cases "xs = []")
    case False
    let ?c = "ctr_inc c"
    have k: "length (E ?c) = 16" using 1(2) by (simp add: length_E)
    have ne: "ccm_stream E c xs \<noteq> []" using length_ccm_stream[OF 1(2), of xs] False by auto
    have ih: "ccm_stream E ?c (ccm_stream E ?c (drop 16 xs)) = drop 16 xs"
      using 1 False by (intro 1(1)[rule_format]) auto
    show ?thesis
    proof (cases "16 \<le> length xs")
      case True
      then show ?thesis using ne k ih False
        by (subst ccm_stream_step[OF ne]) (simp add: ccm_stream_step[OF False] xor_bytes_twice)
    next
      case short: False
      then show ?thesis using ne k ih False
        by (subst ccm_stream_step[OF ne]) (simp add: ccm_stream_step[OF False] xor_bytes_twice)
    qed
  qed simp
qed

lemma length_ccm_absorb: "length mac = 16 \<Longrightarrow> length pre < 16 \<Longrightarrow> length (ccm_absorb E mac pre xs) = 16"
proof (induction xs arbitrary: mac pre rule: length_induct)
  case (1 xs)
  show ?case
  proof (cases "xs = []")
    case False
    let ?n = "min (length xs) (16 - length pre)"
    have "length (drop ?n xs) < length xs" using False 1(3) by auto
    moreover have "length (E (xor_bytes (pre @ take ?n xs @ replicate (16 - length pre - ?n) 0) mac)) = 16"
      using 1(2,3) by (intro length_E) auto
    ultimately show ?thesis using 1(1) False 1(3)
      by (subst ccm_absorb.simps) (simp add: Let_def not_le)
  qed (use 1 in \<open>simp add: ccm_absorb.simps\<close>)
qed

section \<open>Key wrap\<close>

definition wrap_ok :: "nat \<Rightarrow> byte list \<times> byte list \<Rightarrow> bool" where
  "wrap_ok L st \<longleftrightarrow> length (fst st) = 8 \<and> length (snd st) = L"

lemma unwrap_wrap_step:
  assumes "wrap_ok L st" "(snd ji + 1) * 8 \<le> L"
  shows "wrap_ok L (wrap_step E n ji st) \<and> unwrap_step D n ji (wrap_step E n ji st) = st"
proof -
  obtain j i IV R where ji: "ji = (j, i)" and st: "st = (IV, R)" by (metis prod.exhaust)
  have len: "length IV = 8" "length R = L" "(i + 1) * 8 \<le> length R" using assms by (auto simp: wrap_ok_def st ji)
  let ?B = "E (IV @ get_block8 R i)" and ?t = "word_of_nat (n * j + i + 1) :: byte"
  have blk: "length (IV @ get_block8 R i) = 16" using len by (simp add: length_get_block8)
  have B: "length ?B = 16" "D ?B = IV @ get_block8 R i" using blk by (auto intro: length_E D_E)
  have w: "wrap_step E n ji st = ((take 8 ?B)[7 := ?B ! 7 XOR ?t], put_block8 R i (drop 8 ?B))"
    by (simp add: wrap_step_def ji st Let_def)
  have undo: "((take 8 ?B)[7 := ?B ! 7 XOR ?t])[7 := (take 8 ?B)[7 := ?B ! 7 XOR ?t] ! 7 XOR ?t] = take 8 ?B"
    using B(1) by (intro nth_equalityI) (auto simp: nth_list_update xor.assoc)
  have "wrap_ok L (wrap_step E n ji st)" using B(1) len by (simp add: w wrap_ok_def length_put_block8)
  moreover have "unwrap_step D n (j, i) ((take 8 ?B)[7 := ?B ! 7 XOR ?t], put_block8 R i (drop 8 ?B)) = (IV, R)"
    unfolding unwrap_step_def prod.case Let_def undo
    using len B by (simp add: get_put_block8 put_put_block8 put_get_block8)
  then have "unwrap_step D n ji (wrap_step E n ji st) = st" by (simp only: w[unfolded ji st] ji st)
  ultimately show ?thesis by blast
qed

lemma unwrap_wrap:
  assumes "length IV = 8"
  shows "wrap_ok (length R) (fold (wrap_step E (length R div 8)) (wrap_order (length R div 8)) (IV, R)) \<and>
    fold (unwrap_step D (length R div 8)) (unwrap_order (length R div 8))
      (fold (wrap_step E (length R div 8)) (wrap_order (length R div 8)) (IV, R)) = (IV, R)"
  unfolding unwrap_order_rev
proof (rule fold_inverse)
  fix ji st assume "ji \<in> set (wrap_order (length R div 8))" "wrap_ok (length R) st"
  moreover from this have "(snd ji + 1) * 8 \<le> length R"
    using wrap_order_bound[of "fst ji" "snd ji" "length R div 8"] by auto
  ultimately show "wrap_ok (length R) (wrap_step E (length R div 8) ji st) \<and>
      unwrap_step D (length R div 8) ji (wrap_step E (length R div 8) ji st) = st"
    using unwrap_wrap_step by blast
qed (use assms in \<open>simp add: wrap_ok_def\<close>)

text \<open>Bytes after the last whole block of eight are not touched.\<close>

lemma wrap_step_tail:
  assumes "i < n" "n * 8 \<le> length R" "length (IV @ get_block8 R i) = 16"
  shows "drop (n * 8) (snd (wrap_step E n' (j, i) (IV, R))) = drop (n * 8) R"
proof -
  have i: "i * 8 + 8 \<le> n * 8" using assms(1) by simp
  have "length (drop 8 (E (IV @ get_block8 R i))) = 8" using assms(3) by (simp add: length_E)
  then show ?thesis using i assms(2) by (simp add: wrap_step_def put_block8_def Let_def)
qed

end

section \<open>CCM with the AES\<close>

text \<open>The cipher text of a payload, and what the two operations do with it.\<close>

definition ccm_sealed :: "byte list \<Rightarrow> byte list \<Rightarrow> byte list \<Rightarrow> byte list \<Rightarrow> nat \<Rightarrow> byte list" where
  "ccm_sealed Key N A p t = ccm_stream (aes_encrypt_block Key 16) (ccm_ctr0 N) p
     @ xor_bytes (AES_CCM_MAC p Key 16 N A t) (aes_encrypt_block Key 16 (ccm_ctr0 N))"

lemma ccm_runs:
  assumes "7 \<le> length N" "length N \<le> 13" "valid_mac_length t"
  shows "length (ccm_sealed Key N A p t) = length p + t"
    and "length p + t \<le> room \<Longrightarrow> AES_CCM_Encrypt p Key 16 N A t out room =
      (0, ccm_sealed Key N A p t @ drop (length p + t) out, length p + t)"
    and "length p \<le> room' \<Longrightarrow> AES_CCM_Decrypt (ccm_sealed Key N A p t) Key 16 N A t out' room' =
      (0, p @ drop (length p) out', length p)"
proof -
  let ?E = "aes_encrypt_block Key 16" and ?ctr = "ccm_ctr0 N" and ?mac = "AES_CCM_MAC p Key 16 N A t"
  have ctr: "length ?ctr = 16" by (rule length_ccm_ctr0[OF assms(2)])
  have s: "length (ccm_stream ?E ?ctr p) = length p" by (rule aes.length_ccm_stream[OF ctr])
  have t: "t \<le> 16" using assms(3) by (auto simp: valid_mac_length_def)
  have m1: "length (ccm_absorb ?E (?E (ccm_b0 N (length A) t (length p))) (ccm_aad_prefix (length A)) A) = 16"
    by (rule aes.length_ccm_absorb) (simp_all add: ccm_aad_prefix_def)
  then have mac: "length ?mac = t"
    using aes.length_ccm_absorb[OF m1, of "[]" Key 16 p] t by (simp add: AES_CCM_MAC_def Let_def)
  show len: "length (ccm_sealed Key N A p t) = length p + t" using mac s t by (simp add: ccm_sealed_def)
  show "AES_CCM_Encrypt p Key 16 N A t out room = (0, ccm_sealed Key N A p t @ drop (length p + t) out, length p + t)"
    if "length p + t \<le> room"
    using that assms mac s t by (simp add: AES_CCM_Encrypt_def Let_def aes_sizes ccm_sealed_def)
  have "xor_bytes (xor_bytes ?mac (?E ?ctr)) (?E ?ctr) = ?mac"
    by (rule xor_bytes_twice) (simp add: mac t)
  then show "AES_CCM_Decrypt (ccm_sealed Key N A p t) Key 16 N A t out' room' = (0, p @ drop (length p) out', length p)"
    if "length p \<le> room'"
    using that assms s mac t aes.ccm_stream_twice[OF ctr, of Key 16 p]
    by (simp add: AES_CCM_Decrypt_def Let_def aes_sizes ccm_sealed_def)
qed

end
