(* ===== verification/AesProps.thy ===== *)
theory AesProps
  imports AesLemmas
begin

text \<open>The properties of the AES routines.\<close>

section \<open>Tables and block cipher\<close>

text \<open>C25. The multiplication tables of the cipher are multiplication by 2, 3, 9, 11, 13 and 14 in the
  field with the AES polynomial, for all 256 bytes, and the decryption substitution table is the
  inverse of the encryption substitution table.\<close>

theorem aes_tables_are_field_operations:
  "m2 x = xtime x \<and> m3 x = xtime x XOR x \<and> m9 x = xtime (xtime (xtime x)) XOR x \<and>
   mb x = xtime (xtime (xtime x)) XOR xtime x XOR x \<and>
   md x = xtime (xtime (xtime x)) XOR xtime (xtime x) XOR x \<and>
   me x = xtime (xtime (xtime x)) XOR xtime (xtime x) XOR xtime x \<and>
   inv_sbox (sbox x) = x"
  by (simp add: m2_def m3_def m9_def mb_def md_def me_def aes_mul_lookup sbox_def inv_sbox_def aes_sbox_inverse)

text \<open>C26. Decrypting an encrypted block gives the block back, for keys of 16, 24 and 32 bytes: with
  output buffers of at least 16 bytes and memory for the context, both functions write exactly the
  first 16 bytes and report 16, and the second undoes the first.\<close>

theorem aes_block_roundtrip:
  assumes "valid_key_length n" and "length b = 16" and "16 \<le> length out" and "16 \<le> length out'"
  shows "\<exists>c. length c = 16 \<and> RT_AES_Encrypt True b 16 Key n out (length out) = (c @ drop 16 out, 16) \<and>
    RT_AES_Decrypt True c 16 Key n out' (length out') = (b @ drop 16 out', 16)"
  using assms by (intro exI[of _ "aes_encrypt_block Key n b"])
    (simp add: RT_AES_Encrypt_def RT_AES_Decrypt_def aes_sizes aes_decrypt_encrypt)


definition wit_block :: "byte list" where
  "wit_block = [0x00, 0x11, 0x22, 0x33, 0x44, 0x55, 0x66, 0x77, 0x88, 0x99, 0xaa, 0xbb, 0xcc, 0xdd, 0xee, 0xff]"

theorem aes_block_roundtrip_witness:
  "\<exists>c. RT_AES_Encrypt True wit_block 16 (replicate 24 7) 24 (replicate 20 0) 20 = (c @ replicate 4 0, 16) \<and>
    RT_AES_Decrypt True c 16 (replicate 24 7) 24 (replicate 16 0) 16 = (wit_block, 16)"
  using aes_block_roundtrip[of 24 wit_block "replicate 20 0" "replicate 16 0" "replicate 24 7"]
  by (auto simp: valid_key_length_def aes_sizes wit_block_def)

text \<open>The example of FIPS-197, appendix C.1, and its expanded key.\<close>

definition fips_key :: "byte list" where
  "fips_key = [0x00, 0x01, 0x02, 0x03, 0x04, 0x05, 0x06, 0x07, 0x08, 0x09, 0x0a, 0x0b, 0x0c, 0x0d, 0x0e, 0x0f]"

definition fips_columns :: "byte list list" where
  "fips_columns =
  [[0x00, 0x01, 0x02, 0x03], [0x04, 0x05, 0x06, 0x07], [0x08, 0x09, 0x0a, 0x0b], [0x0c, 0x0d, 0x0e, 0x0f],
   [0xd6, 0xaa, 0x74, 0xfd], [0xd2, 0xaf, 0x72, 0xfa], [0xda, 0xa6, 0x78, 0xf1], [0xd6, 0xab, 0x76, 0xfe],
   [0xb6, 0x92, 0xcf, 0x0b], [0x64, 0x3d, 0xbd, 0xf1], [0xbe, 0x9b, 0xc5, 0x00], [0x68, 0x30, 0xb3, 0xfe],
   [0xb6, 0xff, 0x74, 0x4e], [0xd2, 0xc2, 0xc9, 0xbf], [0x6c, 0x59, 0x0c, 0xbf], [0x04, 0x69, 0xbf, 0x41],
   [0x47, 0xf7, 0xf7, 0xbc], [0x95, 0x35, 0x3e, 0x03], [0xf9, 0x6c, 0x32, 0xbc], [0xfd, 0x05, 0x8d, 0xfd],
   [0x3c, 0xaa, 0xa3, 0xe8], [0xa9, 0x9f, 0x9d, 0xeb], [0x50, 0xf3, 0xaf, 0x57], [0xad, 0xf6, 0x22, 0xaa],
   [0x5e, 0x39, 0x0f, 0x7d], [0xf7, 0xa6, 0x92, 0x96], [0xa7, 0x55, 0x3d, 0xc1], [0x0a, 0xa3, 0x1f, 0x6b],
   [0x14, 0xf9, 0x70, 0x1a], [0xe3, 0x5f, 0xe2, 0x8c], [0x44, 0x0a, 0xdf, 0x4d], [0x4e, 0xa9, 0xc0, 0x26],
   [0x47, 0x43, 0x87, 0x35], [0xa4, 0x1c, 0x65, 0xb9], [0xe0, 0x16, 0xba, 0xf4], [0xae, 0xbf, 0x7a, 0xd2],
   [0x54, 0x99, 0x32, 0xd1], [0xf0, 0x85, 0x57, 0x68], [0x10, 0x93, 0xed, 0x9c], [0xbe, 0x2c, 0x97, 0x4e],
   [0x13, 0x11, 0x1d, 0x7f], [0xe3, 0x94, 0x4a, 0x17], [0xf3, 0x07, 0xa7, 0x8b], [0x4d, 0x2b, 0x30, 0xc5]]"

lemma fips_key_expansion: "RT_AES_KeyExpansion fips_key 16 = fips_columns"
  unfolding RT_AES_KeyExpansion_def fips_key_def fips_columns_def
  by (simp add: key_columns_def upt_rec expand_columns.simps next_column_def sbox_def aes_sbox_enc_def
      rcon_byte_def aes_rcon_def)

text \<open>The cipher computes AES: on the 128-bit key and the block of the standard's example it
  produces the cipher block the standard gives.\<close>

theorem aes_known_answer:
  "aes_encrypt_block fips_key 16 wit_block =
    [0x69, 0xc4, 0xe0, 0xd8, 0x6a, 0x7b, 0x04, 0x30, 0xd8, 0xcd, 0xb7, 0x80, 0x70, 0xb4, 0xc5, 0x5a]"
  unfolding aes_encrypt_block_def fips_key_expansion Let_def wit_block_def
  by (simp add: load_state_def store_state_def upt_rec fips_columns_def sbox_def aes_sbox_enc_def enc_round_def
      AddRoundKey_def SubBytes_def MixColumns_def ShiftRows_def m2_def m3_def aes_mul_lookup xtime_def)

section \<open>CBC\<close>

lemma last_pad_byte: "0 < k \<Longrightarrow> k \<le> 16 \<Longrightarrow> unat (last (p @ replicate k (word_of_nat k :: byte))) = k"
  by (simp add: last_append unat_of_nat)

text \<open>CBC decryption undoes CBC encryption for texts of every length: with a key of valid length,
  a 16-byte IV and buffers that hold the padded text, encryption writes the text padded to a whole
  number of blocks (one to 16 bytes are added), and decryption of what it wrote restores the text and
  its length.\<close>

theorem cbc_roundtrip:
  assumes "valid_key_length n" and "length iv = 16"
    and "length p + 16 \<le> length out" and "length p + 16 \<le> length out'"
  shows "\<exists>c r. length c = length p + (16 - length p mod 16) \<and>
    AES_CBC_Encrypt p Key n iv 16 out (length out) = (c @ drop (length c) out, length c) \<and>
    AES_CBC_Decrypt c Key n iv 16 out' (length out') = Some (p @ r, length p)"
proof -
  let ?pad = "16 - length p mod 16"
  let ?c = "cbc_encrypt (aes_encrypt_block Key n) iv p"
  have len: "length ?c = length p + ?pad" by (rule aes.length_cbc_encrypt[OF assms(2)])
  have room: "length p + ?pad \<le> length out'" "length p + ?pad \<le> length out" using assms(3,4) by linarith+
  have dec: "cbc_decrypt (aes_decrypt_block Key n) iv (length out') ?c = Some (p @ replicate ?pad (word_of_nat ?pad))"
    by (rule aes.cbc_decrypt_encrypt[OF assms(2) room(1)])
  have "16 dvd length p + ?pad" by presburger
  then have m4: "length ?c mod 4 = 0" unfolding len by presburger
  have last: "unat (last (p @ replicate ?pad (word_of_nat ?pad :: byte))) = ?pad"
    by (rule last_pad_byte) simp_all
  have "AES_CBC_Decrypt ?c Key n iv 16 out' (length out') =
      Some ((p @ replicate ?pad (word_of_nat ?pad)) @ drop (length p + ?pad) out', length p)"
    using assms(1) m4 dec last by (simp add: AES_CBC_Decrypt_def)
  moreover have "AES_CBC_Encrypt p Key n iv 16 out (length out) = (?c @ drop (length ?c) out, length ?c)"
    using assms(1) room(2) by (simp add: AES_CBC_Encrypt_def Let_def)
  ultimately show ?thesis using len by (metis append.assoc)
qed

theorem cbc_roundtrip_witness:
  "\<exists>c r. AES_CBC_Encrypt [1, 2, 3] fips_key 16 wit_block 16 (replicate 20 0) 20 = (c @ replicate 4 0, 16) \<and>
    AES_CBC_Decrypt c fips_key 16 wit_block 16 (replicate 20 0) 20 = Some ([1, 2, 3] @ r, 3)"
  using cbc_roundtrip[of 16 wit_block "[1, 2, 3]" "replicate 20 0" "replicate 20 0" fips_key]
  by (auto simp: valid_key_length_def aes_sizes wit_block_def)



section \<open>CCM\<close>

text \<open>CCM decryption accepts and restores what CCM encryption produced: for a 16-byte key, a nonce of
  7 to 13 bytes, a valid MAC length, any associated data and any payload, encryption succeeds and
  writes the payload's cipher text followed by the MAC, and decryption with the same key, nonce and
  associated data returns 0 and the payload.\<close>

theorem ccm_roundtrip:
  assumes "7 \<le> length N" and "length N \<le> 13" and "valid_mac_length t"
    and "length p + t \<le> length out" and "length p \<le> length out'"
  shows "\<exists>c. length c = length p + t \<and>
    AES_CCM_Encrypt p Key 16 N A t out (length out) = (0, c @ drop (length c) out, length c) \<and>
    AES_CCM_Decrypt c Key 16 N A t out' (length out') = (0, p @ drop (length p) out', length p)"
  using ccm_runs[OF assms(1-3), where Key = Key and A = A and p = p] assms(4,5) by (intro exI[of _ "ccm_sealed Key N A p t"]) simp

theorem ccm_roundtrip_witness:
  "\<exists>c. AES_CCM_Encrypt [1, 2, 3] fips_key 16 (replicate 13 5) [9, 9] 8 (replicate 11 0) 11 = (0, c, 11) \<and>
    AES_CCM_Decrypt c fips_key 16 (replicate 13 5) [9, 9] 8 (replicate 3 0) 3 = (0, [1, 2, 3], 3)"
  using ccm_roundtrip[of "replicate 13 5" 8 "[1, 2, 3]" "replicate 11 0" "replicate 3 0" fips_key "[9, 9]"]
  by (auto simp: valid_mac_length_def)

lemma ctr_inc_iter: "length ctr = 16 \<Longrightarrow> (ctr_inc ^^ k) ctr = ctr[15 := ctr ! 15 + word_of_nat k]"
  by (induction k) (auto simp: ctr_inc_def ac_simps)

text \<open>The CCM counter is one byte: after 256 blocks the counter block is the first one again, the one
  whose encryption masks the MAC, so a payload of 4096 bytes or more is enciphered with a key stream
  that repeats.\<close>

theorem ccm_counter_repeats:
  assumes "length N \<le> 13"
  shows "(ctr_inc ^^ 256) (ccm_ctr0 N) = ccm_ctr0 N"
proof -
  have "(word_of_nat 256 :: byte) = 0" by simp
  then show ?thesis using ctr_inc_iter[OF length_ccm_ctr0[OF assms], of 256] by (simp only: add_0_right list_update_id)
qed

theorem ccm_counter_repeats_witness: "(ctr_inc ^^ 256) (ccm_ctr0 (replicate 13 5)) = ccm_ctr0 (replicate 13 5)"
  by (rule ccm_counter_repeats) simp

section \<open>Key wrap\<close>

text \<open>Unwrapping undoes wrapping: for every key of valid length and every text, unwrapping what
  \<open>AES_Key_Wrap\<close> produced succeeds and gives the text back; the wrapped text is eight bytes
  longer.\<close>

theorem key_wrap_roundtrip:
  assumes "valid_key_length n"
  shows "\<exists>c. AES_Key_Wrap True p Key n = (0, c) \<and> length c = length p + 8 \<and>
    AES_Key_Unwrap True c Key n = Some (0, p)"
proof -
  let ?W = "fold (wrap_step (aes_encrypt_block Key n) (length p div 8)) (wrap_order (length p div 8)) (Default_IV, p)"
  obtain IV R where W: "?W = (IV, R)" by (cases ?W)
  have iv: "length Default_IV = 8" by (simp add: Default_IV_def)
  from aes.unwrap_wrap[OF iv, of p Key n] W have len: "length IV = 8" "length R = length p"
    and un: "fold (unwrap_step (aes_decrypt_block Key n) (length p div 8)) (unwrap_order (length p div 8)) (IV, R) = (Default_IV, p)"
    by (simp_all add: aes.wrap_ok_def)
  have "AES_Key_Wrap True p Key n = (0, IV @ R)" using assms W by (simp add: AES_Key_Wrap_def Let_def)
  moreover have "AES_Key_Unwrap True (IV @ R) Key n = Some (0, p)"
    using assms len un by (simp add: AES_Key_Unwrap_def Let_def)
  ultimately show ?thesis using len by auto
qed

theorem key_wrap_roundtrip_witness:
  "\<exists>c. AES_Key_Wrap True wit_block fips_key 16 = (0, c) \<and> AES_Key_Unwrap True c fips_key 16 = Some (0, wit_block)"
  using key_wrap_roundtrip[of 16 wit_block fips_key] by (auto simp: valid_key_length_def aes_sizes)

text \<open>Unwrapping checks nothing: for every key of valid length, every input of at least eight bytes is
  accepted, whatever the integrity value that comes out, so a wrapped key that was altered is taken as
  genuine.\<close>

theorem key_unwrap_accepts_everything:
  assumes "valid_key_length n" and "8 \<le> length c"
  shows "\<exists>p. AES_Key_Unwrap True c Key n = Some (0, p)"
  using assms by (simp add: AES_Key_Unwrap_def Let_def split: prod.splits)

theorem key_unwrap_accepts_everything_witness: "\<exists>p. AES_Key_Unwrap True (replicate 24 0) fips_key 16 = Some (0, p)"
  by (rule key_unwrap_accepts_everything) (simp_all add: valid_key_length_def aes_sizes)

end
