(* ===== verification/MacTable.thy ===== *)
theory MacTable
  imports BaSession
begin

text \<open>The station table of mgmt/mgmt_entrytb.c, a table of 32 entries with hash chains through it,
  and the part of sta/assoc.c and sta/connect.c that enters and clears the access point in it. A
  pointer to an entry is its index, \<open>None\<close> the null pointer. The fields of \<open>MAC_TABLE_ENTRY\<close> the
  session code uses are in \<open>Content\<close> of the adapter, the others that the table code sets are in
  \<open>mt_Rest\<close>. A loop along \<open>pNext\<close> is a partial function: \<open>None\<close> is a loop that does not end, or a
  fault of the session code.\<close>

section \<open>State\<close>

record sta_rest =
  pNext :: "nat option"
  isCached :: bool
  bIAmBadAtheros :: bool
  EnqueueEapolStartTimerRunning :: nat
  EnqueueStartForPSKTimer :: ralink_timer
  RetryTimer :: ralink_timer
  MsgRetryTimer :: ralink_timer
  CMTimerRunning :: bool
  sta_apidx :: nat
  RSNIE_Len :: nat
  R_Counter :: "byte list"
  ReTryCounter :: nat
  sta_AuthMode :: nat
  sta_WepStatus :: nat
  sta_PrivacyFilter :: nat
  GTKState :: nat
  pk_KeyLen :: nat
  pk_CipherAlg :: nat
  sta_PortSecured :: nat
  PMKID_CacheIdx :: int
  HdrAddr1 :: mac_addr
  HdrAddr2 :: mac_addr
  HdrAddr3 :: mac_addr
  Sst :: nat
  AuthState :: nat
  sta_CapabilityInfo :: nat
  PsMode :: nat
  PsQIdleCount :: nat
  NoDataIdleCount :: nat
  AssocDeadLine :: nat
  ContinueTxFailCnt :: nat
  TimeStamp_toTxRing :: nat
  PsQueue :: "packet list"
  sta_MaxSupportedRate :: nat
  sta_CurrTxRate :: nat

text \<open>The commands for the chip that the table code enqueues.\<close>

datatype mt_cmd =
    CMDTHREAD_REMOVE_PAIRWISE_KEY nat
  | CMDTHREAD_SET_CLIENT_MAC_ENTRY nat mac_addr
  | CMDTHREAD_DEL_ASIC_WCID nat
  | CMDTHREAD_UPDATE_PROTECT

record mac_state =
  mt_ad :: adapter
  mt_Hash :: "nat option list"
  mt_Rest :: "sta_rest list"
  mt_Size :: int
  mt_BssType :: nat
  mt_AuthMode :: nat
  mt_WepStatus :: nat
  mt_OperaionMode :: nat
  mt_cmds :: "mt_cmd list"

definition HASH_TABLE_SIZE :: nat where "HASH_TABLE_SIZE = 256"
definition BSSID_WCID :: nat where "BSSID_WCID = 1"
definition OPMODE_STA :: nat where "OPMODE_STA = 0"
definition RATE_11 :: nat where "RATE_11 = 3"
definition WPA_802_1X_PORT_SECURED :: nat where "WPA_802_1X_PORT_SECURED = 1"
definition WPA_802_1X_PORT_NOT_SECURED :: nat where "WPA_802_1X_PORT_NOT_SECURED = 2"
definition ENTRY_NOT_FOUND :: int where "ENTRY_NOT_FOUND = 0xFF"
definition MAC_TABLE_ASSOC_TIMEOUT :: nat where "MAC_TABLE_ASSOC_TIMEOUT = 5"
definition EAPOL_START_DISABLE :: nat where "EAPOL_START_DISABLE = 0"

lemmas mac_consts = HASH_TABLE_SIZE_def BSS_ADHOC_def BSS_INFRA_def BSSID_WCID_def OPMODE_STA_def

definition MAC_ADDR_HASH :: "mac_addr \<Rightarrow> byte" where
  "MAC_ADDR_HASH A = (A ! 0 XOR A ! 1 XOR A ! 2 XOR A ! 3 XOR A ! 4 XOR A ! 5)"

definition MAC_ADDR_HASH_INDEX :: "mac_addr \<Rightarrow> nat" where
  "MAC_ADDR_HASH_INDEX A = unat (MAC_ADDR_HASH A) mod HASH_TABLE_SIZE"

definition sta :: "mac_state \<Rightarrow> nat \<Rightarrow> MAC_TABLE_ENTRY" where "sta m i = Content (mt_ad m) ! i"
definition mt_used :: "mac_state \<Rightarrow> nat \<Rightarrow> bool" where "mt_used m i \<longleftrightarrow> EntryType (sta m i) \<noteq> ENTRY_NONE"
definition addr_of :: "mac_state \<Rightarrow> nat \<Rightarrow> mac_addr" where "addr_of m i = Addr (sta m i)"
definition next_of :: "mac_state \<Rightarrow> nat \<Rightarrow> nat option" where "next_of m i = pNext (mt_Rest m ! i)"

definition upd_sta :: "mac_state \<Rightarrow> nat \<Rightarrow> (MAC_TABLE_ENTRY \<Rightarrow> MAC_TABLE_ENTRY) \<Rightarrow> mac_state" where
  "upd_sta m i f = m\<lparr>mt_ad := upd_mac (mt_ad m) i f\<rparr>"

definition upd_rest :: "mac_state \<Rightarrow> nat \<Rightarrow> (sta_rest \<Rightarrow> sta_rest) \<Rightarrow> mac_state" where
  "upd_rest m i f = m\<lparr>mt_Rest := (mt_Rest m)[i := f (mt_Rest m ! i)]\<rparr>"

definition set_next :: "mac_state \<Rightarrow> nat \<Rightarrow> nat option \<Rightarrow> mac_state" where
  "set_next m i p = upd_rest m i (\<lambda>r. r\<lparr>pNext := p\<rparr>)"

definition set_hash :: "mac_state \<Rightarrow> nat \<Rightarrow> nat option \<Rightarrow> mac_state" where
  "set_hash m h p = m\<lparr>mt_Hash := (mt_Hash m)[h := p]\<rparr>"

definition mt_log :: "mac_state \<Rightarrow> mt_cmd \<Rightarrow> mac_state" where
  "mt_log m c = m\<lparr>mt_cmds := mt_cmds m @ [c]\<rparr>"

text \<open>\<open>NdisZeroMemory\<close> of a whole entry.\<close>

definition zero_timer :: ralink_timer where
  "zero_timer = \<lparr>tm_Valid = False, tm_State = False, tm_PeriodicType = False, tm_Repeat = False,
     tm_TimerValue = 0, tm_pending = False, tm_timeout = 0\<rparr>"

definition zero_sta :: MAC_TABLE_ENTRY where
  "zero_sta = \<lparr>EntryType = ENTRY_NONE, Addr = replicate 6 0, Aid = 0, RXBAbitmap = 0, TXBAbitmap = 0,
     BADeclineBitmap = 0, BARecWcidArray = replicate 8 0, BAOriWcidArray = replicate 8 0,
     TxSeq = replicate 8 0, IS_HT_STA = False, is_RALINK_CHIPSET = False, MaxRAmpduFactor = 0,
     WepDisabled = False\<rparr>"

definition zero_rest :: sta_rest where
  "zero_rest = \<lparr>pNext = None, isCached = False, bIAmBadAtheros = False, EnqueueEapolStartTimerRunning = 0,
     EnqueueStartForPSKTimer = zero_timer, RetryTimer = zero_timer, MsgRetryTimer = zero_timer,
     CMTimerRunning = False, sta_apidx = 0, RSNIE_Len = 0, R_Counter = replicate 8 0, ReTryCounter = 0,
     sta_AuthMode = 0, sta_WepStatus = 0, sta_PrivacyFilter = 0, GTKState = 0, pk_KeyLen = 0, pk_CipherAlg = 0,
     sta_PortSecured = 0, PMKID_CacheIdx = 0, HdrAddr1 = replicate 6 0, HdrAddr2 = replicate 6 0,
     HdrAddr3 = replicate 6 0, Sst = 0, AuthState = 0, sta_CapabilityInfo = 0, PsMode = 0, PsQIdleCount = 0,
     NoDataIdleCount = 0, AssocDeadLine = 0, ContinueTxFailCnt = 0, TimeStamp_toTxRing = 0, PsQueue = [],
     sta_MaxSupportedRate = 0, sta_CurrTxRate = 0\<rparr>"

section \<open>Lookup\<close>

partial_function (option) lookup_loop :: "mac_state \<Rightarrow> mac_addr \<Rightarrow> nat option \<Rightarrow> nat option option" where
  "lookup_loop m pAddr pEntry =
    (case pEntry of
       None \<Rightarrow> Some None
     | Some i \<Rightarrow> if mt_used m i
         then (if addr_of m i = pAddr then Some (Some i) else lookup_loop m pAddr (next_of m i))
         else Some (Some i))"

definition MacTableLookup :: "mac_state \<Rightarrow> mac_addr \<Rightarrow> nat option option" where
  "MacTableLookup m pAddr = lookup_loop m pAddr (mt_Hash m ! MAC_ADDR_HASH_INDEX pAddr)"

section \<open>Insertion\<close>

definition FirstWcid :: "mac_state \<Rightarrow> nat" where
  "FirstWcid m = (if mt_BssType m = BSS_INFRA then 2 else 1)"

definition first_free :: "mac_state \<Rightarrow> nat option" where
  "first_free m = find (\<lambda>i. \<not> mt_used m i) [FirstWcid m..<MAX_LEN_OF_MAC_TABLE]"

text \<open>The initialisation of entry \<open>i\<close> (station build). With \<open>CleanAll\<close> the two rates are set
  and the entry is cleared once more.\<close>

definition clear_entry :: "mac_state \<Rightarrow> nat \<Rightarrow> bool \<Rightarrow> mac_state" where
  "clear_entry m i CleanAll =
    (let m1 = upd_rest m i (\<lambda>r. r\<lparr>RetryTimer := RTMPCancelTimer (RetryTimer r),
                EnqueueStartForPSKTimer := RTMPCancelTimer (EnqueueStartForPSKTimer r)\<rparr>);
         m2 = upd_sta (upd_rest m1 i (\<lambda>_. zero_rest)) i (\<lambda>_. zero_sta)
     in if CleanAll
        then (let m3 = upd_rest m2 i (\<lambda>r. r\<lparr>sta_MaxSupportedRate := RATE_11, sta_CurrTxRate := RATE_11\<rparr>)
              in upd_sta (upd_rest m3 i (\<lambda>_. zero_rest)) i (\<lambda>_. zero_sta))
        else m2)"

definition init_rest :: "mac_state \<Rightarrow> mac_addr \<Rightarrow> nat \<Rightarrow> nat \<Rightarrow> sta_rest \<Rightarrow> sta_rest" where
  "init_rest m pAddr apidx opm r =
    (let r1 = r\<lparr>bIAmBadAtheros := False,
           EnqueueStartForPSKTimer := RTMPInitTimer (EnqueueStartForPSKTimer r) False,
           MsgRetryTimer := RTMPInitTimer (MsgRetryTimer r) False,
           CMTimerRunning := False, EnqueueEapolStartTimerRunning := EAPOL_START_DISABLE, RSNIE_Len := 0,
           R_Counter := replicate 8 0, ReTryCounter := 0, sta_apidx := apidx,
           sta_AuthMode := mt_AuthMode m, sta_WepStatus := mt_WepStatus m, sta_PrivacyFilter := 0,
           GTKState := 0, pk_KeyLen := 0, pk_CipherAlg := 0, sta_PortSecured := WPA_802_1X_PORT_NOT_SECURED,
           PMKID_CacheIdx := ENTRY_NOT_FOUND, HdrAddr1 := pAddr\<rparr>;
         r2 = (if opm = OPMODE_STA then r1\<lparr>HdrAddr2 := CurrentAddress (mt_ad m), HdrAddr3 := pAddr\<rparr> else r1)
     in r2\<lparr>Sst := 0, AuthState := 0, sta_CapabilityInfo := 0, PsMode := 0, PsQIdleCount := 0,
          NoDataIdleCount := 0, AssocDeadLine := MAC_TABLE_ASSOC_TIMEOUT, ContinueTxFailCnt := 0,
          TimeStamp_toTxRing := 0, PsQueue := []\<rparr>)"

definition init_sta :: "mac_state \<Rightarrow> nat \<Rightarrow> mac_addr \<Rightarrow> MAC_TABLE_ENTRY \<Rightarrow> MAC_TABLE_ENTRY" where
  "init_sta m i pAddr st = st\<lparr>EntryType := ENTRY_CLIENT, WepDisabled := (mt_WepStatus m = Ndis802_11WEPDisabled),
     Addr := pAddr, Aid := i\<rparr>"

definition init_entry :: "mac_state \<Rightarrow> nat \<Rightarrow> mac_addr \<Rightarrow> nat \<Rightarrow> nat \<Rightarrow> bool \<Rightarrow> mac_state" where
  "init_entry m i pAddr apidx opm CleanAll =
    (let m1 = clear_entry m i CleanAll;
         m2 = upd_sta (upd_rest m1 i (init_rest m pAddr apidx opm)) i (init_sta m i pAddr);
         m3 = m2\<lparr>mt_Size := USHORT (mt_Size m2 + 1)\<rparr>
     in mt_log (mt_log m3 (CMDTHREAD_REMOVE_PAIRWISE_KEY i)) (CMDTHREAD_SET_CLIENT_MAC_ENTRY i pAddr))"

text \<open>Appending to the hash chain.\<close>

partial_function (option) chain_end :: "mac_state \<Rightarrow> nat \<Rightarrow> nat option" where
  "chain_end m pCurr = (case next_of m pCurr of None \<Rightarrow> Some pCurr | Some j \<Rightarrow> chain_end m j)"

definition hash_append :: "mac_state \<Rightarrow> nat \<Rightarrow> mac_addr \<Rightarrow> mac_state option" where
  "hash_append m pEntry pAddr =
    (let HashIdx = MAC_ADDR_HASH_INDEX pAddr in
     case mt_Hash m ! HashIdx of
       None \<Rightarrow> Some (set_hash m HashIdx (Some pEntry))
     | Some h0 \<Rightarrow> (case chain_end m h0 of
           None \<Rightarrow> None
         | Some pCurr \<Rightarrow> Some (set_next m pCurr (Some pEntry))))"

definition MacTableInsertEntry ::
  "mac_state \<Rightarrow> mac_addr \<Rightarrow> nat \<Rightarrow> nat \<Rightarrow> bool \<Rightarrow> (nat option \<times> mac_state) option" where
  "MacTableInsertEntry m pAddr apidx opm CleanAll =
    (if mt_Size m \<ge> int MAX_LEN_OF_MAC_TABLE then Some (None, m)
     else case first_free m of
       None \<Rightarrow> Some (None, m)
     | Some i \<Rightarrow> (case hash_append (init_entry m i pAddr apidx opm CleanAll) i pAddr of
           None \<Rightarrow> None
         | Some m' \<Rightarrow> Some (Some i, m')))"

section \<open>Deletion\<close>

partial_function (option) unlink_loop ::
  "mac_state \<Rightarrow> nat \<Rightarrow> nat \<Rightarrow> nat option \<Rightarrow> nat option \<Rightarrow> mac_state option" where
  "unlink_loop m HashIdx pEntry pPrev pProbe =
    (case pProbe of
       None \<Rightarrow> Some m
     | Some p \<Rightarrow> if p = pEntry
         then Some (case pPrev of
                      None \<Rightarrow> set_hash m HashIdx (next_of m pEntry)
                    | Some q \<Rightarrow> set_next m q (next_of m pEntry))
         else unlink_loop m HashIdx pEntry (Some p) (next_of m p))"

text \<open>The branch in which the address agrees.\<close>

definition delete_matching :: "mac_state \<Rightarrow> nat \<Rightarrow> mac_addr \<Rightarrow> mac_state option" where
  "delete_matching m wcid pAddr =
    (let HashIdx = MAC_ADDR_HASH_INDEX pAddr; m1 = mt_log m (CMDTHREAD_DEL_ASIC_WCID wcid) in
     case BASessionTearDownALL (mt_ad m1) (Aid (sta m1 wcid)) of
       None \<Rightarrow> None
     | Some a \<Rightarrow>
       (let m2 = upd_rest (m1\<lparr>mt_ad := a\<rparr>) wcid (\<lambda>r. r\<lparr>MsgRetryTimer := RTMPReleaseTimer (MsgRetryTimer r)\<rparr>) in
        case unlink_loop m2 HashIdx wcid None (mt_Hash m2 ! HashIdx) of
          None \<Rightarrow> None
        | Some m3 \<Rightarrow>
          (let m4 = upd_rest m3 wcid (\<lambda>r. if EnqueueEapolStartTimerRunning r \<noteq> EAPOL_START_DISABLE
                 then r\<lparr>EnqueueStartForPSKTimer := RTMPCancelTimer (EnqueueStartForPSKTimer r),
                        EnqueueEapolStartTimerRunning := EAPOL_START_DISABLE\<rparr> else r);
               m5 = upd_rest m4 wcid (\<lambda>r. r\<lparr>EnqueueStartForPSKTimer := RTMPReleaseTimer (EnqueueStartForPSKTimer r)\<rparr>);
               m6 = upd_sta m5 wcid (\<lambda>st. st\<lparr>Addr := replicate 6 0, EntryType := ENTRY_NONE\<rparr>)
           in Some (m6\<lparr>mt_Size := USHORT (mt_Size m6 - 1)\<rparr>))))"

definition MacTableDeleteEntry :: "mac_state \<Rightarrow> nat \<Rightarrow> mac_addr \<Rightarrow> (bool \<times> mac_state) option" where
  "MacTableDeleteEntry m wcid pAddr =
    (if wcid \<ge> MAX_LEN_OF_MAC_TABLE then Some (False, m)
     else case
       (if mt_used m wcid
        then (let m1 = upd_rest m wcid (\<lambda>r. r\<lparr>RetryTimer := RTMPCancelTimer (RetryTimer r),
                     EnqueueStartForPSKTimer := RTMPCancelTimer (EnqueueStartForPSKTimer r)\<rparr>)
              in if addr_of m1 wcid = pAddr then delete_matching m1 wcid pAddr else Some m1)
        else Some m) of
         None \<Rightarrow> None
       | Some m2 \<Rightarrow> Some (True, if mt_Size m2 = 0 then mt_log (m2\<lparr>mt_OperaionMode := 0\<rparr>) CMDTHREAD_UPDATE_PROTECT
                             else m2))"

text \<open>\<open>MacTableReset\<close>: entries 1 to 31 in turn.\<close>

definition reset_entry :: "nat \<Rightarrow> mac_state \<Rightarrow> mac_state option" where
  "reset_entry i m =
    (let m1 = (if EntryType (sta m i) = ENTRY_CLIENT
               then upd_rest m i (\<lambda>r. r\<lparr>EnqueueStartForPSKTimer := RTMPReleaseTimer (EnqueueStartForPSKTimer r),
                      MsgRetryTimer := RTMPReleaseTimer (MsgRetryTimer r),
                      EnqueueEapolStartTimerRunning := EAPOL_START_DISABLE\<rparr>)
               else m)
     in map_option snd (MacTableDeleteEntry m1 i (addr_of m1 i)))"

primrec reset_entries :: "nat list \<Rightarrow> mac_state \<Rightarrow> mac_state option" where
  "reset_entries [] m = Some m"
| "reset_entries (i # is) m = (case reset_entry i m of None \<Rightarrow> None | Some m' \<Rightarrow> reset_entries is m')"

definition MacTableReset :: "mac_state \<Rightarrow> mac_state option" where
  "MacTableReset m = reset_entries [1..<MAX_LEN_OF_MAC_TABLE] m"

section \<open>The access point of an infrastructure network\<close>

text \<open>\<open>StaAddMacTableEntry\<close>: the block that links entry \<open>BSSID_WCID\<close>. The address compared
  along the chain is the one the entry had before.\<close>

partial_function (option) infra_scan :: "mac_state \<Rightarrow> nat \<Rightarrow> nat option" where
  "infra_scan m pCurr =
    (case next_of m pCurr of
       None \<Rightarrow> Some pCurr
     | Some j \<Rightarrow> if addr_of m pCurr \<noteq> addr_of m BSSID_WCID \<and> pCurr \<noteq> BSSID_WCID then infra_scan m j
                else Some pCurr)"

definition sta_infra_link :: "mac_state \<Rightarrow> mac_addr \<Rightarrow> mac_state option" where
  "sta_infra_link m MlmeBssid =
    (if mt_BssType m = BSS_INFRA
     then (let HashIdx = MAC_ADDR_HASH_INDEX MlmeBssid in
       case (case mt_Hash m ! HashIdx of
               None \<Rightarrow> Some (set_hash m HashIdx (Some BSSID_WCID))
             | Some h0 \<Rightarrow> (case infra_scan m h0 of
                   None \<Rightarrow> None
                 | Some pCurr \<Rightarrow>
                     Some (if pCurr \<noteq> BSSID_WCID \<and> addr_of m pCurr = addr_of m BSSID_WCID
                           then set_next (set_next m pCurr (Some BSSID_WCID)) BSSID_WCID None
                           else m))) of
         None \<Rightarrow> None
       | Some m1 \<Rightarrow>
         (let m2 = upd_sta m1 BSSID_WCID (\<lambda>st. st\<lparr>Addr := MlmeBssid, Aid := BSSID_WCID, EntryType := ENTRY_CLIENT\<rparr>)
          in Some (m2\<lparr>mt_Size := USHORT (mt_Size m2 + 1)\<rparr>)))
     else Some m)"

text \<open>\<open>PeerAssocRspAction\<close> and \<open>PeerReassocRspAction\<close>: the entry of the network left is deleted
  before the new one is entered.\<close>

definition assoc_delete_old :: "mac_state \<Rightarrow> mac_state option" where
  "assoc_delete_old m =
    (case MacTableLookup m (Bssid (mt_ad m)) of
       None \<Rightarrow> None
     | Some None \<Rightarrow> Some m
     | Some (Some e) \<Rightarrow> map_option snd (MacTableDeleteEntry m (Aid (sta m e)) (addr_of m e)))"

definition assoc_station_table :: "mac_state \<Rightarrow> mac_addr \<Rightarrow> mac_state option" where
  "assoc_station_table m MlmeBssid =
    (case assoc_delete_old m of None \<Rightarrow> None | Some m' \<Rightarrow> sta_infra_link m' MlmeBssid)"

text \<open>\<open>LinkDown\<close>: every client is deleted, then entry \<open>BSSID_WCID\<close> is cleared.\<close>

primrec link_down_entries :: "nat list \<Rightarrow> mac_state \<Rightarrow> mac_state option" where
  "link_down_entries [] m = Some m"
| "link_down_entries (i # is) m =
    (if EntryType (sta m i) = ENTRY_CLIENT
     then (case MacTableDeleteEntry m (Aid (sta m i)) (addr_of m i) of
             None \<Rightarrow> None
           | Some (_, m') \<Rightarrow> link_down_entries is m')
     else link_down_entries is m)"

definition link_down_station_table :: "mac_state \<Rightarrow> nat \<Rightarrow> mac_state option" where
  "link_down_station_table m PortSecured =
    (case link_down_entries [1..<MAX_LEN_OF_MAC_TABLE] m of
       None \<Rightarrow> None
     | Some m' \<Rightarrow> Some (upd_rest (upd_sta m' BSSID_WCID (\<lambda>_. zero_sta)) BSSID_WCID
          (\<lambda>_. zero_rest\<lparr>sta_PortSecured := PortSecured\<rparr>)))"

end
