(* ===== verification/BaIdent.thy ===== *)
theory BaIdent
  imports BaEvents
begin

text \<open>The session code never writes the type, the address or the association id of a station: no
  event of it changes the identity of any entry of the station table.\<close>

definition ident :: "MAC_TABLE_ENTRY \<Rightarrow> ENTRY_TYPE \<times> mac_addr \<times> nat" where
  "ident st = (EntryType st, Addr st, Aid st)"

definition idents :: "adapter \<Rightarrow> (ENTRY_TYPE \<times> mac_addr \<times> nat) list" where
  "idents a = map ident (Content a)"

named_theorems idents_simps \<open>what keeps the identities of the stations\<close>

lemma idents_upd [idents_simps]:
  "(\<And>st. ident (f st) = ident st) \<Longrightarrow> idents (upd_mac a w f) = idents a"
  "idents (upd_rec a i g) = idents a" "idents (upd_ori a i h) = idents a" "idents (log_call a c) = idents a"
  "idents (a\<lparr>numAsRecipient := n\<rparr>) = idents a" "idents (a\<lparr>numAsOriginator := n\<rparr>) = idents a"
  "idents (a\<lparr>numDoneOriginator := n\<rparr>) = idents a" "idents (a\<lparr>alloc_results := rs\<rparr>) = idents a"
  by (simp_all add: idents_def map_upd_mac upd_rec_def upd_ori_def log_call_def)

lemma ident_upd [idents_simps]:
  "ident (st\<lparr>BAOriWcidArray := x\<rparr>) = ident st" "ident (st\<lparr>BARecWcidArray := x\<rparr>) = ident st"
  "ident (st\<lparr>TXBAbitmap := y\<rparr>) = ident st" "ident (st\<lparr>RXBAbitmap := y\<rparr>) = ident st"
  "ident (st\<lparr>BADeclineBitmap := y\<rparr>) = ident st" "ident (st\<lparr>TxSeq := z\<rparr>) = ident st"
  by (simp_all add: ident_def)

lemma idents_more: "ba_ctx.more a' = ba_ctx.more a \<Longrightarrow> idents a' = idents (a :: adapter)"
  by (cases a; cases a') (simp add: idents_def)

lemma refresh_more: "ba_ctx.more (fst (ba_refresh_reordering_mpdus a e)) = ba_ctx.more a"
proof -
  have "ba_ctx.more (fst (refresh_loop a e)) = ba_ctx.more a"
  proof (induction a e rule: refresh_loop.induct)
    case (1 a e)
    show ?case
    proof (cases "ba_dequeue (reorder_list e)")
      case (Pair b l)
      then show ?thesis
        using 1[OF Pair[symmetric]]
        by (cases b; subst refresh_loop.simps)
          (simp_all add: ba_mpdu_blk_free_def Announce_Reordering_Packet_def log_call_def ba_enqueue_def)
    qed
  qed
  then show ?thesis by (cases "refresh_loop a e") (simp add: ba_refresh_reordering_mpdus_def)
qed

lemma idents_refresh:
  assumes "ba_refresh_reordering_mpdus a e = (a', e')"
  shows "idents a' = idents a"
proof (rule idents_more)
  show "ba_ctx.more a' = ba_ctx.more a" using refresh_more[of a e] unfolding assms by simp
qed

lemma idents_take_alloc: "take_alloc a = (r, a') \<Longrightarrow> idents a' = idents a"
  by (auto simp: take_alloc_def idents_simps split: list.splits)

lemma idents_MlmeDELBA: "MlmeDELBAAction a i n = Some a' \<Longrightarrow> idents a' = idents a"
  by (auto simp: MlmeDELBAAction_def Let_def idents_simps split: if_splits prod.splits bool.splits Option.bind_splits
      dest!: idents_take_alloc)

lemma idents_send_delba: "send_delba a w t ini = (b, Some a') \<Longrightarrow> idents a' = idents a"
  by (auto simp: send_delba_def split: prod.splits bool.splits dest!: idents_take_alloc idents_MlmeDELBA)

lemma idents_snd_send_delba: "snd (send_delba a w t ini) = Some a' \<Longrightarrow> idents a' = idents a"
  by (cases "send_delba a w t ini") (simp add: idents_send_delba)

lemma idents_FreeOri: "BATableFreeOriEntry a i = Some a' \<Longrightarrow> idents a' = idents a"
  by (auto simp: BATableFreeOriEntry_def Let_def idents_simps split: if_splits Option.bind_splits)

lemma idents_FreeRec: "BATableFreeRecEntry a i = Some a' \<Longrightarrow> idents a' = idents a"
  by (auto simp: BATableFreeRecEntry_def Let_def idents_simps split: if_splits Option.bind_splits)

lemma idents_OriTearDown: "BAOriSessionTearDown a w t p f = Some a' \<Longrightarrow> idents a' = idents a"
  by (auto simp: BAOriSessionTearDown_def idents_simps split: if_splits Option.bind_splits prod.splits bool.splits
      dest!: idents_FreeOri idents_send_delba idents_snd_send_delba)

lemma idents_RecTearDown: "BARecSessionTearDown a w t p = Some a' \<Longrightarrow> idents a' = idents a"
  by (auto simp: BARecSessionTearDown_def Let_def idents_simps split: if_splits Option.bind_splits prod.splits bool.splits
      dest!: idents_FreeRec idents_send_delba idents_refresh)

lemma idents_TearDown_tids: "BASessionTearDown_tids a w ts = Some a' \<Longrightarrow> idents a' = idents a"
  by (induction ts arbitrary: a) (auto split: Option.bind_splits dest!: idents_OriTearDown idents_RecTearDown)

lemma idents_TearDownALL: "BASessionTearDownALL a w = Some a' \<Longrightarrow> idents a' = idents a"
  unfolding BASessionTearDownALL_def by (rule idents_TearDown_tids)

section \<open>Receiving\<close>

named_theorems more_simps \<open>what keeps the adapter behind the reordering context\<close>

lemma more_basic [more_simps]:
  "ba_ctx.more (log_call a c) = ba_ctx.more a" "ba_ctx.more (ba_mpdu_blk_free a b) = ba_ctx.more a"
  "ba_ctx.more (Announce_Reordering_Packet a m) = ba_ctx.more a"
  "ba_ctx.more (INDICATE_LEGACY_OR_AMSDU a rx n) = ba_ctx.more a"
  by (simp_all add: log_call_def ba_mpdu_blk_free_def Announce_Reordering_Packet_def INDICATE_LEGACY_OR_AMSDU_def)

lemma more_alloc: "ba_mpdu_blk_alloc a = (b, a') \<Longrightarrow> ba_ctx.more a' = ba_ctx.more a"
  by (auto simp: ba_mpdu_blk_alloc_def split: prod.splits option.splits)

lemma more_le_seq: "ba_indicate_reordering_mpdus_le_seq a e s = Some (a', e') \<Longrightarrow> ba_ctx.more a' = ba_ctx.more a"
proof (induction a e s rule: ba_indicate_reordering_mpdus_le_seq.induct)
  case (1 a e s)
  from 1(2) show ?case
    by (subst (asm) ba_indicate_reordering_mpdus_le_seq.simps)
      (auto split: option.splits if_splits prod.splits dest!: 1(1) simp: more_simps)
qed

lemma more_in_order: "in_order_loop a e s l = Some (a', e', l') \<Longrightarrow> ba_ctx.more a' = ba_ctx.more a"
proof (induction a e s l rule: in_order_loop.induct)
  case (1 a e s l)
  from 1(2) show ?case
    by (subst (asm) in_order_loop.simps)
      (auto split: option.splits if_splits prod.splits dest!: 1(1) simp: more_simps)
qed

lemma more_order: "ba_indicate_reordering_mpdus_in_order a e s = Some (a', e', l') \<Longrightarrow> ba_ctx.more a' = ba_ctx.more a"
  unfolding ba_indicate_reordering_mpdus_in_order_def by (rule more_in_order)

lemma more_refresh: "ba_refresh_reordering_mpdus a e = (a', e') \<Longrightarrow> ba_ctx.more a' = ba_ctx.more a"
  using refresh_more[of a e] by simp

lemma more_flush: "ba_flush_reordering_timeout_mpdus a e now = Some (a', e') \<Longrightarrow> ba_ctx.more a' = ba_ctx.more a"
  by (auto simp: ba_flush_reordering_timeout_mpdus_def Let_def split: if_splits prod.splits Option.bind_splits
      dest!: more_le_seq more_order more_refresh)

lemma more_enqueue: "ba_enqueue_reordering_packet a e rx b = Some (a', e') \<Longrightarrow> ba_ctx.more a' = ba_ctx.more a"
  by (auto simp: ba_enqueue_reordering_packet_def Let_def more_simps split: if_splits prod.splits bool.splits Option.bind_splits
      dest!: more_le_seq more_alloc)

lemma more_cases: "ampdu_cases a e rx b now = Some (a', e') \<Longrightarrow> ba_ctx.more a' = ba_ctx.more a"
  by (auto simp: ampdu_cases_def drop_packet_def Let_def more_simps split: if_splits prod.splits Option.bind_splits
      dest!: more_le_seq more_order more_enqueue)

lemma more_session_rx: "ampdu_session_rx a e rx b now = Some (a', e') \<Longrightarrow> ba_ctx.more a' = ba_ctx.more a"
  by (auto simp: ampdu_session_rx_def Let_def more_simps split: if_splits prod.splits Option.bind_splits
      dest!: more_flush more_cases)

lemma more_bar: "bar_session_rx a e s = Some (a', e') \<Longrightarrow> ba_ctx.more a' = ba_ctx.more a"
  by (auto simp: bar_session_rx_def split: if_splits prod.splits Option.bind_splits dest!: more_le_seq)

section \<open>Every event\<close>

lemma idents_AllocRec: "BATableAllocRecEntry a i = (p, j, a') \<Longrightarrow> idents a' = idents a"
  by (auto simp: BATableAllocRecEntry_def idents_simps split: if_splits option.splits)

lemma idents_AllocOri: "BATableAllocOriEntry a i = (p, j, a') \<Longrightarrow> idents a' = idents a"
  by (auto simp: BATableAllocOriEntry_def idents_simps split: if_splits option.splits)

lemma idents_set_ori_timer [idents_simps]: "idents (set_ori_timer a i v) = idents a"
  by (simp add: set_ori_timer_def idents_simps)

lemma idents_OriSetUp: "BAOriSessionSetUp a w t x d f = Some a' \<Longrightarrow> idents a' = idents a"
  by (auto simp: BAOriSessionSetUp_def Let_def idents_simps split: if_splits Option.bind_splits prod.splits option.splits
      dest!: idents_AllocOri)

lemma idents_SetupTimeout: "BAOriSessionSetupTimeout a i = Some a' \<Longrightarrow> idents a' = idents a"
  by (auto simp: BAOriSessionSetupTimeout_def Let_def idents_simps split: if_splits Option.bind_splits
      dest!: idents_FreeOri)

lemma idents_OriAdd: "BAOriSessionAdd a w f = Some a' \<Longrightarrow> idents a' = idents a"
  by (auto simp: BAOriSessionAdd_def Let_def idents_simps split: if_splits Option.bind_splits prod.splits bool.splits
      dest!: idents_take_alloc)

lemma idents_RecAdd: "BARecSessionAdd a w f = Some (b, a') \<Longrightarrow> idents a' = idents a"
  by (auto simp: BARecSessionAdd_def Let_def ident_def split: if_splits Option.bind_splits prod.splits option.splits
      dest!: idents_AllocRec idents_refresh intro!: trans[OF idents_upd(1)] simp: idents_upd(2-))

lemma idents_MlmeADDBA: "MlmeADDBAAction a i n = Some a' \<Longrightarrow> idents a' = idents a"
  by (auto simp: MlmeADDBAAction_def Let_def idents_simps split: if_splits prod.splits bool.splits Option.bind_splits
      dest!: idents_take_alloc)

lemma idents_AddBAReq: "PeerAddBAReqAction a w f n = Some a' \<Longrightarrow> idents a' = idents a"
  by (auto simp: PeerAddBAReqAction_def Let_def idents_simps split: if_splits prod.splits bool.splits Option.bind_splits
      dest!: idents_take_alloc idents_RecAdd)

lemma idents_AddBARsp: "PeerAddBARspAction a w f n = Some a' \<Longrightarrow> idents a' = idents a"
  by (auto simp: PeerAddBARspAction_def Let_def idents_simps split: if_splits prod.splits bool.splits Option.bind_splits
      dest!: idents_OriAdd idents_OriTearDown)

lemma idents_DelBA: "PeerDelBAAction a w p n = Some a' \<Longrightarrow> idents a' = idents a"
  by (auto simp: PeerDelBAAction_def split: if_splits dest!: idents_RecTearDown idents_OriTearDown)

lemma idents_BAR: "CntlEnqueueForRecv a w n c s = Some (b, a') \<Longrightarrow> idents a' = idents a"
  by (auto simp: CntlEnqueueForRecv_def Let_def idents_simps split: if_splits prod.splits Option.bind_splits
      dest!: more_bar idents_more)

lemma idents_AMPDU: "Indicate_AMPDU_Packet a rx b now = Some a' \<Longrightarrow> idents a' = idents a"
  by (auto simp: Indicate_AMPDU_Packet_def Let_def idents_simps INDICATE_LEGACY_OR_AMSDU_def
      split: if_splits prod.splits Option.bind_splits dest!: more_session_rx idents_more)

lemma idents_maintain_tids: "maintain_tids a w ts now = Some a' \<Longrightarrow> idents a' = idents a"
  by (induction ts arbitrary: a)
    (auto simp: idents_simps split: if_splits prod.splits Option.bind_splits dest!: more_flush idents_more)

lemma idents_maintain_wcids: "maintain_wcids a ws now = Some a' \<Longrightarrow> idents a' = idents a"
  by (induction ws arbitrary: a) (auto split: if_splits Option.bind_splits dest!: idents_maintain_tids)

lemma idents_RecIdle: "BARecSessionIdleTimeout a i now = Some a' \<Longrightarrow> idents a' = idents a"
  by (auto simp: BARecSessionIdleTimeout_def Let_def idents_simps split: if_splits prod.splits Option.bind_splits
      dest!: idents_refresh)

lemma idents_exec: "ba_exec ev a = Some a' \<Longrightarrow> idents a' = idents a"
  by (cases ev) (auto simp: BaReOrderingBufferMaintain_def idents_AddBAReq idents_AddBARsp idents_DelBA idents_BAR idents_AMPDU
      idents_maintain_wcids idents_OriSetUp idents_SetupTimeout idents_RecIdle idents_MlmeADDBA
      idents_MlmeDELBA idents_TearDownALL)

section \<open>Stations without sessions\<close>

text \<open>A station that has no session keeps having none, except the station a request names.\<close>

definition clear_sta :: "MAC_TABLE_ENTRY \<Rightarrow> bool" where
  "clear_sta st \<longleftrightarrow> BARecWcidArray st = replicate 8 0 \<and> BAOriWcidArray st = replicate 8 0"

definition clr :: "adapter \<Rightarrow> nat \<Rightarrow> bool" where
  "clr a w \<longleftrightarrow> w < length (Content a) \<and> clear_sta (Content a ! w)"

named_theorems clr_simps \<open>what keeps the stations without sessions\<close>

lemma clr_upd_mac [clr_simps]:
  "clr (upd_mac a w f) v \<longleftrightarrow> (if v = w then v < length (Content a) \<and> clear_sta (f (Content a ! w)) else clr a v)"
  by (auto simp: clr_def upd_mac_def)

lemma clr_upd_keep: "(\<And>st. clear_sta (f st) = clear_sta st) \<Longrightarrow> clr (upd_mac a w f) v = clr a v"
  by (cases "w < length (Content a)"; cases "v = w") (simp_all add: clr_def upd_mac_def list_update_beyond)

lemma clr_upd [clr_simps]:
  "clr (upd_rec a i g) v = clr a v" "clr (upd_ori a i h) v = clr a v" "clr (log_call a c) v = clr a v"
  "clr (a\<lparr>numAsRecipient := n\<rparr>) v = clr a v" "clr (a\<lparr>numAsOriginator := n\<rparr>) v = clr a v"
  "clr (a\<lparr>numDoneOriginator := n\<rparr>) v = clr a v" "clr (a\<lparr>alloc_results := rs\<rparr>) v = clr a v"
  by (simp_all add: clr_def upd_rec_def upd_ori_def log_call_def)

lemma zero_update: "(replicate n (0::nat))[t := 0] = replicate n 0"
  by (cases "t < n") (auto simp: list_eq_iff_nth_eq nth_list_update)

lemma clear_sta_upd [clr_simps]:
  "clear_sta (st\<lparr>TXBAbitmap := y\<rparr>) = clear_sta st" "clear_sta (st\<lparr>RXBAbitmap := y\<rparr>) = clear_sta st"
  "clear_sta (st\<lparr>BADeclineBitmap := y\<rparr>) = clear_sta st"
  "clear_sta st \<Longrightarrow> clear_sta (st\<lparr>BARecWcidArray := (BARecWcidArray st)[t := 0]\<rparr>)"
  "clear_sta st \<Longrightarrow> clear_sta (st\<lparr>BAOriWcidArray := (BAOriWcidArray st)[t := 0]\<rparr>)"
  "clear_sta st \<Longrightarrow> clear_sta (st\<lparr>RXBAbitmap := y, BARecWcidArray := (BARecWcidArray st)[t := 0]\<rparr>)"
  by (simp_all add: clear_sta_def zero_update)

lemma clr_sta: "clr a w \<Longrightarrow> clear_sta (Content a ! w) \<and> w < length (Content a)"
  by (simp add: clr_def)

lemma clr_more: "ba_ctx.more a' = ba_ctx.more a \<Longrightarrow> clr a' v = clr (a :: adapter) v"
  by (cases a; cases a') (simp add: clr_def)

lemma clr_refresh: "ba_refresh_reordering_mpdus a e = (a', e') \<Longrightarrow> clr a' v = clr a v"
  by (rule clr_more) (rule more_refresh)

lemma clr_take_alloc: "take_alloc a = (r, a') \<Longrightarrow> clr a' v = clr a v"
  by (auto simp: take_alloc_def clr_simps split: list.splits)

lemma clr_MlmeDELBA: "MlmeDELBAAction a i n = Some a' \<Longrightarrow> clr a' v = clr a v"
  by (auto simp: MlmeDELBAAction_def Let_def clr_simps split: if_splits prod.splits bool.splits Option.bind_splits
      dest!: clr_take_alloc[where v = v])

lemma clr_MlmeADDBA: "MlmeADDBAAction a i n = Some a' \<Longrightarrow> clr a' v = clr a v"
  by (auto simp: MlmeADDBAAction_def Let_def clr_simps split: if_splits prod.splits bool.splits Option.bind_splits
      dest!: clr_take_alloc[where v = v])

lemma clr_send_delba: "send_delba a w t ini = (b, Some a') \<Longrightarrow> clr a' v = clr a v"
  by (auto simp: send_delba_def split: prod.splits bool.splits dest!: clr_take_alloc[where v = v] clr_MlmeDELBA[where v = v])

lemma clr_snd_send_delba: "snd (send_delba a w t ini) = Some a' \<Longrightarrow> clr a' v = clr a v"
  by (cases "send_delba a w t ini") (simp add: clr_send_delba)

lemma clr_FreeOri: "BATableFreeOriEntry a i = Some a' \<Longrightarrow> clr a v \<Longrightarrow> clr a' v"
  by (auto simp: BATableFreeOriEntry_def Let_def clr_simps clr_sta split: if_splits Option.bind_splits)

lemma clr_FreeRec: "BATableFreeRecEntry a i = Some a' \<Longrightarrow> clr a v \<Longrightarrow> clr a' v"
  by (auto simp: BATableFreeRecEntry_def Let_def clr_simps clr_sta split: if_splits Option.bind_splits)

lemma clr_OriTearDown: "BAOriSessionTearDown a w t p f = Some a' \<Longrightarrow> clr a v \<Longrightarrow> clr a' v"
  by (auto simp: BAOriSessionTearDown_def clr_simps split: if_splits Option.bind_splits prod.splits bool.splits
      dest!: clr_send_delba[where v = v] clr_snd_send_delba[where v = v] dest: clr_FreeOri[where v = v])

lemma clr_RecTearDown: "BARecSessionTearDown a w t p = Some a' \<Longrightarrow> clr a v \<Longrightarrow> clr a' v"
  by (auto simp: BARecSessionTearDown_def Let_def clr_simps clr_sta split: if_splits Option.bind_splits prod.splits bool.splits
      dest!: clr_send_delba[where v = v] clr_refresh[where v = v] elim!: clr_FreeRec)

lemma clr_TearDown_tids: "BASessionTearDown_tids a w ts = Some a' \<Longrightarrow> clr a v \<Longrightarrow> clr a' v"
  by (induction ts arbitrary: a) (auto split: Option.bind_splits dest: clr_OriTearDown clr_RecTearDown)

lemma clr_set_ori_timer [clr_simps]: "clr (set_ori_timer a i x) v = clr a v"
  by (simp add: set_ori_timer_def clr_simps)

lemma clr_AllocRec: "BATableAllocRecEntry a i = (p, j, a') \<Longrightarrow> clr a' v = clr a v"
  by (auto simp: BATableAllocRecEntry_def clr_simps split: if_splits option.splits)

lemma clr_AllocOri: "BATableAllocOriEntry a i = (p, j, a') \<Longrightarrow> clr a' v = clr a v"
  by (auto simp: BATableAllocOriEntry_def clr_simps split: if_splits option.splits)

lemma clr_OriSetUp: "BAOriSessionSetUp a w t x d f = Some a' \<Longrightarrow> v \<noteq> w \<Longrightarrow> clr a v \<Longrightarrow> clr a' v"
  by (auto simp: BAOriSessionSetUp_def Let_def clr_simps split: if_splits Option.bind_splits prod.splits option.splits
      dest!: clr_AllocOri[where v = v])

lemma clr_SetupTimeout: "BAOriSessionSetupTimeout a i = Some a' \<Longrightarrow> clr a v \<Longrightarrow> clr a' v"
  by (auto simp: BAOriSessionSetupTimeout_def Let_def clr_simps split: if_splits Option.bind_splits
      dest: clr_FreeOri)

lemma clr_OriAdd: "BAOriSessionAdd a w f = Some a' \<Longrightarrow> clr a v \<Longrightarrow> clr a' v"
  by (auto simp: BAOriSessionAdd_def Let_def clr_simps clr_sta split: if_splits Option.bind_splits prod.splits bool.splits
      dest!: clr_take_alloc[where v = v])

lemma clr_RecAdd: "BARecSessionAdd a w f = Some (b, a') \<Longrightarrow> v \<noteq> w \<Longrightarrow> clr a v \<Longrightarrow> clr a' v"
  by (auto simp: BARecSessionAdd_def Let_def clr_simps split: if_splits Option.bind_splits prod.splits option.splits
      dest!: clr_AllocRec[where v = v] clr_refresh[where v = v])

lemma clr_AddBAReq: "PeerAddBAReqAction a w f n = Some a' \<Longrightarrow> v \<noteq> w \<Longrightarrow> clr a v \<Longrightarrow> clr a' v"
  by (auto simp: PeerAddBAReqAction_def Let_def clr_simps split: if_splits prod.splits bool.splits Option.bind_splits
      dest!: clr_take_alloc[where v = v] dest: clr_RecAdd)

lemma clr_AddBARsp: "PeerAddBARspAction a w f n = Some a' \<Longrightarrow> clr a v \<Longrightarrow> clr a' v"
  by (auto simp: PeerAddBARspAction_def clr_upd_keep clear_sta_upd split: if_splits Option.bind_splits
      elim: clr_OriAdd clr_OriTearDown)

lemma clr_DelBA: "PeerDelBAAction a w p n = Some a' \<Longrightarrow> clr a v \<Longrightarrow> clr a' v"
  by (auto simp: PeerDelBAAction_def split: if_splits dest: clr_RecTearDown clr_OriTearDown)

lemma clr_BAR: "CntlEnqueueForRecv a w n c s = Some (b, a') \<Longrightarrow> clr a' v = clr a v"
  by (auto simp: CntlEnqueueForRecv_def Let_def clr_simps split: if_splits prod.splits Option.bind_splits
      dest!: more_bar clr_more[where v = v])

lemma clr_AMPDU: "Indicate_AMPDU_Packet a rx b now = Some a' \<Longrightarrow> clr a' v = clr a v"
  by (auto simp: Indicate_AMPDU_Packet_def Let_def clr_simps INDICATE_LEGACY_OR_AMSDU_def
      split: if_splits prod.splits Option.bind_splits dest!: more_session_rx clr_more[where v = v])

lemma clr_maintain_tids: "maintain_tids a w ts now = Some a' \<Longrightarrow> clr a' v = clr a v"
  by (induction ts arbitrary: a)
    (auto simp: clr_simps split: if_splits prod.splits Option.bind_splits dest!: more_flush clr_more[where v = v])

lemma clr_maintain_wcids: "maintain_wcids a ws now = Some a' \<Longrightarrow> clr a' v = clr a v"
  by (induction ws arbitrary: a) (auto split: if_splits Option.bind_splits dest!: clr_maintain_tids[where v = v])

lemma clr_RecIdle: "BARecSessionIdleTimeout a i now = Some a' \<Longrightarrow> clr a' v = clr a v"
  by (auto simp: BARecSessionIdleTimeout_def Let_def clr_simps split: if_splits prod.splits Option.bind_splits
      dest!: clr_refresh[where v = v])

text \<open>The station whose arrays an event may fill.\<close>

fun ev_target :: "ba_event \<Rightarrow> nat option" where
  "ev_target (Ev_AddBAReq w f len) = Some w"
| "ev_target (Ev_OriSetUp w t x d forced) = Some w"
| "ev_target _ = None"

lemma clr_exec:
  assumes "ba_exec ev a = Some a'" "ev_target ev \<noteq> Some v" "clr a v"
  shows "clr a' v"
  using assms
  by (cases ev) (auto simp: BaReOrderingBufferMaintain_def BASessionTearDownALL_def clr_BAR clr_AMPDU clr_maintain_wcids
      clr_RecIdle clr_MlmeADDBA clr_MlmeDELBA
      elim: clr_AddBAReq clr_AddBARsp clr_DelBA clr_OriSetUp clr_SetupTimeout clr_TearDown_tids)

end
