(* ===== verification/MacTableInv.thy ===== *)
theory MacTableInv
  imports MacTable BaIdent
begin

text \<open>The hash chains as lists, the invariant of the station table, and what lookup, insertion and
  deletion do to the chains.\<close>

section \<open>Chains\<close>

text \<open>The entries met along \<open>nx\<close> from the pointer \<open>p\<close> to the null pointer are \<open>xs\<close>.\<close>

fun chain :: "(nat \<Rightarrow> nat option) \<Rightarrow> nat option \<Rightarrow> nat list \<Rightarrow> bool" where
  "chain nx p [] \<longleftrightarrow> p = None"
| "chain nx p (x # xs) \<longleftrightarrow> p = Some x \<and> chain nx (nx x) xs"

lemma chain_None [simp]: "chain nx None xs \<longleftrightarrow> xs = []"
  by (cases xs) auto

lemma chain_Some: "chain nx (Some x) xs \<longleftrightarrow> (\<exists>ys. xs = x # ys \<and> chain nx (nx x) ys)"
  by (cases xs) auto

lemma chain_frame: "(\<And>x. x \<in> set xs \<Longrightarrow> nx' x = nx x) \<Longrightarrow> chain nx' p xs \<longleftrightarrow> chain nx p xs"
  by (induction xs arbitrary: p) auto

lemma chain_unique: "chain nx p xs \<Longrightarrow> chain nx p ys \<Longrightarrow> xs = ys"
  by (induction xs arbitrary: p ys) (auto simp: chain_Some)

text \<open>The chain after the entry \<open>i\<close> is appended, and after an entry is taken out.\<close>

lemma chain_snoc:
  assumes "chain nx p (xs @ [e])" "i \<notin> set (xs @ [e])" "distinct (xs @ [e])"
  shows "chain (nx(i := None, e := Some i)) p (xs @ [e, i])"
  using assms by (induction xs arbitrary: p) auto

lemma chain_unlink:
  assumes "chain nx p (xs @ q # w # ys)" "distinct (xs @ q # w # ys)"
  shows "chain (nx(q := nx w)) p (xs @ q # ys)"
  using assms
proof (induction xs arbitrary: p)
  case Nil
  have "chain (nx(q := nx w)) (nx w) ys \<longleftrightarrow> chain nx (nx w) ys" using Nil(2) by (intro chain_frame) auto
  then show ?case using Nil(1) by (simp add: fun_upd_def)
qed auto

section \<open>Selectors after the updates\<close>

lemma upd_rest_sel [simp]:
  "mt_ad (upd_rest m i f) = mt_ad m" "mt_Hash (upd_rest m i f) = mt_Hash m" "mt_Size (upd_rest m i f) = mt_Size m"
  "length (mt_Rest (upd_rest m i f)) = length (mt_Rest m)" "mt_BssType (upd_rest m i f) = mt_BssType m"
  by (simp_all add: upd_rest_def)

lemma upd_sta_sel [simp]:
  "mt_Rest (upd_sta m i g) = mt_Rest m" "mt_Hash (upd_sta m i g) = mt_Hash m" "mt_Size (upd_sta m i g) = mt_Size m"
  "mt_BssType (upd_sta m i g) = mt_BssType m" "mt_ad (upd_sta m i g) = upd_mac (mt_ad m) i g"
  by (simp_all add: upd_sta_def)

lemma set_hash_sel [simp]:
  "mt_ad (set_hash m h p) = mt_ad m" "mt_Rest (set_hash m h p) = mt_Rest m" "mt_Size (set_hash m h p) = mt_Size m"
  "mt_Hash (set_hash m h p) = (mt_Hash m)[h := p]" "mt_BssType (set_hash m h p) = mt_BssType m"
  by (simp_all add: set_hash_def)

lemma mt_log_sel [simp]:
  "mt_ad (mt_log m c) = mt_ad m" "mt_Rest (mt_log m c) = mt_Rest m" "mt_Size (mt_log m c) = mt_Size m"
  "mt_Hash (mt_log m c) = mt_Hash m" "mt_BssType (mt_log m c) = mt_BssType m"
  by (simp_all add: mt_log_def)

lemma set_next_sel [simp]:
  "mt_ad (set_next m i p) = mt_ad m" "mt_Hash (set_next m i p) = mt_Hash m" "mt_Size (set_next m i p) = mt_Size m"
  "length (mt_Rest (set_next m i p)) = length (mt_Rest m)" "mt_BssType (set_next m i p) = mt_BssType m"
  by (simp_all add: set_next_def)

lemma sta_cong: "mt_ad m' = mt_ad m \<Longrightarrow> sta m' = sta m \<and> mt_used m' = mt_used m \<and> addr_of m' = addr_of m"
  by (simp add: fun_eq_iff sta_def mt_used_def addr_of_def)

lemma sta_frame [simp]:
  "sta (upd_rest m i f) = sta m" "sta (set_hash m h p) = sta m" "sta (mt_log m c) = sta m" "sta (set_next m i p) = sta m"
  "sta (m\<lparr>mt_Size := n\<rparr>) = sta m" "sta (m\<lparr>mt_OperaionMode := k\<rparr>) = sta m"
  "mt_used (upd_rest m i f) = mt_used m" "mt_used (set_hash m h p) = mt_used m" "mt_used (mt_log m c) = mt_used m"
  "mt_used (set_next m i p) = mt_used m" "mt_used (m\<lparr>mt_Size := n\<rparr>) = mt_used m" "mt_used (m\<lparr>mt_OperaionMode := k\<rparr>) = mt_used m"
  "addr_of (upd_rest m i f) = addr_of m" "addr_of (set_hash m h p) = addr_of m" "addr_of (mt_log m c) = addr_of m"
  "addr_of (set_next m i p) = addr_of m" "addr_of (m\<lparr>mt_Size := n\<rparr>) = addr_of m" "addr_of (m\<lparr>mt_OperaionMode := k\<rparr>) = addr_of m"
  by (simp_all add: sta_cong[of "upd_rest m i f" m] sta_cong[of "set_hash m h p" m] sta_cong[of "mt_log m c" m]
      sta_cong[of "set_next m i p" m] sta_cong[of "m\<lparr>mt_Size := n\<rparr>" m] sta_cong[of "m\<lparr>mt_OperaionMode := k\<rparr>" m])

lemma next_frame [simp]:
  "next_of (upd_sta m i g) = next_of m" "next_of (set_hash m h p) = next_of m" "next_of (mt_log m c) = next_of m"
  "next_of (m\<lparr>mt_Size := n\<rparr>) = next_of m" "next_of (m\<lparr>mt_OperaionMode := k\<rparr>) = next_of m"
  "next_of (m\<lparr>mt_ad := a\<rparr>) = next_of m"
  by (simp_all add: fun_eq_iff next_of_def)

lemma next_upd_rest [simp]: "(\<And>r. pNext (f r) = pNext r) \<Longrightarrow> next_of (upd_rest m i f) = next_of m"
  by (cases "i < length (mt_Rest m)") (auto simp: fun_eq_iff next_of_def upd_rest_def nth_list_update list_update_beyond)

lemma next_set_rest: "i < length (mt_Rest m) \<Longrightarrow> next_of (upd_rest m i f) = (next_of m)(i := pNext (f (mt_Rest m ! i)))"
  by (auto simp: fun_eq_iff next_of_def upd_rest_def nth_list_update)

lemma next_set_next: "i < length (mt_Rest m) \<Longrightarrow> next_of (set_next m i p) = (next_of m)(i := p)"
  by (simp add: set_next_def next_set_rest)

lemma sta_upd_sta: "i < length (Content (mt_ad m)) \<Longrightarrow> sta (upd_sta m i g) = (sta m)(i := g (sta m i))"
  by (auto simp: fun_eq_iff sta_def upd_sta_def upd_mac_def nth_list_update)

lemma used_upd_sta:
  "i < length (Content (mt_ad m)) \<Longrightarrow> mt_used (upd_sta m i g) = (mt_used m)(i := EntryType (g (sta m i)) \<noteq> ENTRY_NONE)"
  "i < length (Content (mt_ad m)) \<Longrightarrow> addr_of (upd_sta m i g) = (addr_of m)(i := Addr (g (sta m i)))"
  by (auto simp: fun_eq_iff mt_used_def addr_of_def sta_upd_sta)

section \<open>The invariant\<close>

definition bucket :: "mac_state \<Rightarrow> nat \<Rightarrow> nat set" where
  "bucket m h = {i. i < 32 \<and> mt_used m i \<and> MAC_ADDR_HASH_INDEX (addr_of m i) = h}"

definition mt_dims :: "mac_state \<Rightarrow> bool" where
  "mt_dims m \<longleftrightarrow> length (mt_Hash m) = 256 \<and> length (mt_Rest m) = 32 \<and> length (Content (mt_ad m)) = 32"

definition chains_ok :: "mac_state \<Rightarrow> bool" where
  "chains_ok m \<longleftrightarrow> (\<forall>h<256. \<exists>xs. chain (next_of m) (mt_Hash m ! h) xs \<and> distinct xs \<and> set xs = bucket m h)"

definition mt_inv :: "mac_state \<Rightarrow> bool" where
  "mt_inv m \<longleftrightarrow> mt_dims m \<and> \<not> mt_used m 0 \<and> chains_ok m \<and> mt_Size m = int (card {i. i < 32 \<and> mt_used m i}) \<and>
    (\<forall>i<32. mt_used m i \<longrightarrow> Aid (sta m i) = i)"

lemma mt_invD:
  assumes "mt_inv m"
  shows "mt_dims m" "\<not> mt_used m 0" "chains_ok m" "mt_Size m = int (card {i. i < 32 \<and> mt_used m i})"
    "i < 32 \<Longrightarrow> mt_used m i \<Longrightarrow> Aid (sta m i) = i"
  using assms by (auto simp: mt_inv_def)

lemma hash_index_less [simp]: "MAC_ADDR_HASH_INDEX A < 256"
  by (simp add: MAC_ADDR_HASH_INDEX_def HASH_TABLE_SIZE_def)

lemma bucket_chain:
  assumes "mt_inv m" "h < 256"
  obtains xs where "chain (next_of m) (mt_Hash m ! h) xs" "distinct xs" "set xs = bucket m h"
  using assms by (auto simp: mt_inv_def chains_ok_def)

text \<open>The invariant reads only this much of the state.\<close>

lemma mt_inv_cong:
  assumes "mt_inv m" "mt_Hash m' = mt_Hash m" "next_of m' = next_of m" "length (mt_Rest m') = length (mt_Rest m)"
    "idents (mt_ad m') = idents (mt_ad m)" "mt_Size m' = mt_Size m"
  shows "mt_inv m'" and "i < 32 \<Longrightarrow> mt_used m' i = mt_used m i" and "i < 32 \<Longrightarrow> addr_of m' i = addr_of m i"
proof -
  have l: "length (Content (mt_ad m')) = length (Content (mt_ad m))"
    using assms(5) by (metis idents_def length_map)
  have len: "length (Content (mt_ad m)) = 32" using mt_invD(1)[OF assms(1)] by (simp add: mt_dims_def)
  have e: "ident (sta m' j) = ident (sta m j)" if "j < 32" for j
    using arg_cong[OF assms(5), of "\<lambda>xs. xs ! j"] that l len by (simp add: idents_def sta_def)
  have u: "mt_used m' j = mt_used m j" "addr_of m' j = addr_of m j" "Aid (sta m' j) = Aid (sta m j)" if "j < 32" for j
    using e[OF that] by (auto simp: mt_used_def addr_of_def ident_def)
  then show "i < 32 \<Longrightarrow> mt_used m' i = mt_used m i" "i < 32 \<Longrightarrow> addr_of m' i = addr_of m i" by auto
  have b: "bucket m' h = bucket m h" for h using u by (auto simp: bucket_def)
  have c: "{i. i < 32 \<and> mt_used m' i} = {i. i < 32 \<and> mt_used m i}" using u by auto
  show "mt_inv m'"
    using assms l u unfolding mt_inv_def chains_ok_def mt_dims_def b c by simp
qed

section \<open>Lookup\<close>

lemma lookup_loop_chain:
  "chain (next_of m) p xs \<Longrightarrow> \<forall>x\<in>set xs. mt_used m x \<Longrightarrow> lookup_loop m A p = Some (find (\<lambda>i. addr_of m i = A) xs)"
  by (induction xs arbitrary: p) (simp_all add: lookup_loop.simps)

lemma Lookup_find:
  assumes "mt_inv m"
  obtains xs where "MacTableLookup m A = Some (find (\<lambda>i. addr_of m i = A) xs)" "distinct xs"
    "set xs = bucket m (MAC_ADDR_HASH_INDEX A)"
proof -
  obtain xs where xs: "chain (next_of m) (mt_Hash m ! MAC_ADDR_HASH_INDEX A) xs" "distinct xs"
      "set xs = bucket m (MAC_ADDR_HASH_INDEX A)"
    using bucket_chain[OF assms hash_index_less] by blast
  have "MacTableLookup m A = Some (find (\<lambda>i. addr_of m i = A) xs)"
    unfolding MacTableLookup_def by (rule lookup_loop_chain[OF xs(1)]) (use xs(3) in \<open>simp add: bucket_def\<close>)
  then show thesis using that xs by blast
qed

text \<open>The stations of an address.\<close>

definition stations_of :: "mac_state \<Rightarrow> mac_addr \<Rightarrow> nat set" where
  "stations_of m A = {i. i < 32 \<and> mt_used m i \<and> addr_of m i = A}"

lemma Lookup_spec:
  assumes "mt_inv m"
  shows "(stations_of m A = {} \<and> MacTableLookup m A = Some None) \<or>
    (\<exists>i \<in> stations_of m A. MacTableLookup m A = Some (Some i))"
proof -
  obtain xs where xs: "MacTableLookup m A = Some (find (\<lambda>i. addr_of m i = A) xs)"
      "set xs = bucket m (MAC_ADDR_HASH_INDEX A)"
    using Lookup_find[OF assms] by blast
  show ?thesis
  proof (cases "find (\<lambda>i. addr_of m i = A) xs")
    case None
    then have "stations_of m A = {}" using xs(2) by (auto simp: find_None_iff stations_of_def bucket_def)
    then show ?thesis using None xs(1) by simp
  next
    case (Some i)
    then have "i \<in> set xs" "addr_of m i = A" by (auto simp: find_Some_iff in_set_conv_nth)
    then have "i \<in> stations_of m A" using xs(2) by (simp add: stations_of_def bucket_def)
    then show ?thesis using Some xs(1) by auto
  qed
qed

end
