(* ===== verification/MacTableOps.thy ===== *)
theory MacTableOps
  imports MacTableInv
begin

text \<open>Insertion, deletion and reset keep the invariant of the station table; what they do to the
  stations in it.\<close>

section \<open>Insertion\<close>

lemma clear_entry_sel [simp]:
  "mt_Hash (clear_entry m i c) = mt_Hash m" "mt_Size (clear_entry m i c) = mt_Size m"
  "length (mt_Rest (clear_entry m i c)) = length (mt_Rest m)"
  "length (Content (mt_ad (clear_entry m i c))) = length (Content (mt_ad m))"
  "mt_BssType (clear_entry m i c) = mt_BssType m"
  by (simp_all add: clear_entry_def Let_def upd_mac_def)

lemma clear_entry_effect:
  assumes "mt_dims m" "i < 32"
  shows "sta (clear_entry m i c) = (sta m)(i := zero_sta)" "next_of (clear_entry m i c) = (next_of m)(i := None)"
  using assms by (simp_all add: clear_entry_def Let_def mt_dims_def sta_upd_sta next_set_rest zero_rest_def upd_mac_def)

lemma init_rest_next [simp]: "pNext (init_rest m A x opm r) = pNext r"
  by (simp add: init_rest_def Let_def)

lemma init_entry_effect:
  assumes "mt_dims m" "i < 32"
  shows "sta (init_entry m i A x opm c) = (sta m)(i := init_sta m i A zero_sta)"
    "next_of (init_entry m i A x opm c) = (next_of m)(i := None)"
    "mt_Hash (init_entry m i A x opm c) = mt_Hash m" "mt_Size (init_entry m i A x opm c) = USHORT (mt_Size m + 1)"
    "length (mt_Rest (init_entry m i A x opm c)) = 32" "length (Content (mt_ad (init_entry m i A x opm c))) = 32"
    "mt_BssType (init_entry m i A x opm c) = mt_BssType m"
  using assms clear_entry_effect[OF assms, of c]
  by (auto simp: init_entry_def Let_def sta_upd_sta mt_dims_def upd_mac_def)

lemma chain_end_last: "chain (next_of m) (Some p) xs \<Longrightarrow> chain_end m p = Some (last xs)"
proof (induction xs arbitrary: p)
  case (Cons x xs)
  then show ?case by (subst chain_end.simps) (cases xs, auto)
qed simp

lemma chain_insert:
  assumes "chain nx p xs" "i \<notin> set xs"
  shows "chain (nx(i := None)) p xs"
  by (rule chain_frame[THEN iffD2, OF _ assms(1)]) (use assms(2) in auto)

lemma card_below_le: "card {j. j < n \<and> P j} \<le> (n :: nat)"
proof -
  have "{j. j < n \<and> P j} \<subseteq> {..<n}" by auto
  from card_mono[OF finite_lessThan this] show ?thesis by simp
qed

lemma card_below_less: "i < n \<Longrightarrow> \<not> P i \<Longrightarrow> card {j. j < n \<and> P j} < (n :: nat)"
proof -
  assume a: "i < n" "\<not> P i"
  then have "{j. j < n \<and> P j} \<subset> {..<n}" by auto
  from psubset_card_mono[OF finite_lessThan this] show ?thesis by simp
qed

lemma find_SomeD: "find P xs = Some x \<Longrightarrow> x \<in> set xs \<and> P x"
  by (induction xs) (auto split: if_splits)

lemma first_freeD:
  assumes "first_free m = Some i"
  shows "i < 32" "\<not> mt_used m i" "FirstWcid m \<le> i" "i \<noteq> 0"
proof -
  have *: "i \<in> {FirstWcid m..<MAX_LEN_OF_MAC_TABLE} \<and> \<not> mt_used m i"
    using find_SomeD[OF assms[unfolded first_free_def]] by simp
  moreover have "0 < FirstWcid m" by (simp add: FirstWcid_def)
  ultimately show "i < 32" "\<not> mt_used m i" "FirstWcid m \<le> i" "i \<noteq> 0" by (auto simp: MAX_LEN_OF_MAC_TABLE_def)
qed

lemma Insert_unfold:
  fixes A x opm c
  assumes inv: "mt_inv m" and free: "first_free m = Some i"
  defines "m1 \<equiv> init_entry m i A x opm c" and "h \<equiv> MAC_ADDR_HASH_INDEX A"
  obtains xs m' where "chain (next_of m) (mt_Hash m ! h) xs" "distinct xs" "set xs = bucket m h"
    "MacTableInsertEntry m A x opm c = Some (Some i, m')"
    "sta m' = sta m1" "mt_Size m' = mt_Size m1" "mt_ad m' = mt_ad m1" "mt_BssType m' = mt_BssType m"
    "length (mt_Rest m') = 32" "length (mt_Hash m') = 256"
    "chain (next_of m') (mt_Hash m' ! h) (xs @ [i])"
    "\<forall>k ys. k \<noteq> h \<longrightarrow> chain (next_of m) (mt_Hash m ! k) ys \<longrightarrow> set ys = bucket m k \<longrightarrow>
       chain (next_of m') (mt_Hash m' ! k) ys"
proof -
  note d = mt_invD(1)[OF inv]
  note i = first_freeD(1,2)[OF free]
  have sz: "mt_Size m < 32" using card_below_less[of i 32 "mt_used m", OF i] mt_invD(4)[OF inv] by simp
  note e = init_entry_effect[OF d i(1), of A x opm c, folded m1_def]
  obtain xs where xs: "chain (next_of m) (mt_Hash m ! h) xs" "distinct xs" "set xs = bucket m h"
    using bucket_chain[OF inv, of h] unfolding h_def by (metis hash_index_less)
  have ni: "i \<notin> set ys" if "set ys = bucket m k" for ys k using that i(2) by (auto simp: bucket_def)
  have xs1: "chain (next_of m1) (mt_Hash m1 ! h) xs" using chain_insert[OF xs(1) ni[OF xs(3)]] e by simp
  have other: "chain (next_of m1) (mt_Hash m1 ! k) ys"
    if "chain (next_of m) (mt_Hash m ! k) ys" "set ys = bucket m k" for k ys
    using chain_insert[OF that(1) ni[OF that(2)]] e by simp
  have hl: "h < length (mt_Hash m1)" "length (mt_Hash m1) = 256" using d e by (simp_all add: mt_dims_def h_def)
  have go: "MacTableInsertEntry m A x opm c = (case hash_append m1 i A of None \<Rightarrow> None | Some m' \<Rightarrow> Some (Some i, m'))"
    using sz free by (simp add: MacTableInsertEntry_def MAX_LEN_OF_MAC_TABLE_def m1_def)
  show thesis
  proof (cases "mt_Hash m1 ! h")
    case None
    let ?m' = "set_hash m1 h (Some i)"
    have "xs = []" using xs1 None by simp
    moreover have "hash_append m1 i A = Some ?m'" using None by (simp add: hash_append_def h_def Let_def)
    moreover have "next_of m1 i = None" using e by simp
    ultimately show thesis
      using go e xs other hl by (intro that[of xs ?m']) (auto simp: nth_list_update)
  next
    case (Some h0)
    let ?l = "last xs" and ?m' = "set_next m1 (last xs) (Some i)"
    have ne: "xs \<noteq> []" using xs1 Some by auto
    have ap: "hash_append m1 i A = Some ?m'"
      using Some chain_end_last[of m1 h0 xs] xs1 by (simp add: hash_append_def h_def Let_def)
    have l: "?l \<in> bucket m h" using ne xs(3) by (metis last_in_set)
    then have l32: "?l < length (mt_Rest m1)" using e by (simp add: bucket_def)
    have nx: "next_of ?m' = (next_of m1)(?l := Some i)" by (rule next_set_next[OF l32])
    have "chain ((next_of m)(i := None, ?l := Some i)) (mt_Hash m ! h) (butlast xs @ [?l, i])"
      using xs ne ni[OF xs(3)] by (intro chain_snoc) simp_all
    then have c1: "chain (next_of ?m') (mt_Hash ?m' ! h) (xs @ [i])"
      unfolding nx e(2) set_next_sel e(3) using append_butlast_last_id[OF ne] by (metis append.assoc append_Cons append_Nil)
    have "chain (next_of ?m') (mt_Hash ?m' ! k) ys"
      if k: "k \<noteq> h" "chain (next_of m) (mt_Hash m ! k) ys" "set ys = bucket m k" for k ys
    proof -
      have "?l \<notin> set ys" using k l by (auto simp: bucket_def)
      then show ?thesis
        unfolding nx set_next_sel by (intro chain_frame[THEN iffD2, OF _ other[OF k(2,3)]]) auto
    qed
    then have c2: "\<forall>k ys. k \<noteq> h \<longrightarrow> chain (next_of m) (mt_Hash m ! k) ys \<longrightarrow> set ys = bucket m k \<longrightarrow>
       chain (next_of ?m') (mt_Hash ?m' ! k) ys" by blast
    have len: "length (mt_Rest ?m') = 32" "length (mt_Hash ?m') = 256" "mt_BssType ?m' = mt_BssType m"
      using e(5,7) hl(2) by simp_all
    show thesis
      by (rule that[OF xs _ _ _ _ len(3,1,2) c1 c2]) (use go ap in simp_all)
  qed
qed

text \<open>Insertion into the first free place.\<close>

lemma Insert_inv:
  assumes inv: "mt_inv m" and free: "first_free m = Some i"
  obtains m' where "MacTableInsertEntry m A x opm c = Some (Some i, m')" "mt_inv m'"
    "sta m' = (sta m)(i := init_sta m i A zero_sta)" "mt_ad m' = mt_ad (init_entry m i A x opm c)"
    "mt_BssType m' = mt_BssType m"
proof -
  note d = mt_invD(1)[OF inv]
  note i = first_freeD(1,2,4)[OF free]
  note e = init_entry_effect[OF d i(1), of A x opm c]
  obtain xs m' where
    xs: "chain (next_of m) (mt_Hash m ! MAC_ADDR_HASH_INDEX A) xs" "distinct xs" "set xs = bucket m (MAC_ADDR_HASH_INDEX A)"
    and m': "MacTableInsertEntry m A x opm c = Some (Some i, m')"
    "sta m' = sta (init_entry m i A x opm c)" "mt_Size m' = mt_Size (init_entry m i A x opm c)"
    "mt_ad m' = mt_ad (init_entry m i A x opm c)" "mt_BssType m' = mt_BssType m" "length (mt_Rest m') = 32" "length (mt_Hash m') = 256"
    and c1: "chain (next_of m') (mt_Hash m' ! MAC_ADDR_HASH_INDEX A) (xs @ [i])"
    and c2: "\<forall>k ys. k \<noteq> MAC_ADDR_HASH_INDEX A \<longrightarrow> chain (next_of m) (mt_Hash m ! k) ys \<longrightarrow>
      set ys = bucket m k \<longrightarrow> chain (next_of m') (mt_Hash m' ! k) ys"
    by (rule Insert_unfold[OF assms, of A x opm c])
  have s: "sta m' = (sta m)(i := init_sta m i A zero_sta)" using m'(2) e(1) by simp
  have u: "mt_used m' = (mt_used m)(i := True)" "addr_of m' = (addr_of m)(i := A)"
    by (auto simp: fun_eq_iff mt_used_def addr_of_def s init_sta_def)
  have b: "bucket m' k = (if k = MAC_ADDR_HASH_INDEX A then insert i (bucket m k) else bucket m k)" for k
    using i u by (auto simp: bucket_def)
  have chains: "chains_ok m'"
    unfolding chains_ok_def
  proof (intro allI impI)
    fix k :: nat
    assume k: "k < 256"
    show "\<exists>ys. chain (next_of m') (mt_Hash m' ! k) ys \<and> distinct ys \<and> set ys = bucket m' k"
    proof (cases "k = MAC_ADDR_HASH_INDEX A")
      case True
      have "i \<notin> set xs" using xs(3) i(2) by (auto simp: bucket_def)
      then show ?thesis using c1 xs(2,3) True b by (intro exI[of _ "xs @ [i]"]) auto
    next
      case False
      obtain ys where ys: "chain (next_of m) (mt_Hash m ! k) ys" "distinct ys" "set ys = bucket m k"
        by (rule bucket_chain[OF inv k])
      then show ?thesis using c2 b False by (intro exI[of _ ys]) auto
    qed
  qed
  have "{j. j < 32 \<and> mt_used m' j} = insert i {j. j < 32 \<and> mt_used m j}" using i u by auto
  moreover have "card {j. j < 32 \<and> mt_used m j} \<le> 32" by (rule card_below_le)
  moreover have "card (insert i {j. j < 32 \<and> mt_used m j}) = Suc (card {j. j < 32 \<and> mt_used m j})"
    using i(2) by simp
  ultimately have size: "mt_Size m' = int (card {j. j < 32 \<and> mt_used m' j})"
    unfolding m'(3) e(4) mt_invD(4)[OF inv] by simp
  have "mt_dims m'" using m'(4,6,7) e(6) by (simp add: mt_dims_def)
  moreover have "Aid (sta m' j) = j" if "j < 32" "mt_used m' j" for j
    using that mt_invD(5)[OF inv] u s by (auto simp: init_sta_def split: if_splits)
  ultimately have "mt_inv m'" using chains size mt_invD(2)[OF inv] i(3) u by (simp add: mt_inv_def)
  then show thesis using that m' s by blast
qed

section \<open>Deletion\<close>

lemma unlink_loop_chain:
  "chain (next_of m) p (xs @ w # ys) \<Longrightarrow> w \<notin> set xs \<Longrightarrow>
    unlink_loop m h w prev p = Some (case (if xs = [] then prev else Some (last xs)) of
       None \<Rightarrow> set_hash m h (next_of m w) | Some q \<Rightarrow> set_next m q (next_of m w))"
proof (induction xs arbitrary: p prev)
  case Nil
  then show ?case by (simp add: unlink_loop.simps)
next
  case (Cons x xs)
  then show ?case by (subst unlink_loop.simps) (cases xs, auto)
qed

text \<open>Taking the entry \<open>w\<close> out of its chain: the chains of all buckets without it.\<close>

lemma unlink_chains:
  assumes inv: "mt_inv m" and w: "w < 32" "mt_used m w"
  defines "h \<equiv> MAC_ADDR_HASH_INDEX (addr_of m w)"
  obtains m' where "unlink_loop m h w None (mt_Hash m ! h) = Some m'"
    "mt_ad m' = mt_ad m" "mt_Size m' = mt_Size m" "mt_BssType m' = mt_BssType m"
    "length (mt_Rest m') = 32" "length (mt_Hash m') = 256"
    "\<forall>k<256. \<exists>ys. chain (next_of m') (mt_Hash m' ! k) ys \<and> distinct ys \<and> set ys = bucket m k - {w}"
proof -
  have dims: "length (mt_Rest m) = 32" "length (mt_Hash m) = 256" using mt_invD(1)[OF inv] by (simp_all add: mt_dims_def)
  have h: "h < 256" by (simp add: h_def)
  obtain zs where zs: "chain (next_of m) (mt_Hash m ! h) zs" "distinct zs" "set zs = bucket m h"
    by (rule bucket_chain[OF inv h])
  have "w \<in> set zs" using zs(3) w by (simp add: bucket_def h_def)
  then obtain xs ys where z: "zs = xs @ w # ys" by (meson split_list)
  have nw: "w \<notin> set xs" "w \<notin> set ys" using zs(2) z by auto
  have step: "unlink_loop m h w None (mt_Hash m ! h) = Some (case (if xs = [] then None else Some (last xs)) of
       None \<Rightarrow> set_hash m h (next_of m w) | Some q \<Rightarrow> set_next m q (next_of m w))"
    using zs(1) nw(1) unfolding z by (rule unlink_loop_chain)
  have out: "bucket m k - {w} = bucket m k" if "k \<noteq> h" for k using that by (auto simp: bucket_def h_def)
  have own: "bucket m h - {w} = set (xs @ ys)" using zs(3) z nw by auto
  show thesis
  proof (cases xs rule: rev_cases)
    case Nil
    let ?m' = "set_hash m h (next_of m w)"
    have c: "chain (next_of m) (next_of m w) ys" using zs(1) z Nil by simp
    have "\<exists>us. chain (next_of ?m') (mt_Hash ?m' ! k) us \<and> distinct us \<and> set us = bucket m k - {w}" if k: "k < 256" for k
    proof (cases "k = h")
      case True
      then show ?thesis using c own Nil zs(2) z h dims by (intro exI[of _ ys]) auto
    next
      case False
      obtain us where "chain (next_of m) (mt_Hash m ! k) us" "distinct us" "set us = bucket m k"
        by (rule bucket_chain[OF inv k])
      then show ?thesis using False out by (intro exI[of _ us]) auto
    qed
    then show thesis using step Nil dims by (intro that[of ?m']) auto
  next
    case (snoc xs' q)
    let ?m' = "set_next m q (next_of m w)"
    have q: "q \<in> bucket m h" using zs(3) z snoc by auto
    then have nx: "next_of ?m' = (next_of m)(q := next_of m w)" by (intro next_set_next) (simp add: bucket_def dims)
    have c: "chain (next_of ?m') (mt_Hash m ! h) (xs' @ q # ys)"
      unfolding nx using zs(1,2) z snoc by (intro chain_unlink) auto
    have "\<exists>us. chain (next_of ?m') (mt_Hash ?m' ! k) us \<and> distinct us \<and> set us = bucket m k - {w}" if k: "k < 256" for k
    proof (cases "k = h")
      case True
      then show ?thesis using c own snoc zs(2) z by (intro exI[of _ "xs' @ q # ys"]) auto
    next
      case False
      obtain us where us: "chain (next_of m) (mt_Hash m ! k) us" "distinct us" "set us = bucket m k"
        by (rule bucket_chain[OF inv k])
      have "q \<notin> set us" using us(3) q False by (auto simp: bucket_def)
      then have "chain (next_of ?m') (mt_Hash m ! k) us"
        unfolding nx by (intro chain_frame[THEN iffD2, OF _ us(1)]) auto
      then show ?thesis using us False out by (intro exI[of _ us]) auto
    qed
    then show thesis using step snoc dims by (intro that[of ?m']) auto
  qed
qed

definition erase :: "MAC_TABLE_ENTRY \<Rightarrow> MAC_TABLE_ENTRY" where
  "erase st = st\<lparr>Addr := replicate 6 0, EntryType := ENTRY_NONE\<rparr>"

lemma delete_matching_inv:
  assumes inv: "mt_inv m" and w: "w < 32" "mt_used m w" "addr_of m w = A"
    and tear: "BASessionTearDownALL (mt_ad m) w = Some a"
  obtains m' where "delete_matching m w A = Some m'" "mt_inv m'" "mt_ad m' = upd_mac a w erase"
    "mt_BssType m' = mt_BssType m"
proof -
  let ?m1 = "mt_log m (CMDTHREAD_DEL_ASIC_WCID w)"
  let ?m2 = "upd_rest (?m1\<lparr>mt_ad := a\<rparr>) w (\<lambda>r. r\<lparr>MsgRetryTimer := RTMPReleaseTimer (MsgRetryTimer r)\<rparr>)"
  note ia = idents_TearDownALL[OF tear]
  have i2: "mt_inv ?m2" and u2: "j < 32 \<Longrightarrow> mt_used ?m2 j = mt_used m j" "j < 32 \<Longrightarrow> addr_of ?m2 j = addr_of m j" for j
    by (rule mt_inv_cong[OF inv]; simp add: ia)+
  have w2: "mt_used ?m2 w" "addr_of ?m2 w = A" using u2[OF w(1)] w by auto
  obtain m3 where m3: "unlink_loop ?m2 (MAC_ADDR_HASH_INDEX A) w None (mt_Hash ?m2 ! MAC_ADDR_HASH_INDEX A) = Some m3"
    "mt_ad m3 = mt_ad ?m2" "mt_Size m3 = mt_Size ?m2" "mt_BssType m3 = mt_BssType ?m2"
    "length (mt_Rest m3) = 32" "length (mt_Hash m3) = 256"
    "\<forall>k<256. \<exists>ys. chain (next_of m3) (mt_Hash m3 ! k) ys \<and> distinct ys \<and> set ys = bucket ?m2 k - {w}"
    by (rule unlink_chains[OF i2 w(1) w2(1), unfolded w2(2)])
  let ?m4 = "upd_rest m3 w (\<lambda>r. if EnqueueEapolStartTimerRunning r \<noteq> EAPOL_START_DISABLE
      then r\<lparr>EnqueueStartForPSKTimer := RTMPCancelTimer (EnqueueStartForPSKTimer r),
             EnqueueEapolStartTimerRunning := EAPOL_START_DISABLE\<rparr> else r)"
  let ?m5 = "upd_rest ?m4 w (\<lambda>r. r\<lparr>EnqueueStartForPSKTimer := RTMPReleaseTimer (EnqueueStartForPSKTimer r)\<rparr>)"
  let ?m6 = "upd_sta ?m5 w erase"
  let ?m' = "?m6\<lparr>mt_Size := USHORT (mt_Size ?m6 - 1)\<rparr>"
  have aid: "Aid (sta ?m1 w) = w" using mt_invD(5)[OF inv w(1,2)] by simp
  have res: "delete_matching m w A = Some ?m'"
    unfolding delete_matching_def Let_def aid mt_log_sel(1) tear m3(1) option.case erase_def by simp
  have ad: "mt_ad ?m' = upd_mac a w erase" using m3(2) by simp
  have lenC: "length (Content a) = 32"
    using mt_invD(1)[OF i2] by (simp add: mt_dims_def)
  have sta6: "sta ?m' = (sta ?m2)(w := erase (sta ?m2 w))"
    using sta_upd_sta[of w ?m5 erase] lenC w(1) m3(2) by (simp add: sta_def fun_eq_iff)
  have u: "mt_used ?m' = (mt_used ?m2)(w := False)" "j \<noteq> w \<Longrightarrow> addr_of ?m' j = addr_of ?m2 j" for j
    unfolding mt_used_def addr_of_def sta6 by (auto simp: fun_eq_iff erase_def)
  have b: "bucket ?m' k = bucket ?m2 k - {w}" for k
    using u by (auto simp: bucket_def)
  have nx: "next_of ?m' = next_of m3" by simp
  have chains: "chains_ok ?m'"
    using m3(7) unfolding chains_ok_def b nx by simp
  have "{j. j < 32 \<and> mt_used ?m' j} = {j. j < 32 \<and> mt_used ?m2 j} - {w}" using u by auto
  moreover have "card ({j. j < 32 \<and> mt_used ?m2 j} - {w}) = card {j. j < 32 \<and> mt_used ?m2 j} - 1"
    using w(1) w2(1) by (simp add: card_Diff_singleton)
  moreover have "0 < card {j. j < 32 \<and> mt_used ?m2 j}" using w(1) w2(1) by (auto simp: card_gt_0_iff)
  moreover have "card {j. j < 32 \<and> mt_used ?m2 j} \<le> 32" by (rule card_below_le)
  ultimately have size: "mt_Size ?m' = int (card {j. j < 32 \<and> mt_used ?m' j})"
    using mt_invD(4)[OF i2] m3(3) by simp
  have "mt_dims ?m'" using m3(5,6) lenC ad by (simp add: mt_dims_def upd_mac_def)
  moreover have "\<not> mt_used ?m' 0" using mt_invD(2)[OF i2] u by simp
  moreover have "Aid (sta ?m' j) = j" if "j < 32" "mt_used ?m' j" for j
    using that u mt_invD(5)[OF i2, of j] sta6 by (auto split: if_splits)
  ultimately have "mt_inv ?m'" using chains size by (simp add: mt_inv_def)
  moreover have "mt_BssType ?m' = mt_BssType m" using m3(4) by simp
  ultimately show thesis using res ad that by blast
qed

end
