(* ===== verification/MacTableSpec.thy ===== *)
theory MacTableSpec
  imports MacTableOps
begin

text \<open>The station table and the session tables together: the operations of the station table keep
  the invariant of both, and refine a finite directory from addresses to entries.\<close>

section \<open>Insertion and the session tables\<close>

text \<open>The directory the table stands for.\<close>

definition directory :: "mac_state \<Rightarrow> mac_addr \<Rightarrow> nat option" where
  "directory m A = find (\<lambda>i. mt_used m i \<and> addr_of m i = A) [0..<MAX_LEN_OF_MAC_TABLE]"

definition one_entry_per_address :: "mac_state \<Rightarrow> bool" where
  "one_entry_per_address m \<longleftrightarrow> inj_on (addr_of m) {i. i < 32 \<and> mt_used m i}"

definition free_clear :: "mac_state \<Rightarrow> bool" where
  "free_clear m \<longleftrightarrow> (\<forall>i<32. \<not> mt_used m i \<longrightarrow> clr (mt_ad m) i)"

definition table_inv :: "mac_state \<Rightarrow> bool" where
  "table_inv m \<longleftrightarrow> mt_inv m \<and> ba_inv (mt_ad m) \<and> free_clear m \<and> one_entry_per_address m"

lemma table_invD:
  assumes "table_inv m"
  shows "mt_inv m" "ba_inv (mt_ad m)" "free_clear m" "one_entry_per_address m"
    "i < 32 \<Longrightarrow> \<not> mt_used m i \<Longrightarrow> clr (mt_ad m) i"
  using assms by (auto simp: table_inv_def free_clear_def)

lemma directory_Some:
  assumes "one_entry_per_address m"
  shows "directory m A = Some i \<longleftrightarrow> i \<in> stations_of m A"
proof
  assume "directory m A = Some i"
  then show "i \<in> stations_of m A"
    by (auto simp: directory_def stations_of_def MAX_LEN_OF_MAC_TABLE_def dest!: find_SomeD simp del: upt_conv_Cons_Cons)
next
  assume i: "i \<in> stations_of m A"
  then obtain j where j: "directory m A = Some j"
    by (cases "directory m A")
      (auto simp: directory_def find_None_iff stations_of_def MAX_LEN_OF_MAC_TABLE_def)
  then have "j \<in> stations_of m A"
    by (auto simp: directory_def stations_of_def MAX_LEN_OF_MAC_TABLE_def dest!: find_SomeD)
  with i assms have "j = i" by (auto simp: one_entry_per_address_def stations_of_def inj_on_def)
  with j show "directory m A = Some i" by simp
qed

lemma directory_None: "directory m A = None \<longleftrightarrow> stations_of m A = {}"
  by (auto simp: directory_def find_None_iff stations_of_def MAX_LEN_OF_MAC_TABLE_def)

lemma Lookup_directory:
  assumes "mt_inv m" "one_entry_per_address m"
  shows "MacTableLookup m A = Some (directory m A)"
  using Lookup_spec[OF assms(1), of A] directory_Some[OF assms(2), of A] directory_None[of m A]
  by (metis (no_types, lifting))

text \<open>Writing an entry that has no sessions keeps the session tables consistent.\<close>

lemma no_session_at:
  assumes "ba_inv a" "w < 32" "clr a w" "t < 8"
  shows "rarrs a ! w ! t = 0" "oarrs a ! w ! t = 0"
  using assms ba_inv_dims(1)[OF assms(1)] by (simp_all add: clr_def clear_sta_def rarrs_def oarrs_def)

lemma replace_clear_station:
  assumes inv: "ba_inv a" and w: "w < 32" "clr a w"
    and st: "clear_sta st" "RXBAbitmap st = 0" "TXBAbitmap st = 0" "length (TxSeq st) = 8" "IS_HT_STA st \<longrightarrow> Aid st = w"
  shows "ba_inv (upd_mac a w (\<lambda>_. st))"
proof -
  let ?a' = "upd_mac a w (\<lambda>_. st)"
  note len = ba_inv_dims[OF inv]
  have C: "Content ?a' = (Content a)[w := st]" by (simp add: upd_mac_def)
  have arr: "rarrs ?a' = rarrs a" "oarrs ?a' = oarrs a"
    using w len(1) st(1) unfolding rarrs_def oarrs_def C
    by (auto simp: map_update clr_def clear_sta_def intro!: list_update_same_conv[THEN iffD2])
  have same: "BARecEntry ?a' = BARecEntry a" "BAOriEntry ?a' = BAOriEntry a" "numAsRecipient ?a' = numAsRecipient a"
    "numAsOriginator ?a' = numAsOriginator a" "numDoneOriginator ?a' = numDoneOriginator a"
    "freelist ?a' = freelist a" "RxBAWinLimit ?a' = RxBAWinLimit a"
    by (simp_all add: upd_mac_def)
  have use: "rused ?a' = rused a" "oused ?a' = oused a" "rown ?a' = rown a" "oown ?a' = oown a" "odone ?a' = odone a"
    by (simp_all add: rused_def oused_def rown_def oown_def odone_def fun_eq_iff same)
  have dims: "table_dims ?a'" using len by (simp add: table_dims_def C same)
  have r: "rec_inv a" and o: "ori_inv a" and s: "sta_inv a" using inv by (simp_all add: ba_inv_def)
  have not0: "\<not> odone a 0" using o by (auto simp: ori_inv_def tab_ok_def odone_def)
  have "rxbit ?a' v t \<longleftrightarrow> rarrs a ! v ! t \<noteq> 0" if "v < 32" "t < 8" for v t
    using that r no_session_at(1)[OF inv w that(2)] w len(1) st(2)
    by (cases "v = w") (auto simp: rec_inv_def rxbit_def C)
  moreover have "txbit ?a' v t \<longleftrightarrow> odone a (oarrs a ! v ! t)" if "v < 32" "t < 8" for v t
    using that o no_session_at(2)[OF inv w that(2)] w len(1) st(3) not0
    by (cases "v = w") (auto simp: ori_inv_def txbit_def C)
  ultimately have "rec_inv ?a'" "ori_inv ?a'"
    using r o dims by (simp_all add: rec_inv_def ori_inv_def arr use same)
  moreover have "sta_inv ?a'"
    using s w(1) len(1) st(4,5) by (auto simp: sta_inv_def same C nth_list_update)
  ultimately show ?thesis by (simp add: ba_inv_def)
qed

lemma upd_mac_twice: "upd_mac (upd_mac a w f) w g = upd_mac a w (\<lambda>st. g (f st))"
  by (cases "w < length (Content a)") (simp_all add: upd_mac_def list_update_beyond)

lemma init_entry_ad: "mt_ad (init_entry m i A x opm c) = upd_mac (mt_ad m) i (\<lambda>_. init_sta m i A zero_sta)"
  by (simp add: init_entry_def clear_entry_def Let_def upd_mac_twice)

lemma init_sta_clear:
  "clear_sta (init_sta m i A zero_sta)" "RXBAbitmap (init_sta m i A zero_sta) = 0" "TXBAbitmap (init_sta m i A zero_sta) = 0"
  "length (TxSeq (init_sta m i A zero_sta)) = 8" "IS_HT_STA (init_sta m i A zero_sta) = False"
  by (simp_all add: init_sta_def zero_sta_def clear_sta_def)

lemma Insert_table_inv:
  assumes inv: "table_inv m" and new: "directory m A = None" and free: "first_free m = Some i"
  obtains m' where "MacTableInsertEntry m A x opm c = Some (Some i, m')" "table_inv m'"
    "sta m' = (sta m)(i := init_sta m i A zero_sta)" "directory m' = (directory m)(A := Some i)"
    "mt_BssType m' = mt_BssType m" "alloc_results (mt_ad m') = alloc_results (mt_ad m)"
proof -
  note i = first_freeD[OF free] and d = table_invD[OF inv]
  obtain m' where m': "MacTableInsertEntry m A x opm c = Some (Some i, m')" "mt_inv m'"
    "sta m' = (sta m)(i := init_sta m i A zero_sta)" "mt_ad m' = mt_ad (init_entry m i A x opm c)"
    "mt_BssType m' = mt_BssType m"
    by (rule Insert_inv[OF d(1) free])
  have ad: "mt_ad m' = upd_mac (mt_ad m) i (\<lambda>_. init_sta m i A zero_sta)" using m'(4) by (simp add: init_entry_ad)
  have u: "mt_used m' = (mt_used m)(i := True)" "addr_of m' = (addr_of m)(i := A)"
    by (auto simp: fun_eq_iff mt_used_def addr_of_def m'(3) init_sta_def)
  have "ba_inv (mt_ad m')" unfolding ad
    by (rule replace_clear_station[OF d(2) i(1) d(5)[OF i(1,2)] init_sta_clear(1-4)]) (simp add: init_sta_clear(5))
  moreover have "free_clear m'"
    using d(3) u by (auto simp: free_clear_def ad clr_upd_mac)
  moreover have inj: "one_entry_per_address m'"
    using d(4) new u by (auto simp: one_entry_per_address_def inj_on_def directory_None stations_of_def)
  ultimately have ti: "table_inv m'" using m'(2) by (simp add: table_inv_def)
  have "stations_of m' B = (if B = A then {i} else stations_of m B)" for B
    using u i new by (auto simp: stations_of_def directory_None)
  then have "directory m' B = ((directory m)(A := Some i)) B" for B
    using directory_Some[OF inj, of B] directory_Some[OF d(4), of B] directory_None[of m' B] directory_None[of m B]
    by (cases "directory m' B"; cases "directory m B") (auto split: if_splits)
  then have "directory m' = (directory m)(A := Some i)" by blast
  moreover have "alloc_results (mt_ad m') = alloc_results (mt_ad m)" unfolding ad by (simp add: upd_mac_def)
  ultimately show thesis using that m' ti by blast
qed

lemma Insert_full: "first_free m = None \<Longrightarrow> MacTableInsertEntry m A x opm c = Some (None, m)"
  by (simp add: MacTableInsertEntry_def)

section \<open>Deletion\<close>

lemma erase_parts: "parts (upd_mac a w erase) = parts a"
  by (simp add: parts_def erase_def)

lemma idents_station:
  assumes "idents a' = idents (mt_ad m)" "j < length (Content a')"
  shows "ident (Content a' ! j) = ident (sta m j)"
  using arg_cong[OF assms(1), of "\<lambda>xs. xs ! j"] assms(2) arg_cong[OF assms(1), of length]
  by (simp add: idents_def sta_def)

text \<open>The entry \<open>w\<close> with its own address, when the messages of the tear-down can be allocated.\<close>

lemma Delete_table_inv:
  assumes inv: "table_inv m" and w: "w < 32" "mt_used m w" "addr_of m w = A" and mem: "alloc_results (mt_ad m) = []"
  obtains m' where "MacTableDeleteEntry m w A = Some (True, m')" "table_inv m'"
    "directory m' = (directory m)(A := None)" "\<not> mt_used m' w" "\<forall>j<32. j \<noteq> w \<longrightarrow> mt_used m' j = mt_used m j"
    "mt_BssType m' = mt_BssType m" "alloc_results (mt_ad m') = []"
proof -
  note d = table_invD[OF inv]
  let ?m1 = "upd_rest m w (\<lambda>r. r\<lparr>RetryTimer := RTMPCancelTimer (RetryTimer r),
                     EnqueueStartForPSKTimer := RTMPCancelTimer (EnqueueStartForPSKTimer r)\<rparr>)"
  have i1: "mt_inv ?m1" by (rule mt_inv_cong(1)[OF d(1)]) simp_all
  obtain a where a: "BASessionTearDownALL (mt_ad m) w = Some a" "ba_inv a" "alloc_results a = []"
    "BARecWcidArray (Content a ! w) = replicate 8 0 \<and> BAOriWcidArray (Content a ! w) = replicate 8 0"
    "\<forall>v<32. v \<noteq> w \<longrightarrow> BARecWcidArray (Content a ! v) = BARecWcidArray (Content (mt_ad m) ! v) \<and>
      BAOriWcidArray (Content a ! v) = BAOriWcidArray (Content (mt_ad m) ! v)"
    using TearDownALL_clears[OF d(2) w(1) mem] by blast
  obtain m2 where m2: "delete_matching ?m1 w A = Some m2" "mt_inv m2" "mt_ad m2 = upd_mac a w erase"
    "mt_BssType m2 = mt_BssType ?m1"
    by (rule delete_matching_inv[OF i1 w(1), of A a]) (use w a(1) in simp_all)
  define m' where "m' = (if mt_Size m2 = 0 then mt_log (m2\<lparr>mt_OperaionMode := 0\<rparr>) CMDTHREAD_UPDATE_PROTECT else m2)"
  have run: "MacTableDeleteEntry m w A = Some (True, m')"
    using w m2(1) by (simp add: MacTableDeleteEntry_def Let_def MAX_LEN_OF_MAC_TABLE_def m'_def)
  have ad: "mt_ad m' = upd_mac a w erase" using m2(3) by (simp add: m'_def)
  have mi: "mt_inv m'" by (rule mt_inv_cong(1)[OF m2(2)]) (simp_all add: m'_def)
  have len: "length (Content a) = 32" by (rule ba_inv_dims(1)[OF a(2)])
  have sj: "sta m' j = (if j = w then erase (Content a ! w) else Content a ! j)" if "j < 32" for j
    using that len w(1) unfolding sta_def ad by (simp add: upd_mac_def)
  have same: "ident (Content a ! j) = ident (sta m j)" if "j < 32" for j
    using idents_station[OF idents_TearDownALL[OF a(1)]] that len by simp
  have u: "mt_used m' j = (j \<noteq> w \<and> mt_used m j)" "j \<noteq> w \<Longrightarrow> addr_of m' j = addr_of m j" if "j < 32" for j
    using sj[OF that] same[OF that] by (auto simp: mt_used_def addr_of_def ident_def erase_def)
  have "ba_inv (mt_ad m')" unfolding ad by (rule ba_inv_cong[OF erase_parts a(2)])
  moreover have "clr (mt_ad m') j" if "j < 32" "\<not> mt_used m' j" for j
  proof (cases "j = w")
    case True
    then show ?thesis using a(4) len w(1) unfolding ad by (simp add: clr_upd_mac clear_sta_def erase_def)
  next
    case False
    then have "clr (mt_ad m) j" using d(5)[OF that(1)] u[OF that(1)] that(2) by simp
    then show ?thesis using a(5) that(1) False len unfolding ad by (simp add: clr_upd_mac) (simp add: clr_def clear_sta_def)
  qed
  moreover have inj: "one_entry_per_address m'"
    using d(4) u by (auto simp: one_entry_per_address_def inj_on_def)
  ultimately have ti: "table_inv m'" using mi unfolding table_inv_def free_clear_def by blast
  have "stations_of m' B = (if B = A then {} else stations_of m B)" for B
    using u w d(4) unfolding stations_of_def one_entry_per_address_def inj_on_def by auto
  then have "directory m' B = ((directory m)(A := None)) B" for B
    using directory_Some[OF inj, of B] directory_Some[OF d(4), of B] directory_None[of m' B] directory_None[of m B]
    by (cases "directory m' B"; cases "directory m B") (auto split: if_splits)
  then have "directory m' = (directory m)(A := None)" by blast
  moreover have "alloc_results (mt_ad m') = []" unfolding ad using a(3) by (simp add: upd_mac_def)
  moreover have "mt_BssType m' = mt_BssType m" using m2(4) by (simp add: m'_def)
  ultimately show thesis using that[OF run ti] u w(1) by blast
qed

text \<open>A call that names an empty entry, an entry out of range or another address changes no station.\<close>

lemma Delete_nothing:
  assumes inv: "table_inv m" and "\<not> (w < 32 \<and> mt_used m w \<and> addr_of m w = A)"
  obtains b m' where "MacTableDeleteEntry m w A = Some (b, m')" "table_inv m'" "mt_ad m' = mt_ad m"
    "mt_BssType m' = mt_BssType m" "b \<longleftrightarrow> w < 32"
proof -
  note d = table_invD[OF inv]
  let ?m1 = "if mt_used m w then upd_rest m w (\<lambda>r. r\<lparr>RetryTimer := RTMPCancelTimer (RetryTimer r),
                     EnqueueStartForPSKTimer := RTMPCancelTimer (EnqueueStartForPSKTimer r)\<rparr>) else m"
  let ?m' = "if w < 32 then if mt_Size ?m1 = 0 then mt_log (?m1\<lparr>mt_OperaionMode := 0\<rparr>) CMDTHREAD_UPDATE_PROTECT
     else ?m1 else m"
  have run: "MacTableDeleteEntry m w A = Some (w < 32, ?m')"
    using assms(2) by (auto simp: MacTableDeleteEntry_def Let_def MAX_LEN_OF_MAC_TABLE_def)
  have ad: "mt_ad ?m' = mt_ad m" by simp
  have "mt_inv ?m'" by (rule mt_inv_cong(1)[OF d(1)]) (auto split: if_splits)
  moreover have "sta ?m' = sta m" "mt_used ?m' = mt_used m" "addr_of ?m' = addr_of m" using sta_cong[OF ad] by auto
  ultimately have "table_inv ?m'"
    using inv ad by (simp add: table_inv_def free_clear_def one_entry_per_address_def)
  then show thesis using that run ad by force
qed

lemma table_inv_upd_rest:
  assumes "table_inv m" "\<And>r. pNext (f r) = pNext r"
  shows "table_inv (upd_rest m i f)"
proof -
  have "mt_inv (upd_rest m i f)" by (rule mt_inv_cong(1)[OF table_invD(1)[OF assms(1)]]) (simp_all add: assms(2))
  then show ?thesis using assms(1) by (simp add: table_inv_def free_clear_def one_entry_per_address_def)
qed

section \<open>Reset\<close>

lemma reset_entry_inv:
  assumes inv: "table_inv m" and mem: "alloc_results (mt_ad m) = []" and i: "i < 32"
  obtains m' where "reset_entry i m = Some m'" "table_inv m'" "alloc_results (mt_ad m') = []"
    "\<forall>j<32. mt_used m' j \<longleftrightarrow> j \<noteq> i \<and> mt_used m j" "mt_BssType m' = mt_BssType m"
proof -
  define m1 where "m1 = (if EntryType (sta m i) = ENTRY_CLIENT
     then upd_rest m i (\<lambda>r. r\<lparr>EnqueueStartForPSKTimer := RTMPReleaseTimer (EnqueueStartForPSKTimer r),
            MsgRetryTimer := RTMPReleaseTimer (MsgRetryTimer r), EnqueueEapolStartTimerRunning := EAPOL_START_DISABLE\<rparr>)
     else m)"
  have ad: "mt_ad m1 = mt_ad m" "mt_BssType m1 = mt_BssType m" by (simp_all add: m1_def)
  have u: "mt_used m1 = mt_used m" "addr_of m1 = addr_of m" using sta_cong[OF ad(1)] by auto
  have i1: "table_inv m1" unfolding m1_def using table_inv_upd_rest[OF inv] inv by simp
  have run: "reset_entry i m = map_option snd (MacTableDeleteEntry m1 i (addr_of m1 i))"
    by (simp add: reset_entry_def Let_def m1_def)
  show thesis
  proof (cases "mt_used m i")
    case True
    obtain m' where "MacTableDeleteEntry m1 i (addr_of m1 i) = Some (True, m')" "table_inv m'"
      "\<not> mt_used m' i" "\<forall>j<32. j \<noteq> i \<longrightarrow> mt_used m' j = mt_used m1 j" "mt_BssType m' = mt_BssType m1"
      "alloc_results (mt_ad m') = []"
      by (rule Delete_table_inv[OF i1 i, of "addr_of m1 i"]) (use True u ad mem in simp_all)
    then show thesis using run u ad by (intro that[of m']) auto
  next
    case False
    obtain b m' where "MacTableDeleteEntry m1 i (addr_of m1 i) = Some (b, m')" "table_inv m'" "mt_ad m' = mt_ad m1"
      "mt_BssType m' = mt_BssType m1"
      by (rule Delete_nothing[OF i1, of i "addr_of m1 i"]) (use False u in simp_all)
    then show thesis using run u ad mem False sta_cong[of m' m1] by (intro that[of m']) auto
  qed
qed

lemma reset_entries_inv:
  assumes "table_inv m" "alloc_results (mt_ad m) = []" "\<forall>i \<in> set is. i < 32"
  shows "\<exists>m'. reset_entries is m = Some m' \<and> table_inv m' \<and> alloc_results (mt_ad m') = [] \<and>
    (\<forall>j<32. mt_used m' j \<longleftrightarrow> j \<notin> set is \<and> mt_used m j)"
  using assms
proof (induction "is" arbitrary: m)
  case (Cons i "is")
  obtain m1 where m1: "reset_entry i m = Some m1" "table_inv m1" "alloc_results (mt_ad m1) = []"
    "\<forall>j<32. mt_used m1 j \<longleftrightarrow> j \<noteq> i \<and> mt_used m j"
    by (rule reset_entry_inv[OF Cons.prems(1,2), of i]) (use Cons.prems(3) in auto)
  show ?case using Cons.IH[OF m1(2,3)] Cons.prems(3) m1(1,4) by auto
qed simp

lemma Reset_inv:
  assumes "table_inv m" "alloc_results (mt_ad m) = []"
  obtains m' where "MacTableReset m = Some m'" "table_inv m'" "alloc_results (mt_ad m') = []"
    "\<forall>j<32. \<not> mt_used m' j" "mt_Size m' = 0" "directory m' = Map.empty"
proof -
  obtain m' where m': "MacTableReset m = Some m'" "table_inv m'" "alloc_results (mt_ad m') = []"
    "\<forall>j<32. mt_used m' j \<longleftrightarrow> j \<notin> {1..<32} \<and> mt_used m j"
    using reset_entries_inv[OF assms, of "[1..<32]"] unfolding MacTableReset_def MAX_LEN_OF_MAC_TABLE_def by auto
  have u: "\<not> mt_used m' j" if "j < 32" for j
    using m'(4) that mt_invD(2)[OF table_invD(1)[OF assms(1)]] by (cases "j = 0") auto
  have s: "mt_Size m' = 0" using mt_invD(4)[OF table_invD(1)[OF m'(2)]] u by simp
  have "stations_of m' A = {}" for A using u by (auto simp: stations_of_def)
  then have "directory m' = Map.empty" using directory_None by blast
  then show thesis using that m'(1-3) u s by blast
qed

section \<open>The contract\<close>

text \<open>A directory service: \<open>dir\<close> is the directory a state stands for, \<open>ready\<close> that memory for the
  messages of a removal is there. Operations are partial: \<open>None\<close> is a run that does not come back.\<close>

locale directory_service =
  fixes inv :: "'s \<Rightarrow> bool" and ready :: "'s \<Rightarrow> bool" and dir :: "'s \<Rightarrow> 'k \<Rightarrow> 'v option"
    and look :: "'s \<Rightarrow> 'k \<Rightarrow> 'v option option" and ins :: "'s \<Rightarrow> 'k \<Rightarrow> ('v option \<times> 's) option"
    and del :: "'s \<Rightarrow> 'v \<Rightarrow> 'k \<Rightarrow> 's option"
  assumes look_dir: "inv s \<Longrightarrow> look s k = Some (dir s k)"
    and ins_dir: "inv s \<Longrightarrow> dir s k = None \<Longrightarrow> ins s k = Some (None, s) \<or>
      (\<exists>v s'. ins s k = Some (Some v, s') \<and> inv s' \<and> (ready s \<longrightarrow> ready s') \<and> dir s' = (dir s)(k := Some v) \<and>
        v \<notin> ran (dir s))"
    and del_dir: "inv s \<Longrightarrow> ready s \<Longrightarrow> dir s k = Some v \<Longrightarrow>
      \<exists>s'. del s v k = Some s' \<and> inv s' \<and> ready s' \<and> dir s' = (dir s)(k := None)"
begin

lemma inserted_is_found:
  assumes "inv s" "dir s k = None" "ins s k = Some (Some v, s')"
  shows "inv s' \<and> look s' k = Some (Some v) \<and> (\<forall>k'. k' \<noteq> k \<longrightarrow> look s' k' = look s k') \<and> v \<notin> ran (dir s)"
  using ins_dir[OF assms(1,2)] assms look_dir by auto

lemma insert_then_delete:
  assumes "inv s" "ready s" "dir s k = None" "ins s k = Some (Some v, s')"
  shows "\<exists>s''. del s' v k = Some s'' \<and> inv s'' \<and> dir s'' = dir s"
proof -
  have s': "inv s'" "ready s'" "dir s' = (dir s)(k := Some v)" using ins_dir[OF assms(1,3)] assms(2,4) by auto
  have "(dir s)(k := Some v, k := None) = dir s" using assms(3) by auto
  then show ?thesis using del_dir[OF s'(1,2), of k v] s'(3) by fastforce
qed

lemma deleted_is_gone:
  assumes "inv s" "ready s" "look s k = Some (Some v)"
  shows "\<exists>s'. del s v k = Some s' \<and> inv s' \<and> look s' k = Some None \<and> (\<forall>k'. k' \<noteq> k \<longrightarrow> look s' k' = look s k')"
proof -
  have "dir s k = Some v" using look_dir[OF assms(1), of k] assms(3) by simp
  from del_dir[OF assms(1,2) this] obtain s' where s': "del s v k = Some s'" "inv s'" "dir s' = (dir s)(k := None)" by blast
  then show ?thesis using look_dir[OF assms(1)] look_dir[OF s'(2)] by auto
qed

end

interpretation st: directory_service table_inv "\<lambda>m. alloc_results (mt_ad m) = []" directory MacTableLookup
  "\<lambda>m A. MacTableInsertEntry m A x opm c" "\<lambda>m w A. map_option snd (MacTableDeleteEntry m w A)" for x opm c
proof (unfold_locales, goal_cases)
  case (1 m A)
  then show ?case by (simp add: Lookup_directory table_inv_def)
next
  case (2 m A)
  show ?case
  proof (cases "first_free m")
    case None
    then show ?thesis by (simp add: Insert_full)
  next
    case (Some i)
    obtain m' where "MacTableInsertEntry m A x opm c = Some (Some i, m')" "table_inv m'"
      "directory m' = (directory m)(A := Some i)" "alloc_results (mt_ad m') = alloc_results (mt_ad m)"
      by (rule Insert_table_inv[OF 2 Some, of x opm c])
    moreover have "i \<notin> ran (directory m)"
      using first_freeD(2)[OF Some] directory_Some[OF table_invD(4)[OF 2(1)]] by (auto simp: ran_def stations_of_def)
    ultimately show ?thesis by auto
  qed
next
  case (3 m A w)
  then have "w \<in> stations_of m A" using directory_Some[OF table_invD(4)[OF 3(1)]] by simp
  then have w: "w < 32" "mt_used m w" "addr_of m w = A" by (auto simp: stations_of_def)
  obtain m' where "MacTableDeleteEntry m w A = Some (True, m')" "table_inv m'"
    "directory m' = (directory m)(A := None)" "alloc_results (mt_ad m') = []"
    by (rule Delete_table_inv[OF 3(1) w 3(2)])
  then show ?case by auto
qed

end
