(* ===== verification/MacTableRuns.thy ===== *)
theory MacTableRuns
  imports MacTableSpec
begin

text \<open>Runs of the station table together with the session code, and the entry of the access point
  in an infrastructure network.\<close>

section \<open>Runs\<close>

datatype mt_event =
    Mt_Insert mac_addr nat nat bool
  | Mt_Delete nat mac_addr
  | Mt_Reset
  | Mt_Session ba_event

fun mt_exec :: "mt_event \<Rightarrow> mac_state \<Rightarrow> mac_state option" where
  "mt_exec (Mt_Insert A x opm c) m = map_option snd (MacTableInsertEntry m A x opm c)"
| "mt_exec (Mt_Delete w A) m = map_option snd (MacTableDeleteEntry m w A)"
| "mt_exec Mt_Reset m = MacTableReset m"
| "mt_exec (Mt_Session ev) m = map_option (\<lambda>a. m\<lparr>mt_ad := a\<rparr>) (ba_exec ev (mt_ad m))"

text \<open>What is asked of an event: an address is only entered when the lookup did not find it; the messages
  of a tear-down can be allocated; a session request names a station in the table.\<close>

fun mt_ok :: "mac_state \<Rightarrow> mt_event \<Rightarrow> bool" where
  "mt_ok m (Mt_Insert A x opm c) = (MacTableLookup m A = Some None)"
| "mt_ok m (Mt_Delete w A) = (alloc_results (mt_ad m) = [])"
| "mt_ok m Mt_Reset = (alloc_results (mt_ad m) = [])"
| "mt_ok m (Mt_Session ev) = (ev_ok (mt_ad m) ev \<and> (\<forall>w<32. ev_target ev = Some w \<longrightarrow> mt_used m w))"

text \<open>The state after the tables are zeroed at start-up.\<close>

definition mt_start :: "mac_state \<Rightarrow> bool" where
  "mt_start m \<longleftrightarrow> (\<exists>a. ba_start a \<and> Content a = replicate 32 zero_sta \<and> mt_ad m = BATableInit a) \<and>
    mt_Hash m = replicate 256 None \<and> mt_Rest m = replicate 32 zero_rest \<and> mt_Size m = 0"

inductive mt_reach :: "mac_state \<Rightarrow> bool" where
  mt_reach_start: "mt_start m \<Longrightarrow> mt_reach m"
| mt_reach_step: "mt_reach m \<Longrightarrow> mt_ok m ev \<Longrightarrow> mt_exec ev m = Some m' \<Longrightarrow> mt_reach m'"

inductive_cases mt_reachE: "mt_reach m"

lemma start_table_inv:
  assumes "mt_start m"
  shows "table_inv m"
proof -
  obtain a where a: "ba_start a" "Content a = replicate 32 zero_sta" "mt_ad m = BATableInit a"
    using assms by (auto simp: mt_start_def)
  have C: "Content (mt_ad m) = replicate 32 zero_sta" using a by (simp add: BATableInit_def)
  have s: "sta m i = zero_sta" if "i < 32" for i using C that by (simp add: sta_def)
  have u: "\<not> mt_used m i" if "i < 32" for i using s[OF that] by (simp add: mt_used_def zero_sta_def)
  have b: "bucket m h = {}" for h using u by (auto simp: bucket_def)
  have "{i. i < 32 \<and> mt_used m i} = {}" using u by auto
  then have "mt_inv m"
    using assms C u by (simp add: mt_inv_def mt_dims_def chains_ok_def mt_start_def b)
  moreover have "ba_inv (mt_ad m)" using BATableInit_inv[OF a(1)] a(3) by simp
  moreover have "free_clear m" using C by (simp add: free_clear_def clr_def clear_sta_def zero_sta_def)
  moreover have "one_entry_per_address m" using u by (auto simp: one_entry_per_address_def inj_on_def)
  ultimately show ?thesis by (simp add: table_inv_def)
qed

lemma session_table_inv:
  assumes inv: "table_inv m" and ok: "mt_ok m (Mt_Session ev)"
  shows "\<exists>m'. mt_exec (Mt_Session ev) m = Some m' \<and> table_inv m'"
proof -
  note d = table_invD[OF inv]
  obtain a where a: "ba_exec ev (mt_ad m) = Some a" "ba_inv a" using ba_exec_inv[OF d(2)] ok by auto
  let ?m' = "m\<lparr>mt_ad := a\<rparr>"
  have "mt_inv ?m'" and u: "\<And>i. i < 32 \<Longrightarrow> mt_used ?m' i = mt_used m i" "\<And>i. i < 32 \<Longrightarrow> addr_of ?m' i = addr_of m i"
    by (rule mt_inv_cong[OF d(1)]; simp add: idents_exec[OF a(1)])+
  moreover have "free_clear ?m'"
    using u(1) ok d(5) clr_exec[OF a(1)] by (auto simp: free_clear_def)
  moreover have "one_entry_per_address ?m'"
    using u d(4) by (auto simp: one_entry_per_address_def inj_on_def)
  ultimately show ?thesis using a by (simp add: table_inv_def)
qed

lemma mt_exec_inv:
  assumes inv: "table_inv m" and ok: "mt_ok m ev"
  shows "\<exists>m'. mt_exec ev m = Some m' \<and> table_inv m'"
proof (cases ev)
  case (Mt_Insert A x opm c)
  then have "directory m A = None" using st.look_dir[OF inv, of A] ok by simp
  then show ?thesis using st.ins_dir[OF inv, of A x opm c] inv Mt_Insert by auto
next
  case (Mt_Delete w A)
  show ?thesis
  proof (cases "w < 32 \<and> mt_used m w \<and> addr_of m w = A")
    case True
    obtain m' where "MacTableDeleteEntry m w A = Some (True, m')" "table_inv m'"
      by (rule Delete_table_inv[OF inv, of w A]) (use True ok Mt_Delete in simp_all)
    then show ?thesis using Mt_Delete by simp
  next
    case False
    obtain b m' where "MacTableDeleteEntry m w A = Some (b, m')" "table_inv m'"
      by (rule Delete_nothing[OF inv False])
    then show ?thesis using Mt_Delete by simp
  qed
next
  case Mt_Reset
  obtain m' where "MacTableReset m = Some m'" "table_inv m'"
    by (rule Reset_inv[OF inv]) (use ok Mt_Reset in simp)
  then show ?thesis using Mt_Reset by simp
next
  case (Mt_Session ev)
  then show ?thesis using session_table_inv[OF inv, of ev] ok by simp
qed

lemma mt_reach_inv: "mt_reach m \<Longrightarrow> table_inv m"
proof (induction rule: mt_reach.induct)
  case (mt_reach_start m)
  then show ?case by (rule start_table_inv)
next
  case (mt_reach_step m ev m')
  then show ?case using mt_exec_inv[of m ev] by auto
qed

section \<open>A session accepted for a station that was deleted\<close>

text \<open>Entering a station in a place that still has a session leaves that session without a station.\<close>

lemma insert_over_session:
  assumes m: "mt_inv m" "ba_inv (mt_ad m)" and free: "first_free m = Some i"
    and t: "t < 8" "BARecWcidArray (sta m i) ! t \<noteq> 0"
    and run: "MacTableInsertEntry m A x opm c = Some (Some i, m')"
  shows "rused (mt_ad m') (BARecWcidArray (sta m i) ! t) \<and> (\<forall>w<32. \<forall>u<8. BARecWcidArray (sta m' w) ! u \<noteq> BARecWcidArray (sta m i) ! t)"
proof -
  note i = first_freeD[OF free]
  obtain m2 where m2: "MacTableInsertEntry m A x opm c = Some (Some i, m2)"
    "sta m2 = (sta m)(i := init_sta m i A zero_sta)" "mt_ad m2 = mt_ad (init_entry m i A x opm c)"
    by (rule Insert_inv[OF m(1) free])
  have e: "m' = m2" using run m2(1) by simp
  let ?j = "BARecWcidArray (sta m i) ! t"
  have tab: "tab_ok (rused (mt_ad m)) (rown (mt_ad m)) (rarrs (mt_ad m)) (numAsRecipient (mt_ad m))"
    using m(2) by (simp add: ba_inv_def rec_inv_def)
  have len: "length (Content (mt_ad m)) = 32" by (rule ba_inv_dims(1)[OF m(2)])
  have arr: "rarrs (mt_ad m) ! w = BARecWcidArray (sta m w)" if "w < 32" for w
    using that len by (simp add: rarrs_def sta_def)
  have own: "rused (mt_ad m) ?j" "rown (mt_ad m) ?j = (i, t)"
    using tab_okD(5,6)[OF tab i(1) t(1)] t(2) arr[OF i(1)] by auto
  have "rused (mt_ad m') ?j" using own(1) by (simp add: e m2(3) init_entry_ad rused_def upd_mac_def)
  moreover have "BARecWcidArray (sta m' w) ! u \<noteq> ?j" if w: "w < 32" "u < 8" for w u
  proof (cases "w = i")
    case True
    then show ?thesis using t(2) w(2) by (simp add: e m2(2) init_sta_def zero_sta_def)
  next
    case False
    then show ?thesis using tab_okD(6)[OF tab w] own(2) arr[OF w(1)] t(2) by (auto simp: e m2(2))
  qed
  ultimately show ?thesis by blast
qed

end
