(* ===== verification/MacTableInfra.thy ===== *)
theory MacTableInfra
  imports MacTableRuns
begin

text \<open>The access point in the station table of an infrastructure network: what association enters and
  link-down clears, and the chain test of the association that leaves it out.\<close>

section \<open>The link of an entry survives its deletion\<close>

lemma set_next_own: "next_of (set_next m q (next_of m w)) w = next_of m w"
proof (cases "q < length (mt_Rest m)")
  case True
  then show ?thesis by (simp add: next_set_next)
next
  case False
  then show ?thesis by (simp add: set_next_def upd_rest_def next_of_def list_update_beyond)
qed

lemma unlink_keeps_next:
  assumes "unlink_loop m h w prev p = Some m'"
  shows "next_of m' w = next_of m w"
proof (rule unlink_loop.raw_induct[of "\<lambda>m h w prev p m'. next_of m' w = next_of m w", OF _ assms])
  fix f m h w prev p y
  assume "\<And>m h w prev p y. f m h w prev p = Some y \<Longrightarrow> next_of y w = next_of m w"
    and "(case p of None \<Rightarrow> Some m
      | Some p \<Rightarrow> if p = w
         then Some (case prev of None \<Rightarrow> set_hash m h (next_of m w) | Some q \<Rightarrow> set_next m q (next_of m w))
         else f m h w (Some p) (next_of m p)) = Some y"
  then show "next_of y w = next_of m w"
    by (auto simp: set_next_own split: option.splits if_splits)
qed

lemma Delete_keeps_next:
  assumes "MacTableDeleteEntry m w A = Some (b, m')"
  shows "next_of m' w = next_of m w"
proof -
  have d: "next_of m2 w = next_of m1 w" if "delete_matching m1 w A = Some m2" for m1 m2
    using that by (auto simp: delete_matching_def Let_def split: option.splits dest!: unlink_keeps_next)
  show ?thesis
    using assms d by (auto simp: MacTableDeleteEntry_def Let_def split: if_splits option.splits)
qed

section \<open>Association and link-down\<close>

text \<open>A station table of an infrastructure network holds at most the access point, in entry 1.\<close>

definition only_access_point :: "mac_state \<Rightarrow> bool" where
  "only_access_point m \<longleftrightarrow> mt_BssType m = BSS_INFRA \<and> next_of m BSSID_WCID = None \<and>
    (\<forall>i<32. mt_used m i \<longrightarrow> i = BSSID_WCID \<and> addr_of m i = Bssid (mt_ad m) \<and> EntryType (sta m i) = ENTRY_CLIENT)"

lemma delete_access_point:
  assumes inv: "table_inv m" and ap: "only_access_point m" and mem: "alloc_results (mt_ad m) = []"
    and u: "mt_used m 1"
  obtains m' where "MacTableDeleteEntry m (Aid (sta m 1)) (addr_of m 1) = Some (True, m')" "table_inv m'"
    "\<forall>i<32. \<not> mt_used m' i" "next_of m' 1 = None" "mt_BssType m' = BSS_INFRA"
proof -
  have aid: "Aid (sta m 1) = 1" using mt_invD(5)[OF table_invD(1)[OF inv], of 1] u by simp
  obtain m' where m': "MacTableDeleteEntry m 1 (addr_of m 1) = Some (True, m')" "table_inv m'"
    "\<not> mt_used m' 1" "\<forall>j<32. j \<noteq> 1 \<longrightarrow> mt_used m' j = mt_used m j" "mt_BssType m' = mt_BssType m"
    by (rule Delete_table_inv[OF inv, of 1 "addr_of m 1"]) (use u mem in simp_all)
  have "\<not> mt_used m' i" if "i < 32" for i
    using m'(3,4) ap that by (cases "i = 1") (auto simp: only_access_point_def BSSID_WCID_def)
  moreover have "next_of m' 1 = None" "mt_BssType m' = BSS_INFRA"
    using Delete_keeps_next[OF m'(1)] m'(5) ap by (simp_all add: only_access_point_def BSSID_WCID_def)
  ultimately show thesis using that m'(1,2) aid by simp
qed

lemma assoc_deletes_old:
  assumes inv: "table_inv m" and ap: "only_access_point m" and mem: "alloc_results (mt_ad m) = []"
  obtains m' where "assoc_delete_old m = Some m'" "table_inv m'" "\<forall>i<32. \<not> mt_used m' i" "next_of m' 1 = None"
    "mt_BssType m' = BSS_INFRA"
proof (cases "mt_used m 1")
  case True
  note d = table_invD[OF inv]
  have "1 \<in> stations_of m (Bssid (mt_ad m))"
    using True ap by (simp add: stations_of_def only_access_point_def BSSID_WCID_def)
  then have "MacTableLookup m (Bssid (mt_ad m)) = Some (Some 1)"
    using directory_Some[OF d(4)] Lookup_directory[OF d(1,4)] by simp
  moreover obtain m' where "MacTableDeleteEntry m (Aid (sta m 1)) (addr_of m 1) = Some (True, m')" "table_inv m'"
    "\<forall>i<32. \<not> mt_used m' i" "next_of m' 1 = None" "mt_BssType m' = BSS_INFRA"
    by (rule delete_access_point[OF assms True])
  ultimately show thesis using that by (simp add: assoc_delete_old_def)
next
  case False
  note d = table_invD[OF inv]
  have u: "\<forall>i<32. \<not> mt_used m i" using False ap by (auto simp: only_access_point_def BSSID_WCID_def)
  then have "stations_of m (Bssid (mt_ad m)) = {}" by (auto simp: stations_of_def)
  then have "MacTableLookup m (Bssid (mt_ad m)) = Some None"
    using directory_None[of m "Bssid (mt_ad m)"] Lookup_directory[OF d(1,4), of "Bssid (mt_ad m)"] by presburger
  then have "assoc_delete_old m = Some m" by (simp add: assoc_delete_old_def)
  then show thesis using that inv u ap by (simp add: only_access_point_def BSSID_WCID_def)
qed

text \<open>Writing identity fields of a station keeps the session tables consistent.\<close>

lemma identity_keeps_ba_inv:
  assumes inv: "ba_inv a" and w: "w < 32"
  shows "ba_inv (upd_mac a w (\<lambda>st. st\<lparr>Addr := A, Aid := w, EntryType := ENTRY_CLIENT\<rparr>))"
proof -
  define f :: "MAC_TABLE_ENTRY \<Rightarrow> MAC_TABLE_ENTRY" where "f = (\<lambda>st. st\<lparr>Addr := A, Aid := w, EntryType := ENTRY_CLIENT\<rparr>)"
  have f: "BARecWcidArray (f st) = BARecWcidArray st" "RXBAbitmap (f st) = RXBAbitmap st" "TxSeq (f st) = TxSeq st"
    "BAOriWcidArray (f st) = BAOriWcidArray st" "TXBAbitmap (f st) = TXBAbitmap st" "Aid (f st) = w" for st
    by (simp_all add: f_def)
  let ?a' = "upd_mac a w f"
  have same: "BARecEntry ?a' = BARecEntry a" "BAOriEntry ?a' = BAOriEntry a" "numAsRecipient ?a' = numAsRecipient a"
    "numAsOriginator ?a' = numAsOriginator a" "numDoneOriginator ?a' = numDoneOriginator a"
    "freelist ?a' = freelist a" "RxBAWinLimit ?a' = RxBAWinLimit a"
    by (simp_all add: upd_mac_def)
  have p: "rec_part ?a' = rec_part a" "ori_part ?a' = ori_part a"
    unfolding rec_part_def ori_part_def same by (simp_all add: map_upd_mac f)
  have "rec_inv ?a'" "ori_inv ?a'"
    using inv rec_inv_cong[OF p(1)] ori_inv_cong[OF p(2)] unfolding ba_inv_def by blast+
  moreover have "sta_inv ?a'"
  proof -
    have s: "sta_inv a" using inv by (simp add: ba_inv_def)
    have C: "Content ?a' ! v = (if v = w then f (Content a ! w) else Content a ! v)" for v
      using ba_inv_dims(1)[OF inv] w by (simp add: upd_mac_def nth_list_update)
    show ?thesis
      using s w unfolding sta_inv_def same C by (simp add: f)
  qed
  ultimately show ?thesis unfolding ba_inv_def f_def by blast
qed

lemma link_into_empty:
  assumes inv: "table_inv m" and u: "\<forall>i<32. \<not> mt_used m i" and nx: "next_of m 1 = None"
    and bss: "mt_BssType m = BSS_INFRA"
  obtains m' where "sta_infra_link m B = Some m'" "table_inv m'" "directory m' = [B \<mapsto> 1]" "mt_Size m' = 1"
    "next_of m' 1 = None" "mt_BssType m' = BSS_INFRA"
proof -
  note d = table_invD[OF inv] and mi = mt_invD[OF table_invD(1)[OF inv]]
  let ?h = "MAC_ADDR_HASH_INDEX B"
  have dims: "length (mt_Hash m) = 256" "length (mt_Rest m) = 32" "length (Content (mt_ad m)) = 32"
    using mi(1) by (simp_all add: mt_dims_def)
  have empty: "mt_Hash m ! k = None" if "k < 256" for k
  proof -
    obtain xs where xs: "chain (next_of m) (mt_Hash m ! k) xs" "distinct xs" "set xs = bucket m k"
      by (rule bucket_chain[OF d(1) \<open>k < 256\<close>])
    have "set xs = {}" using xs(3) u by (auto simp: bucket_def)
    then have "xs = []" by simp
    then show ?thesis using xs(1) by simp
  qed
  have size: "mt_Size m = 0" using mi(4) u by simp
  define m1 where "m1 = set_hash m ?h (Some 1)"
  define m2 where "m2 = upd_sta m1 1 (\<lambda>st. st\<lparr>Addr := B, Aid := 1, EntryType := ENTRY_CLIENT\<rparr>)"
  define m' where "m' = m2\<lparr>mt_Size := 1\<rparr>"
  have run: "sta_infra_link m B = Some m'"
    using bss empty size by (simp add: sta_infra_link_def Let_def BSSID_WCID_def m1_def m2_def m'_def)
  have s: "sta m' = (sta m)(1 := (sta m 1)\<lparr>Addr := B, Aid := 1, EntryType := ENTRY_CLIENT\<rparr>)"
    using dims by (simp add: m'_def m2_def m1_def sta_upd_sta)
  have used: "mt_used m' i \<longleftrightarrow> i = 1" if "i < 32" for i
    using u that s by (auto simp: mt_used_def)
  have a1: "addr_of m' 1 = B" by (simp add: addr_of_def s)
  have b: "bucket m' k = (if k = ?h then {1} else {})" for k
    using used a1 by (auto simp: bucket_def)
  have n1: "next_of m' = next_of m" by (simp add: m'_def m2_def m1_def)
  have hash: "mt_Hash m' ! k = (if k = ?h then Some 1 else None)" if "k < 256" for k
    using that dims empty by (simp add: m'_def m2_def m1_def nth_list_update)
  have "\<exists>xs. chain (next_of m') (mt_Hash m' ! k) xs \<and> distinct xs \<and> set xs = bucket m' k" if "k < 256" for k
    unfolding b using hash[OF that] nx n1 by (intro exI[of _ "if k = ?h then [1] else []"]) simp
  then have chains: "chains_ok m'" unfolding chains_ok_def by blast
  have "{i. i < 32 \<and> mt_used m' i} = {1}" using used by auto
  moreover have "mt_dims m'" using dims by (simp add: mt_dims_def m'_def m2_def m1_def upd_mac_def)
  ultimately have mi': "mt_inv m'" using chains used s by (simp add: mt_inv_def m'_def)
  have bi: "ba_inv (mt_ad m')"
    using identity_keeps_ba_inv[OF d(2), of 1 B] by (simp add: m'_def m2_def m1_def)
  have "clr (mt_ad m') j" if "j < 32" "\<not> mt_used m' j" for j
    using d(5)[OF that(1)] u that used[OF that(1)] dims
    by (simp add: m'_def m2_def m1_def clr_upd_mac)
  then have fc: "free_clear m'" by (simp add: free_clear_def)
  have inj: "one_entry_per_address m'" using used by (auto simp: one_entry_per_address_def inj_on_def)
  have "stations_of m' A = (if A = B then {1} else {})" for A using used a1 by (auto simp: stations_of_def)
  then have "directory m' A = [B \<mapsto> 1] A" for A
    using directory_Some[OF inj, of A] directory_None[of m' A] by (cases "directory m' A") (auto split: if_splits)
  then have "directory m' = [B \<mapsto> 1]" by blast
  then show thesis using that[OF run] mi' bi fc inj nx n1 bss
    by (simp add: table_inv_def m'_def m2_def m1_def)
qed

section \<open>Link-down\<close>

lemma link_down_skips:
  assumes "\<forall>i \<in> set is. \<not> mt_used m i"
  shows "link_down_entries is m = Some m"
  using assms by (induction "is") (auto simp: mt_used_def)

lemma zero_keeps_table_inv:
  assumes inv: "table_inv m" and u: "\<forall>i<32. \<not> mt_used m i"
  shows "table_inv (upd_rest (upd_sta m 1 (\<lambda>_. zero_sta)) 1 (\<lambda>_. zero_rest\<lparr>sta_PortSecured := p\<rparr>))" (is "table_inv ?m'")
proof -
  note d = table_invD[OF inv] and mi = mt_invD[OF table_invD(1)[OF inv]]
  have dims: "length (mt_Hash m) = 256" "length (mt_Rest m) = 32" "length (Content (mt_ad m)) = 32"
    using mi(1) by (simp_all add: mt_dims_def)
  have s: "sta ?m' = (sta m)(1 := zero_sta)" using dims by (simp add: sta_upd_sta)
  have used: "\<not> mt_used ?m' i" if "i < 32" for i using u that s by (auto simp: mt_used_def zero_sta_def)
  have b: "bucket ?m' k = {}" "bucket m k = {}" for k using used u by (auto simp: bucket_def)
  have "mt_Hash m ! k = None" if "k < 256" for k
    using bucket_chain[OF d(1) that] b(2) by (metis chain.simps(1) set_empty2)
  then have "chains_ok ?m'" unfolding chains_ok_def b by (intro allI impI exI[of _ "[]"]) simp
  moreover have "mt_dims ?m'" using dims by (simp add: mt_dims_def upd_mac_def)
  moreover have "mt_Size ?m' = int (card {i. i < 32 \<and> mt_used ?m' i})"
  proof -
    have e: "{i. i < 32 \<and> mt_used ?m' i} = {}" "{i. i < 32 \<and> mt_used m i} = {}" using used u by auto
    show ?thesis unfolding e(1) using mi(4) unfolding e(2) by simp
  qed
  ultimately have "mt_inv ?m'" using used by (simp add: mt_inv_def)
  moreover have "ba_inv (mt_ad ?m')"
    using replace_clear_station[OF d(2), of 1 zero_sta] d(5)[of 1] u
    by (simp add: zero_sta_def clear_sta_def)
  moreover have "free_clear ?m'"
    using d(5) u dims by (simp add: free_clear_def clr_upd_mac clear_sta_def zero_sta_def)
  moreover have "one_entry_per_address ?m'" using used by (auto simp: one_entry_per_address_def inj_on_def)
  ultimately show ?thesis by (simp add: table_inv_def)
qed

lemma link_down_clears:
  assumes inv: "table_inv m" and ap: "only_access_point m" and mem: "alloc_results (mt_ad m) = []"
  obtains m' where "link_down_station_table m p = Some m'" "table_inv m'" "directory m' = Map.empty" "mt_Size m' = 0"
proof -
  obtain m1 where m1: "link_down_entries [1..<32] m = Some m1" "table_inv m1" "\<forall>i<32. \<not> mt_used m1 i"
  proof (cases "EntryType (sta m 1) = ENTRY_CLIENT")
    case True
    then have "mt_used m 1" by (simp add: mt_used_def)
    from delete_access_point[OF assms this] obtain m1 where
      m1: "MacTableDeleteEntry m (Aid (sta m 1)) (addr_of m 1) = Some (True, m1)" "table_inv m1" "\<forall>i<32. \<not> mt_used m1 i"
      by blast
    have "[1..<32] = (1 :: nat) # [Suc 1..<32]" by (rule upt_conv_Cons) simp
    moreover have "link_down_entries [Suc 1..<32] m1 = Some m1" by (rule link_down_skips) (use m1(3) in simp)
    ultimately have "link_down_entries [1..<32] m = Some m1"
      using True m1(1) by (simp only: link_down_entries.simps if_True simp_thms option.case prod.case)
    then show thesis using m1(2,3) that by blast
  next
    case False
    then have n: "\<not> mt_used m 1" using ap by (auto simp: only_access_point_def BSSID_WCID_def)
    then have u: "\<forall>i<32. \<not> mt_used m i" using ap by (auto simp: only_access_point_def BSSID_WCID_def)
    then show thesis using that[of m] link_down_skips[of "[1..<32]" m] inv by simp
  qed
  let ?m' = "upd_rest (upd_sta m1 1 (\<lambda>_. zero_sta)) 1 (\<lambda>_. zero_rest\<lparr>sta_PortSecured := p\<rparr>)"
  have ti: "table_inv ?m'" by (rule zero_keeps_table_inv[OF m1(2,3)])
  have run: "link_down_station_table m p = Some ?m'"
    using m1(1) by (simp add: link_down_station_table_def MAX_LEN_OF_MAC_TABLE_def BSSID_WCID_def del: upt_conv_Cons_Cons)
  have "length (Content (mt_ad m1)) = 32" using mt_invD(1)[OF table_invD(1)[OF m1(2)]] by (simp add: mt_dims_def)
  then have "\<not> mt_used ?m' i" if "i < 32" for i using m1(3) that by (simp add: used_upd_sta zero_sta_def)
  then have "stations_of ?m' A = {}" "{i. i < 32 \<and> mt_used ?m' i} = {}" for A by (auto simp: stations_of_def)
  then have "directory ?m' = Map.empty" "mt_Size ?m' = 0"
    using directory_None mt_invD(4)[OF table_invD(1)[OF ti]] by (auto simp: fun_eq_iff)
  then show thesis using that run ti by blast
qed

section \<open>The chain test of the association\<close>

lemma infra_scan_last:
  "chain (next_of m) (Some p) xs \<Longrightarrow> \<forall>x \<in> set xs. addr_of m x \<noteq> addr_of m 1 \<and> x \<noteq> 1 \<Longrightarrow> infra_scan m p = Some (last xs)"
proof (induction xs arbitrary: p)
  case (Cons x xs)
  then show ?case by (subst infra_scan.simps) (cases xs, auto simp: BSSID_WCID_def)
qed simp

text \<open>A station of another address in the bucket: entry 1 is not linked, the lookup does not find the
  access point, the counter counts it.\<close>

lemma link_misses:
  assumes inv: "table_inv m" and bss: "mt_BssType m = BSS_INFRA" and u1: "\<not> mt_used m 1"
    and other: "i \<in> bucket m (MAC_ADDR_HASH_INDEX B)"
    and differ: "\<forall>i \<in> bucket m (MAC_ADDR_HASH_INDEX B). addr_of m i \<noteq> addr_of m 1 \<and> addr_of m i \<noteq> B"
  obtains m' where "sta_infra_link m B = Some m'" "mt_used m' 1" "addr_of m' 1 = B" "MacTableLookup m' B = Some None"
proof -
  note d = table_invD[OF inv]
  let ?h = "MAC_ADDR_HASH_INDEX B"
  have dims: "length (mt_Hash m) = 256" "length (mt_Rest m) = 32" "length (Content (mt_ad m)) = 32"
    using mt_invD(1)[OF d(1)] by (simp_all add: mt_dims_def)
  obtain xs where xs: "chain (next_of m) (mt_Hash m ! ?h) xs" "set xs = bucket m ?h"
    using bucket_chain[OF d(1) hash_index_less] by blast
  have far: "\<forall>x \<in> set xs. addr_of m x \<noteq> addr_of m 1 \<and> x \<noteq> 1" using xs(2) differ u1 by (auto simp: bucket_def)
  have ne: "xs \<noteq> []" using xs(2) other by auto
  obtain p where p: "mt_Hash m ! ?h = Some p" using xs(1) ne by (cases "mt_Hash m ! ?h") auto
  have scan: "infra_scan m p = Some (last xs)" using infra_scan_last[of m p xs] xs(1) far p by simp
  have l: "addr_of m (last xs) \<noteq> addr_of m 1" using far ne by (metis last_in_set)
  define m2 where "m2 = upd_sta m 1 (\<lambda>st. st\<lparr>Addr := B, Aid := 1, EntryType := ENTRY_CLIENT\<rparr>)"
  let ?m' = "m2\<lparr>mt_Size := USHORT (mt_Size m2 + 1)\<rparr>"
  have run: "sta_infra_link m B = Some ?m'"
    using bss p scan l by (simp add: sta_infra_link_def Let_def BSSID_WCID_def m2_def)
  have u: "mt_used ?m' = (mt_used m)(1 := True)" "addr_of ?m' = (addr_of m)(1 := B)"
    using dims by (simp_all add: m2_def used_upd_sta)
  have "find (\<lambda>i. addr_of ?m' i = B) xs = None"
    using xs(2) differ far u by (auto simp: find_None_iff)
  moreover have "chain (next_of ?m') (mt_Hash ?m' ! ?h) xs" "\<forall>x\<in>set xs. mt_used ?m' x"
    using xs u by (auto simp: m2_def bucket_def)
  ultimately have "MacTableLookup ?m' B = Some None"
    unfolding MacTableLookup_def using lookup_loop_chain by metis
  then show thesis using that run u by simp
qed

end
