(* ===== verification/MacTableProps.thy ===== *)
theory MacTableProps
  imports MacTableInfra BaSessionProps
begin

text \<open>The properties of the station table, each with the theorem that applies it at a concrete
  table.\<close>

section \<open>Concrete tables\<close>

text \<open>The empty table after start-up, of an ad-hoc network; and one whose entry 1 kept the HT flag of
  the station that left it.\<close>

definition wit_mt :: "MAC_TABLE_ENTRY list \<Rightarrow> nat \<Rightarrow> mac_state" where
  "wit_mt stas bss = \<lparr>mt_ad = BATableInit (wit_ad0\<lparr>Content := stas\<rparr>), mt_Hash = replicate 256 None,
     mt_Rest = replicate 32 zero_rest, mt_Size = 0, mt_BssType = bss, mt_AuthMode = 0, mt_WepStatus = 1,
     mt_OperaionMode = 0, mt_cmds = []\<rparr>"

definition mt_empty :: "nat \<Rightarrow> mac_state" where "mt_empty bss = wit_mt (replicate 32 zero_sta) bss"

definition mt_left :: mac_state where
  "mt_left = wit_mt ((replicate 32 zero_sta)[1 := zero_sta\<lparr>IS_HT_STA := True, Aid := 1\<rparr>]) BSS_ADHOC"

lemma wit_ba_start:
  assumes "length stas = 32" "\<forall>w<32. clear_sta (stas ! w) \<and> length (TxSeq (stas ! w)) = 8 \<and>
     (IS_HT_STA (stas ! w) \<longrightarrow> Aid (stas ! w) = w) \<and> RXBAbitmap (stas ! w) = 0 \<and> TXBAbitmap (stas ! w) = 0"
  shows "ba_start (wit_ad0\<lparr>Content := stas\<rparr>)"
  using assms by (simp add: ba_start_def table_dims_def wit_ad0_def wit_rec0_def wit_ori0_def list_wf_def seq_ok_def
      clear_sta_def)

lemma wit_mt_inv:
  assumes "length stas = 32" "\<forall>w<32. clear_sta (stas ! w) \<and> length (TxSeq (stas ! w)) = 8 \<and>
     (IS_HT_STA (stas ! w) \<longrightarrow> Aid (stas ! w) = w) \<and> RXBAbitmap (stas ! w) = 0 \<and> TXBAbitmap (stas ! w) = 0"
    "\<forall>w<32. EntryType (stas ! w) = ENTRY_NONE"
  shows "table_inv (wit_mt stas bss)"
proof -
  let ?m = "wit_mt stas bss"
  have C: "Content (mt_ad ?m) = stas" by (simp add: wit_mt_def BATableInit_def wit_ad0_def)
  have u: "\<not> mt_used ?m i" if "i < 32" for i using assms(3) that C by (simp add: mt_used_def sta_def)
  have b: "bucket ?m h = {}" for h using u by (auto simp: bucket_def)
  have e: "{i. i < 32 \<and> mt_used ?m i} = {}" using u by auto
  have "chains_ok ?m" unfolding chains_ok_def b by (simp add: wit_mt_def)
  moreover have "mt_dims ?m" using assms(1) C by (simp add: mt_dims_def wit_mt_def)
  moreover have "mt_Size ?m = int (card {i. i < 32 \<and> mt_used ?m i})" unfolding e by (simp add: wit_mt_def)
  ultimately have "mt_inv ?m" using u by (simp add: mt_inv_def)
  moreover have "ba_inv (mt_ad ?m)"
    using BATableInit_inv[OF wit_ba_start[OF assms(1,2)]] by (simp add: wit_mt_def)
  moreover have "free_clear ?m" using assms(1,2) C by (simp add: free_clear_def clr_def)
  moreover have "one_entry_per_address ?m" using u by (auto simp: one_entry_per_address_def inj_on_def)
  ultimately show ?thesis by (simp add: table_inv_def)
qed

lemma mt_empty_start: "mt_start (mt_empty bss)"
  unfolding mt_start_def mt_empty_def
  by (intro conjI exI[of _ "wit_ad0\<lparr>Content := replicate 32 zero_sta\<rparr>"] wit_ba_start)
    (simp_all add: wit_mt_def zero_sta_def clear_sta_def wit_ad0_def)

lemma mt_empty_reach: "mt_reach (mt_empty bss)" by (rule mt_reach_start[OF mt_empty_start])

lemma mt_empty_inv: "table_inv (mt_empty bss)" by (rule mt_reach_inv[OF mt_empty_reach])

lemma mt_empty_sel: "alloc_results (mt_ad (mt_empty bss)) = []" "mt_BssType (mt_empty bss) = bss"
  "next_of (mt_empty bss) 1 = None" "\<forall>i<32. \<not> mt_used (mt_empty bss) i"
  by (simp_all add: mt_empty_def wit_mt_def BATableInit_def wit_ad0_def next_of_def zero_rest_def mt_used_def sta_def
      zero_sta_def)

lemma mt_left_inv: "table_inv mt_left"
  unfolding mt_left_def by (rule wit_mt_inv) (simp_all add: nth_list_update zero_sta_def clear_sta_def)

lemma mt_empty_lookup: "MacTableLookup (mt_empty bss) A = Some None"
proof -
  have "stations_of (mt_empty bss) A = {}" using mt_empty_sel(4) by (auto simp: stations_of_def)
  then show ?thesis using Lookup_spec[OF table_invD(1)[OF mt_empty_inv]] by blast
qed

text \<open>A table with one station.\<close>

lemma mt_first_free: "first_free (mt_empty BSS_ADHOC) = Some 1"
proof -
  have "FirstWcid (mt_empty BSS_ADHOC) = 1" by (simp add: FirstWcid_def mt_empty_sel mac_consts)
  moreover have "\<not> mt_used (mt_empty BSS_ADHOC) 1" using mt_empty_sel(4) by simp
  moreover have "[1..<32] = (1 :: nat) # [Suc 1..<32]" by (rule upt_conv_Cons) simp
  ultimately show ?thesis unfolding first_free_def MAX_LEN_OF_MAC_TABLE_def by (simp only: find.simps if_True not_False_eq_True)
qed

lemma mt_one_station:
  obtains m where "MacTableInsertEntry (mt_empty BSS_ADHOC) (replicate 6 2) 0 OPMODE_STA True = Some (Some 1, m)"
    "mt_reach m" "alloc_results (mt_ad m) = []" "MacTableLookup m (replicate 6 2) = Some (Some 1)"
proof -
  have dir: "directory (mt_empty BSS_ADHOC) (replicate 6 2) = None"
    using st.look_dir[OF mt_empty_inv] mt_empty_lookup by simp
  obtain m where m: "MacTableInsertEntry (mt_empty BSS_ADHOC) (replicate 6 2) 0 OPMODE_STA True = Some (Some 1, m)"
    "table_inv m" "alloc_results (mt_ad m) = alloc_results (mt_ad (mt_empty BSS_ADHOC))"
    by (rule Insert_table_inv[OF mt_empty_inv dir mt_first_free])
  moreover have "mt_reach m"
    using mt_reach_step[OF mt_empty_reach, of BSS_ADHOC "Mt_Insert (replicate 6 2) 0 OPMODE_STA True"] m(1) mt_empty_lookup
    by simp
  ultimately show thesis
    using st.inserted_is_found[OF mt_empty_inv dir m(1)] mt_empty_sel(1) that by auto
qed

section \<open>Runs\<close>



section \<open>The directory\<close>

text \<open>C29. Insertion refines the update of a directory: when the lookup does not find an address, the
  insertion returns, either without an entry and without any change, and then every entry it may use
  is in use, or with an entry that belonged to no address; then the lookup finds this entry under the
  address and every other address as before.\<close>

theorem station_insert_is_found:
  assumes "mt_reach m" and "MacTableLookup m A = Some None"
  shows "(MacTableInsertEntry m A x opm c = Some (None, m) \<and> (\<forall>i<32. FirstWcid m \<le> i \<longrightarrow> mt_used m i)) \<or>
    (\<exists>i m'. MacTableInsertEntry m A x opm c = Some (Some i, m') \<and> mt_reach m' \<and>
      MacTableLookup m' A = Some (Some i) \<and> (\<forall>B. B \<noteq> A \<longrightarrow> MacTableLookup m' B = MacTableLookup m B) \<and>
      (\<forall>B. MacTableLookup m B \<noteq> Some (Some i)))"
proof -
  have inv: "table_inv m" by (rule mt_reach_inv[OF assms(1)])
  then have dir: "directory m A = None" using st.look_dir[OF inv, of A] assms(2) by simp
  show ?thesis
  proof (cases "first_free m")
    case None
    then show ?thesis using Insert_full[OF None] by (auto simp: first_free_def find_None_iff MAX_LEN_OF_MAC_TABLE_def)
  next
    case (Some i)
    obtain m' where m': "MacTableInsertEntry m A x opm c = Some (Some i, m')"
      by (rule Insert_table_inv[OF inv dir Some, of x opm c])
    have "mt_reach m'" using mt_reach_step[OF assms(1), of "Mt_Insert A x opm c" m'] assms(2) m' by simp
    moreover have "\<forall>B. MacTableLookup m B \<noteq> Some (Some i)"
      using st.inserted_is_found[OF inv dir m'] st.look_dir[OF inv] by (auto simp: ran_def)
    ultimately show ?thesis using st.inserted_is_found[OF inv dir m'] m' by blast
  qed
qed

theorem station_insert_is_found_witness:
  "\<exists>i m'. MacTableInsertEntry (mt_empty BSS_ADHOC) (replicate 6 2) 0 OPMODE_STA True = Some (Some i, m') \<and>
    MacTableLookup m' (replicate 6 2) = Some (Some i)"
  using station_insert_is_found[OF mt_empty_reach mt_empty_lookup, of BSS_ADHOC "replicate 6 2" 0 OPMODE_STA True]
    mt_empty_sel(4)[of BSS_ADHOC, THEN spec, of 1] mt_empty_sel(2)[of BSS_ADHOC]
  by (auto simp: FirstWcid_def BSS_ADHOC_def BSS_INFRA_def)

text \<open>C30. Deletion of the entry the lookup finds, when the messages of its tear-down can be allocated:
  it returns, the address is found no more, every other address is found as before, and one station
  less is counted.\<close>

theorem station_delete_is_gone:
  assumes "mt_reach m" and "alloc_results (mt_ad m) = []" and "MacTableLookup m A = Some (Some i)"
  shows "\<exists>m'. MacTableDeleteEntry m i A = Some (True, m') \<and> mt_reach m' \<and> MacTableLookup m' A = Some None \<and>
      (\<forall>B. B \<noteq> A \<longrightarrow> MacTableLookup m' B = MacTableLookup m B) \<and> mt_Size m' = mt_Size m - 1"
proof -
  have inv: "table_inv m" by (rule mt_reach_inv[OF assms(1)])
  note d = table_invD[OF inv]
  have i: "i < 32" "mt_used m i" "addr_of m i = A"
    using st.look_dir[OF inv, of A] directory_Some[OF d(4), of A i] assms(3) by (auto simp: stations_of_def)
  obtain m' where m': "MacTableDeleteEntry m i A = Some (True, m')" "table_inv m'" "\<not> mt_used m' i"
      "\<forall>j<32. j \<noteq> i \<longrightarrow> mt_used m' j = mt_used m j"
    by (rule Delete_table_inv[OF inv i assms(2)])
  have "mt_reach m'" using mt_reach_step[OF assms(1), of "Mt_Delete i A" m'] assms(2) m'(1) by simp
  moreover have "mt_Size m' = mt_Size m - 1"
  proof -
    have e: "{j. j < 32 \<and> mt_used m' j} = {j. j < 32 \<and> mt_used m j} - {i}" using m'(3,4) by auto
    have "0 < card {j. j < 32 \<and> mt_used m j}" using i by (auto simp: card_gt_0_iff)
    then show ?thesis
      using mt_invD(4)[OF d(1)] mt_invD(4)[OF table_invD(1)[OF m'(2)]] i unfolding e
      by (simp add: card_Diff_singleton of_nat_diff)
  qed
  ultimately show ?thesis using st.deleted_is_gone[OF inv assms(2,3)] m'(1) by auto
qed

theorem station_delete_is_gone_witness:
  "\<exists>m m'. MacTableInsertEntry (mt_empty BSS_ADHOC) (replicate 6 2) 0 OPMODE_STA True = Some (Some 1, m) \<and>
    MacTableDeleteEntry m 1 (replicate 6 2) = Some (True, m') \<and> MacTableLookup m' (replicate 6 2) = Some None"
proof -
  obtain m where m: "MacTableInsertEntry (mt_empty BSS_ADHOC) (replicate 6 2) 0 OPMODE_STA True = Some (Some 1, m)"
    "mt_reach m" "alloc_results (mt_ad m) = []" "MacTableLookup m (replicate 6 2) = Some (Some 1)"
    by (rule mt_one_station)
  then show ?thesis using station_delete_is_gone[OF m(2-4)] by blast
qed

section \<open>A session for a station that has left\<close>

text \<open>C31. The HT flag of an entry survives its deletion, so an ADDBA request that arrives afterwards
  under the old entry number is accepted. The next station that is entered in this place finds the
  pointers cleared: the session stays in use and counted, no station points to it, and the session
  tables are no longer consistent.\<close>

theorem late_session_is_lost:
  assumes "table_inv m" and "first_free m = Some i" and "addba_status (mt_ad m) i f len = 0"
    and "BA_PARM_TID (areq_BaParm f) < 8" and "alloc_results (mt_ad m) = []"
  shows "\<exists>a m' j. PeerAddBAReqAction (mt_ad m) i f len = Some a \<and>
    MacTableInsertEntry (m\<lparr>mt_ad := a\<rparr>) A x opm c = Some (Some i, m') \<and> rused (mt_ad m') j \<and>
    (\<forall>w<32. \<forall>t<8. BARecWcidArray (sta m' w) ! t \<noteq> j) \<and> \<not> ba_inv (mt_ad m')"
proof -
  note d = table_invD[OF assms(1)]
  have i: "i < 32" by (rule first_freeD(1)[OF assms(2)])
  let ?t = "BA_PARM_TID (areq_BaParm f)"
  obtain a1 a2 r c' where s: "take_alloc a1 = (r, a2)" "ba_inv a1" "fresh_session a1 i ?t (rec_window (mt_ad m) (areq_BaParm f))"
    "PeerAddBAReqAction (mt_ad m) i f len = Some (if \<not> r then a2 else log_call a2 c')"
    using AddBAReq_inv[OF d(2) i assms(4), of len] assms(3) by metis
  define a where "a = (if \<not> r then a2 else log_call a2 c')"
  have run: "PeerAddBAReqAction (mt_ad m) i f len = Some a" using s(4) by (simp add: a_def)
  have C: "Content a = Content a1" using s(1) by (auto simp: a_def take_alloc_def log_call_def split: list.splits)
  have inv: "ba_inv a"
    using PeerAddBAReq_inv[OF d(2) assms(4), of i len] run by simp
  let ?m = "m\<lparr>mt_ad := a\<rparr>"
  have id: "idents a = idents (mt_ad m)" using idents_exec[of "Ev_AddBAReq i f len" "mt_ad m" a] run by simp
  have mi: "mt_inv ?m" and u: "j < 32 \<Longrightarrow> mt_used ?m j = mt_used m j" for j
    by (rule mt_inv_cong[OF d(1)]; simp add: id)+
  have free: "first_free ?m = Some i"
  proof -
    have "FirstWcid ?m = FirstWcid m" by (simp add: FirstWcid_def)
    then show ?thesis
      using assms(2) u unfolding first_free_def MAX_LEN_OF_MAC_TABLE_def by (metis (no_types, lifting) atLeastLessThan_iff find_cong set_upt)
  qed
  have j: "BARecWcidArray (sta ?m i) ! ?t \<noteq> 0" using s(3) C by (simp add: fresh_session_def Let_def sta_def)
  obtain m' where m': "MacTableInsertEntry ?m A x opm c = Some (Some i, m')"
    by (rule Insert_inv[OF mi free, of A x opm c])
  let ?j = "BARecWcidArray (sta ?m i) ! ?t"
  have lost: "rused (mt_ad m') ?j" "\<forall>w<32. \<forall>t<8. BARecWcidArray (sta m' w) ! t \<noteq> ?j"
    using insert_over_session[OF mi _ free assms(4) j m'] inv by auto
  have "\<not> ba_inv (mt_ad m')"
  proof
    assume b: "ba_inv (mt_ad m')"
    then have "tab_ok (rused (mt_ad m')) (rown (mt_ad m')) (rarrs (mt_ad m')) (numAsRecipient (mt_ad m'))"
      by (simp add: ba_inv_def rec_inv_def)
    from tab_ok_owner[OF this lost(1)] obtain w t where "w < 32" "t < 8" "rarrs (mt_ad m') ! w ! t = ?j" by blast
    then show False using lost(2) ba_inv_dims(1)[OF b] by (simp add: rarrs_def sta_def)
  qed
  then show ?thesis using run m' lost by blast
qed

theorem late_session_is_lost_witness:
  "\<exists>a m'. PeerAddBAReqAction (mt_ad mt_left) 1 wit_req 33 = Some a \<and>
    MacTableInsertEntry (mt_left\<lparr>mt_ad := a\<rparr>) (replicate 6 2) 0 OPMODE_STA True = Some (Some 1, m') \<and> \<not> ba_inv (mt_ad m')"
proof -
  have c: "Content (mt_ad mt_left) = (replicate 32 zero_sta)[1 := zero_sta\<lparr>IS_HT_STA := True, Aid := 1\<rparr>]"
    by (simp add: mt_left_def wit_mt_def BATableInit_def wit_ad0_def)
  have free: "first_free mt_left = Some 1"
  proof -
    have "FirstWcid mt_left = 1" by (simp add: FirstWcid_def mt_left_def wit_mt_def mac_consts)
    moreover have "\<not> mt_used mt_left 1" by (simp add: mt_used_def sta_def c zero_sta_def)
    moreover have "[1..<32] = (1 :: nat) # [Suc 1..<32]" by (rule upt_conv_Cons) simp
    ultimately show ?thesis unfolding first_free_def MAX_LEN_OF_MAC_TABLE_def by (simp only: find.simps if_True not_False_eq_True)
  qed
  have st: "addba_status (mt_ad mt_left) 1 wit_req 33 = 0"
    using wit_req_parm by (simp add: addba_status_def PeerAddBAReqActionSanity_def frame_sizes IMMED_BA_def c)
      (simp add: mt_left_def wit_mt_def BATableInit_def wit_ad0_def)
  show ?thesis
    using late_session_is_lost[OF mt_left_inv free st, of "replicate 6 2" 0 OPMODE_STA True] wit_req_parm
    by (auto simp: mt_left_def wit_mt_def BATableInit_def wit_ad0_def)
qed

section \<open>The access point\<close>

text \<open>C32. In an infrastructure network whose table holds at most the access point: association enters
  the new access point in entry 1 and removes the old one, so that the lookup finds exactly it; a link-down
  leaves an empty table.\<close>

theorem association_enters_access_point:
  assumes "table_inv m" and "only_access_point m" and "alloc_results (mt_ad m) = []"
  shows "(\<exists>m'. assoc_station_table m B = Some m' \<and> table_inv m' \<and> mt_Size m' = 1 \<and>
      (\<forall>A. MacTableLookup m' A = Some (if A = B then Some 1 else None))) \<and>
    (\<exists>m'. link_down_station_table m p = Some m' \<and> table_inv m' \<and> mt_Size m' = 0 \<and>
      (\<forall>A. MacTableLookup m' A = Some None))"
proof -
  obtain m1 where m1: "assoc_delete_old m = Some m1" "table_inv m1" "\<forall>i<32. \<not> mt_used m1 i" "next_of m1 1 = None"
    "mt_BssType m1 = BSS_INFRA"
    by (rule assoc_deletes_old[OF assms])
  obtain m2 where m2: "sta_infra_link m1 B = Some m2" "table_inv m2" "directory m2 = [B \<mapsto> 1]" "mt_Size m2 = 1"
    by (rule link_into_empty[OF m1(2-5)])
  obtain m3 where m3: "link_down_station_table m p = Some m3" "table_inv m3" "directory m3 = Map.empty" "mt_Size m3 = 0"
    by (rule link_down_clears[OF assms])
  have "assoc_station_table m B = Some m2" using m1(1) m2(1) by (simp add: assoc_station_table_def)
  then show ?thesis using m2 m3 st.look_dir[OF m2(2)] st.look_dir[OF m3(2)] by simp
qed

theorem association_enters_access_point_witness:
  "\<exists>m. assoc_station_table (mt_empty BSS_INFRA) (replicate 6 1) = Some m \<and> MacTableLookup m (replicate 6 1) = Some (Some 1)"
proof -
  have "only_access_point (mt_empty BSS_INFRA)"
    using mt_empty_sel[of BSS_INFRA] by (simp add: only_access_point_def BSSID_WCID_def)
  then show ?thesis
    using association_enters_access_point[OF mt_empty_inv _ mt_empty_sel(1), of BSS_INFRA "replicate 6 1" 1] by auto
qed

text \<open>The test on the chain in \<open>StaAddMacTableEntry\<close> is inverted: when the bucket of the new
  access point holds stations of other addresses, entry 1 is written and counted but not linked, and
  the lookup does not find the access point it was just associated with.\<close>

theorem access_point_left_out_of_chain:
  assumes "table_inv m" and "mt_BssType m = BSS_INFRA" and "\<not> mt_used m 1"
    and "i \<in> bucket m (MAC_ADDR_HASH_INDEX B)"
    and "\<forall>i \<in> bucket m (MAC_ADDR_HASH_INDEX B). addr_of m i \<noteq> addr_of m 1 \<and> addr_of m i \<noteq> B"
  shows "\<exists>m'. sta_infra_link m B = Some m' \<and> mt_used m' 1 \<and> addr_of m' 1 = B \<and> MacTableLookup m' B = Some None"
proof -
  obtain m' where "sta_infra_link m B = Some m'" "mt_used m' 1" "addr_of m' 1 = B" "MacTableLookup m' B = Some None"
    by (rule link_misses[OF assms])
  then show ?thesis by blast
qed

theorem access_point_left_out_of_chain_witness:
  "\<exists>m m'. MacTableInsertEntry (mt_empty BSS_INFRA) (replicate 6 2) 0 OPMODE_STA True = Some (Some 2, m) \<and>
    sta_infra_link m (replicate 6 1) = Some m' \<and> mt_used m' 1 \<and> MacTableLookup m' (replicate 6 1) = Some None"
proof -
  let ?m0 = "mt_empty BSS_INFRA"
  have dir: "directory ?m0 (replicate 6 2) = None" using st.look_dir[OF mt_empty_inv] mt_empty_lookup by simp
  have free: "first_free ?m0 = Some 2"
  proof -
    have "FirstWcid ?m0 = 2" by (simp add: FirstWcid_def mt_empty_sel mac_consts)
    moreover have "\<not> mt_used ?m0 2" using mt_empty_sel(4) by simp
    moreover have "[2..<32] = (2 :: nat) # [Suc 2..<32]" by (rule upt_conv_Cons) simp
    ultimately show ?thesis unfolding first_free_def MAX_LEN_OF_MAC_TABLE_def by (simp only: find.simps if_True not_False_eq_True)
  qed
  obtain m where m: "MacTableInsertEntry ?m0 (replicate 6 2) 0 OPMODE_STA True = Some (Some 2, m)" "table_inv m"
    by (rule Insert_table_inv[OF mt_empty_inv dir free])
  obtain m2 where m2: "MacTableInsertEntry ?m0 (replicate 6 2) 0 OPMODE_STA True = Some (Some 2, m2)"
    "sta m2 = (sta ?m0)(2 := init_sta ?m0 2 (replicate 6 2) zero_sta)" "mt_BssType m2 = mt_BssType ?m0"
    by (rule Insert_inv[OF table_invD(1)[OF mt_empty_inv] free])
  have e: "m2 = m" using m(1) m2(1) by simp
  have u: "mt_used m i \<longleftrightarrow> i = 2" if "i < 32" for i
    using that mt_empty_sel(4) m2(2) e by (auto simp: mt_used_def init_sta_def)
  have a: "addr_of m 2 = replicate 6 2" "addr_of m 1 = replicate 6 0"
    using m2(2) e by (simp_all add: addr_of_def init_sta_def sta_def mt_empty_def wit_mt_def BATableInit_def wit_ad0_def zero_sta_def)
  have h: "MAC_ADDR_HASH_INDEX (replicate 6 2) = MAC_ADDR_HASH_INDEX (replicate 6 1)"
    by (simp add: MAC_ADDR_HASH_INDEX_def MAC_ADDR_HASH_def)
  have b: "bucket m (MAC_ADDR_HASH_INDEX (replicate 6 1)) = {2}" using u a h by (auto simp: bucket_def)
  have "(replicate 6 2 :: mac_addr) \<noteq> replicate 6 0" "(replicate 6 2 :: mac_addr) \<noteq> replicate 6 1" by simp_all
  then show ?thesis
    using access_point_left_out_of_chain[OF m(2), of 2 "replicate 6 1"] b a u[of 1] m(1) m2(3) e mt_empty_sel(2) by auto
qed

end
