(* ===== verification/Arc4.thy ===== *)
theory Arc4
  imports AesModes
begin

text \<open>The stream cipher of common/crypt_arc4.c. A key of length 0, or one shorter than the length
  given for it, is \<open>None\<close> (division by zero, a read outside the key).\<close>

section \<open>The code\<close>

definition ARC4_KEY_BLOCK_SIZE :: nat where "ARC4_KEY_BLOCK_SIZE = 256"

record arc4_ctx =
  BlockIndex1 :: nat
  BlockIndex2 :: nat
  KeyBlock :: "byte list"

text \<open>The exchange of two entries, as the code does it.\<close>

definition key_swap :: "byte list \<Rightarrow> nat \<Rightarrow> nat \<Rightarrow> byte list" where
  "key_swap kb i j = (kb[i := kb ! j])[j := kb ! i]"

definition key_turn :: "byte list \<Rightarrow> nat \<Rightarrow> nat \<Rightarrow> nat \<times> byte list \<Rightarrow> nat \<times> byte list" where
  "key_turn pKey KeyLength BlockIndex = (\<lambda>(SWAPIndex, kb).
    let j = (SWAPIndex + unat (kb ! BlockIndex) + unat (pKey ! (BlockIndex mod KeyLength))) mod 256
    in (j, key_swap kb BlockIndex j))"

definition ARC4_INIT :: "byte list \<Rightarrow> nat \<Rightarrow> arc4_ctx option" where
  "ARC4_INIT pKey KeyLength =
    (if KeyLength = 0 \<or> length pKey < min KeyLength ARC4_KEY_BLOCK_SIZE then None
     else Some \<lparr>BlockIndex1 = 0, BlockIndex2 = 0,
       KeyBlock = snd (fold (key_turn pKey KeyLength) [0..<ARC4_KEY_BLOCK_SIZE]
                       (0, map of_nat [0..<ARC4_KEY_BLOCK_SIZE]))\<rparr>)"

text \<open>The step \<open>ARC4_Compute\<close> and \<open>ARC4_Discard_KeyLength\<close> share.\<close>

definition arc4_step :: "arc4_ctx \<Rightarrow> arc4_ctx" where
  "arc4_step c =
    (let i = (BlockIndex1 c + 1) mod 256; j = (BlockIndex2 c + unat (KeyBlock c ! i)) mod 256
     in \<lparr>BlockIndex1 = i, BlockIndex2 = j, KeyBlock = key_swap (KeyBlock c) i j\<rparr>)"

text \<open>The byte the message byte is combined with; \<open>TempValue\<close> is the entry moved last.\<close>

definition arc4_byte :: "arc4_ctx \<Rightarrow> byte" where
  "arc4_byte c = KeyBlock c ! ((unat (KeyBlock c ! BlockIndex2 c) + unat (KeyBlock c ! BlockIndex1 c)) mod 256)"

fun ARC4_Compute :: "arc4_ctx \<Rightarrow> byte list \<Rightarrow> byte list \<times> arc4_ctx" where
  "ARC4_Compute c [] = ([], c)"
| "ARC4_Compute c (x # xs) =
    (let c' = arc4_step c; (ys, c'') = ARC4_Compute c' xs in ((x XOR arc4_byte c') # ys, c''))"

primrec ARC4_Discard_KeyLength :: "arc4_ctx \<Rightarrow> nat \<Rightarrow> arc4_ctx" where
  "ARC4_Discard_KeyLength c 0 = c"
| "ARC4_Discard_KeyLength c (Suc n) = ARC4_Discard_KeyLength (arc4_step c) n"

section \<open>The key stream\<close>

primrec arc4_stream :: "arc4_ctx \<Rightarrow> nat \<Rightarrow> byte list" where
  "arc4_stream c 0 = []"
| "arc4_stream c (Suc n) = arc4_byte (arc4_step c) # arc4_stream (arc4_step c) n"

lemma stream_length [simp]: "length (arc4_stream c n) = n"
  by (induction n arbitrary: c) auto

lemma Compute_Cons:
  "ARC4_Compute c (x # xs) = ((x XOR arc4_byte (arc4_step c)) # fst (ARC4_Compute (arc4_step c) xs),
     snd (ARC4_Compute (arc4_step c) xs))"
  by (simp add: Let_def split: prod.split)

lemma Compute_stream: "fst (ARC4_Compute c xs) = map2 (XOR) xs (arc4_stream c (length xs))"
  by (induction xs arbitrary: c) (simp_all add: Compute_Cons del: ARC4_Compute.simps(2))

lemma Compute_ctx: "snd (ARC4_Compute c xs) = ARC4_Discard_KeyLength c (length xs)"
  by (induction xs arbitrary: c) (simp_all add: Compute_Cons del: ARC4_Compute.simps(2))

lemma Compute_length [simp]: "length (fst (ARC4_Compute c xs)) = length xs"
  by (simp add: Compute_stream)

lemma map2_xor_twice:
  "length ks = length xs \<Longrightarrow> map2 (XOR) (map2 (XOR) xs ks) ks = (xs :: byte list)"
  by (induction xs ks rule: list_induct2') (auto simp: xor.assoc)

text \<open>Deciphering is enciphering again, from the same context.\<close>

lemma Compute_twice [simp]: "fst (ARC4_Compute c (fst (ARC4_Compute c xs))) = xs"
  by (simp add: Compute_stream map2_xor_twice)

lemma stream_append: "arc4_stream c (m + n) = arc4_stream c m @ arc4_stream (ARC4_Discard_KeyLength c m) n"
  by (induction m arbitrary: c) auto

lemma Compute_append:
  "fst (ARC4_Compute c (xs @ ys)) = fst (ARC4_Compute c xs) @ fst (ARC4_Compute (ARC4_Discard_KeyLength c (length xs)) ys)"
  by (simp add: Compute_stream stream_append)

section \<open>The block is a permutation\<close>

definition arc4_ok :: "arc4_ctx \<Rightarrow> bool" where
  "arc4_ok c \<longleftrightarrow> BlockIndex1 c < 256 \<and> BlockIndex2 c < 256 \<and> mset (KeyBlock c) = mset (map of_nat [0..<256])"

lemma key_swap_mset: "i < length kb \<Longrightarrow> j < length kb \<Longrightarrow> mset (key_swap kb i j) = mset kb"
  by (simp add: key_swap_def mset_swap)

lemma key_swap_length [simp]: "length (key_swap kb i j) = length kb"
  by (simp add: key_swap_def)

lemma step_ok:
  assumes "arc4_ok c"
  shows "arc4_ok (arc4_step c)"
proof -
  have "length (KeyBlock c) = 256" using arg_cong[of _ _ size, OF assms[unfolded arc4_ok_def, THEN conjunct2, THEN conjunct2]] by simp
  then show ?thesis using assms by (simp add: arc4_ok_def arc4_step_def Let_def key_swap_mset)
qed

lemma key_turns_mset:
  "\<forall>i \<in> set is. i < length kb \<Longrightarrow> length kb = 256 \<Longrightarrow> mset (snd (fold (key_turn k n) is (s, kb))) = mset kb"
proof (induction "is" arbitrary: s kb)
  case (Cons i "is")
  then show ?case by (simp add: key_turn_def Let_def key_swap_mset)
qed simp

lemma INIT_ok:
  assumes "ARC4_INIT k n = Some c"
  shows "arc4_ok c"
proof -
  have "mset (snd (fold (key_turn k n) [0..<256] (0, map of_nat [0..<256]))) = mset (map of_nat [0..<256] :: byte list)"
    by (rule key_turns_mset) simp_all
  then show ?thesis using assms unfolding ARC4_INIT_def ARC4_KEY_BLOCK_SIZE_def
    by (auto simp: arc4_ok_def simp del: upt_conv_Cons upt_rec_numeral split: if_splits)
qed

lemma Discard_ok: "arc4_ok c \<Longrightarrow> arc4_ok (ARC4_Discard_KeyLength c n)"
  by (induction n arbitrary: c) (simp_all add: step_ok)

section \<open>The group key in an EAPOL frame\<close>

definition LEN_KEY_DESC_IV :: nat where "LEN_KEY_DESC_IV = 16"
definition LEN_PTK_KEK :: nat where "LEN_PTK_KEK = 16"

text \<open>\<open>mem\<close> tells whether the context can be allocated; the output buffer is as long as the
  input.\<close>

definition TKIP_GTK_KEY_WRAP :: "bool \<Rightarrow> byte list \<Rightarrow> byte list \<Rightarrow> byte list \<Rightarrow> byte list \<Rightarrow> byte list option" where
  "TKIP_GTK_KEY_WRAP mem key iv input_text output_text =
    (if \<not> mem then Some output_text
     else map_option (\<lambda>c. fst (ARC4_Compute (ARC4_Discard_KeyLength c 256) input_text))
       (ARC4_INIT (take LEN_KEY_DESC_IV iv @ take LEN_PTK_KEK key) (LEN_KEY_DESC_IV + LEN_PTK_KEK)))"

definition TKIP_GTK_KEY_UNWRAP :: "bool \<Rightarrow> byte list \<Rightarrow> byte list \<Rightarrow> byte list \<Rightarrow> byte list \<Rightarrow> byte list option" where
  "TKIP_GTK_KEY_UNWRAP mem key iv input_text output_text = TKIP_GTK_KEY_WRAP mem key iv input_text output_text"

lemma GTK_wrap_unwrap:
  assumes "16 \<le> length key" "16 \<le> length iv"
  shows "\<exists>c. TKIP_GTK_KEY_WRAP True key iv gtk out = Some c \<and> length c = length gtk \<and>
    TKIP_GTK_KEY_UNWRAP True key iv c out' = Some gtk"
proof -
  have "ARC4_INIT (take 16 iv @ take 16 key) 32 \<noteq> None"
    using assms by (simp add: ARC4_INIT_def ARC4_KEY_BLOCK_SIZE_def)
  then show ?thesis
    by (auto simp: TKIP_GTK_KEY_UNWRAP_def TKIP_GTK_KEY_WRAP_def LEN_KEY_DESC_IV_def LEN_PTK_KEK_def)
qed

end
