(* ===== verification/HashCtx.thy ===== *)
theory HashCtx
  imports WifiPrelude
begin

text \<open>The part the three hash functions of common/crypt_sha2.c and common/crypt_md5.c share: the
  context structure, the absorption of a message into the 64-byte block, and the padding at the end.
  The three copies of the code differ in the block function, in the byte order of the length and of
  the digest; these are arguments here. A copy outside the block is \<open>None\<close>.\<close>

section \<open>The context\<close>

record hash_ctx =
  HashValue :: "32 word list"
  hc_MessageLen :: "64 word"
  hc_Block :: "byte list"
  hc_BlockLen :: nat

definition UINT_add :: "nat \<Rightarrow> nat \<Rightarrow> nat" where "UINT_add x y = (x + y) mod 2 ^ 32"

definition ROTL32 :: "32 word \<Rightarrow> nat \<Rightarrow> 32 word" where
  "ROTL32 x n = (push_bit n x OR drop_bit (32 - n) x)"

definition ROTR32 :: "32 word \<Rightarrow> nat \<Rightarrow> 32 word" where
  "ROTR32 x n = (drop_bit n x OR push_bit (32 - n) x)"

text \<open>Words from and to memory, in both byte orders.\<close>

definition le32 :: "byte list \<Rightarrow> 32 word" where
  "le32 b = (ucast (b ! 0) OR push_bit 8 (ucast (b ! 1)) OR push_bit 16 (ucast (b ! 2)) OR push_bit 24 (ucast (b ! 3)))"

definition put_le32 :: "32 word \<Rightarrow> byte list" where
  "put_le32 w = map (\<lambda>k. ucast (drop_bit (8 * k) w)) [0, 1, 2, 3]"

definition be32 :: "byte list \<Rightarrow> 32 word" where
  "be32 b = (push_bit 24 (ucast (b ! 0)) OR push_bit 16 (ucast (b ! 1)) OR push_bit 8 (ucast (b ! 2)) OR ucast (b ! 3))"

definition put_be32 :: "32 word \<Rightarrow> byte list" where
  "put_be32 w = map (\<lambda>k. ucast (drop_bit (8 * k) w)) [3, 2, 1, 0]"

definition put_be64 :: "64 word \<Rightarrow> byte list" where
  "put_be64 w = map (\<lambda>k. ucast (drop_bit (8 * k) w)) [7, 6, 5, 4, 3, 2, 1, 0]"

definition put_le64 :: "64 word \<Rightarrow> byte list" where
  "put_le64 w = map (\<lambda>k. ucast (drop_bit (8 * k) w)) [0, 1, 2, 3, 4, 5, 6, 7]"

text \<open>The sixteen words of a block.\<close>

definition block_words :: "(byte list \<Rightarrow> 32 word) \<Rightarrow> byte list \<Rightarrow> 32 word list" where
  "block_words ld B = map (\<lambda>i. ld (drop (4 * i) B)) [0..<16]"

section \<open>Init, Append and End\<close>

definition hash_init :: "32 word list \<Rightarrow> hash_ctx" where
  "hash_init H0 = \<lparr>HashValue = H0, hc_MessageLen = 0, hc_Block = replicate 64 0, hc_BlockLen = 0\<rparr>"

definition hash_block :: "(32 word list \<Rightarrow> byte list \<Rightarrow> 32 word list) \<Rightarrow> hash_ctx \<Rightarrow> hash_ctx" where
  "hash_block compress c = c\<lparr>HashValue := compress (HashValue c) (hc_Block c), hc_Block := replicate 64 0,
     hc_BlockLen := 0\<rparr>"

definition put_bytes :: "byte list \<Rightarrow> nat \<Rightarrow> byte list \<Rightarrow> byte list option" where
  "put_bytes b off src =
    (if off + length src \<le> length b then Some (take off b @ src @ drop (off + length src) b) else None)"

partial_function (option) append_loop :: "(hash_ctx \<Rightarrow> hash_ctx) \<Rightarrow> hash_ctx \<Rightarrow> byte list \<Rightarrow> hash_ctx option" where
  "append_loop Hash c msg =
    (if msg = [] then Some c
     else if UINT_add (hc_BlockLen c) (length msg) < 64
     then (case put_bytes (hc_Block c) (hc_BlockLen c) msg of
             None \<Rightarrow> None
           | Some b \<Rightarrow> append_loop Hash (c\<lparr>hc_Block := b, hc_BlockLen := UINT_add (hc_BlockLen c) (length msg)\<rparr>) [])
     else (case put_bytes (hc_Block c) (hc_BlockLen c) (take (64 - hc_BlockLen c) msg) of
             None \<Rightarrow> None
           | Some b \<Rightarrow> append_loop Hash (Hash (c\<lparr>hc_Block := b, hc_BlockLen := 64\<rparr>)) (drop (64 - hc_BlockLen c) msg)))"

definition ctx_append :: "(hash_ctx \<Rightarrow> hash_ctx) \<Rightarrow> hash_ctx \<Rightarrow> byte list \<Rightarrow> hash_ctx option" where
  "ctx_append Hash c Message =
    map_option (\<lambda>c'. c'\<lparr>hc_MessageLen := hc_MessageLen c' + of_nat (length Message)\<rparr>) (append_loop Hash c Message)"

text \<open>The digest; the context is not used again after it.\<close>

definition hash_end ::
  "(hash_ctx \<Rightarrow> hash_ctx) \<Rightarrow> (64 word \<Rightarrow> byte list) \<Rightarrow> (32 word \<Rightarrow> byte list) \<Rightarrow> hash_ctx \<Rightarrow> byte list option" where
  "hash_end Hash put64 put32 c =
    (case put_bytes (hc_Block c) (hc_BlockLen c) [0x80] of
       None \<Rightarrow> None
     | Some b \<Rightarrow>
       (let c1 = c\<lparr>hc_Block := b\<rparr>;
            c2 = (if hc_BlockLen c1 > 55 then Hash c1 else c1)
        in case put_bytes (hc_Block c2) 56 (put64 (hc_MessageLen c2 * 8)) of
             None \<Rightarrow> None
           | Some b2 \<Rightarrow> Some (concat (map put32 (HashValue (Hash (c2\<lparr>hc_Block := b2\<rparr>)))))))"

end
