(* ===== verification/Wep.thy ===== *)
theory Wep
  imports Arc4 HashCtx
begin

text \<open>The software WEP of common/cmm_wep.c: the checksum with its table, the set-up of the stream
  cipher, and the encryption and decryption of a frame. Accesses outside a buffer are \<open>None\<close>. The
  last component of a result counts the contexts that are still allocated at the return.\<close>

section \<open>The checksum\<close>

definition FCSTAB_32 :: "32 word list" where
  "FCSTAB_32 = [
     0x00000000, 0x77073096, 0xee0e612c, 0x990951ba, 0x076dc419, 0x706af48f, 0xe963a535, 0x9e6495a3,
     0x0edb8832, 0x79dcb8a4, 0xe0d5e91e, 0x97d2d988, 0x09b64c2b, 0x7eb17cbd, 0xe7b82d07, 0x90bf1d91,
     0x1db71064, 0x6ab020f2, 0xf3b97148, 0x84be41de, 0x1adad47d, 0x6ddde4eb, 0xf4d4b551, 0x83d385c7,
     0x136c9856, 0x646ba8c0, 0xfd62f97a, 0x8a65c9ec, 0x14015c4f, 0x63066cd9, 0xfa0f3d63, 0x8d080df5,
     0x3b6e20c8, 0x4c69105e, 0xd56041e4, 0xa2677172, 0x3c03e4d1, 0x4b04d447, 0xd20d85fd, 0xa50ab56b,
     0x35b5a8fa, 0x42b2986c, 0xdbbbc9d6, 0xacbcf940, 0x32d86ce3, 0x45df5c75, 0xdcd60dcf, 0xabd13d59,
     0x26d930ac, 0x51de003a, 0xc8d75180, 0xbfd06116, 0x21b4f4b5, 0x56b3c423, 0xcfba9599, 0xb8bda50f,
     0x2802b89e, 0x5f058808, 0xc60cd9b2, 0xb10be924, 0x2f6f7c87, 0x58684c11, 0xc1611dab, 0xb6662d3d,
     0x76dc4190, 0x01db7106, 0x98d220bc, 0xefd5102a, 0x71b18589, 0x06b6b51f, 0x9fbfe4a5, 0xe8b8d433,
     0x7807c9a2, 0x0f00f934, 0x9609a88e, 0xe10e9818, 0x7f6a0dbb, 0x086d3d2d, 0x91646c97, 0xe6635c01,
     0x6b6b51f4, 0x1c6c6162, 0x856530d8, 0xf262004e, 0x6c0695ed, 0x1b01a57b, 0x8208f4c1, 0xf50fc457,
     0x65b0d9c6, 0x12b7e950, 0x8bbeb8ea, 0xfcb9887c, 0x62dd1ddf, 0x15da2d49, 0x8cd37cf3, 0xfbd44c65,
     0x4db26158, 0x3ab551ce, 0xa3bc0074, 0xd4bb30e2, 0x4adfa541, 0x3dd895d7, 0xa4d1c46d, 0xd3d6f4fb,
     0x4369e96a, 0x346ed9fc, 0xad678846, 0xda60b8d0, 0x44042d73, 0x33031de5, 0xaa0a4c5f, 0xdd0d7cc9,
     0x5005713c, 0x270241aa, 0xbe0b1010, 0xc90c2086, 0x5768b525, 0x206f85b3, 0xb966d409, 0xce61e49f,
     0x5edef90e, 0x29d9c998, 0xb0d09822, 0xc7d7a8b4, 0x59b33d17, 0x2eb40d81, 0xb7bd5c3b, 0xc0ba6cad,
     0xedb88320, 0x9abfb3b6, 0x03b6e20c, 0x74b1d29a, 0xead54739, 0x9dd277af, 0x04db2615, 0x73dc1683,
     0xe3630b12, 0x94643b84, 0x0d6d6a3e, 0x7a6a5aa8, 0xe40ecf0b, 0x9309ff9d, 0x0a00ae27, 0x7d079eb1,
     0xf00f9344, 0x8708a3d2, 0x1e01f268, 0x6906c2fe, 0xf762575d, 0x806567cb, 0x196c3671, 0x6e6b06e7,
     0xfed41b76, 0x89d32be0, 0x10da7a5a, 0x67dd4acc, 0xf9b9df6f, 0x8ebeeff9, 0x17b7be43, 0x60b08ed5,
     0xd6d6a3e8, 0xa1d1937e, 0x38d8c2c4, 0x4fdff252, 0xd1bb67f1, 0xa6bc5767, 0x3fb506dd, 0x48b2364b,
     0xd80d2bda, 0xaf0a1b4c, 0x36034af6, 0x41047a60, 0xdf60efc3, 0xa867df55, 0x316e8eef, 0x4669be79,
     0xcb61b38c, 0xbc66831a, 0x256fd2a0, 0x5268e236, 0xcc0c7795, 0xbb0b4703, 0x220216b9, 0x5505262f,
     0xc5ba3bbe, 0xb2bd0b28, 0x2bb45a92, 0x5cb36a04, 0xc2d7ffa7, 0xb5d0cf31, 0x2cd99e8b, 0x5bdeae1d,
     0x9b64c2b0, 0xec63f226, 0x756aa39c, 0x026d930a, 0x9c0906a9, 0xeb0e363f, 0x72076785, 0x05005713,
     0x95bf4a82, 0xe2b87a14, 0x7bb12bae, 0x0cb61b38, 0x92d28e9b, 0xe5d5be0d, 0x7cdcefb7, 0x0bdbdf21,
     0x86d3d2d4, 0xf1d4e242, 0x68ddb3f8, 0x1fda836e, 0x81be16cd, 0xf6b9265b, 0x6fb077e1, 0x18b74777,
     0x88085ae6, 0xff0f6a70, 0x66063bca, 0x11010b5c, 0x8f659eff, 0xf862ae69, 0x616bffd3, 0x166ccf45,
     0xa00ae278, 0xd70dd2ee, 0x4e048354, 0x3903b3c2, 0xa7672661, 0xd06016f7, 0x4969474d, 0x3e6e77db,
     0xaed16a4a, 0xd9d65adc, 0x40df0b66, 0x37d83bf0, 0xa9bcae53, 0xdebb9ec5, 0x47b2cf7f, 0x30b5ffe9,
     0xbdbdf21c, 0xcabac28a, 0x53b39330, 0x24b4a3a6, 0xbad03605, 0xcdd70693, 0x54de5729, 0x23d967bf,
     0xb3667a2e, 0xc4614ab8, 0x5d681b02, 0x2a6f2b94, 0xb40bbe37, 0xc30c8ea1, 0x5a05df1b, 0x2d02ef8d]"

definition PPPINITFCS32 :: "32 word" where "PPPINITFCS32 = 0xffffffff"

definition fcs_step :: "32 word \<Rightarrow> byte \<Rightarrow> 32 word" where
  "fcs_step Fcs c = (drop_bit 8 Fcs XOR FCSTAB_32 ! unat ((Fcs XOR ucast c) AND 0xff))"

definition RTMP_CALC_FCS32 :: "32 word \<Rightarrow> byte list \<Rightarrow> 32 word" where
  "RTMP_CALC_FCS32 Fcs Cp = foldl fcs_step Fcs Cp"

section \<open>WEP\<close>

definition LEN_WEP_IV_HDR :: nat where "LEN_WEP_IV_HDR = 4"
definition LEN_WEP_TSC :: nat where "LEN_WEP_TSC = 3"
definition LEN_ICV :: nat where "LEN_ICV = 4"

text \<open>The fields of \<open>CIPHER_KEY\<close> the software ciphers read.\<close>

record CIPHER_KEY =
  ck_Key :: "byte list"
  ck_TxMic :: "byte list"
  ck_RxMic :: "byte list"
  ck_KeyLen :: nat

text \<open>The memory a call gets: whether the context and the seed can be allocated, and what a new
  context contains.\<close>

record wep_mem =
  ctx_mem :: bool
  seed_mem :: bool
  old_ctx :: arc4_ctx

text \<open>The seed is a buffer of 16 bytes. Without memory for it the context stays as it was.\<close>

definition RTMPInitWepEngine :: "wep_mem \<Rightarrow> byte list \<Rightarrow> byte list \<Rightarrow> nat \<Rightarrow> arc4_ctx option" where
  "RTMPInitWepEngine w pIv pKey KeyLen =
    (if \<not> seed_mem w then Some (old_ctx w)
     else if length pIv < 3 \<or> length pKey < KeyLen then None
     else Option.bind (put_bytes (replicate 16 0) 0 (take 3 pIv)) (\<lambda>s.
          Option.bind (put_bytes s 3 (take KeyLen pKey)) (\<lambda>seed. ARC4_INIT seed (3 + KeyLen))))"

definition RTMPConstructWEPIVHdr :: "byte \<Rightarrow> byte list \<Rightarrow> byte list" where
  "RTMPConstructWEPIVHdr key_idx pn = take LEN_WEP_TSC pn @ [push_bit 6 key_idx]"

definition RTMPSoftEncryptWEP ::
  "wep_mem \<Rightarrow> byte list \<Rightarrow> CIPHER_KEY \<Rightarrow> byte list \<Rightarrow> nat \<Rightarrow> (bool \<times> byte list \<times> nat) option" where
  "RTMPSoftEncryptWEP w pIvHdr pKey pData DataByteCnt =
    (if \<not> ctx_mem w then Some (False, pData, 0)
     else if ck_KeyLen pKey = 0 then Some (False, pData, 1)
     else case RTMPInitWepEngine w pIvHdr (ck_Key pKey) (ck_KeyLen pKey) of
       None \<Rightarrow> None
     | Some ctx \<Rightarrow>
       (let FCSCRC32 = RTMP_CALC_FCS32 PPPINITFCS32 (take DataByteCnt pData) XOR 0xffffffff
        in case put_bytes pData DataByteCnt (put_le32 FCSCRC32) of
             None \<Rightarrow> None
           | Some d \<Rightarrow> Some (True,
               fst (ARC4_Compute ctx (take (DataByteCnt + LEN_ICV) d)) @ drop (DataByteCnt + LEN_ICV) d, 0)))"

text \<open>Subtraction of \<open>UINT16\<close>.\<close>

definition usub16 :: "nat \<Rightarrow> nat \<Rightarrow> nat" where "usub16 x y = nat ((int x - int y) mod 65536)"

definition RTMPSoftDecryptWEP ::
  "wep_mem \<Rightarrow> CIPHER_KEY \<Rightarrow> byte list \<Rightarrow> nat \<Rightarrow> (bool \<times> byte list \<times> nat \<times> nat) option" where
  "RTMPSoftDecryptWEP w pKey pData DataByteCnt =
    (if \<not> ctx_mem w then Some (False, pData, DataByteCnt, 0)
     else if ck_KeyLen pKey = 0 then Some (False, pData, DataByteCnt, 1)
     else case RTMPInitWepEngine w pData (ck_Key pKey) (ck_KeyLen pKey) of
       None \<Rightarrow> None
     | Some ctx \<Rightarrow>
       (let ciphertext_len = usub16 DataByteCnt LEN_WEP_IV_HDR in
        if length pData < LEN_WEP_IV_HDR + ciphertext_len then None
        else
          let pData' = fst (ARC4_Compute ctx (take ciphertext_len (drop LEN_WEP_IV_HDR pData))) @ drop ciphertext_len pData;
              plaintext_len = usub16 ciphertext_len LEN_ICV
          in if length pData' < plaintext_len + LEN_ICV then None
             else
               let trailfcs = le32 (drop plaintext_len pData');
                   crc32 = RTMP_CALC_FCS32 PPPINITFCS32 (take plaintext_len pData') XOR 0xffffffff
               in if crc32 \<noteq> trailfcs then Some (False, pData', DataByteCnt, 1)
                  else Some (True, pData', plaintext_len, 0)))"

section \<open>The checksum is the division by the CRC polynomial\<close>

text \<open>One bit of the reflected CRC-32, and one byte of it.\<close>

definition crc_bit :: "32 word \<Rightarrow> 32 word" where
  "crc_bit x = (if bit x 0 then drop_bit 1 x XOR 0xEDB88320 else drop_bit 1 x)"

definition crc_byte :: "32 word \<Rightarrow> 32 word" where "crc_byte x = (crc_bit ^^ 8) x"

definition crc32_bitwise :: "32 word \<Rightarrow> byte list \<Rightarrow> 32 word" where
  "crc32_bitwise Fcs Cp = foldl (\<lambda>x c. crc_byte (x XOR ucast c)) Fcs Cp"

lemma crc_bit_xor: "crc_bit (x XOR y) = crc_bit x XOR crc_bit y"
  by (simp add: crc_bit_def bit_xor_iff drop_bit_xor ac_simps)

lemma crc_pow_xor: "(crc_bit ^^ n) (x XOR y) = (crc_bit ^^ n) x XOR (crc_bit ^^ n) y"
  by (induction n) (simp_all add: crc_bit_xor)

lemma crc_byte_xor: "crc_byte (x XOR y) = crc_byte x XOR crc_byte y"
  by (simp add: crc_byte_def crc_pow_xor)

lemma crc_pow_shift: "(\<forall>k<n. \<not> bit x k) \<Longrightarrow> (crc_bit ^^ n) x = drop_bit n x"
proof (induction n)
  case (Suc n)
  then have e: "(crc_bit ^^ n) x = drop_bit n x" by simp
  have "\<not> bit (drop_bit n x) 0" using Suc.prems by (simp add: bit_drop_bit_eq)
  then have "crc_bit (drop_bit n x) = drop_bit (Suc n) x" by (simp add: crc_bit_def)
  then show ?case using e by simp
qed simp

text \<open>The table holds the byte steps of all bytes: each half of it is the other one combined with
  the entry of a power of two.\<close>

definition crc_tab :: "nat \<Rightarrow> 32 word list" where "crc_tab k = map (\<lambda>i. crc_byte (of_nat i)) [0..<2 ^ k]"

lemma crc_tab_Suc: "crc_tab (Suc k) = (let t = crc_tab k; b = crc_byte (of_nat (2 ^ k)) in t @ map (\<lambda>x. b XOR x) t)"
proof -
  have x: "crc_byte (of_nat (2 ^ k + i)) = crc_byte (of_nat (2 ^ k)) XOR crc_byte (of_nat i)" if "i < 2 ^ k" for i
  proof -
    have "\<not> bit i k" using that by (simp add: bit_nat_def)
    then have "2 ^ k AND i = 0" by (simp add: and_exp_eq_0_iff_not_bit and.commute)
    then have "2 ^ k + i = 2 ^ k XOR i" by (rule disjunctive_add_eq_xor)
    then show ?thesis by (simp only: of_nat_xor_eq crc_byte_xor)
  qed
  have "[0..<2 ^ Suc k] = [0..<2 ^ k] @ map (\<lambda>i. 2 ^ k + i) [0..<2 ^ k]"
    using upt_add_eq_append[of 0 "2 ^ k" "2 ^ k"] by (simp add: map_add_upt mult_2 add.commute)
  then have "crc_tab (Suc k) = crc_tab k @ map (\<lambda>i. crc_byte (of_nat (2 ^ k + i))) [0..<2 ^ k]"
    by (simp only: crc_tab_def map_append map_map o_def)
  also have "map (\<lambda>i. crc_byte (of_nat (2 ^ k + i))) [0..<2 ^ k] = map (\<lambda>x. crc_byte (of_nat (2 ^ k)) XOR x) (crc_tab k)"
    unfolding crc_tab_def map_map o_def by (rule map_cong[OF refl]) (simp only: set_upt atLeastLessThan_iff x)
  finally show ?thesis by (simp only: Let_def)
qed

lemma crc_byte_unfold: "crc_byte x = crc_bit (crc_bit (crc_bit (crc_bit (crc_bit (crc_bit (crc_bit (crc_bit x)))))))"
  by (simp add: crc_byte_def numeral_eq_Suc)

lemma crc_byte_powers:
  "crc_byte 1 = FCSTAB_32 ! 1" "crc_byte 2 = FCSTAB_32 ! 2" "crc_byte 4 = FCSTAB_32 ! 4" "crc_byte 8 = FCSTAB_32 ! 8"
  "crc_byte 16 = FCSTAB_32 ! 16" "crc_byte 32 = FCSTAB_32 ! 32" "crc_byte 64 = FCSTAB_32 ! 64" "crc_byte 128 = FCSTAB_32 ! 128"
  by (simp_all add: crc_byte_unfold crc_bit_def FCSTAB_32_def)

lemma crc_tab_0: "crc_tab 0 = [0]"
  by (simp add: crc_tab_def crc_byte_unfold crc_bit_def)

lemmas crc_powers = crc_byte_powers[unfolded FCSTAB_32_def, simplified]

lemma crc_tabs:
  "crc_tab 1 = take 2 FCSTAB_32" "crc_tab 2 = take 4 FCSTAB_32" "crc_tab 3 = take 8 FCSTAB_32" "crc_tab 4 = take 16 FCSTAB_32"
proof -
  show t1: "crc_tab 1 = take 2 FCSTAB_32" using crc_tab_Suc[of 0] by (simp add: crc_tab_0 crc_powers FCSTAB_32_def)
  show t2: "crc_tab 2 = take 4 FCSTAB_32" using crc_tab_Suc[of 1] unfolding t1 by (simp add: crc_powers FCSTAB_32_def numeral_2_eq_2)
  show t3: "crc_tab 3 = take 8 FCSTAB_32" using crc_tab_Suc[of 2] unfolding t2 by (simp add: crc_powers FCSTAB_32_def)
  show t4: "crc_tab 4 = take 16 FCSTAB_32" using crc_tab_Suc[of 3] unfolding t3 by (simp add: crc_powers FCSTAB_32_def)
qed

lemma crc_tabs_high:
  "crc_tab 5 = take 32 FCSTAB_32" "crc_tab 6 = take 64 FCSTAB_32" "crc_tab 7 = take 128 FCSTAB_32" "crc_tab 8 = FCSTAB_32"
proof -
  show t5: "crc_tab 5 = take 32 FCSTAB_32" using crc_tab_Suc[of 4] unfolding crc_tabs by (simp add: crc_powers FCSTAB_32_def)
  show t6: "crc_tab 6 = take 64 FCSTAB_32" using crc_tab_Suc[of 5] unfolding t5 by (simp add: crc_powers FCSTAB_32_def)
  show t7: "crc_tab 7 = take 128 FCSTAB_32" using crc_tab_Suc[of 6] unfolding t6 by (simp add: crc_powers FCSTAB_32_def)
  show "crc_tab 8 = FCSTAB_32" using crc_tab_Suc[of 7] unfolding t7 by (simp add: crc_powers FCSTAB_32_def)
qed

lemma table_entry:
  assumes "i < 256"
  shows "FCSTAB_32 ! i = crc_byte (of_nat i)"
proof -
  have "(2 :: nat) ^ 8 = 256" by simp
  then have "FCSTAB_32 = map (\<lambda>i. crc_byte (of_nat i)) [0..<256]"
    using crc_tabs_high(4) by (simp only: crc_tab_def)
  then have "FCSTAB_32 ! i = map (\<lambda>i. crc_byte (of_nat i)) [0..<256] ! i" by (rule arg_cong)
  also have "\<dots> = crc_byte (of_nat i)" using assms by (simp only: nth_map length_upt diff_zero nth_upt add_0)
  finally show ?thesis .
qed

text \<open>The low byte goes through the table, the other bits are shifted.\<close>

lemma fcs_step_crc: "fcs_step x c = crc_byte (x XOR ucast c)"
proof -
  let ?y = "x XOR ucast c"
  let ?lo = "?y AND 0xff" and ?hi = "?y AND NOT 0xff"
  have split: "?y = ?hi XOR ?lo" by (rule bit_word_eqI) (auto simp: bit_simps)
  have lo: "unat ?lo < 256"
  proof -
    have "?lo \<le> 0xff" by (rule word_and_le1)
    then show ?thesis by (simp add: word_le_nat_alt)
  qed
  have m: "(0xff :: 32 word) = mask 8" by (simp add: mask_eq_exp_minus_1)
  have "\<not> bit ?hi k" if "k < 8" for k using that unfolding m by (simp add: bit_and_iff bit_not_iff bit_mask_iff)
  then have "crc_byte ?hi = drop_bit 8 ?hi" unfolding crc_byte_def by (intro crc_pow_shift) blast
  also have "\<dots> = drop_bit 8 x"
    unfolding m by (rule bit_word_eqI) (auto simp: bit_drop_bit_eq bit_and_iff bit_or_iff bit_xor_iff bit_not_iff bit_mask_iff bit_ucast_iff dest: bit_imp_le_length)
  finally have "crc_byte ?hi = drop_bit 8 x" .
  then have "crc_byte ?y = drop_bit 8 x XOR crc_byte ?lo" using split crc_byte_xor by metis
  then show ?thesis using table_entry[OF lo] by (simp add: fcs_step_def)
qed

lemma FCS32_crc: "RTMP_CALC_FCS32 f xs = crc32_bitwise f xs"
proof -
  have "fcs_step = (\<lambda>x c. crc_byte (x XOR ucast c))" by (simp add: fun_eq_iff fcs_step_crc)
  then show ?thesis unfolding RTMP_CALC_FCS32_def crc32_bitwise_def by (rule arg_cong)
qed

section \<open>Round trip\<close>

lemma le32_put: "le32 (put_le32 w @ xs) = w"
proof (rule bit_word_eqI)
  fix n :: nat
  assume n: "n < LENGTH(32)"
  consider "n < 8" | "8 \<le> n" "n < 16" | "16 \<le> n" "n < 24" | "24 \<le> n" "n < 32" using n by fastforce
  then show "bit (le32 (put_le32 w @ xs)) n = bit w n"
    by cases (auto simp: le32_def put_le32_def bit_simps)
qed

lemma put_le32_length [simp]: "length (put_le32 w) = 4" by (simp add: put_le32_def)

lemma InitWep_works:
  assumes "seed_mem w" "3 \<le> length iv" "k \<le> 13" "k \<le> length key"
  shows "\<exists>c. RTMPInitWepEngine w iv key k = Some c \<and>
    (\<forall>w' iv'. seed_mem w' \<longrightarrow> 3 \<le> length iv' \<longrightarrow> take 3 iv' = take 3 iv \<longrightarrow> RTMPInitWepEngine w' iv' key k = Some c)"
proof -
  let ?seed = "take 3 iv @ take k key @ replicate (13 - k) 0"
  have s: "put_bytes (replicate 16 0) 0 (take 3 iv) = Some (take 3 iv @ replicate 13 0)"
    using assms(2) by (simp add: put_bytes_def)
  have t: "put_bytes (take 3 iv @ replicate 13 0) 3 (take k key) = Some ?seed"
    using assms by (simp add: put_bytes_def)
  have "ARC4_INIT ?seed (3 + k) \<noteq> None" using assms by (simp add: ARC4_INIT_def)
  then obtain c where c: "ARC4_INIT ?seed (3 + k) = Some c" by blast
  have run: "RTMPInitWepEngine w' iv' key k = Some c" if "seed_mem w'" "3 \<le> length iv'" "take 3 iv' = take 3 iv" for w' iv'
    using that assms s t c by (simp add: RTMPInitWepEngine_def)
  then show ?thesis using assms by blast
qed

lemma EncryptWEP_runs:
  assumes "ctx_mem w" "seed_mem w" "3 \<le> length iv" "ck_KeyLen key \<noteq> 0" "ck_KeyLen key \<le> 13"
    "ck_KeyLen key \<le> length (ck_Key key)" "length pt + 4 \<le> length buf" "take (length pt) buf = pt"
  obtains c where "RTMPInitWepEngine w iv (ck_Key key) (ck_KeyLen key) = Some c"
    "RTMPSoftEncryptWEP w iv key buf (length pt) = Some (True,
       fst (ARC4_Compute c (pt @ put_le32 (RTMP_CALC_FCS32 PPPINITFCS32 pt XOR 0xffffffff))) @ drop (length pt + 4) buf, 0)"
proof -
  obtain c where c: "RTMPInitWepEngine w iv (ck_Key key) (ck_KeyLen key) = Some c"
    using InitWep_works[OF assms(2,3,5,6)] by blast
  let ?icv = "put_le32 (RTMP_CALC_FCS32 PPPINITFCS32 pt XOR 0xffffffff)"
  have d: "put_bytes buf (length pt) ?icv = Some (pt @ ?icv @ drop (length pt + 4) buf)"
    using assms(7,8) by (simp add: put_bytes_def)
  have "RTMPSoftEncryptWEP w iv key buf (length pt) = Some (True,
       fst (ARC4_Compute c (pt @ ?icv)) @ drop (length pt + 4) buf, 0)"
    using assms(1,4,8) c d by (simp add: RTMPSoftEncryptWEP_def Let_def LEN_ICV_def)
  then show thesis using that c by blast
qed

lemma DecryptWEP_restores:
  assumes "ctx_mem w" "ck_KeyLen key \<noteq> 0" "length hdr = 4" "length pt + 8 < 65536"
    "RTMPInitWepEngine w (hdr @ body @ tail) (ck_Key key) (ck_KeyLen key) = Some c"
    "body = fst (ARC4_Compute c (pt @ put_le32 (RTMP_CALC_FCS32 PPPINITFCS32 pt XOR 0xffffffff)))"
  shows "\<exists>buf. RTMPSoftDecryptWEP w key (hdr @ body @ tail) (length pt + 8) = Some (True, buf, length pt, 0) \<and>
    take (length pt) buf = pt"
proof -
  let ?icv = "put_le32 (RTMP_CALC_FCS32 PPPINITFCS32 pt XOR 0xffffffff)"
  have len: "length body = length pt + 4" using assms(6) by simp
  have u: "usub16 (length pt + 8) 4 = length pt + 4" "usub16 (length pt + 4) 4 = length pt"
    using assms(4) by (simp_all add: usub16_def)
  have "take (length pt + 4) (drop 4 (hdr @ body @ tail)) = body" using len assms(3) by simp
  then have dec: "fst (ARC4_Compute c (take (length pt + 4) (drop 4 (hdr @ body @ tail)))) = pt @ ?icv"
    using assms(6) by (metis Compute_twice)
  let ?buf = "(pt @ ?icv) @ drop (length pt + 4) (hdr @ body @ tail)"
  have "le32 (drop (length pt) ?buf) = RTMP_CALC_FCS32 PPPINITFCS32 pt XOR 0xffffffff"
    by (simp add: le32_put)
  moreover have "take (length pt) ?buf = pt" by simp
  ultimately have "RTMPSoftDecryptWEP w key (hdr @ body @ tail) (length pt + 8) = Some (True, ?buf, length pt, 0)"
    unfolding RTMPSoftDecryptWEP_def LEN_WEP_IV_HDR_def LEN_ICV_def Let_def u dec assms(5) option.case
    using assms(1-3) len by simp
  then show ?thesis by auto
qed

end
