(* ===== verification/Tkip.thy ===== *)
theory Tkip
  imports Wep
begin

text \<open>The software TKIP of common/cmm_tkip.c: the Michael message code, the two phases of the key
  mixing and the decryption of a frame. \<open>ULONG\<close> values are taken modulo 2^32, which is all the code
  uses of them.\<close>

section \<open>The Michael message code\<close>

record TKIP_KEY_INFO =
  nBytesInM :: nat
  tk_K0 :: "32 word"
  tk_K1 :: "32 word"
  tk_L :: "32 word"
  tk_R :: "32 word"
  tk_M :: "32 word"
  tk_MIC :: "byte list"

definition ROL32 :: "32 word \<Rightarrow> nat \<Rightarrow> 32 word" where
  "ROL32 A n = (push_bit n A OR (drop_bit (32 - n) A AND (push_bit n 1 - 1)))"

definition ROR32 :: "32 word \<Rightarrow> nat \<Rightarrow> 32 word" where "ROR32 A n = ROL32 A (32 - n)"

definition RTMPTkipGetUInt32 :: "byte list \<Rightarrow> 32 word" where
  "RTMPTkipGetUInt32 pMICKey = fold (\<lambda>i res. res OR push_bit (8 * i) (ucast (pMICKey ! i))) [0..<4] 0"

definition RTMPTkipPutUInt32 :: "32 word \<Rightarrow> byte list" where
  "RTMPTkipPutUInt32 val = map (\<lambda>i. ucast (drop_bit (8 * i) val AND 0xff)) [0..<4]"

definition RTMPTkipSetMICKey :: "TKIP_KEY_INFO \<Rightarrow> byte list \<Rightarrow> TKIP_KEY_INFO" where
  "RTMPTkipSetMICKey t pMICKey =
    (let k0 = RTMPTkipGetUInt32 pMICKey; k1 = RTMPTkipGetUInt32 (drop 4 pMICKey)
     in t\<lparr>tk_K0 := k0, tk_K1 := k1, tk_L := k0, tk_R := k1, nBytesInM := 0, tk_M := 0\<rparr>)"

definition michael_mix :: "32 word \<Rightarrow> 32 word \<Rightarrow> 32 word \<Rightarrow> 32 word \<times> 32 word" where
  "michael_mix L R M =
    (let L = L XOR M; R = R XOR ROL32 L 17; L = L + R;
         R = R XOR (drop_bit 8 (L AND 0xff00ff00) OR push_bit 8 (L AND 0x00ff00ff)); L = L + R;
         R = R XOR ROL32 L 3; L = L + R;
         R = R XOR ROR32 L 2; L = L + R
     in (L, R))"

definition RTMPTkipAppendByte :: "TKIP_KEY_INFO \<Rightarrow> byte \<Rightarrow> TKIP_KEY_INFO" where
  "RTMPTkipAppendByte t uChar =
    (let t1 = t\<lparr>tk_M := (tk_M t OR push_bit (8 * nBytesInM t) (ucast uChar)), nBytesInM := nBytesInM t + 1\<rparr>
     in if nBytesInM t1 \<ge> 4
        then (let (L, R) = michael_mix (tk_L t1) (tk_R t1) (tk_M t1)
              in t1\<lparr>tk_L := L, tk_R := R, tk_M := 0, nBytesInM := 0\<rparr>)
        else t1)"

definition RTMPTkipAppend :: "TKIP_KEY_INFO \<Rightarrow> byte list \<Rightarrow> TKIP_KEY_INFO" where
  "RTMPTkipAppend t pSrc = foldl RTMPTkipAppendByte t pSrc"

lemma AppendByte_count: "nBytesInM (RTMPTkipAppendByte t b) = (if nBytesInM t \<ge> 3 then 0 else nBytesInM t + 1)"
  by (simp add: RTMPTkipAppendByte_def Let_def split: prod.split)

text \<open>The loop that fills up the last word.\<close>

function mic_fill :: "TKIP_KEY_INFO \<Rightarrow> TKIP_KEY_INFO" where
  "mic_fill t = (if nBytesInM t \<noteq> 0 then mic_fill (RTMPTkipAppendByte t 0) else t)"
  by auto
termination
  by (relation "measure (\<lambda>t. if nBytesInM t = 0 then 0 else Suc (4 - nBytesInM t))") (auto simp: AppendByte_count)

declare mic_fill.simps [simp del]

definition RTMPTkipGetMIC :: "TKIP_KEY_INFO \<Rightarrow> TKIP_KEY_INFO" where
  "RTMPTkipGetMIC t =
    (let t1 = mic_fill (foldl RTMPTkipAppendByte t [0x5a, 0, 0, 0, 0])
     in t1\<lparr>tk_MIC := RTMPTkipPutUInt32 (tk_L t1) @ RTMPTkipPutUInt32 (tk_R t1)\<rparr>)"

text \<open>The destination, the source, the priority and three zero bytes go first.\<close>

definition RTMPInitMICEngine ::
  "TKIP_KEY_INFO \<Rightarrow> byte list \<Rightarrow> byte list \<Rightarrow> byte \<Rightarrow> byte list \<Rightarrow> TKIP_KEY_INFO" where
  "RTMPInitMICEngine t pDA pSA UserPriority pMICKey =
    RTMPTkipAppend (RTMPTkipAppend (RTMPTkipAppend (RTMPTkipSetMICKey t pMICKey) (take 6 pDA)) (take 6 pSA))
      [UserPriority, 0, 0, 0]"

definition RTMPTkipCompareMICValue ::
  "TKIP_KEY_INFO \<Rightarrow> byte list \<Rightarrow> byte list \<Rightarrow> byte list \<Rightarrow> byte list \<Rightarrow> byte \<Rightarrow> nat \<Rightarrow> (bool \<times> TKIP_KEY_INFO) option" where
  "RTMPTkipCompareMICValue t pSrc pDA pSA pMICKey UserPriority Len =
    (if length pSrc < Len + 8 then None
     else let t1 = RTMPTkipGetMIC (RTMPTkipAppend (RTMPInitMICEngine t pDA pSA UserPriority pMICKey) (take Len pSrc))
          in Some (tk_MIC t1 = take 8 (drop Len pSrc), t1))"

text \<open>The code of an Ethernet packet to be sent, in a station build. \<open>pEncap\<close> is the LLC encapsulation, if
  any; a packet shorter than its header makes \<open>SrcBufLen\<close> wrap.\<close>

definition RTMPCalculateMICValue ::
  "TKIP_KEY_INFO \<Rightarrow> byte list \<Rightarrow> byte \<Rightarrow> byte list option \<Rightarrow> CIPHER_KEY \<Rightarrow> TKIP_KEY_INFO option" where
  "RTMPCalculateMICValue Tx pSrc UserPriority pEncap pKey =
    (if length pSrc < 14 then None
     else
       let vlan_offset = (if 256 * unat (pSrc ! 12) + unat (pSrc ! 13) = 0x8100 then 4 else 0);
           t1 = RTMPInitMICEngine Tx pSrc (drop 6 pSrc) UserPriority (ck_TxMic pKey)
       in if length pSrc < 14 + vlan_offset \<or> (case pEncap of None \<Rightarrow> False | Some e \<Rightarrow> length e < 6) then None
          else
            let t2 = (case pEncap of None \<Rightarrow> t1
                        | Some e \<Rightarrow> RTMPTkipAppend (RTMPTkipAppend t1 (take 6 e)) (take 2 (drop (12 + vlan_offset) pSrc)))
            in Some (RTMPTkipGetMIC (RTMPTkipAppend t2 (drop (14 + vlan_offset) pSrc))))"

section \<open>The key mixing\<close>

definition Tkip_Sbox_Lower :: "32 word list" where
  "Tkip_Sbox_Lower = [
     0xA5, 0x84, 0x99, 0x8D, 0x0D, 0xBD, 0xB1, 0x54, 0x50, 0x03, 0xA9, 0x7D, 0x19, 0x62, 0xE6, 0x9A,
     0x45, 0x9D, 0x40, 0x87, 0x15, 0xEB, 0xC9, 0x0B, 0xEC, 0x67, 0xFD, 0xEA, 0xBF, 0xF7, 0x96, 0x5B,
     0xC2, 0x1C, 0xAE, 0x6A, 0x5A, 0x41, 0x02, 0x4F, 0x5C, 0xF4, 0x34, 0x08, 0x93, 0x73, 0x53, 0x3F,
     0x0C, 0x52, 0x65, 0x5E, 0x28, 0xA1, 0x0F, 0xB5, 0x09, 0x36, 0x9B, 0x3D, 0x26, 0x69, 0xCD, 0x9F,
     0x1B, 0x9E, 0x74, 0x2E, 0x2D, 0xB2, 0xEE, 0xFB, 0xF6, 0x4D, 0x61, 0xCE, 0x7B, 0x3E, 0x71, 0x97,
     0xF5, 0x68, 0x00, 0x2C, 0x60, 0x1F, 0xC8, 0xED, 0xBE, 0x46, 0xD9, 0x4B, 0xDE, 0xD4, 0xE8, 0x4A,
     0x6B, 0x2A, 0xE5, 0x16, 0xC5, 0xD7, 0x55, 0x94, 0xCF, 0x10, 0x06, 0x81, 0xF0, 0x44, 0xBA, 0xE3,
     0xF3, 0xFE, 0xC0, 0x8A, 0xAD, 0xBC, 0x48, 0x04, 0xDF, 0xC1, 0x75, 0x63, 0x30, 0x1A, 0x0E, 0x6D,
     0x4C, 0x14, 0x35, 0x2F, 0xE1, 0xA2, 0xCC, 0x39, 0x57, 0xF2, 0x82, 0x47, 0xAC, 0xE7, 0x2B, 0x95,
     0xA0, 0x98, 0xD1, 0x7F, 0x66, 0x7E, 0xAB, 0x83, 0xCA, 0x29, 0xD3, 0x3C, 0x79, 0xE2, 0x1D, 0x76,
     0x3B, 0x56, 0x4E, 0x1E, 0xDB, 0x0A, 0x6C, 0xE4, 0x5D, 0x6E, 0xEF, 0xA6, 0xA8, 0xA4, 0x37, 0x8B,
     0x32, 0x43, 0x59, 0xB7, 0x8C, 0x64, 0xD2, 0xE0, 0xB4, 0xFA, 0x07, 0x25, 0xAF, 0x8E, 0xE9, 0x18,
     0xD5, 0x88, 0x6F, 0x72, 0x24, 0xF1, 0xC7, 0x51, 0x23, 0x7C, 0x9C, 0x21, 0xDD, 0xDC, 0x86, 0x85,
     0x90, 0x42, 0xC4, 0xAA, 0xD8, 0x05, 0x01, 0x12, 0xA3, 0x5F, 0xF9, 0xD0, 0x91, 0x58, 0x27, 0xB9,
     0x38, 0x13, 0xB3, 0x33, 0xBB, 0x70, 0x89, 0xA7, 0xB6, 0x22, 0x92, 0x20, 0x49, 0xFF, 0x78, 0x7A,
     0x8F, 0xF8, 0x80, 0x17, 0xDA, 0x31, 0xC6, 0xB8, 0xC3, 0xB0, 0x77, 0x11, 0xCB, 0xFC, 0xD6, 0x3A]"

definition Tkip_Sbox_Upper :: "32 word list" where
  "Tkip_Sbox_Upper = [
     0xC6, 0xF8, 0xEE, 0xF6, 0xFF, 0xD6, 0xDE, 0x91, 0x60, 0x02, 0xCE, 0x56, 0xE7, 0xB5, 0x4D, 0xEC,
     0x8F, 0x1F, 0x89, 0xFA, 0xEF, 0xB2, 0x8E, 0xFB, 0x41, 0xB3, 0x5F, 0x45, 0x23, 0x53, 0xE4, 0x9B,
     0x75, 0xE1, 0x3D, 0x4C, 0x6C, 0x7E, 0xF5, 0x83, 0x68, 0x51, 0xD1, 0xF9, 0xE2, 0xAB, 0x62, 0x2A,
     0x08, 0x95, 0x46, 0x9D, 0x30, 0x37, 0x0A, 0x2F, 0x0E, 0x24, 0x1B, 0xDF, 0xCD, 0x4E, 0x7F, 0xEA,
     0x12, 0x1D, 0x58, 0x34, 0x36, 0xDC, 0xB4, 0x5B, 0xA4, 0x76, 0xB7, 0x7D, 0x52, 0xDD, 0x5E, 0x13,
     0xA6, 0xB9, 0x00, 0xC1, 0x40, 0xE3, 0x79, 0xB6, 0xD4, 0x8D, 0x67, 0x72, 0x94, 0x98, 0xB0, 0x85,
     0xBB, 0xC5, 0x4F, 0xED, 0x86, 0x9A, 0x66, 0x11, 0x8A, 0xE9, 0x04, 0xFE, 0xA0, 0x78, 0x25, 0x4B,
     0xA2, 0x5D, 0x80, 0x05, 0x3F, 0x21, 0x70, 0xF1, 0x63, 0x77, 0xAF, 0x42, 0x20, 0xE5, 0xFD, 0xBF,
     0x81, 0x18, 0x26, 0xC3, 0xBE, 0x35, 0x88, 0x2E, 0x93, 0x55, 0xFC, 0x7A, 0xC8, 0xBA, 0x32, 0xE6,
     0xC0, 0x19, 0x9E, 0xA3, 0x44, 0x54, 0x3B, 0x0B, 0x8C, 0xC7, 0x6B, 0x28, 0xA7, 0xBC, 0x16, 0xAD,
     0xDB, 0x64, 0x74, 0x14, 0x92, 0x0C, 0x48, 0xB8, 0x9F, 0xBD, 0x43, 0xC4, 0x39, 0x31, 0xD3, 0xF2,
     0xD5, 0x8B, 0x6E, 0xDA, 0x01, 0xB1, 0x9C, 0x49, 0xD8, 0xAC, 0xF3, 0xCF, 0xCA, 0xF4, 0x47, 0x10,
     0x6F, 0xF0, 0x4A, 0x5C, 0x38, 0x57, 0x73, 0x97, 0xCB, 0xA1, 0xE8, 0x3E, 0x96, 0x61, 0x0D, 0x0F,
     0xE0, 0x7C, 0x71, 0xCC, 0x90, 0x06, 0xF7, 0x1C, 0xC2, 0x6A, 0xAE, 0x69, 0x17, 0x99, 0x3A, 0x27,
     0xD9, 0xEB, 0x2B, 0x22, 0xD2, 0xA9, 0x07, 0x33, 0x2D, 0x3C, 0x15, 0xC9, 0x87, 0xAA, 0x50, 0xA5,
     0x03, 0x59, 0x09, 0x1A, 0x65, 0xD7, 0x84, 0xD0, 0x82, 0x29, 0x5A, 0x1E, 0x7B, 0xA8, 0x6D, 0x2C]"

definition tkip_sbox :: "32 word \<Rightarrow> 32 word" where
  "tkip_sbox index =
    (let index_low = unat (index mod 256); index_high = unat (drop_bit 8 index mod 256);
         left = Tkip_Sbox_Lower ! index_low + Tkip_Sbox_Upper ! index_low * 256;
         right = Tkip_Sbox_Upper ! index_high + Tkip_Sbox_Lower ! index_high * 256
     in left XOR right)"

definition rotr1 :: "32 word \<Rightarrow> 32 word" where
  "rotr1 a = (if a AND 1 = 1 then drop_bit 1 a OR 0x8000 else drop_bit 1 a AND 0x7fff) mod 65536"

text \<open>Two key bytes as a number: \<open>(256*key[i+1]) + key[i]\<close>.\<close>

definition key16 :: "byte list \<Rightarrow> nat \<Rightarrow> 32 word" where
  "key16 key i = 256 * ucast (key ! (i + 1)) + ucast (key ! i)"

type_synonym p1k_t = "32 word \<times> 32 word \<times> 32 word \<times> 32 word \<times> 32 word"

fun phase1_turn :: "byte list \<Rightarrow> nat \<Rightarrow> p1k_t \<Rightarrow> p1k_t" where
  "phase1_turn key i (p0, p1, p2, p3, p4) =
    (let j = 2 * (i mod 2);
         p0 = (p0 + tkip_sbox ((p4 XOR key16 key j) mod 65536)) mod 65536;
         p1 = (p1 + tkip_sbox ((p0 XOR key16 key (4 + j)) mod 65536)) mod 65536;
         p2 = (p2 + tkip_sbox ((p1 XOR key16 key (8 + j)) mod 65536)) mod 65536;
         p3 = (p3 + tkip_sbox ((p2 XOR key16 key (12 + j)) mod 65536)) mod 65536;
         p4 = (p4 + tkip_sbox ((p3 XOR key16 key j) mod 65536)) mod 65536;
         p4 = (p4 + of_nat i) mod 65536
     in (p0, p1, p2, p3, p4))"

definition phase1 :: "byte list \<Rightarrow> byte list \<Rightarrow> 32 word \<Rightarrow> p1k_t" where
  "phase1 key ta pnh =
    (let tsc0 = drop_bit 16 pnh mod 65536; tsc1 = pnh mod 65536
     in fold (phase1_turn key) [0..<8]
          (tsc1, tsc0, ucast (ta ! 0) + ucast (ta ! 1) * 256, ucast (ta ! 2) + ucast (ta ! 3) * 256,
           ucast (ta ! 4) + ucast (ta ! 5) * 256))"

definition byte_of :: "32 word \<Rightarrow> byte" where "byte_of w = ucast (w mod 256)"

text \<open>The RC4 key; \<open>p1k\<close> is returned too.\<close>

definition RTMPTkipMixKey :: "byte list \<Rightarrow> byte list \<Rightarrow> 32 word \<Rightarrow> 32 word \<Rightarrow> byte list \<times> p1k_t" where
  "RTMPTkipMixKey key ta pnl pnh =
    (let (p0, p1, p2, p3, p4) = phase1 key ta pnh;
         tsc2 = pnl mod 65536;
         ppk5 = (p4 + tsc2) mod 65536;
         ppk0 = p0 + tkip_sbox ((ppk5 XOR key16 key 0) mod 65536);
         ppk1 = p1 + tkip_sbox ((ppk0 XOR key16 key 2) mod 65536);
         ppk2 = p2 + tkip_sbox ((ppk1 XOR key16 key 4) mod 65536);
         ppk3 = p3 + tkip_sbox ((ppk2 XOR key16 key 6) mod 65536);
         ppk4 = p4 + tkip_sbox ((ppk3 XOR key16 key 8) mod 65536);
         ppk5 = ppk5 + tkip_sbox ((ppk4 XOR key16 key 10) mod 65536);
         ppk0 = ppk0 + rotr1 (ppk5 XOR key16 key 12);
         ppk1 = ppk1 + rotr1 (ppk0 XOR key16 key 14);
         ppk2 = ppk2 + rotr1 ppk1;
         ppk3 = ppk3 + rotr1 ppk2;
         ppk4 = ppk4 + rotr1 ppk3;
         ppk5 = ppk5 + rotr1 ppk4;
         rc4key = [byte_of (drop_bit 8 tsc2), (byte_of (drop_bit 8 tsc2) OR 0x20) AND 0x7f, byte_of tsc2,
           byte_of (drop_bit 1 (ppk5 XOR key16 key 0)),
           byte_of ppk0, byte_of (drop_bit 8 ppk0), byte_of ppk1, byte_of (drop_bit 8 ppk1),
           byte_of ppk2, byte_of (drop_bit 8 ppk2), byte_of ppk3, byte_of (drop_bit 8 ppk3),
           byte_of ppk4, byte_of (drop_bit 8 ppk4), byte_of ppk5, byte_of (drop_bit 8 ppk5)]
     in (rc4key, (p0, p1, p2, p3, p4)))"

section \<open>Decryption of a frame\<close>

definition LEN_TKIP_IV_HDR :: nat where "LEN_TKIP_IV_HDR = 8"
definition LEN_TKIP_MIC :: nat where "LEN_TKIP_MIC = 8"

definition hdr_addr :: "byte list \<Rightarrow> nat \<Rightarrow> byte list" where "hdr_addr pHdr off = take 6 (drop off pHdr)"

text \<open>The destination, the source and the transmitter, by the two DS bits.\<close>

definition tkip_addresses :: "byte list \<Rightarrow> byte list \<times> byte list \<times> byte list" where
  "tkip_addresses pHdr =
    (let from_ds = bit (pHdr ! 1) 1; to_ds = bit (pHdr ! 1) 0;
         A1 = hdr_addr pHdr 4; A2 = hdr_addr pHdr 10; A3 = hdr_addr pHdr 16
     in if \<not> to_ds \<and> from_ds then (A1, A3, A2)
        else if \<not> to_ds \<and> \<not> from_ds then (A1, A2, A2)
        else if to_ds \<and> \<not> from_ds then (A3, A2, A2)
        else (A3, hdr_addr pHdr 24, A2))"

text \<open>The verdict, the buffer and its length, and whether a MIC error was reported.\<close>

definition RTMPSoftDecryptTKIP ::
  "TKIP_KEY_INFO \<Rightarrow> byte list \<Rightarrow> byte \<Rightarrow> CIPHER_KEY \<Rightarrow> byte list \<Rightarrow> nat \<Rightarrow> (bool \<times> byte list \<times> nat \<times> bool) option" where
  "RTMPSoftDecryptTKIP t pHdr UserPriority pKey pData DataByteCnt =
    (if ck_KeyLen pKey = 0 then Some (False, pData, DataByteCnt, False)
     else
       let (DA, SA, TA) = tkip_addresses pHdr;
           ciphertext_len = usub DataByteCnt LEN_TKIP_IV_HDR
       in if length pHdr < (if bit (pHdr ! 1) 0 \<and> bit (pHdr ! 1) 1 then 30 else 24) \<or> length pData < LEN_TKIP_IV_HDR + ciphertext_len then None
          else
            let pnl = push_bit 8 (ucast (pData ! 0)) OR ucast (pData ! 2);
                pnh = le32 (drop 4 pData);
                RC4Key = fst (RTMPTkipMixKey (ck_Key pKey) TA pnl pnh)
            in case ARC4_INIT RC4Key 16 of
                 None \<Rightarrow> None
               | Some ctx \<Rightarrow>
                 (let buf = fst (ARC4_Compute ctx (take ciphertext_len (drop LEN_TKIP_IV_HDR pData))) @ drop ciphertext_len pData;
                      plaintext_len = usub ciphertext_len LEN_ICV
                  in if length buf < plaintext_len + LEN_ICV then None
                     else if RTMP_CALC_FCS32 PPPINITFCS32 (take plaintext_len buf) XOR 0xffffffff \<noteq> le32 (drop plaintext_len buf)
                     then Some (False, buf, DataByteCnt, False)
                     else
                       let len2 = usub plaintext_len LEN_TKIP_MIC
                       in if length buf < len2 + LEN_TKIP_MIC then None
                          else
                            let t1 = RTMPTkipGetMIC (RTMPTkipAppend (RTMPInitMICEngine t DA SA UserPriority (ck_RxMic pKey)) (take len2 buf))
                            in if tk_MIC t1 \<noteq> take LEN_TKIP_MIC (drop len2 buf) then Some (False, buf, DataByteCnt, True)
                               else Some (True, buf, len2, False)))"

end
