(* ===== verification/TkipSpec.thy ===== *)
theory TkipSpec
  imports Tkip
begin

text \<open>Michael as a fold over the words of the padded message, the key mixing in 16-bit words as
  IEEE 802.11 has it, and the frames the decryption accepts.\<close>

section \<open>Michael\<close>

fun mic_words :: "byte list \<Rightarrow> 32 word list" where
  "mic_words (a # b # c # d # xs) = le32 [a, b, c, d] # mic_words xs"
| "mic_words _ = []"

definition mic_pad :: "byte list \<Rightarrow> byte list" where
  "mic_pad m = m @ [0x5a, 0, 0, 0, 0] @ replicate ((4 - (length m + 5) mod 4) mod 4) 0"

definition michael_block :: "32 word \<times> 32 word \<Rightarrow> 32 word \<Rightarrow> 32 word \<times> 32 word" where
  "michael_block = (\<lambda>(l, r) w.
    let l = l XOR w; r = r XOR word_rotl 17 l; l = l + r;
        r = r XOR (push_bit 8 (l AND 0x00ff00ff) OR drop_bit 8 (l AND 0xff00ff00)); l = l + r;
        r = r XOR word_rotl 3 l; l = l + r;
        r = r XOR word_rotr 2 l; l = l + r
    in (l, r))"

definition michael :: "byte list \<Rightarrow> byte list \<Rightarrow> byte list" where
  "michael key m =
    (let (l, r) = foldl michael_block (le32 key, le32 (drop 4 key)) (mic_words (mic_pad m)) in put_le32 l @ put_le32 r)"

lemma ROL32_rotl: "0 < n \<Longrightarrow> n < 32 \<Longrightarrow> ROL32 x n = word_rotl n x"
proof (rule bit_word_eqI)
  fix k :: nat
  assume n: "0 < n" "n < 32" and k: "k < LENGTH(32)"
  have m: "push_bit n 1 - 1 = (mask n :: 32 word)" by (simp add: mask_eq_exp_minus_1 push_bit_eq_mult)
  have idx: "(k + 32 - n) mod 32 = (if k < n then k + 32 - n else k - n)"
  proof (cases "k < n")
    case False
    then have "k + 32 - n = 32 + (k - n)" by simp
    then have "(k + 32 - n) mod 32 = (k - n) mod 32" by (simp only: mod_add_self1)
    then show ?thesis using False k by simp
  qed (use n in simp)
  have "bit (word_rotl n x) k = bit x ((k + 32 - n) mod 32)"
    using n k by (simp add: bit_word_rotl_iff)
  moreover have "bit (ROL32 x n) k = bit x (if k < n then k + 32 - n else k - n)"
    using n k unfolding ROL32_def m add.commute[of k 32] by (auto simp: bit_simps dest: bit_imp_le_length)
  ultimately show "bit (ROL32 x n) k = bit (word_rotl n x) k" unfolding idx by simp
qed

lemma ROR32_rotr: "ROR32 x 2 = word_rotr 2 x"
  by (simp add: ROR32_def ROL32_rotl word_rotl_eq_word_rotr)

lemma mix_block: "michael_mix L R M = michael_block (L, R) M"
  by (simp add: michael_mix_def michael_block_def ROL32_rotl ROR32_rotr or.commute)

lemma GetUInt32_le32: "RTMPTkipGetUInt32 p = le32 p"
  by (simp add: RTMPTkipGetUInt32_def le32_def numeral_eq_Suc or.assoc)

lemma PutUInt32_le32: "RTMPTkipPutUInt32 v = put_le32 v"
proof -
  have "ucast (w AND 0xff) = (ucast w :: byte)" for w :: "32 word"
  proof (rule bit_word_eqI)
    fix n :: nat
    assume "n < LENGTH(8)"
    moreover have "(0xff :: 32 word) = mask 8" by (simp add: mask_eq_exp_minus_1)
    ultimately show "bit (ucast (w AND 0xff) :: byte) n = bit (ucast w :: byte) n"
      by (simp only: bit_simps) simp
  qed
  then show ?thesis by (simp add: RTMPTkipPutUInt32_def put_le32_def numeral_eq_Suc)
qed

text \<open>The state after the bytes \<open>xs\<close>: the full words are mixed in, the rest is in \<open>M\<close>.\<close>

definition mic_state :: "TKIP_KEY_INFO \<Rightarrow> 32 word \<times> 32 word \<Rightarrow> byte list \<Rightarrow> bool" where
  "mic_state t s r \<longleftrightarrow> (tk_L t, tk_R t) = s \<and> nBytesInM t = length r \<and>
    (r = [] \<and> tk_M t = 0 \<or>
     (\<exists>a. r = [a] \<and> tk_M t = ucast a) \<or>
     (\<exists>a b. r = [a, b] \<and> tk_M t = (ucast a OR push_bit 8 (ucast b))) \<or>
     (\<exists>a b c. r = [a, b, c] \<and> tk_M t = (ucast a OR push_bit 8 (ucast b) OR push_bit 16 (ucast c))))"

lemma AppendByte_state:
  assumes "mic_state t s r"
  shows "\<exists>s' r'. mic_state (RTMPTkipAppendByte t x) s' r' \<and>
    (if length r = 3 then s' = michael_block s (le32 (r @ [x])) \<and> r' = [] else s' = s \<and> r' = r @ [x])"
proof -
  consider "r = []" | a where "r = [a]" | a b where "r = [a, b]" | a b c where "r = [a, b, c]"
    using assms unfolding mic_state_def by blast
  then show ?thesis
  proof cases
    case (4 a b c)
    obtain L R where LR: "michael_block s (le32 [a, b, c, x]) = (L, R)" by (cases "michael_block s (le32 [a, b, c, x])")
    then show ?thesis
      using assms 4 by (auto simp: mic_state_def RTMPTkipAppendByte_def Let_def mix_block le32_def or.assoc)
  qed (use assms in \<open>auto simp: mic_state_def RTMPTkipAppendByte_def Let_def or.assoc\<close>)
qed

text \<open>Absorbing \<open>xs\<close> after the rest \<open>r\<close>.\<close>

fun mic_rest :: "byte list \<Rightarrow> byte list" where
  "mic_rest (a # b # c # d # xs) = mic_rest xs"
| "mic_rest xs = xs"

lemma Append_state:
  "mic_state t s r \<Longrightarrow> mic_state (foldl RTMPTkipAppendByte t xs) (foldl michael_block s (mic_words (r @ xs))) (mic_rest (r @ xs))"
proof (induction xs arbitrary: t s r)
  case Nil
  have "length r < 4" using Nil by (auto simp: mic_state_def)
  then have "mic_words r = []" "mic_rest r = r" by (cases r rule: mic_rest.cases; simp)+
  then show ?case using Nil by simp
next
  case (Cons x xs)
  obtain s' r' where sr: "mic_state (RTMPTkipAppendByte t x) s' r'"
    "if length r = 3 then s' = michael_block s (le32 (r @ [x])) \<and> r' = [] else s' = s \<and> r' = r @ [x]"
    using AppendByte_state[OF Cons.prems] by blast
  show ?case
  proof (cases "length r = 3")
    case True
    then obtain a b c where "r = [a, b, c]" by (auto simp: length_Suc_conv numeral_3_eq_3)
    then show ?thesis using Cons.IH[OF sr(1)] sr(2) by simp
  next
    case False
    then show ?thesis using Cons.IH[OF sr(1)] sr(2) by simp
  qed
qed

lemma rest_length: "length (mic_rest xs) = length xs mod 4"
  by (induction xs rule: mic_rest.induct) auto

lemma mic_fill_zeros:
  "nBytesInM t < 4 \<Longrightarrow> mic_fill t = foldl RTMPTkipAppendByte t (replicate ((4 - nBytesInM t) mod 4) 0)"
proof (induction t rule: mic_fill.induct)
  case (1 t)
  show ?case
  proof (cases "nBytesInM t = 0")
    case True
    then show ?thesis by (simp add: mic_fill.simps)
  next
    case False
    let ?t = "RTMPTkipAppendByte t 0"
    have n: "nBytesInM t = 1 \<or> nBytesInM t = 2 \<or> nBytesInM t = 3" using False 1(2) by auto
    then have e: "(4 - nBytesInM t) mod 4 = Suc ((4 - nBytesInM ?t) mod 4)" "nBytesInM ?t < 4"
      by (auto simp: AppendByte_count)
    have "mic_fill t = mic_fill ?t" using False by (subst mic_fill.simps) simp
    also have "\<dots> = foldl RTMPTkipAppendByte ?t (replicate ((4 - nBytesInM ?t) mod 4) 0)" using 1(1)[OF False e(2)] .
    finally show ?thesis unfolding e(1) by simp
  qed
qed

lemma GetMIC_michael:
  assumes "mic_state t (le32 key, le32 (drop 4 key)) []"
  shows "tk_MIC (RTMPTkipGetMIC (foldl RTMPTkipAppendByte t m)) = michael key m"
proof -
  let ?t1 = "foldl RTMPTkipAppendByte (foldl RTMPTkipAppendByte t m) [0x5a, 0, 0, 0, 0]"
  let ?p = "m @ [0x5a, 0, 0, 0, 0]"
  have s1: "mic_state ?t1 (foldl michael_block (le32 key, le32 (drop 4 key)) (mic_words ?p)) (mic_rest ?p)"
    using Append_state[OF assms, of ?p] by simp
  then have "nBytesInM ?t1 = length (mic_rest ?p)" unfolding mic_state_def by blast
  then have n: "nBytesInM ?t1 = (length m + 5) mod 4" unfolding rest_length by (simp add: add.commute)
  then have "mic_fill ?t1 = foldl RTMPTkipAppendByte ?t1 (replicate ((4 - (length m + 5) mod 4) mod 4) 0)"
    using mic_fill_zeros[of ?t1] by (simp del: foldl_Cons foldl_Nil)
  then have f: "mic_fill ?t1 = foldl RTMPTkipAppendByte t (mic_pad m)" by (simp add: mic_pad_def)
  have "mic_state (mic_fill ?t1) (foldl michael_block (le32 key, le32 (drop 4 key)) (mic_words (mic_pad m))) (mic_rest (mic_pad m))"
    unfolding f using Append_state[OF assms, of "mic_pad m"] by simp
  then show ?thesis
    by (auto simp: RTMPTkipGetMIC_def Let_def michael_def mic_state_def PutUInt32_le32 split: prod.split)
qed

lemma SetMICKey_state: "mic_state (RTMPTkipSetMICKey t key) (le32 key, le32 (drop 4 key)) []"
  by (simp add: mic_state_def RTMPTkipSetMICKey_def Let_def GetUInt32_le32)

text \<open>The message the code covers: destination, source, priority and the data.\<close>

lemma MICEngine_michael:
  "tk_MIC (RTMPTkipGetMIC (RTMPTkipAppend (RTMPInitMICEngine t DA SA up key) m)) =
    michael key (take 6 DA @ take 6 SA @ [up, 0, 0, 0] @ m)"
  using GetMIC_michael[OF SetMICKey_state, of t key "take 6 DA @ take 6 SA @ [up, 0, 0, 0] @ m"]
  by (simp add: RTMPInitMICEngine_def RTMPTkipAppend_def)

lemma CalculateMIC_michael:
  assumes "length pkt \<ge> 18" "length encap = 6"
  shows "map_option tk_MIC (RTMPCalculateMICValue t pkt up (Some encap) key) =
    Some (michael (ck_TxMic key) (take 6 pkt @ take 6 (drop 6 pkt) @ [up, 0, 0, 0] @ encap @
      drop (12 + (if 256 * unat (pkt ! 12) + unat (pkt ! 13) = 0x8100 then 4 else 0)) pkt))"
proof -
  have d: "take 2 (drop k pkt) @ drop (k + 2) pkt = drop k pkt" for k
    using append_take_drop_id[of 2 "drop k pkt"] by (simp add: add.commute)
  have a: "RTMPTkipAppend (RTMPTkipAppend (RTMPTkipAppend s x) y) z = RTMPTkipAppend s (x @ y @ z)" for s x y z
    by (simp add: RTMPTkipAppend_def)
  show ?thesis
    using assms d[of 12] d[of 16] MICEngine_michael[of t pkt "drop 6 pkt" up "ck_TxMic key"]
    by (simp add: RTMPCalculateMICValue_def Let_def a)
qed

lemma michael_length [simp]: "length (michael key m) = 8"
  by (simp add: michael_def split: prod.split)

section \<open>The key mixing\<close>

definition S16 :: "16 word \<Rightarrow> 16 word" where
  "S16 v = (let lo = unat (v mod 256); hi = unat (drop_bit 8 v)
    in (ucast (Tkip_Sbox_Lower ! lo) + 256 * ucast (Tkip_Sbox_Upper ! lo)) XOR
       (ucast (Tkip_Sbox_Upper ! hi) + 256 * ucast (Tkip_Sbox_Lower ! hi)))"

definition Mk16 :: "byte \<Rightarrow> byte \<Rightarrow> 16 word" where "Mk16 hi lo = 256 * ucast hi + ucast lo"

type_synonym ttak = "16 word \<times> 16 word \<times> 16 word \<times> 16 word \<times> 16 word"

fun spec_turn :: "byte list \<Rightarrow> nat \<Rightarrow> ttak \<Rightarrow> ttak" where
  "spec_turn K i (t0, t1, t2, t3, t4) =
    (let j = 2 * (i mod 2);
         t0 = t0 + S16 (t4 XOR Mk16 (K ! (1 + j)) (K ! j));
         t1 = t1 + S16 (t0 XOR Mk16 (K ! (5 + j)) (K ! (4 + j)));
         t2 = t2 + S16 (t1 XOR Mk16 (K ! (9 + j)) (K ! (8 + j)));
         t3 = t3 + S16 (t2 XOR Mk16 (K ! (13 + j)) (K ! (12 + j)));
         t4 = t4 + S16 (t3 XOR Mk16 (K ! (1 + j)) (K ! j)) + of_nat i
     in (t0, t1, t2, t3, t4))"

definition spec_phase1 :: "byte list \<Rightarrow> byte list \<Rightarrow> 32 word \<Rightarrow> ttak" where
  "spec_phase1 K ta iv32 = fold (spec_turn K) [0..<8]
     (ucast iv32, ucast (drop_bit 16 iv32), Mk16 (ta ! 1) (ta ! 0), Mk16 (ta ! 3) (ta ! 2), Mk16 (ta ! 5) (ta ! 4))"

definition lo8 :: "16 word \<Rightarrow> byte" where "lo8 w = ucast w"
definition hi8 :: "16 word \<Rightarrow> byte" where "hi8 w = ucast (drop_bit 8 w)"

definition spec_phase2 :: "byte list \<Rightarrow> ttak \<Rightarrow> 16 word \<Rightarrow> byte list" where
  "spec_phase2 K = (\<lambda>(t0, t1, t2, t3, t4) iv16.
    let p5 = t4 + iv16;
        p0 = t0 + S16 (p5 XOR Mk16 (K ! 1) (K ! 0));
        p1 = t1 + S16 (p0 XOR Mk16 (K ! 3) (K ! 2));
        p2 = t2 + S16 (p1 XOR Mk16 (K ! 5) (K ! 4));
        p3 = t3 + S16 (p2 XOR Mk16 (K ! 7) (K ! 6));
        p4 = t4 + S16 (p3 XOR Mk16 (K ! 9) (K ! 8));
        p5 = p5 + S16 (p4 XOR Mk16 (K ! 11) (K ! 10));
        p0 = p0 + word_rotr 1 (p5 XOR Mk16 (K ! 13) (K ! 12));
        p1 = p1 + word_rotr 1 (p0 XOR Mk16 (K ! 15) (K ! 14));
        p2 = p2 + word_rotr 1 p1; p3 = p3 + word_rotr 1 p2; p4 = p4 + word_rotr 1 p3; p5 = p5 + word_rotr 1 p4
    in [hi8 iv16, (hi8 iv16 OR 0x20) AND 0x7f, lo8 iv16, lo8 (drop_bit 1 (p5 XOR Mk16 (K ! 1) (K ! 0))),
        lo8 p0, hi8 p0, lo8 p1, hi8 p1, lo8 p2, hi8 p2, lo8 p3, hi8 p3, lo8 p4, hi8 p4, lo8 p5, hi8 p5])"

text \<open>The low half of an unsigned int.\<close>

definition low16 :: "32 word \<Rightarrow> 16 word" where "low16 x = ucast x"

lemma mod_mask: "x mod 65536 = (take_bit 16 x :: 32 word)" "y mod 256 = (take_bit 8 y :: 32 word)"
    "z mod 256 = (take_bit 8 z :: 16 word)"
  by (simp_all add: take_bit_eq_mod)

named_theorems low_simps \<open>what the low half of a value depends on\<close>

lemma low_xor [low_simps]: "low16 (x XOR y) = low16 x XOR low16 y"
  by (rule bit_word_eqI) (simp add: low16_def bit_simps)

lemma low_of_nat: "low16 (of_nat n) = of_nat n"
  unfolding low16_def by (rule bit_word_eqI) (simp add: bit_simps)

lemma low_unat: "low16 x = of_nat (unat x)"
  using low_of_nat[of "unat x"] by simp

lemma low_add [low_simps]: "low16 (x + y) = low16 x + low16 y"
proof -
  have "x + y = of_nat (unat x + unat y)" by simp
  then show ?thesis using low_of_nat[of "unat x + unat y"] by (simp add: low_unat)
qed

lemma low_mult [low_simps]: "low16 (x * y) = low16 x * low16 y"
proof -
  have "x * y = of_nat (unat x * unat y)" by simp
  then show ?thesis using low_of_nat[of "unat x * unat y"] by (simp add: low_unat)
qed

lemma low_mod [low_simps]: "low16 (x mod 65536) = low16 x"
  unfolding mod_mask low16_def by (rule bit_word_eqI) (simp add: bit_simps)

lemma low_byte [low_simps]: "low16 (ucast (b :: byte)) = ucast b" "low16 256 = 256"
  unfolding low16_def by (rule bit_word_eqI; simp add: bit_simps) simp

lemma low_key16 [low_simps]: "low16 (key16 K i) = Mk16 (K ! (i + 1)) (K ! i)"
  by (simp add: key16_def Mk16_def low_simps)

lemma unat_up: "unat (ucast (w :: 16 word) :: 32 word) = unat w"
proof -
  have "unat w < 2 ^ LENGTH(16)" by (rule unsigned_less)
  then have "unat w < 2 ^ 32" by simp
  then show ?thesis by (simp add: unsigned_ucast_eq take_bit_nat_eq_self)
qed

lemma low_sbox [low_simps]: "low16 (tkip_sbox (x mod 65536)) = S16 (low16 x)"
proof -
  have u: "(ucast v :: 16 word) = low16 v" for v :: "32 word" by (simp add: low16_def)
  have lo: "unat (low16 x mod 256) = unat (x mod 65536 mod 256)"
  proof -
    have "x mod 65536 mod 256 = (ucast (low16 x mod 256) :: 32 word)"
      unfolding mod_mask low16_def by (rule bit_word_eqI) (auto simp: bit_simps)
    then show ?thesis by (simp add: unat_up)
  qed
  have hi: "unat (drop_bit 8 (low16 x)) = unat (drop_bit 8 (x mod 65536) mod 256)"
  proof -
    have "drop_bit 8 (x mod 65536) mod 256 = (ucast (drop_bit 8 (low16 x)) :: 32 word)"
      unfolding mod_mask low16_def by (rule bit_word_eqI) (auto simp: bit_simps dest: bit_imp_le_length)
    then show ?thesis by (simp add: unat_up)
  qed
  show ?thesis
    unfolding tkip_sbox_def S16_def Let_def u lo hi by (simp only: low_simps mult.commute[of _ "256"])
qed

lemma low_rotr1 [low_simps]: "low16 (rotr1 x) = word_rotr 1 (low16 x)"
proof (rule bit_word_eqI)
  fix n :: nat
  assume n: "n < LENGTH(16)"
  have m: "(0x7fff :: 32 word) = mask 15" "(0x8000 :: 32 word) = push_bit 15 1"
    by (simp_all add: mask_eq_exp_minus_1 push_bit_eq_mult)
  have b: "bit (0x7fff :: 32 word) k \<longleftrightarrow> k < 15" "bit (0x8000 :: 32 word) k \<longleftrightarrow> k = 15" for k
    unfolding m by (auto simp only: bit_mask_iff bit_push_bit_iff bit_1_iff) simp_all
  have o: "x AND 1 = 1 \<longleftrightarrow> bit x 0" by (simp add: and_one_eq bit_0 odd_iff_mod_2_eq_one)
  show "bit (low16 (rotr1 x)) n = bit (word_rotr 1 (low16 x)) n"
    using n unfolding rotr1_def low_mod o
    by (cases "n = 15"; cases "bit x 0")
      (simp_all only: if_True if_False low16_def bit_ucast_iff bit_and_iff bit_or_iff bit_drop_bit_eq bit_word_rotr_iff b, simp_all)
qed

lemma byte_of_low: "byte_of w = lo8 (low16 w)" "byte_of (drop_bit 8 w) = hi8 (low16 w)"
    "byte_of (drop_bit 1 w) = lo8 (drop_bit 1 (low16 w))"
  unfolding byte_of_def lo8_def hi8_def low16_def mod_mask
  by (rule bit_word_eqI; auto simp: bit_simps dest: bit_imp_le_length)+

definition low5 :: "p1k_t \<Rightarrow> ttak" where
  "low5 = (\<lambda>(a, b, c, d, e). (low16 a, low16 b, low16 c, low16 d, low16 e))"

lemma turn_spec: "low5 (phase1_turn K i s) = spec_turn K i (low5 s)"
  by (cases s) (simp add: low5_def Let_def low_simps low_of_nat add.commute[of 1])

lemma phase1_spec: "low5 (phase1 K ta pnh) = spec_phase1 K ta pnh"
proof -
  have f: "low5 (fold (phase1_turn K) is s) = fold (spec_turn K) is (low5 s)" for "is" s
    by (induction "is" arbitrary: s) (simp_all add: turn_spec)
  show ?thesis
    unfolding phase1_def spec_phase1_def Let_def f
    by (simp only: low5_def prod.case low_simps Mk16_def add.commute mult.commute) (simp only: low16_def)
qed

lemma MixKey_spec:
  "fst (RTMPTkipMixKey K ta pnl pnh) = spec_phase2 K (spec_phase1 K ta pnh) (low16 pnl)"
proof -
  obtain a b c d e where s: "phase1 K ta pnh = (a, b, c, d, e)" by (metis prod.exhaust)
  have l: "spec_phase1 K ta pnh = (low16 a, low16 b, low16 c, low16 d, low16 e)"
    using phase1_spec[of K ta pnh] by (simp add: s low5_def)
  show ?thesis
    unfolding RTMPTkipMixKey_def spec_phase2_def s l Let_def prod.case fst_conv byte_of_low(2,3)
    unfolding byte_of_low(1) low_simps by (simp add: add.commute numeral_3_eq_3)
qed

section \<open>Accepted frames\<close>

text \<open>The message the Michael code covers, by the addresses of the header.\<close>

definition mic_message :: "byte list \<Rightarrow> byte \<Rightarrow> byte list \<Rightarrow> byte list" where
  "mic_message pHdr up m = (case tkip_addresses pHdr of (DA, SA, TA) \<Rightarrow> take 6 DA @ take 6 SA @ [up, 0, 0, 0] @ m)"

lemma DecryptTKIP_authentic:
  assumes "RTMPSoftDecryptTKIP t hdr up key data n = Some (True, buf, len, e)"
  shows "take 8 (drop len buf) = michael (ck_RxMic key) (mic_message hdr up (take len buf)) \<and>
    len + 8 \<le> length buf \<and> \<not> e"
  using assms unfolding RTMPSoftDecryptTKIP_def mic_message_def
  by (auto simp: Let_def MICEngine_michael LEN_TKIP_MIC_def split: if_splits option.splits prod.splits)

text \<open>A frame as a sender builds it: header of eight bytes, then the data, its Michael code and the
  checksum under the RC4 key of the mixing.\<close>

definition tkip_plain :: "byte list \<Rightarrow> byte \<Rightarrow> byte list \<Rightarrow> byte list \<Rightarrow> byte list" where
  "tkip_plain hdr up mickey pt =
    (let m = pt @ michael mickey (mic_message hdr up pt) in m @ put_le32 (crc32_bitwise 0xffffffff m XOR 0xffffffff))"

definition tkip_rc4_key :: "byte list \<Rightarrow> byte list \<Rightarrow> byte list \<Rightarrow> byte list" where
  "tkip_rc4_key K hdr iv = (case tkip_addresses hdr of (DA, SA, TA) \<Rightarrow>
     spec_phase2 K (spec_phase1 K TA (le32 (drop 4 iv))) (Mk16 (iv ! 0) (iv ! 2)))"

lemma tsc_low: "low16 (push_bit 8 (ucast a) OR ucast b) = Mk16 a b"
proof -
  have "push_bit 8 (ucast a) AND ucast b = (0 :: 16 word)"
    by (rule bit_word_eqI) (auto simp: bit_simps dest: bit_imp_le_length)
  then have "Mk16 a b = (push_bit 8 (ucast a) OR ucast b)"
    by (simp add: Mk16_def push_bit_eq_mult disjunctive_add_eq_or mult.commute)
  then show ?thesis by (simp only: low16_def) (rule bit_word_eqI, auto simp: bit_simps)
qed

lemma phase2_length [simp]: "length (spec_phase2 K s v) = 16"
  by (cases s) (simp add: spec_phase2_def Let_def)

lemma rc4_key_length [simp]: "length (tkip_rc4_key K hdr iv) = 16"
  by (simp add: tkip_rc4_key_def split: prod.split)

lemma rc4_key_works: "\<exists>c. ARC4_INIT (tkip_rc4_key K hdr iv) 16 = Some c"
  by (simp add: ARC4_INIT_def ARC4_KEY_BLOCK_SIZE_def)

lemma DecryptTKIP_restores:
  assumes hdr: "30 \<le> length hdr" and iv: "length iv = 8" and key: "ck_KeyLen key \<noteq> 0"
    and n: "length pt + 20 < 2 ^ 32"
    and c: "ARC4_INIT (tkip_rc4_key (ck_Key key) hdr iv) 16 = Some c"
    and body: "body = fst (ARC4_Compute c (tkip_plain hdr up (ck_RxMic key) pt))"
  shows "\<exists>buf. RTMPSoftDecryptTKIP t hdr up key (iv @ body @ tail) (length pt + 20) = Some (True, buf, length pt, False) \<and>
    take (length pt) buf = pt"
proof -
  let ?mic = "michael (ck_RxMic key) (mic_message hdr up pt)"
  let ?icv = "put_le32 (crc32_bitwise 0xffffffff (pt @ ?mic) XOR 0xffffffff)"
  have plain: "tkip_plain hdr up (ck_RxMic key) pt = pt @ ?mic @ ?icv" by (simp add: tkip_plain_def Let_def)
  have len: "length body = length pt + 12" unfolding body plain by simp
  obtain DA SA TA where a: "tkip_addresses hdr = (DA, SA, TA)" by (cases "tkip_addresses hdr")
  let ?d = "iv @ body @ tail"
  let ?buf = "(pt @ ?mic @ ?icv) @ drop (length pt + 12) ?d"
  have k: "fst (RTMPTkipMixKey (ck_Key key) TA (push_bit 8 (ucast (?d ! 0)) OR ucast (?d ! 2)) (le32 (drop 4 ?d)))
      = tkip_rc4_key (ck_Key key) hdr iv"
  proof -
    have "le32 (drop 4 ?d) = le32 (drop 4 iv)" "?d ! 0 = iv ! 0" "?d ! 2 = iv ! 2"
      using iv by (simp_all add: le32_def nth_append)
    then show ?thesis by (simp add: MixKey_spec tkip_rc4_key_def a tsc_low)
  qed
  have dec: "fst (ARC4_Compute c (take (length pt + 12) (drop 8 ?d))) = pt @ ?mic @ ?icv"
    using len iv body plain by simp
  have u: "usub (length pt + 20) 8 = length pt + 12" "usub (length pt + 12) 4 = length pt + 8"
      "usub (length pt + 8) 8 = length pt" by simp_all
  have fcs: "RTMP_CALC_FCS32 PPPINITFCS32 (take (length pt + 8) ?buf) XOR 0xffffffff = le32 (drop (length pt + 8) ?buf)"
    by (simp add: FCS32_crc le32_put PPPINITFCS32_def)
  have m: "tk_MIC (RTMPTkipGetMIC (RTMPTkipAppend (RTMPInitMICEngine t DA SA up (ck_RxMic key)) (take (length pt) ?buf))) =
      take 8 (drop (length pt) ?buf)"
    by (simp add: MICEngine_michael mic_message_def a)
  have "RTMPSoftDecryptTKIP t hdr up key ?d (length pt + 20) = Some (True, ?buf, length pt, False)"
    unfolding RTMPSoftDecryptTKIP_def LEN_TKIP_IV_HDR_def LEN_ICV_def LEN_TKIP_MIC_def Let_def a prod.case u k c option.case dec
    using hdr key len iv fcs m by simp
  then show ?thesis by auto
qed

end
