(* ===== verification/Ccmp.thy ===== *)
theory Ccmp
  imports Wep AesLemmas
begin

text \<open>CCMP of common/cmm_aes.c: the associated data and the nonce built from the MAC header, the CCMP
  header, and the encryption and decryption of a frame over the CCM mode of \<open>AesModes\<close>. \<open>None\<close> is an
  access outside a buffer. The data is processed in place; the loops of the CCM mode never read
  behind what they have written, so the model takes the cipher text from the old buffer.\<close>

section \<open>The parts of the header\<close>

definition FC_BTYPE_DATA :: byte where "FC_BTYPE_DATA = 2"
definition SUBTYPE_QDATA :: byte where "SUBTYPE_QDATA = 8"
definition SUBTYPE_QDATA_CFACK :: byte where "SUBTYPE_QDATA_CFACK = 9"
definition SUBTYPE_QDATA_CFPOLL :: byte where "SUBTYPE_QDATA_CFPOLL = 10"
definition SUBTYPE_QDATA_CFACK_CFPOLL :: byte where "SUBTYPE_QDATA_CFACK_CFPOLL = 11"
definition LEN_CCMP_HDR :: nat where "LEN_CCMP_HDR = 8"
definition LEN_CCMP_MIC :: nat where "LEN_CCMP_MIC = 8"
definition LEN_PN :: nat where "LEN_PN = 6"

definition frame_type :: "byte list \<Rightarrow> byte" where "frame_type pHdr = drop_bit 2 (pHdr ! 0) AND 0x03"
definition frame_subtype :: "byte list \<Rightarrow> byte" where "frame_subtype pHdr = drop_bit 4 (pHdr ! 0) AND 0x0f"

definition a4_exists :: "byte list \<Rightarrow> bool" where
  "a4_exists pHdr = (let from_ds = drop_bit 1 (pHdr ! 1 AND 0x2); to_ds = pHdr ! 1 AND 0x1 in from_ds AND to_ds \<noteq> 0)"

definition qc_exists :: "byte list \<Rightarrow> bool" where
  "qc_exists pHdr \<longleftrightarrow> frame_type pHdr = FC_BTYPE_DATA \<and>
    (frame_subtype pHdr = SUBTYPE_QDATA \<or> frame_subtype pHdr = SUBTYPE_QDATA_CFACK \<or>
     frame_subtype pHdr = SUBTYPE_QDATA_CFPOLL \<or> frame_subtype pHdr = SUBTYPE_QDATA_CFACK_CFPOLL)"

text \<open>The bytes of the header the two constructions read.\<close>

definition hdr_room :: "bool \<Rightarrow> bool \<Rightarrow> nat" where
  "hdr_room a4 qc = 24 + (if a4 then 6 else 0) + (if qc then 1 else 0)"

text \<open>The associated data, \<open>aad_len\<close> bytes of it.\<close>

definition RTMPConstructCCMPAAD :: "byte list \<Rightarrow> bool \<Rightarrow> bool \<Rightarrow> bool \<Rightarrow> byte list" where
  "RTMPConstructCCMPAAD pHdr isDataFrame a4 qc =
    [if isDataFrame then pHdr ! 0 AND 0x8f else pHdr ! 0, (pHdr ! 1 AND 0xc7) OR 0x40]
    @ take 18 (drop 4 pHdr)
    @ [pHdr ! 22 AND 0x0f, 0]
    @ (if a4 then take 6 (drop 24 pHdr) else [])
    @ (if qc \<and> a4 then [pHdr ! 30 AND 0x0f, 0] else if qc \<and> \<not> a4 then [pHdr ! 24 AND 0x0f, 0] else [])"

text \<open>The nonce; its first octet is left as it is in \<open>nonce_hdr\<close> without a QoS field.\<close>

definition RTMPConstructCCMPNonce :: "byte list \<Rightarrow> bool \<Rightarrow> bool \<Rightarrow> byte list \<Rightarrow> byte list \<Rightarrow> byte list" where
  "RTMPConstructCCMPNonce pHdr a4 qc pn nonce_hdr =
    [if qc \<and> a4 then pHdr ! 30 AND 0x0f else if qc \<and> \<not> a4 then pHdr ! 24 AND 0x0f else nonce_hdr ! 0]
    @ take 6 (drop 10 pHdr)
    @ map (\<lambda>i. pn ! (5 - i)) [0..<LEN_PN]"

definition RTMPConstructCCMPHdr :: "byte \<Rightarrow> byte list \<Rightarrow> byte list" where
  "RTMPConstructCCMPHdr key_idx pn =
    (replicate LEN_CCMP_HDR 0)[0 := pn ! 0, 1 := pn ! 1, 3 := push_bit 6 key_idx OR 0x20,
      4 := pn ! 2, 5 := pn ! 3, 6 := pn ! 4, 7 := pn ! 5]"

section \<open>Encryption and decryption\<close>

text \<open>The verdict and the data buffer.\<close>

definition RTMPSoftEncryptCCMP ::
  "byte list \<Rightarrow> byte list \<Rightarrow> byte list \<Rightarrow> byte list \<Rightarrow> nat \<Rightarrow> (bool \<times> byte list) option" where
  "RTMPSoftEncryptCCMP pHdr pIV pKey pData DataLen =
    (let a4 = a4_exists pHdr; qc = qc_exists pHdr in
     if length pHdr < hdr_room a4 qc \<or> length pIV < LEN_PN \<or> length pKey < 16 \<or> length pData < DataLen + 8 then None
     else let aad_hdr = RTMPConstructCCMPAAD pHdr (frame_type pHdr = FC_BTYPE_DATA) a4 qc;
              nonce_hdr = RTMPConstructCCMPNonce pHdr a4 qc pIV (replicate 13 0);
              (r, d, out_len) = AES_CCM_Encrypt (take DataLen pData) pKey 16 nonce_hdr aad_hdr LEN_CCMP_MIC pData (DataLen + 8)
       in if r \<noteq> 0 then Some (False, d) else Some (True, d))"

text \<open>The verdict, the data buffer and the length. A frame shorter than the CCMP header makes
  \<open>cipherData_len\<close> wrap; the CCM mode refuses that length, and any below the MIC's, before it reads
  the data.\<close>

definition RTMPSoftDecryptCCMP ::
  "byte list \<Rightarrow> CIPHER_KEY \<Rightarrow> byte list \<Rightarrow> nat \<Rightarrow> (bool \<times> byte list \<times> nat) option" where
  "RTMPSoftDecryptCCMP pHdr pKey pData DataLen =
    (if ck_KeyLen pKey = 0 then Some (False, pData, DataLen)
     else let a4 = a4_exists pHdr; qc = qc_exists pHdr in
     if length pHdr < hdr_room a4 qc \<or> length pData < LEN_CCMP_HDR \<or> length (ck_Key pKey) < 16 then None
     else let pn = [pData ! 0, pData ! 1, pData ! 4, pData ! 5, pData ! 6, pData ! 7];
              cipherData_len = usub DataLen LEN_CCMP_HDR;
              aad_hdr = RTMPConstructCCMPAAD pHdr (frame_type pHdr = FC_BTYPE_DATA) a4 qc;
              nonce_hdr = RTMPConstructCCMPNonce pHdr a4 qc pn (replicate 13 0)
       in if DataLen < usub cipherData_len LEN_CCMP_MIC then Some (False, pData, DataLen)
          else if length pData < DataLen then None
          else let (r, d, out_len) = AES_CCM_Decrypt (take cipherData_len (drop LEN_CCMP_HDR pData)) (ck_Key pKey) 16
                     nonce_hdr aad_hdr LEN_CCMP_MIC pData DataLen
            in if r \<noteq> 0 then Some (False, d, DataLen) else Some (True, d, out_len))"

section \<open>What the receiver gets back\<close>

lemma CCMPNonce_length [simp]:
  assumes "16 \<le> length h"
  shows "length (RTMPConstructCCMPNonce h a4 qc pn n) = 13"
  using assms by (simp add: RTMPConstructCCMPNonce_def LEN_PN_def)

lemma ccmp_runs:
  assumes "16 \<le> length h"
  shows "\<exists>c. length c = length pt + 8 \<and>
    (\<forall>out. AES_CCM_Encrypt pt key 16 (RTMPConstructCCMPNonce h a4 qc pn n) aad 8 out (length pt + 8) =
      (0, c @ drop (length pt + 8) out, length pt + 8)) \<and>
    (\<forall>out room. length pt \<le> room \<longrightarrow> AES_CCM_Decrypt c key 16 (RTMPConstructCCMPNonce h a4 qc pn n) aad 8 out room =
      (0, pt @ drop (length pt) out, length pt))"
  using ccm_runs[where N = "RTMPConstructCCMPNonce h a4 qc pn n" and t = 8 and Key = key and A = aad and p = pt] assms
  by (intro exI[of _ "ccm_sealed key (RTMPConstructCCMPNonce h a4 qc pn n) aad pt 8"]) (simp add: valid_mac_length_def)

text \<open>Frame control, fragment number and addresses decide the associated data and the nonce: the
  duration, the sequence number and the retry, power management, more data and protected bits may
  change under way.\<close>

definition same_protected_fields :: "byte list \<Rightarrow> byte list \<Rightarrow> bool" where
  "same_protected_fields h h' \<longleftrightarrow> length h' = length h \<and> h' ! 0 = h ! 0 \<and> (h' ! 1) AND 0x87 = (h ! 1) AND 0x87 \<and>
    take 18 (drop 4 h') = take 18 (drop 4 h) \<and> h' ! 22 AND 0x0f = h ! 22 AND 0x0f \<and> drop 24 h' = drop 24 h"

lemma same_fields_bits:
  assumes "same_protected_fields h h'"
  shows "a4_exists h' = a4_exists h" "qc_exists h' = qc_exists h" "frame_type h' = frame_type h"
    "(h' ! 1 AND 0xc7) OR 0x40 = (h ! 1 AND 0xc7) OR 0x40"
proof -
  have e: "h' ! 0 = h ! 0" "(h' ! 1) AND 0x87 = (h ! 1) AND 0x87" using assms by (simp_all add: same_protected_fields_def)
  show "frame_type h' = frame_type h" "qc_exists h' = qc_exists h"
    by (simp_all add: frame_type_def frame_subtype_def qc_exists_def e(1))
  have m: "(x AND 0x87) AND 2 = x AND 2" "(x AND 0x87) AND 1 = x AND 1" for x :: byte
    by (simp_all add: and.assoc)
  show "a4_exists h' = a4_exists h" unfolding a4_exists_def using e(2) by (metis m)
  have "(x AND 0xc7) OR 0x40 = (x AND 0x87) OR (0x40 :: byte)" for x
  proof -
    have "(0xc7 :: byte) = 0x87 OR 0x40" by simp
    then have "(x AND 0xc7) OR 0x40 = ((x AND 0x87) OR (x AND 0x40)) OR (0x40 :: byte)"
      by (simp only: bit.conj_disj_distrib)
    also have "\<dots> = (x AND 0x87) OR ((x AND 0x40) OR 0x40)" by (simp only: or.assoc)
    also have "(x AND 0x40) OR 0x40 = (0x40 :: byte)" by (rule bit_word_eqI) (auto simp only: bit_or_iff bit_and_iff)
    finally show ?thesis .
  qed
  then show "(h' ! 1 AND 0xc7) OR 0x40 = (h ! 1 AND 0xc7) OR 0x40" using e(2) by simp
qed

lemma same_fields_nonce_aad:
  assumes s: "same_protected_fields h h'"
    and l: "hdr_room (a4_exists h) (qc_exists h) \<le> length h"
  shows "RTMPConstructCCMPAAD h' d (a4_exists h) (qc_exists h) = RTMPConstructCCMPAAD h d (a4_exists h) (qc_exists h)"
    and "RTMPConstructCCMPNonce h' (a4_exists h) (qc_exists h) pn n = RTMPConstructCCMPNonce h (a4_exists h) (qc_exists h) pn n"
proof -
  have e: "length h' = length h" "h' ! 0 = h ! 0" "take 18 (drop 4 h') = take 18 (drop 4 h)"
      "h' ! 22 AND 0x0f = h ! 22 AND 0x0f" "drop 24 h' = drop 24 h"
    using s by (simp_all add: same_protected_fields_def)
  have a2: "take 6 (drop 10 h') = take 6 (drop 10 h)"
  proof -
    have "take 6 (drop 10 x) = take 6 (drop 6 (take 18 (drop 4 x)))" for x :: "byte list" by (simp add: take_drop)
    then show ?thesis using e(3) by metis
  qed
  have i: "h' ! (24 + k) = h ! (24 + k)" if "24 + k < length h" for k
    using that e(1,5) nth_drop[of 24 h k] nth_drop[of 24 h' k] by simp
  have q: "h' ! 24 = h ! 24" if "qc_exists h" using that i[of 0] l by (simp add: hdr_room_def)
  have q4: "h' ! 30 = h ! 30" if "qc_exists h" "a4_exists h" using that i[of 6] l by (simp add: hdr_room_def)
  show "RTMPConstructCCMPAAD h' d (a4_exists h) (qc_exists h) = RTMPConstructCCMPAAD h d (a4_exists h) (qc_exists h)"
    unfolding RTMPConstructCCMPAAD_def e(2-5) same_fields_bits(4)[OF s] using q q4 by simp
  show "RTMPConstructCCMPNonce h' (a4_exists h) (qc_exists h) pn n = RTMPConstructCCMPNonce h (a4_exists h) (qc_exists h) pn n"
    unfolding RTMPConstructCCMPNonce_def a2 using q q4 by simp
qed

lemma CCMPHdr_pn:
  assumes "length pn = 6"
  shows "length (RTMPConstructCCMPHdr idx pn) = 8"
    "(let h = RTMPConstructCCMPHdr idx pn in [h ! 0, h ! 1, h ! 4, h ! 5, h ! 6, h ! 7]) = pn"
proof -
  obtain a b c d e f where "pn = [a, b, c, d, e, f]"
    using assms by (auto simp: numeral_eq_Suc length_Suc_conv)
  then show "(let h = RTMPConstructCCMPHdr idx pn in [h ! 0, h ! 1, h ! 4, h ! 5, h ! 6, h ! 7]) = pn"
    by (simp add: RTMPConstructCCMPHdr_def LEN_CCMP_HDR_def Let_def)
qed (simp add: RTMPConstructCCMPHdr_def LEN_CCMP_HDR_def)

lemma ccmp_frame_restored:
  assumes "hdr_room (a4_exists h) (qc_exists h) \<le> length h" "same_protected_fields h h'"
    and "length pn = 6" "16 \<le> length (ck_Key key)" "ck_KeyLen key \<noteq> 0"
    and "length pt + 8 \<le> length buf" "take (length pt) buf = pt" "length pt + 16 < 65536"
  shows "\<exists>c b. length c = length pt + 8 \<and>
    RTMPSoftEncryptCCMP h pn (ck_Key key) buf (length pt) = Some (True, c @ drop (length pt + 8) buf) \<and>
    RTMPSoftDecryptCCMP h' key (RTMPConstructCCMPHdr idx pn @ c @ tail) (length pt + 16) = Some (True, b, length pt) \<and>
    take (length pt) b = pt"
proof -
  have h16: "24 \<le> length h" "length h' = length h" using assms(1,2) by (simp_all add: hdr_room_def same_protected_fields_def split: if_splits)
  note bits = same_fields_bits[OF assms(2)] and eqs = same_fields_nonce_aad[OF assms(2,1)]
  let ?aad = "RTMPConstructCCMPAAD h (frame_type h = FC_BTYPE_DATA) (a4_exists h) (qc_exists h)"
  let ?nonce = "RTMPConstructCCMPNonce h (a4_exists h) (qc_exists h) pn (replicate 13 0)"
  obtain c where c: "length c = length pt + 8"
    "\<And>out. AES_CCM_Encrypt pt (ck_Key key) 16 ?nonce ?aad 8 out (length pt + 8) = (0, c @ drop (length pt + 8) out, length pt + 8)"
    "\<And>out room. length pt \<le> room \<Longrightarrow> AES_CCM_Decrypt c (ck_Key key) 16 ?nonce ?aad 8 out room = (0, pt @ drop (length pt) out, length pt)"
    using ccmp_runs[of h pt "ck_Key key" "a4_exists h" "qc_exists h" pn "replicate 13 0" ?aad] h16 by auto
  have enc: "RTMPSoftEncryptCCMP h pn (ck_Key key) buf (length pt) = Some (True, c @ drop (length pt + 8) buf)"
    using assms c(2) by (simp add: RTMPSoftEncryptCCMP_def Let_def LEN_PN_def LEN_CCMP_MIC_def)
  let ?hdr = "RTMPConstructCCMPHdr idx pn"
  let ?data = "?hdr @ c @ tail"
  have l: "length ?hdr = 8" using CCMPHdr_pn(1)[OF assms(3)] .
  have p: "[?data ! 0, ?data ! 1, ?data ! 4, ?data ! 5, ?data ! 6, ?data ! 7] = pn"
    using CCMPHdr_pn(2)[OF assms(3), of idx] l by (simp add: Let_def nth_append)
  have t: "take (length pt + 8) (drop 8 ?data) = c" using l c(1) by simp
  have "RTMPSoftDecryptCCMP h' key ?data (length pt + 16) = Some (True, pt @ drop (length pt) ?data, length pt)"
    unfolding RTMPSoftDecryptCCMP_def LEN_CCMP_HDR_def LEN_CCMP_MIC_def Let_def bits eqs p
    using assms h16 l c by (simp add: t)
  moreover have "take (length pt) (pt @ drop (length pt) ?data) = pt" by simp
  ultimately show ?thesis using enc c(1) by blast
qed

text \<open>A frame too short for header and MIC is refused before the data is touched.\<close>

lemma ccmp_short_frame:
  assumes "DataLen < 16" "8 \<le> length pData" "16 \<le> length (ck_Key key)"
    "hdr_room (a4_exists h) (qc_exists h) \<le> length h"
  shows "RTMPSoftDecryptCCMP h key pData DataLen = Some (False, pData, DataLen)"
proof -
  have "DataLen < usub (usub DataLen 8) 8" using assms(1) by (simp add: usub_def) arith
  then show ?thesis using assms by (simp add: RTMPSoftDecryptCCMP_def Let_def LEN_CCMP_HDR_def LEN_CCMP_MIC_def)
qed

end
