(* ===== verification/Sha2.thy ===== *)
theory Sha2
  imports HashCtx
begin

text \<open>SHA-1 and SHA-256 of common/crypt_sha2.c.\<close>

section \<open>Basic functions and constants\<close>

definition SHR :: "32 word \<Rightarrow> nat \<Rightarrow> 32 word" where "SHR x n = drop_bit n x"
definition Ch :: "32 word \<Rightarrow> 32 word \<Rightarrow> 32 word \<Rightarrow> 32 word" where "Ch x y z = ((x AND y) XOR ((NOT x) AND z))"
definition Maj :: "32 word \<Rightarrow> 32 word \<Rightarrow> 32 word \<Rightarrow> 32 word" where
  "Maj x y z = ((x AND y) XOR (x AND z) XOR (y AND z))"
definition Parity :: "32 word \<Rightarrow> 32 word \<Rightarrow> 32 word \<Rightarrow> 32 word" where "Parity x y z = (x XOR y XOR z)"

definition SHA1_K :: "32 word list" where "SHA1_K = [0x5a827999, 0x6ed9eba1, 0x8f1bbcdc, 0xca62c1d6]"

definition SHA1_DefaultHashValue :: "32 word list" where
  "SHA1_DefaultHashValue = [0x67452301, 0xefcdab89, 0x98badcfe, 0x10325476, 0xc3d2e1f0]"

definition Zsigma_256_0 :: "32 word \<Rightarrow> 32 word" where "Zsigma_256_0 x = (ROTR32 x 2 XOR ROTR32 x 13 XOR ROTR32 x 22)"
definition Zsigma_256_1 :: "32 word \<Rightarrow> 32 word" where "Zsigma_256_1 x = (ROTR32 x 6 XOR ROTR32 x 11 XOR ROTR32 x 25)"
definition Sigma_256_0 :: "32 word \<Rightarrow> 32 word" where "Sigma_256_0 x = (ROTR32 x 7 XOR ROTR32 x 18 XOR SHR x 3)"
definition Sigma_256_1 :: "32 word \<Rightarrow> 32 word" where "Sigma_256_1 x = (ROTR32 x 17 XOR ROTR32 x 19 XOR SHR x 10)"

definition SHA256_K :: "32 word list" where
  "SHA256_K = concat [
     [0x428a2f98, 0x71374491, 0xb5c0fbcf, 0xe9b5dba5], [0x3956c25b, 0x59f111f1, 0x923f82a4, 0xab1c5ed5],
     [0xd807aa98, 0x12835b01, 0x243185be, 0x550c7dc3], [0x72be5d74, 0x80deb1fe, 0x9bdc06a7, 0xc19bf174],
     [0xe49b69c1, 0xefbe4786, 0x0fc19dc6, 0x240ca1cc], [0x2de92c6f, 0x4a7484aa, 0x5cb0a9dc, 0x76f988da],
     [0x983e5152, 0xa831c66d, 0xb00327c8, 0xbf597fc7], [0xc6e00bf3, 0xd5a79147, 0x06ca6351, 0x14292967],
     [0x27b70a85, 0x2e1b2138, 0x4d2c6dfc, 0x53380d13], [0x650a7354, 0x766a0abb, 0x81c2c92e, 0x92722c85],
     [0xa2bfe8a1, 0xa81a664b, 0xc24b8b70, 0xc76c51a3], [0xd192e819, 0xd6990624, 0xf40e3585, 0x106aa070],
     [0x19a4c116, 0x1e376c08, 0x2748774c, 0x34b0bcb5], [0x391c0cb3, 0x4ed8aa4a, 0x5b9cca4f, 0x682e6ff3],
     [0x748f82ee, 0x78a5636f, 0x84c87814, 0x8cc70208], [0x90befffa, 0xa4506ceb, 0xbef9a3f7, 0xc67178f2]]"

definition SHA256_DefaultHashValue :: "32 word list" where
  "SHA256_DefaultHashValue = [0x6a09e667, 0xbb67ae85, 0x3c6ef372, 0xa54ff53a, 0x510e527f, 0x9b05688c, 0x1f83d9ab, 0x5be0cd19]"

section \<open>SHA-1\<close>

type_synonym vars5 = "32 word \<times> 32 word \<times> 32 word \<times> 32 word \<times> 32 word"

definition SHA1_schedule :: "32 word list \<Rightarrow> 32 word list" where
  "SHA1_schedule W0 =
    fold (\<lambda>i W. W @ [ROTL32 (W ! (i - 3) XOR W ! (i - 8) XOR W ! (i - 14) XOR W ! (i - 16)) 1]) [16..<80] W0"

fun SHA1_round :: "(32 word \<Rightarrow> 32 word \<Rightarrow> 32 word \<Rightarrow> 32 word) \<Rightarrow> 32 word \<Rightarrow> 32 word \<Rightarrow> vars5 \<Rightarrow> vars5" where
  "SHA1_round f K Wt (a, b, c, d, e) = (ROTL32 a 5 + f b c d + e + K + Wt, a, ROTL32 b 30, c, d)"

definition SHA1_rounds ::
  "(32 word \<Rightarrow> 32 word \<Rightarrow> 32 word \<Rightarrow> 32 word) \<Rightarrow> 32 word \<Rightarrow> 32 word list \<Rightarrow> vars5 \<Rightarrow> vars5" where
  "SHA1_rounds f K Ws s = fold (SHA1_round f K) Ws s"

definition SHA1_compress :: "32 word list \<Rightarrow> byte list \<Rightarrow> 32 word list" where
  "SHA1_compress H B =
    (let W = SHA1_schedule (block_words be32 B);
         s0 = (H ! 0, H ! 1, H ! 2, H ! 3, H ! 4);
         s1 = SHA1_rounds Ch (SHA1_K ! 0) (take 20 W) s0;
         s2 = SHA1_rounds Parity (SHA1_K ! 1) (take 20 (drop 20 W)) s1;
         s3 = SHA1_rounds Maj (SHA1_K ! 2) (take 20 (drop 40 W)) s2;
         (a, b, c, d, e) = SHA1_rounds Parity (SHA1_K ! 3) (take 20 (drop 60 W)) s3
     in [H ! 0 + a, H ! 1 + b, H ! 2 + c, H ! 3 + d, H ! 4 + e])"

definition RT_SHA1_Init :: hash_ctx where "RT_SHA1_Init = hash_init SHA1_DefaultHashValue"
definition RT_SHA1_Hash :: "hash_ctx \<Rightarrow> hash_ctx" where "RT_SHA1_Hash = hash_block SHA1_compress"
definition RT_SHA1_Append :: "hash_ctx \<Rightarrow> byte list \<Rightarrow> hash_ctx option" where "RT_SHA1_Append = ctx_append RT_SHA1_Hash"
definition RT_SHA1_End :: "hash_ctx \<Rightarrow> byte list option" where "RT_SHA1_End = hash_end RT_SHA1_Hash put_be64 put_be32"

definition RT_SHA1 :: "byte list \<Rightarrow> byte list option" where
  "RT_SHA1 Message = Option.bind (RT_SHA1_Append RT_SHA1_Init Message) RT_SHA1_End"

section \<open>SHA-256\<close>

type_synonym vars8 = "32 word \<times> 32 word \<times> 32 word \<times> 32 word \<times> 32 word \<times> 32 word \<times> 32 word \<times> 32 word"

text \<open>One turn of the loop: the schedule is extended in the same turn.\<close>

definition SHA256_extend :: "nat \<Rightarrow> 32 word list \<Rightarrow> 32 word list" where
  "SHA256_extend t W = (if t > 15
     then W @ [Sigma_256_1 (W ! (t - 2)) + W ! (t - 7) + Sigma_256_0 (W ! (t - 15)) + W ! (t - 16)] else W)"

fun SHA256_round :: "32 word \<Rightarrow> 32 word \<Rightarrow> vars8 \<Rightarrow> vars8" where
  "SHA256_round K Wt (a, b, c, d, e, f, g, h) =
    (let T1 = h + Zsigma_256_1 e + Ch e f g + K + Wt; T2 = Zsigma_256_0 a + Maj a b c
     in (T1 + T2, a, b, c, d + T1, e, f, g))"

definition SHA256_turn :: "nat \<Rightarrow> 32 word list \<times> vars8 \<Rightarrow> 32 word list \<times> vars8" where
  "SHA256_turn t = (\<lambda>(W, s). let W' = SHA256_extend t W in (W', SHA256_round (SHA256_K ! t) (W' ! t) s))"

definition SHA256_compress :: "32 word list \<Rightarrow> byte list \<Rightarrow> 32 word list" where
  "SHA256_compress H B =
    (let (W, a, b, c, d, e, f, g, h) = fold SHA256_turn [0..<64]
           (block_words be32 B, H ! 0, H ! 1, H ! 2, H ! 3, H ! 4, H ! 5, H ! 6, H ! 7)
     in [H ! 0 + a, H ! 1 + b, H ! 2 + c, H ! 3 + d, H ! 4 + e, H ! 5 + f, H ! 6 + g, H ! 7 + h])"

definition RT_SHA256_Init :: hash_ctx where "RT_SHA256_Init = hash_init SHA256_DefaultHashValue"
definition RT_SHA256_Hash :: "hash_ctx \<Rightarrow> hash_ctx" where "RT_SHA256_Hash = hash_block SHA256_compress"
definition RT_SHA256_Append :: "hash_ctx \<Rightarrow> byte list \<Rightarrow> hash_ctx option" where
  "RT_SHA256_Append = ctx_append RT_SHA256_Hash"
definition RT_SHA256_End :: "hash_ctx \<Rightarrow> byte list option" where
  "RT_SHA256_End = hash_end RT_SHA256_Hash put_be64 put_be32"

definition RT_SHA256 :: "byte list \<Rightarrow> byte list option" where
  "RT_SHA256 Message = Option.bind (RT_SHA256_Append RT_SHA256_Init Message) RT_SHA256_End"

end
