(* ===== verification/Md5.thy ===== *)
theory Md5
  imports HashCtx
begin

text \<open>MD5 of common/crypt_md5.c. The 64 lines of \<open>RT_MD5_Hash\<close> are a table of the index of the
  message word, the rotation and the constant of each line; from line to line the four variables
  move one place, which is the order of the arguments of the macros.\<close>

definition MD5_F :: "32 word \<Rightarrow> 32 word \<Rightarrow> 32 word \<Rightarrow> 32 word" where "MD5_F x y z = ((x AND y) OR ((NOT x) AND z))"
definition MD5_G :: "32 word \<Rightarrow> 32 word \<Rightarrow> 32 word \<Rightarrow> 32 word" where "MD5_G x y z = ((x AND z) OR (y AND (NOT z)))"
definition MD5_H :: "32 word \<Rightarrow> 32 word \<Rightarrow> 32 word \<Rightarrow> 32 word" where "MD5_H x y z = (x XOR y XOR z)"
definition MD5_I :: "32 word \<Rightarrow> 32 word \<Rightarrow> 32 word \<Rightarrow> 32 word" where "MD5_I x y z = (y XOR (x OR (NOT z)))"

definition MD5_DefaultHashValue :: "32 word list" where
  "MD5_DefaultHashValue = [0x67452301, 0xefcdab89, 0x98badcfe, 0x10325476]"

text \<open>The arguments \<open>k\<close>, \<open>s\<close> and \<open>ac\<close> of the 64 lines.\<close>

definition MD5_lines :: "(nat \<times> nat \<times> 32 word) list" where
  "MD5_lines = [
     (0, 7, 0xd76aa478), (1, 12, 0xe8c7b756), (2, 17, 0x242070db), (3, 22, 0xc1bdceee),
     (4, 7, 0xf57c0faf), (5, 12, 0x4787c62a), (6, 17, 0xa8304613), (7, 22, 0xfd469501),
     (8, 7, 0x698098d8), (9, 12, 0x8b44f7af), (10, 17, 0xffff5bb1), (11, 22, 0x895cd7be),
     (12, 7, 0x6b901122), (13, 12, 0xfd987193), (14, 17, 0xa679438e), (15, 22, 0x49b40821),
     (1, 5, 0xf61e2562), (6, 9, 0xc040b340), (11, 14, 0x265e5a51), (0, 20, 0xe9b6c7aa),
     (5, 5, 0xd62f105d), (10, 9, 0x2441453), (15, 14, 0xd8a1e681), (4, 20, 0xe7d3fbc8),
     (9, 5, 0x21e1cde6), (14, 9, 0xc33707d6), (3, 14, 0xf4d50d87), (8, 20, 0x455a14ed),
     (13, 5, 0xa9e3e905), (2, 9, 0xfcefa3f8), (7, 14, 0x676f02d9), (12, 20, 0x8d2a4c8a),
     (5, 4, 0xfffa3942), (8, 11, 0x8771f681), (11, 16, 0x6d9d6122), (14, 23, 0xfde5380c),
     (1, 4, 0xa4beea44), (4, 11, 0x4bdecfa9), (7, 16, 0xf6bb4b60), (10, 23, 0xbebfbc70),
     (13, 4, 0x289b7ec6), (0, 11, 0xeaa127fa), (3, 16, 0xd4ef3085), (6, 23, 0x4881d05),
     (9, 4, 0xd9d4d039), (12, 11, 0xe6db99e5), (15, 16, 0x1fa27cf8), (2, 23, 0xc4ac5665),
     (0, 6, 0xf4292244), (7, 10, 0x432aff97), (14, 15, 0xab9423a7), (5, 21, 0xfc93a039),
     (12, 6, 0x655b59c3), (3, 10, 0x8f0ccc92), (10, 15, 0xffeff47d), (1, 21, 0x85845dd1),
     (8, 6, 0x6fa87e4f), (15, 10, 0xfe2ce6e0), (6, 15, 0xa3014314), (13, 21, 0x4e0811a1),
     (4, 6, 0xf7537e82), (11, 10, 0xbd3af235), (2, 15, 0x2ad7d2bb), (9, 21, 0xeb86d391)]"

type_synonym vars4 = "32 word \<times> 32 word \<times> 32 word \<times> 32 word"

text \<open>One line, with the variables moved on for the next one.\<close>

fun MD5_ROUND :: "(32 word \<Rightarrow> 32 word \<Rightarrow> 32 word \<Rightarrow> 32 word) \<Rightarrow> 32 word list \<Rightarrow> nat \<times> nat \<times> 32 word \<Rightarrow> vars4 \<Rightarrow> vars4" where
  "MD5_ROUND f X (k, s, ac) (a, b, c, d) = (d, ROTL32 (a + (f b c d + X ! k + ac)) s + b, b, c)"

definition MD5_compress :: "32 word list \<Rightarrow> byte list \<Rightarrow> 32 word list" where
  "MD5_compress H B =
    (let X = block_words le32 B;
         s0 = (H ! 0, H ! 1, H ! 2, H ! 3);
         s1 = fold (MD5_ROUND MD5_F X) (take 16 MD5_lines) s0;
         s2 = fold (MD5_ROUND MD5_G X) (take 16 (drop 16 MD5_lines)) s1;
         s3 = fold (MD5_ROUND MD5_H X) (take 16 (drop 32 MD5_lines)) s2;
         (a, b, c, d) = fold (MD5_ROUND MD5_I X) (take 16 (drop 48 MD5_lines)) s3
     in [H ! 0 + a, H ! 1 + b, H ! 2 + c, H ! 3 + d])"

definition RT_MD5_Init :: hash_ctx where "RT_MD5_Init = hash_init MD5_DefaultHashValue"
definition RT_MD5_Hash :: "hash_ctx \<Rightarrow> hash_ctx" where "RT_MD5_Hash = hash_block MD5_compress"
definition RT_MD5_Append :: "hash_ctx \<Rightarrow> byte list \<Rightarrow> hash_ctx option" where "RT_MD5_Append = ctx_append RT_MD5_Hash"
definition RT_MD5_End :: "hash_ctx \<Rightarrow> byte list option" where "RT_MD5_End = hash_end RT_MD5_Hash put_le64 put_le32"

definition RT_MD5 :: "byte list \<Rightarrow> byte list option" where
  "RT_MD5 Message = Option.bind (RT_MD5_Append RT_MD5_Init Message) RT_MD5_End"

end
