(* ===== verification/HashSpec.thy ===== *)
theory HashSpec
  imports Sha2 Md5
begin

text \<open>What a hash function of the driver computes: the message is padded as the standards say and
  the block function is folded over its 64-byte blocks, however the message was cut into calls of
  Append. The three functions share one contract.\<close>

section \<open>The specification\<close>

fun blocks :: "byte list \<Rightarrow> byte list list" where
  "blocks xs = (if length xs < 64 then [] else take 64 xs # blocks (drop 64 xs))"

declare blocks.simps [simp del]

definition pad_message :: "(64 word \<Rightarrow> byte list) \<Rightarrow> byte list \<Rightarrow> byte list" where
  "pad_message put64 m =
    m @ [0x80] @ replicate ((119 - length m mod 64) mod 64) 0 @ put64 (of_nat (8 * length m))"

definition digest ::
  "(32 word list \<Rightarrow> byte list \<Rightarrow> 32 word list) \<Rightarrow> 32 word list \<Rightarrow> (64 word \<Rightarrow> byte list) \<Rightarrow> (32 word \<Rightarrow> byte list)
    \<Rightarrow> byte list \<Rightarrow> byte list" where
  "digest compress H0 put64 put32 m = concat (map put32 (foldl compress H0 (blocks (pad_message put64 m))))"

text \<open>A message given in pieces.\<close>

fun append_all :: "(hash_ctx \<Rightarrow> byte list \<Rightarrow> hash_ctx option) \<Rightarrow> hash_ctx \<Rightarrow> byte list list \<Rightarrow> hash_ctx option" where
  "append_all app c [] = Some c"
| "append_all app c (x # xs) = Option.bind (app c x) (\<lambda>c'. append_all app c' xs)"

lemma blocks_short [simp]: "length xs < 64 \<Longrightarrow> blocks xs = []"
  by (simp add: blocks.simps)

lemma blocks_one: "length xs = 64 \<Longrightarrow> blocks (xs @ ys) = xs # blocks ys"
  by (subst blocks.simps) simp

lemma blocks_append: "64 dvd length f \<Longrightarrow> blocks (f @ r) = blocks f @ blocks r"
proof (induction f rule: blocks.induct)
  case (1 xs)
  show ?case
  proof (cases "length xs < 64")
    case True
    then have "xs = []" using 1(2) by (auto dest: dvd_imp_le)
    then show ?thesis by simp
  next
    case False
    moreover have "64 dvd length (drop 64 xs)" using 1(2) False by (simp add: dvd_diff_nat)
    ultimately show ?thesis
      using 1(1) by (subst (1 2) blocks.simps) simp
  qed
qed

lemma put_bytes_block:
  assumes "length r + length s \<le> 64"
  shows "put_bytes (r @ replicate (64 - length r) 0) (length r) s = Some (r @ s @ replicate (64 - length r - length s) 0)"
  using assms by (simp add: put_bytes_def)

section \<open>The contract\<close>

locale block_hash =
  fixes compress :: "32 word list \<Rightarrow> byte list \<Rightarrow> 32 word list" and H0 :: "32 word list"
    and put64 :: "64 word \<Rightarrow> byte list" and put32 :: "32 word \<Rightarrow> byte list" and size :: nat
  assumes put64_length: "length (put64 w) = 8"
    and put32_length: "length (put32 v) = 4"
    and H0_length: "length H0 = size"
    and compress_length: "length H = size \<Longrightarrow> length (compress H B) = size"
    and digest_fits: "size \<le> 16"
begin

text \<open>The context after the message \<open>m\<close>: full blocks are hashed, the rest is in the block.\<close>

definition absorbed :: "hash_ctx \<Rightarrow> byte list \<Rightarrow> bool" where
  "absorbed c m \<longleftrightarrow> (\<exists>f r. m = f @ r \<and> 64 dvd length f \<and> length r < 64 \<and> HashValue c = foldl compress H0 (blocks f) \<and>
     hc_Block c = r @ replicate (64 - length r) 0 \<and> hc_BlockLen c = length r)"

lemma absorbed_init: "absorbed (hash_init H0) []"
  by (auto simp: absorbed_def hash_init_def)

lemma append_loop_absorbs:
  "absorbed c m \<Longrightarrow> length x + 64 < 2 ^ 32 \<Longrightarrow>
    \<exists>c'. append_loop (hash_block compress) c x = Some c' \<and> absorbed c' (m @ x) \<and> hc_MessageLen c' = hc_MessageLen c"
proof (induction "length x" arbitrary: c m x rule: less_induct)
  case less
  obtain f r where c: "m = f @ r" "64 dvd length f" "length r < 64" "HashValue c = foldl compress H0 (blocks f)"
    "hc_Block c = r @ replicate (64 - length r) 0" "hc_BlockLen c = length r"
    using less.prems(1) by (auto simp: absorbed_def)
  have nowrap: "UINT_add (length r) (length x) = length r + length x"
    using less.prems(2) c(3) by (simp add: UINT_add_def)
  show ?case
  proof (cases "x = []")
    case True
    then show ?thesis using less.prems by (simp add: append_loop.simps)
  next
    case ne: False
    show ?thesis
    proof (cases "length r + length x < 64")
      case True
      let ?c = "c\<lparr>hc_Block := r @ x @ replicate (64 - length r - length x) 0, hc_BlockLen := length r + length x\<rparr>"
      have "append_loop (hash_block compress) c x = append_loop (hash_block compress) ?c []"
        using ne True c(5,6) nowrap by (subst append_loop.simps) (simp add: put_bytes_block)
      moreover have "append_loop (hash_block compress) ?c [] = Some ?c" by (simp add: append_loop.simps)
      moreover have "absorbed ?c (m @ x)"
        unfolding absorbed_def using True c by (intro exI[of _ f] exI[of _ "r @ x"]) simp
      ultimately show ?thesis by simp
    next
      case False
      let ?k = "64 - length r"
      let ?b = "r @ take ?k x"
      let ?c = "hash_block compress (c\<lparr>hc_Block := ?b, hc_BlockLen := 64\<rparr>)"
      have k: "length (take ?k x) = ?k" "length ?b = 64" using False c(3) by auto
      have step: "append_loop (hash_block compress) c x = append_loop (hash_block compress) ?c (drop ?k x)"
        using ne False c(3,5,6) nowrap k put_bytes_block[of r "take ?k x"] by (subst append_loop.simps) simp
      have "blocks (f @ ?b) = blocks f @ [?b]" using blocks_append[OF c(2), of ?b] blocks_one[OF k(2), of "[]"] by simp
      moreover have "64 dvd length (f @ ?b)" using c(2) k(2) by (simp del: length_take)
      ultimately have "absorbed ?c (m @ take ?k x)"
        unfolding absorbed_def using c by (intro exI[of _ "f @ ?b"] exI[of _ "[]"]) (simp add: hash_block_def)
      moreover have "length (drop ?k x) < length x"
      proof -
        have "0 < length x" "0 < ?k" using ne c(3) by auto
        then show ?thesis by (simp only: length_drop diff_less)
      qed
      moreover have "length (drop ?k x) + 64 < 2 ^ 32" using less.prems(2) by simp
      ultimately obtain c' where "append_loop (hash_block compress) ?c (drop ?k x) = Some c'"
        "absorbed c' ((m @ take ?k x) @ drop ?k x)" "hc_MessageLen c' = hc_MessageLen ?c"
        using less.hyps[of "drop ?k x" ?c "m @ take ?k x"] by blast
      then show ?thesis using step by (simp add: hash_block_def)
    qed
  qed
qed

lemma append_all_absorbs:
  "absorbed c m \<Longrightarrow> hc_MessageLen c = of_nat (length m) \<Longrightarrow> \<forall>x \<in> set xs. length x + 64 < 2 ^ 32 \<Longrightarrow>
    \<exists>c'. append_all (ctx_append (hash_block compress)) c xs = Some c' \<and> absorbed c' (m @ concat xs) \<and>
      hc_MessageLen c' = of_nat (length (m @ concat xs))"
proof (induction xs arbitrary: c m)
  case (Cons x xs)
  obtain c1 where c1: "append_loop (hash_block compress) c x = Some c1" "absorbed c1 (m @ x)"
    "hc_MessageLen c1 = hc_MessageLen c"
    using append_loop_absorbs[OF Cons.prems(1), of x] Cons.prems(3) by auto
  let ?c = "c1\<lparr>hc_MessageLen := hc_MessageLen c1 + of_nat (length x)\<rparr>"
  have "absorbed ?c (m @ x)" using c1(2) by (simp add: absorbed_def)
  then show ?case
    using Cons.IH[of ?c "m @ x"] Cons.prems(2,3) c1 by (simp add: ctx_append_def)
qed simp

lemma end_of_absorbed:
  assumes "absorbed c m" "hc_MessageLen c = of_nat (length m)"
  shows "hash_end (hash_block compress) put64 put32 c = Some (digest compress H0 put64 put32 m)"
proof -
  obtain f r where c: "m = f @ r" "64 dvd length f" "length r < 64" "HashValue c = foldl compress H0 (blocks f)"
    "hc_Block c = r @ replicate (64 - length r) 0" "hc_BlockLen c = length r"
    using assms(1) by (auto simp: absorbed_def)
  let ?b = "r @ [0x80] @ replicate (63 - length r) 0"
  let ?l = "put64 (of_nat (8 * length m))"
  have b: "put_bytes (hc_Block c) (hc_BlockLen c) [0x80] = Some ?b" "length ?b = 64"
    using c(3,5,6) put_bytes_block[of r "[0x80]"] by simp_all
  have l: "hc_MessageLen c * 8 = of_nat (8 * length m)" using assms(2) by (simp add: mult.commute)
  have mod: "length m mod 64 = length r" using c(1-3) by (auto elim!: dvdE)
  have pad: "blocks (pad_message put64 m) = blocks f @ blocks (r @ [0x80] @ replicate ((119 - length r) mod 64) 0 @ put64 (of_nat (8 * length (f @ r))))"
    unfolding pad_message_def mod unfolding c(1) append.assoc by (rule blocks_append[OF c(2)])
  show ?thesis
  proof (cases "length r > 55")
    case True
    let ?z = "replicate 56 (0 :: byte)"
    have "put_bytes (replicate 64 0) 56 ?l = Some (?z @ ?l)" by (simp add: put_bytes_def put64_length)
    then have run: "hash_end (hash_block compress) put64 put32 c = Some (concat (map put32 (compress (compress (HashValue c) ?b) (?z @ ?l))))"
      using True b c(6) by (simp add: hash_end_def Let_def hash_block_def l)
    have e: "(119 - length r) mod 64 = (63 - length r) + 56" using True c(3) by simp
    have "replicate ((119 - length r) mod 64) (0 :: byte) = replicate (63 - length r) 0 @ ?z"
      unfolding e by (rule replicate_add)
    then have "r @ [0x80] @ replicate ((119 - length r) mod 64) 0 @ ?l = ?b @ (?z @ ?l)" by simp
    then have "blocks (r @ [0x80] @ replicate ((119 - length r) mod 64) 0 @ ?l) = [?b, ?z @ ?l]"
      using blocks_one[OF b(2), of "?z @ ?l"] blocks_one[of "?z @ ?l" "[]"] put64_length by simp
    then show ?thesis unfolding run digest_def pad using c(4) unfolding c(1) by simp
  next
    case False
    let ?b2 = "r @ [0x80] @ replicate (55 - length r) 0 @ ?l"
    have "take 56 ?b = r @ [0x80] @ replicate (55 - length r) 0" using False by (simp add: take_Cons')
    moreover have "drop 64 ?b = []" using b(2) by simp
    ultimately have "put_bytes ?b 56 ?l = Some ?b2" using b(2) put64_length by (simp add: put_bytes_def)
    then have run: "hash_end (hash_block compress) put64 put32 c = Some (concat (map put32 (compress (HashValue c) ?b2)))"
      using False b c(6) by (simp add: hash_end_def Let_def hash_block_def l)
    have e: "(119 - length r) mod 64 = 55 - length r"
    proof -
      have "119 - length r = 64 + (55 - length r)" using False by simp
      then have "(119 - length r) mod 64 = (55 - length r) mod 64" by (simp only: mod_add_self1)
      then show ?thesis by simp
    qed
    have "length ?b2 = 64" using False put64_length by simp
    then have "blocks ?b2 = [?b2]" using blocks_one[of ?b2 "[]"] by simp
    then show ?thesis unfolding run digest_def pad e using c(4) unfolding c(1) by simp
  qed
qed

text \<open>However the message is cut into pieces, the digest is that of the whole message.\<close>

lemma pieces:
  assumes "\<forall>x \<in> set xs. length x + 64 < 2 ^ 32"
  shows "Option.bind (append_all (ctx_append (hash_block compress)) (hash_init H0) xs)
      (hash_end (hash_block compress) put64 put32) = Some (digest compress H0 put64 put32 (concat xs))"
proof -
  have "hc_MessageLen (hash_init H0) = of_nat (length ([] :: byte list))" by (simp add: hash_init_def)
  from append_all_absorbs[OF absorbed_init this assms] obtain c where
    "append_all (ctx_append (hash_block compress)) (hash_init H0) xs = Some c" "absorbed c (concat xs)"
    "hc_MessageLen c = of_nat (length (concat xs))" by auto
  then show ?thesis using end_of_absorbed by simp
qed

lemma fold_size: "length H = size \<Longrightarrow> length (foldl compress H bs) = size"
  by (induction bs arbitrary: H) (simp_all add: compress_length)

lemma digest_length: "length (digest compress H0 put64 put32 m) = 4 * size"
proof -
  have "length (concat (map put32 ws)) = 4 * length ws" for ws
    by (induction ws) (simp_all add: put32_length)
  then show ?thesis by (simp add: digest_def fold_size H0_length)
qed

end

section \<open>The three functions\<close>

interpretation sha1: block_hash SHA1_compress SHA1_DefaultHashValue put_be64 put_be32 5
  by unfold_locales
    (simp_all add: put_be64_def put_be32_def SHA1_DefaultHashValue_def SHA1_compress_def Let_def split: prod.split)

interpretation sha256: block_hash SHA256_compress SHA256_DefaultHashValue put_be64 put_be32 8
  by unfold_locales
    (simp_all add: put_be64_def put_be32_def SHA256_DefaultHashValue_def SHA256_compress_def Let_def split: prod.split)

interpretation md5: block_hash MD5_compress MD5_DefaultHashValue put_le64 put_le32 4
  by unfold_locales
    (simp_all add: put_le64_def put_le32_def MD5_DefaultHashValue_def MD5_compress_def Let_def split: prod.split)

abbreviation SHA1_digest :: "byte list \<Rightarrow> byte list" where
  "SHA1_digest \<equiv> digest SHA1_compress SHA1_DefaultHashValue put_be64 put_be32"
abbreviation SHA256_digest :: "byte list \<Rightarrow> byte list" where
  "SHA256_digest \<equiv> digest SHA256_compress SHA256_DefaultHashValue put_be64 put_be32"
abbreviation MD5_digest :: "byte list \<Rightarrow> byte list" where
  "MD5_digest \<equiv> digest MD5_compress MD5_DefaultHashValue put_le64 put_le32"

end
