(* ===== verification/Hmac.thy ===== *)
theory Hmac
  imports HashSpec
begin

text \<open>The keyed hashes of common/crypt_hmac.c: the three copies of the code differ in the hash
  function alone. They are HMAC of RFC 2104 for every hash function that honours its contract.\<close>

section \<open>The code\<close>

definition hmac_K0 :: "(byte list \<Rightarrow> byte list option) \<Rightarrow> byte list \<Rightarrow> byte list option" where
  "hmac_K0 oneshot Key =
    (if length Key \<le> 64 then put_bytes (replicate 64 0) 0 Key
     else Option.bind (oneshot Key) (put_bytes (replicate 64 0) 0))"

definition hmac_pass :: "hash_ctx \<Rightarrow> (hash_ctx \<Rightarrow> byte list \<Rightarrow> hash_ctx option) \<Rightarrow> (hash_ctx \<Rightarrow> byte list option) \<Rightarrow>
    byte list \<Rightarrow> byte list \<Rightarrow> byte list option" where
  "hmac_pass init app fin K0 Message =
    Option.bind (app init K0) (\<lambda>c. Option.bind (app c Message) fin)"

definition hmac :: "hash_ctx \<Rightarrow> (hash_ctx \<Rightarrow> byte list \<Rightarrow> hash_ctx option) \<Rightarrow> (hash_ctx \<Rightarrow> byte list option) \<Rightarrow>
    (byte list \<Rightarrow> byte list option) \<Rightarrow> byte list \<Rightarrow> byte list \<Rightarrow> byte list option" where
  "hmac init app fin oneshot Key Message =
    (case hmac_K0 oneshot Key of
       None \<Rightarrow> None
     | Some K \<Rightarrow>
       (let K1 = map (\<lambda>b. b XOR 0x36) K in
        case hmac_pass init app fin K1 Message of
          None \<Rightarrow> None
        | Some Digest \<Rightarrow>
          (let K2 = map (\<lambda>b. b XOR (0x36 XOR 0x5c)) K1 in hmac_pass init app fin K2 Digest)))"

text \<open>What is written to \<open>MAC\<close>.\<close>

definition RT_HMAC_SHA1 :: "byte list \<Rightarrow> byte list \<Rightarrow> nat \<Rightarrow> byte list option" where
  "RT_HMAC_SHA1 Key Message MACLen =
    map_option (take (if MACLen > 20 then 20 else MACLen)) (hmac RT_SHA1_Init RT_SHA1_Append RT_SHA1_End RT_SHA1 Key Message)"

definition RT_HMAC_SHA256 :: "byte list \<Rightarrow> byte list \<Rightarrow> nat \<Rightarrow> byte list option" where
  "RT_HMAC_SHA256 Key Message MACLen =
    map_option (take (if MACLen > 32 then 32 else MACLen))
      (hmac RT_SHA256_Init RT_SHA256_Append RT_SHA256_End RT_SHA256 Key Message)"

definition RT_HMAC_MD5 :: "byte list \<Rightarrow> byte list \<Rightarrow> nat \<Rightarrow> byte list option" where
  "RT_HMAC_MD5 Key Message MACLen =
    map_option (take (if MACLen > 16 then 16 else MACLen)) (hmac RT_MD5_Init RT_MD5_Append RT_MD5_End RT_MD5 Key Message)"

section \<open>The specification\<close>

definition rfc2104_key :: "(byte list \<Rightarrow> byte list) \<Rightarrow> byte list \<Rightarrow> byte list" where
  "rfc2104_key H K = (let k = (if length K > 64 then H K else K) in k @ replicate (64 - length k) 0)"

definition rfc2104 :: "(byte list \<Rightarrow> byte list) \<Rightarrow> byte list \<Rightarrow> byte list \<Rightarrow> byte list" where
  "rfc2104 H K m =
    H (map (\<lambda>b. b XOR 0x5c) (rfc2104_key H K) @ H (map (\<lambda>b. b XOR 0x36) (rfc2104_key H K) @ m))"

text \<open>What HMAC relies on: a message given in pieces is hashed as a whole.\<close>

locale hash_service =
  fixes init :: hash_ctx and app :: "hash_ctx \<Rightarrow> byte list \<Rightarrow> hash_ctx option" and fin :: "hash_ctx \<Rightarrow> byte list option"
    and H :: "byte list \<Rightarrow> byte list" and L :: nat
  assumes hash_pieces: "\<forall>x \<in> set xs. length x + 64 < 2 ^ 32 \<Longrightarrow> Option.bind (append_all app init xs) fin = Some (H (concat xs))"
    and hash_length: "length (H m) = L"
    and short_digest: "L \<le> 64"
begin

lemma oneshot: "length m + 64 < 2 ^ 32 \<Longrightarrow> Option.bind (app init m) fin = Some (H m)"
  using hash_pieces[of "[m]"] by simp

lemma pass:
  "length K = 64 \<Longrightarrow> length m + 64 < 2 ^ 32 \<Longrightarrow> hmac_pass init app fin K m = Some (H (K @ m))"
  using hash_pieces[of "[K, m]"] by (simp add: hmac_pass_def)

lemma K0_key:
  assumes "length K + 64 < 2 ^ 32"
  shows "hmac_K0 (\<lambda>m. Option.bind (app init m) fin) K = Some (rfc2104_key H K)"
  using assms short_digest by (simp add: hmac_K0_def rfc2104_key_def oneshot put_bytes_def hash_length Let_def)

lemma key_length: "length (rfc2104_key H K) = 64"
  using short_digest by (simp add: rfc2104_key_def Let_def hash_length)

lemma hmac_rfc2104:
  assumes "length K + 64 < 2 ^ 32" "length m + 64 < 2 ^ 32"
  shows "hmac init app fin (\<lambda>m. Option.bind (app init m) fin) K m = Some (rfc2104 H K m)"
proof -
  have x: "map (\<lambda>b. b XOR (0x36 XOR 0x5c)) (map (\<lambda>b. b XOR 0x36) k) = map (\<lambda>b. b XOR 0x5c) k" for k :: "byte list"
  proof -
    have "(b XOR 0x36) XOR (0x36 XOR 0x5c) = b XOR (0x36 XOR 0x36) XOR 0x5c" for b :: byte by (simp only: xor.assoc)
    then have "(b XOR 0x36) XOR (0x36 XOR 0x5c) = b XOR 0x5c" for b :: byte by simp
    then show ?thesis by simp
  qed
  have d: "length (H y) + 64 < 2 ^ 32" for y using short_digest by (simp add: hash_length)
  show ?thesis
    using assms by (simp only: hmac_def K0_key option.case Let_def pass key_length length_map x d rfc2104_def)
qed

lemma rfc2104_length: "length (rfc2104 H K m) = L" by (simp add: rfc2104_def hash_length)

end

sublocale block_hash \<subseteq> service: hash_service "hash_init H0" "ctx_append (hash_block compress)"
  "hash_end (hash_block compress) put64 put32" "digest compress H0 put64 put32" "4 * size"
  using pieces digest_length digest_fits by unfold_locales simp_all

lemmas sha1_code = RT_SHA1_Init_def RT_SHA1_Hash_def RT_SHA1_Append_def RT_SHA1_End_def
lemmas sha256_code = RT_SHA256_Init_def RT_SHA256_Hash_def RT_SHA256_Append_def RT_SHA256_End_def
lemmas md5_code = RT_MD5_Init_def RT_MD5_Hash_def RT_MD5_Append_def RT_MD5_End_def

lemma HMAC_SHA1:
  "length K + 64 < 2 ^ 32 \<Longrightarrow> length m + 64 < 2 ^ 32 \<Longrightarrow>
    RT_HMAC_SHA1 K m n = Some (take n (rfc2104 SHA1_digest K m))"
  using sha1.service.hmac_rfc2104[of K m] sha1.service.rfc2104_length[of K m]
  by (simp add: RT_HMAC_SHA1_def sha1_code RT_SHA1_def[abs_def])

lemma HMAC_SHA256:
  "length K + 64 < 2 ^ 32 \<Longrightarrow> length m + 64 < 2 ^ 32 \<Longrightarrow>
    RT_HMAC_SHA256 K m n = Some (take n (rfc2104 SHA256_digest K m))"
  using sha256.service.hmac_rfc2104[of K m] sha256.service.rfc2104_length[of K m]
  by (simp add: RT_HMAC_SHA256_def sha256_code RT_SHA256_def[abs_def])

lemma HMAC_MD5:
  "length K + 64 < 2 ^ 32 \<Longrightarrow> length m + 64 < 2 ^ 32 \<Longrightarrow>
    RT_HMAC_MD5 K m n = Some (take n (rfc2104 MD5_digest K m))"
  using md5.service.hmac_rfc2104[of K m] md5.service.rfc2104_length[of K m]
  by (simp add: RT_HMAC_MD5_def md5_code RT_MD5_def[abs_def])

end
