(* ===== verification/WpaKeys.thy ===== *)
theory WpaKeys
  imports Hmac
begin

text \<open>The key derivation of common/cmm_wpa.c: the packet number counter, the pseudo random function, the
  passphrase hash, the KDF of 802.11r, and the PMKID, PTK and GTK built with them. The output buffers
  are arguments: the routines write whole hash blocks into them. \<open>None\<close> is an access outside a
  buffer, and \<open>mem\<close> tells whether the scratch buffer can be allocated.\<close>

section \<open>The packet number counter\<close>

text \<open>The loop of \<open>inc_iv_byte\<close> from position \<open>pos\<close> on, with its carry flag.\<close>

fun inc_iv_loop :: "bool \<Rightarrow> 32 word \<Rightarrow> byte list \<Rightarrow> byte list" where
  "inc_iv_loop carry cnt [] = []"
| "inc_iv_loop carry cnt (pre_iv # iv) =
    (let b = (if carry then pre_iv + 1 else pre_iv + ucast cnt)
     in if b > pre_iv then b # iv else b # inc_iv_loop True cnt iv)"

definition inc_iv_byte :: "byte list \<Rightarrow> nat \<Rightarrow> 32 word \<Rightarrow> byte list" where
  "inc_iv_byte iv len cnt = inc_iv_loop False cnt (take len iv) @ drop len iv"

section \<open>The pseudo random function\<close>

definition char_bytes :: "string \<Rightarrow> byte list" where "char_bytes s = map of_char s"

text \<open>The rounds of a block loop: \<open>block i\<close> is the hash of round \<open>i\<close>, written at \<open>currentindex\<close>.\<close>

fun block_rounds :: "(nat \<Rightarrow> byte list option) \<Rightarrow> nat \<Rightarrow> nat list \<Rightarrow> byte list \<Rightarrow> byte list option" where
  "block_rounds block currentindex [] output = Some output"
| "block_rounds block currentindex (i # is) output =
    Option.bind (block i) (\<lambda>d. Option.bind (put_bytes output currentindex d)
      (block_rounds block (currentindex + length d) is))"

definition PRF :: "bool \<Rightarrow> byte list \<Rightarrow> byte list \<Rightarrow> byte list \<Rightarrow> byte list \<Rightarrow> nat \<Rightarrow> byte list option" where
  "PRF mem key prefix data output len =
    (if \<not> mem then Some output
     else if length prefix + 1 + length data + 1 > 1024 then None
     else block_rounds (\<lambda>i. RT_HMAC_SHA1 key (prefix @ [0] @ data @ [of_nat i]) 20) 0
       [0..<(len + 19) div 20] output)"

section \<open>The passphrase\<close>

definition xor_list :: "byte list \<Rightarrow> byte list \<Rightarrow> byte list" where "xor_list = map2 (XOR)"

fun F_loop :: "byte list \<Rightarrow> nat \<Rightarrow> byte list \<Rightarrow> byte list \<Rightarrow> byte list option" where
  "F_loop password 0 digest1 output = Some output"
| "F_loop password (Suc n) digest1 output =
    Option.bind (RT_HMAC_SHA1 password digest1 20) (\<lambda>digest. F_loop password n digest (xor_list output digest))"

text \<open>The digest buffer has 36 bytes: the SSID and the four bytes of the count.\<close>

definition F_psk :: "byte list \<Rightarrow> byte list \<Rightarrow> nat \<Rightarrow> nat \<Rightarrow> byte list option" where
  "F_psk password ssid iterations cnt =
    (if length ssid > 32 then None
     else Option.bind (RT_HMAC_SHA1 password (ssid @ put_be32 (of_nat cnt)) 20) (\<lambda>digest1.
       F_loop password (iterations - 1) digest1 digest1))"

text \<open>The result and the 40 bytes of the output.\<close>

definition RtmpPasswordHash :: "byte list \<Rightarrow> byte list \<Rightarrow> byte list \<Rightarrow> (int \<times> byte list) option" where
  "RtmpPasswordHash password ssid output =
    (if length password > 63 \<or> length ssid > 32 then Some (0, output)
     else Option.bind (F_psk password ssid 4096 1) (\<lambda>d1. Option.bind (put_bytes output 0 d1) (\<lambda>o1.
          Option.bind (F_psk password ssid 4096 2) (\<lambda>d2. Option.bind (put_bytes o1 20 d2) (\<lambda>o2. Some (1, o2))))))"

section \<open>KDF and PMKID\<close>

text \<open>\<open>len\<close> is a \<open>USHORT\<close>. The first octet counts the rounds from 1.\<close>

definition KDF :: "bool \<Rightarrow> byte list \<Rightarrow> byte list \<Rightarrow> byte list \<Rightarrow> byte list \<Rightarrow> 16 word \<Rightarrow> byte list option" where
  "KDF mem key label data output len =
    (let len_in_bits = unat len * 8 in
     if \<not> mem then Some output
     else if 2 + length label + length data + 2 > 1024 then None
     else block_rounds (\<lambda>i. RT_HMAC_SHA256 key
            ([of_nat i, 0] @ label @ data @ [of_nat len_in_bits, of_nat (len_in_bits div 256)]) 32) 0
          [1..<(len_in_bits + 255) div 256 + 1] output)"

definition PMK_LEN :: nat where "PMK_LEN = 32"
definition LEN_PMKID :: nat where "LEN_PMKID = 16"

definition RTMPDerivePMKID :: "byte list \<Rightarrow> byte list \<Rightarrow> byte list \<Rightarrow> byte list option" where
  "RTMPDerivePMKID pAaddr pSpaddr pKey =
    (if length pAaddr < 6 \<or> length pSpaddr < 6 \<or> length pKey < PMK_LEN then None
     else map_option (take LEN_PMKID)
       (RT_HMAC_SHA1 (take PMK_LEN pKey) (char_bytes ''PMK Name'' @ take 6 pAaddr @ take 6 pSpaddr) 20))"

section \<open>PTK, GTK and random numbers\<close>

text \<open>0, 1, 2 for equal, greater and less.\<close>

fun RTMPCompareMemory :: "byte list \<Rightarrow> byte list \<Rightarrow> nat \<Rightarrow> nat" where
  "RTMPCompareMemory (x # xs) (y # ys) (Suc n) = (if x > y then 1 else if x < y then 2 else RTMPCompareMemory xs ys n)"
| "RTMPCompareMemory xs ys n = 0"

text \<open>The 76 bytes the two stations agree on. For equal nonces the code copies the larger address,
  padded with zeros, in place of both.\<close>

definition ptk_concatenation :: "byte list \<Rightarrow> byte list \<Rightarrow> byte list \<Rightarrow> byte list \<Rightarrow> byte list" where
  "ptk_concatenation ANonce AA SNonce SA =
    (let small = (if RTMPCompareMemory SA AA 6 = 1 then take 6 AA else take 6 SA);
         large = (if RTMPCompareMemory SA AA 6 = 1 then take 6 SA else take 6 AA);
         temp = large @ replicate 26 0;
         n1 = (if RTMPCompareMemory ANonce SNonce 32 = 0 then temp
               else if RTMPCompareMemory ANonce SNonce 32 = 1 then take 32 SNonce else take 32 ANonce);
         n2 = (if RTMPCompareMemory ANonce SNonce 32 = 0 then temp
               else if RTMPCompareMemory ANonce SNonce 32 = 1 then take 32 ANonce else take 32 SNonce)
     in small @ large @ n1 @ n2)"

definition WpaDerivePTK ::
  "bool \<Rightarrow> byte list \<Rightarrow> byte list \<Rightarrow> byte list \<Rightarrow> byte list \<Rightarrow> byte list \<Rightarrow> byte list \<Rightarrow> nat \<Rightarrow> byte list option" where
  "WpaDerivePTK mem PMK ANonce AA SNonce SA output len =
    (if length PMK < 32 \<or> length ANonce < 32 \<or> length SNonce < 32 \<or> length AA < 6 \<or> length SA < 6 then None
     else PRF mem (take 32 PMK) (char_bytes ''Pairwise key expansion'') (ptk_concatenation ANonce AA SNonce SA) output len)"

text \<open>\<open>temp0\<close>: what the 80 bytes on the stack hold before.\<close>

definition WpaDeriveGTK ::
  "bool \<Rightarrow> byte list \<Rightarrow> byte list \<Rightarrow> byte list \<Rightarrow> byte list \<Rightarrow> byte list \<Rightarrow> nat \<Rightarrow> byte list option" where
  "WpaDeriveGTK mem temp0 GMK GNonce AA output len =
    (if length GMK < PMK_LEN \<or> length GNonce < 32 \<or> length AA < 6 \<or> length temp0 \<noteq> 80 then None
     else Option.bind (PRF mem (take PMK_LEN GMK) (char_bytes ''Group key expansion'') (take 6 AA @ take 32 GNonce) temp0 len)
       (\<lambda>temp. if len > 80 then None else put_bytes output 0 (take len temp)))"

text \<open>The 32 turns of \<open>GenRandom\<close>; \<open>clock\<close> gives the bytes of the system time at each turn, and the
  counter goes in as its two low bytes.\<close>

fun random_turns :: "bool \<Rightarrow> byte list \<Rightarrow> (nat \<times> byte list) list \<Rightarrow> byte list \<Rightarrow> byte list option" where
  "random_turns mem macAddr [] result = Some result"
| "random_turns mem macAddr ((i, CurrentTime) # ts) result =
    Option.bind (PRF mem (replicate 32 0) (char_bytes ''Init Counter'')
        (take 6 macAddr @ CurrentTime @ take 32 result @ [of_nat i, of_nat (i div 256)]) result 32)
      (random_turns mem macAddr ts)"

definition GenRandom :: "bool \<Rightarrow> byte list \<Rightarrow> (nat \<Rightarrow> byte list) \<Rightarrow> byte list option" where
  "GenRandom mem macAddr clock =
    map_option (take 32) (random_turns mem macAddr (map (\<lambda>i. (i, clock i)) [0..<32]) (replicate 80 0))"

section \<open>The counter counts\<close>

fun le_val :: "byte list \<Rightarrow> nat" where
  "le_val [] = 0"
| "le_val (b # bs) = unat b + 256 * le_val bs"

lemma le_val_bound: "le_val bs < 256 ^ length bs"
proof (induction bs)
  case (Cons b bs)
  have "unat b < 256" using unsigned_less[of b] by simp
  then have "unat b + 256 * le_val bs < 256 * (le_val bs + 1)" by simp
  also have "\<dots> \<le> 256 * 256 ^ length bs" using Cons by (simp del: mult_Suc_right)
  finally show ?case by simp
qed simp

lemma le_val_inj: "length xs = length ys \<Longrightarrow> le_val xs = le_val ys \<Longrightarrow> xs = ys"
proof (induction xs ys rule: list_induct2)
  case (Cons x xs y ys)
  have b: "unat x < 256" "unat y < 256" using unsigned_less[of x] unsigned_less[of y] by simp_all
  have "unat x = (unat x + 256 * le_val xs) mod 256" using b by simp
  also have "\<dots> = (unat y + 256 * le_val ys) mod 256" using Cons.prems by simp
  also have "\<dots> = unat y" using b by simp
  finally have "unat x = unat y" .
  then have "x = y" by (simp only: word_unat_eq_iff)
  then show ?case using Cons by simp
qed simp

text \<open>One byte of the addition.\<close>

lemma byte_add:
  assumes "0 < c" "c < 256"
  shows "b + of_nat c > b \<longleftrightarrow> unat b + c < 256"
    and "unat (b + of_nat c :: byte) = (if unat b + c < 256 then unat b + c else unat b + c - 256)"
proof -
  have b: "unat b < 256" using unsigned_less[of b] by simp
  have "unat (b + of_nat c) = (unat b + c) mod 256"
    using assms by (simp add: unat_word_ariths unat_of_nat mod_add_right_eq)
  then show u: "unat (b + of_nat c :: byte) = (if unat b + c < 256 then unat b + c else unat b + c - 256)"
    using assms b by (simp add: mod_if)
  show "b + of_nat c > b \<longleftrightarrow> unat b + c < 256"
    unfolding word_less_nat_alt u using assms b by (simp split: if_split) arith
qed

lemma inc_iv_val:
  assumes "0 < c" "c < 256"
  shows "le_val (inc_iv_loop carry (of_nat c) iv) = (le_val iv + (if carry then 1 else c)) mod 256 ^ length iv"
proof (induction iv arbitrary: carry)
  case (Cons b iv)
  let ?k = "if carry then 1 else c"
  let ?b = "if carry then b + 1 else b + ucast (of_nat c :: 32 word)"
  have k: "0 < ?k" "?k < 256" using assms by auto
  have "ucast (of_nat c :: 32 word) = (of_nat c :: byte)"
    by (rule bit_word_eqI) (auto simp: bit_simps)
  then have b: "?b = b + of_nat ?k" by simp
  note add = byte_add[OF k, of b]
  let ?P = "256 ^ length iv :: nat"
  have v: "le_val iv < ?P" by (rule le_val_bound)
  have ub: "unat b < 256" using unsigned_less[of b] by simp
  show ?case
  proof (cases "?b > b")
    case True
    then have "unat b + ?k < 256" "unat ?b = unat b + ?k" using add unfolding b by auto
    moreover have "unat b + ?k + 256 * le_val iv < 256 * ?P" using v calculation(1) by simp
    ultimately show ?thesis using True by (simp add: Let_def ac_simps)
  next
    case False
    then have o: "256 \<le> unat b + ?k" "unat ?b = unat b + ?k - 256" using add unfolding b by auto
    then have e: "unat b + 256 * le_val iv + ?k = unat ?b + 256 * (le_val iv + 1)" by simp
    have "(x + 256 * y) mod (256 * ?P) = x + 256 * (y mod ?P)" if "x < 256" for x y :: nat
      using that by (simp add: mod_mult2_eq)
    moreover have "unat ?b < 256" using unsigned_less[of ?b] by simp
    ultimately have "(unat ?b + 256 * (le_val iv + 1)) mod (256 * ?P) = unat ?b + 256 * ((le_val iv + 1) mod ?P)"
      by blast
    moreover have "le_val (inc_iv_loop carry (of_nat c) (b # iv)) = unat ?b + 256 * ((le_val iv + 1) mod ?P)"
      using False Cons[of True] by (simp add: Let_def)
    ultimately show ?thesis unfolding le_val.simps e by simp
  qed
qed simp

lemma inc_iv_length [simp]: "length (inc_iv_loop carry cnt iv) = length iv"
  by (induction iv arbitrary: carry) (simp_all add: Let_def)

lemma inc_iv_byte_val:
  assumes "0 < c" "c < 256"
  shows "le_val (inc_iv_byte iv (length iv) (of_nat c)) = (le_val iv + c) mod 256 ^ length iv"
    and "length (inc_iv_byte iv (length iv) (of_nat c)) = length iv"
  using inc_iv_val[OF assms, of False iv] by (simp_all add: inc_iv_byte_def)

text \<open>The number after \<open>n\<close> frames.\<close>

primrec packet_number :: "nat \<Rightarrow> byte list \<Rightarrow> nat \<Rightarrow> byte list" where
  "packet_number c iv 0 = iv"
| "packet_number c iv (Suc n) = inc_iv_byte (packet_number c iv n) (length iv) (of_nat c)"

lemma packet_number_val:
  assumes "0 < c" "c < 256"
  shows "length (packet_number c iv n) = length iv \<and>
    le_val (packet_number c iv n) = (le_val iv + n * c) mod 256 ^ length iv"
proof (induction n)
  case 0
  then show ?case using le_val_bound[of iv] by simp
next
  case (Suc n)
  let ?v = "packet_number c iv n"
  have "length ?v = length iv" "le_val ?v = (le_val iv + n * c) mod 256 ^ length iv" using Suc by simp_all
  moreover from this have "((le_val iv + n * c) mod 256 ^ length iv + c) mod 256 ^ length iv = (le_val iv + Suc n * c) mod 256 ^ length iv"
    by (simp only: mod_add_left_eq) (simp only: mult_Suc mult_Suc_right ac_simps)
  ultimately show ?case using inc_iv_byte_val[OF assms, of ?v] by simp
qed

section \<open>The block loops\<close>

lemma block_rounds_concat:
  assumes "\<forall>i \<in> set is. block i = Some (d i) \<and> length (d i) = L" "at + L * length is \<le> length out"
  shows "block_rounds block at is out =
    Some (take at out @ concat (map d is) @ drop (at + L * length is) out)"
  using assms
proof (induction "is" arbitrary: at out)
  case (Cons i "is")
  have d: "block i = Some (d i)" "length (d i) = L" using Cons.prems(1) by simp_all
  have L: "at + L + L * length is \<le> length out" using Cons.prems(2) by simp
  let ?o = "take at out @ d i @ drop (at + L) out"
  have "block_rounds block (at + L) is ?o =
      Some (take (at + L) ?o @ concat (map d is) @ drop (at + L + L * length is) ?o)"
    using Cons.prems(1) L d(2) by (intro Cons.IH) simp_all
  moreover have "put_bytes out at (d i) = Some ?o" using L d(2) by (simp add: put_bytes_def)
  ultimately show ?case using L d by (simp add: ac_simps)
qed simp

text \<open>The function of 802.11: the output is the prefix of the hash blocks.\<close>

definition prf_blocks :: "byte list \<Rightarrow> byte list \<Rightarrow> byte list \<Rightarrow> nat \<Rightarrow> byte list" where
  "prf_blocks K label B n = concat (map (\<lambda>i. rfc2104 SHA1_digest K (label @ [0] @ B @ [of_nat i])) [0..<n])"

lemma SHA1_length: "length (rfc2104 SHA1_digest K m) = 20"
  using sha1.service.rfc2104_length[of K m] by simp

lemma SHA256_length: "length (rfc2104 SHA256_digest K m) = 32"
  using sha256.service.rfc2104_length[of K m] by simp

lemma HMAC_SHA1_full: "length K + 64 < 2 ^ 32 \<Longrightarrow> length m + 64 < 2 ^ 32 \<Longrightarrow> RT_HMAC_SHA1 K m 20 = Some (rfc2104 SHA1_digest K m)"
  using HMAC_SHA1[of K m 20] SHA1_length[of K m] by simp

lemma prf_blocks_length [simp]: "length (prf_blocks K label B n) = 20 * n"
proof -
  have "length (concat (map (\<lambda>i. rfc2104 SHA1_digest K (label @ [0] @ B @ [of_nat i])) is)) = 20 * length is" for "is"
    by (induction "is") (simp_all only: list.map concat.simps length_append SHA1_length list.size, simp_all)
  from this[of "[0..<n]"] show ?thesis unfolding prf_blocks_def by simp
qed

lemma PRF_blocks:
  assumes "length key + 64 < 2 ^ 32" "length prefix + length data + 2 \<le> 1024" "20 * ((len + 19) div 20) \<le> length out"
  shows "PRF True key prefix data out len =
    Some (prf_blocks key prefix data ((len + 19) div 20) @ drop (20 * ((len + 19) div 20)) out)"
proof -
  let ?m = "\<lambda>i. prefix @ [0] @ data @ [of_nat i]"
  have "length (?m i) + 64 < 2 ^ 32" for i using assms(2) by simp
  then have "RT_HMAC_SHA1 key (?m i) 20 = Some (rfc2104 SHA1_digest key (?m i))" for i
    using HMAC_SHA1_full assms(1) by blast
  then show ?thesis
    using block_rounds_concat[of "[0..<(len + 19) div 20]" "\<lambda>i. RT_HMAC_SHA1 key (?m i) 20"
        "\<lambda>i. rfc2104 SHA1_digest key (?m i)" 20 0 out] assms(2,3) SHA1_length
    unfolding PRF_def prf_blocks_def by simp
qed

text \<open>The same for the KDF; the octet that counts the rounds starts at 1.\<close>

definition kdf_blocks :: "byte list \<Rightarrow> byte list \<Rightarrow> byte list \<Rightarrow> nat \<Rightarrow> nat \<Rightarrow> byte list" where
  "kdf_blocks K label B bits n = concat (map (\<lambda>i. rfc2104 SHA256_digest K
     ([of_nat i, 0] @ label @ B @ [of_nat bits, of_nat (bits div 256)])) [1..<n + 1])"

lemma KDF_blocks:
  assumes "length key + 64 < 2 ^ 32" "length label + length data + 4 \<le> 1024"
    "32 * ((unat len * 8 + 255) div 256) \<le> length out"
  shows "KDF True key label data out len =
    Some (kdf_blocks key label data (unat len * 8) ((unat len * 8 + 255) div 256)
      @ drop (32 * ((unat len * 8 + 255) div 256)) out)"
proof -
  let ?b = "unat len * 8"
  let ?m = "\<lambda>i. [of_nat i, 0] @ label @ data @ [of_nat ?b, of_nat (?b div 256)]"
  have "length (?m i) + 64 < 2 ^ 32" for i using assms(2) by simp
  then have "RT_HMAC_SHA256 key (?m i) 32 = Some (rfc2104 SHA256_digest key (?m i))" for i
    using HMAC_SHA256[of key "?m i" 32] SHA256_length[of key "?m i"] assms(1) by simp
  then have "block_rounds (\<lambda>i. RT_HMAC_SHA256 key (?m i) 32) 0 [1..<(?b + 255) div 256 + 1] out =
      Some (take 0 out @ concat (map (\<lambda>i. rfc2104 SHA256_digest key (?m i)) [1..<(?b + 255) div 256 + 1])
        @ drop (0 + 32 * length [1..<(?b + 255) div 256 + 1]) out)"
    using assms(3) SHA256_length by (intro block_rounds_concat) simp_all
  then have r: "block_rounds (\<lambda>i. RT_HMAC_SHA256 key (?m i) 32) 0 [1..<(?b + 255) div 256 + 1] out =
      Some (kdf_blocks key label data ?b ((?b + 255) div 256) @ drop (32 * ((?b + 255) div 256)) out)"
    unfolding kdf_blocks_def by (simp only: take_0 append_Nil add_0 length_upt add_diff_cancel_right')
  have "\<not> 2 + length label + length data + 2 > 1024" using assms(2) by simp
  then show ?thesis unfolding KDF_def Let_def by (simp only: if_False not_True_eq_False r)
qed

section \<open>The passphrase hash is PBKDF2\<close>

fun pbkdf2_U :: "byte list \<Rightarrow> byte list \<Rightarrow> nat \<Rightarrow> nat \<Rightarrow> byte list" where
  "pbkdf2_U P S i 0 = rfc2104 SHA1_digest P (S @ put_be32 (of_nat i))"
| "pbkdf2_U P S i (Suc n) = rfc2104 SHA1_digest P (pbkdf2_U P S i n)"

definition pbkdf2_T :: "byte list \<Rightarrow> byte list \<Rightarrow> nat \<Rightarrow> nat \<Rightarrow> byte list" where
  "pbkdf2_T P S c i = fold (\<lambda>n acc. xor_list acc (pbkdf2_U P S i n)) [1..<c] (pbkdf2_U P S i 0)"

lemma pbkdf2_U_length [simp]: "length (pbkdf2_U P S i n) = 20"
  by (cases n) (simp_all only: pbkdf2_U.simps SHA1_length)

lemma pbkdf2_T_length [simp]: "length (pbkdf2_T P S c i) = 20"
proof -
  have "length (fold (\<lambda>n acc. xor_list acc (pbkdf2_U P S i n)) ns acc) = 20" if "length acc = 20" for ns acc
    using that by (induction ns arbitrary: acc) (simp_all add: xor_list_def)
  then show ?thesis by (simp add: pbkdf2_T_def del: pbkdf2_U.simps)
qed

lemma F_loop_pbkdf2:
  assumes "length P + 64 < 2 ^ 32"
  shows "F_loop P n (pbkdf2_U P S i k) out = Some (fold (\<lambda>n acc. xor_list acc (pbkdf2_U P S i n)) [Suc k..<Suc k + n] out)"
proof (induction n arbitrary: k out)
  case (Suc n)
  have "RT_HMAC_SHA1 P (pbkdf2_U P S i k) 20 = Some (pbkdf2_U P S i (Suc k))"
    using HMAC_SHA1_full[OF assms, of "pbkdf2_U P S i k"] by simp
  then have "F_loop P (Suc n) (pbkdf2_U P S i k) out = F_loop P n (pbkdf2_U P S i (Suc k)) (xor_list out (pbkdf2_U P S i (Suc k)))"
    by (simp del: pbkdf2_U.simps)
  moreover have "[Suc k..<Suc k + Suc n] = Suc k # [Suc (Suc k)..<Suc (Suc k) + n]" by (simp add: upt_conv_Cons)
  ultimately show ?case using Suc[of "Suc k"] by (simp del: pbkdf2_U.simps F_loop.simps upt_Suc)
qed simp

lemma F_pbkdf2:
  assumes "length P + 64 < 2 ^ 32" "length S \<le> 32" "1 \<le> c"
  shows "F_psk P S c i = Some (pbkdf2_T P S c i)"
proof -
  have "RT_HMAC_SHA1 P (S @ put_be32 (of_nat i)) 20 = Some (pbkdf2_U P S i 0)"
    using HMAC_SHA1_full[OF assms(1), of "S @ put_be32 (of_nat i)"] assms(2) by (simp add: put_be32_def)
  moreover have "Suc 0 + (c - 1) = c" using assms(3) by simp
  ultimately show ?thesis
    using F_loop_pbkdf2[OF assms(1), of "c - 1" S i 0] assms(2) by (simp add: F_psk_def pbkdf2_T_def del: pbkdf2_U.simps)
qed

lemma PasswordHash_pbkdf2:
  assumes "length P \<le> 63" "length S \<le> 32" "40 \<le> length out"
  shows "RtmpPasswordHash P S out = Some (1, pbkdf2_T P S 4096 1 @ pbkdf2_T P S 4096 2 @ drop 40 out)"
  using assms F_pbkdf2[of P S 4096] by (simp add: RtmpPasswordHash_def put_bytes_def)

section \<open>What both stations compute\<close>

lemma CompareMemory_sym:
  "RTMPCompareMemory ys xs n = (case RTMPCompareMemory xs ys n of 0 \<Rightarrow> 0 | Suc 0 \<Rightarrow> 2 | Suc (Suc _) \<Rightarrow> 1)"
  by (induction xs ys n rule: RTMPCompareMemory.induct) (auto simp: numeral_2_eq_2)

lemma CompareMemory_eq:
  "RTMPCompareMemory xs ys n = 0 \<Longrightarrow> n \<le> length xs \<Longrightarrow> n \<le> length ys \<Longrightarrow> take n xs = take n ys"
  by (induction xs ys n rule: RTMPCompareMemory.induct) (auto split: if_splits)

lemma CompareMemory_range: "RTMPCompareMemory xs ys n \<in> {0, 1, 2}"
  by (induction xs ys n rule: RTMPCompareMemory.induct) auto

lemma ptk_concatenation_sym:
  assumes "6 \<le> length AA" "6 \<le> length SA"
  shows "ptk_concatenation N1 AA N2 SA = ptk_concatenation N2 SA N1 AA"
proof -
  have a: "RTMPCompareMemory SA AA 6 = 0 \<Longrightarrow> take 6 SA = take 6 AA" by (rule CompareMemory_eq) (use assms in simp_all)
  have "RTMPCompareMemory SA AA 6 = 0 \<and> RTMPCompareMemory AA SA 6 = 0
      \<or> RTMPCompareMemory SA AA 6 = 1 \<and> RTMPCompareMemory AA SA 6 = 2
      \<or> RTMPCompareMemory SA AA 6 = 2 \<and> RTMPCompareMemory AA SA 6 = 1"
    using CompareMemory_range[of SA AA 6] CompareMemory_sym[of AA SA 6] by (auto simp: numeral_2_eq_2)
  moreover have "RTMPCompareMemory N1 N2 32 = 0 \<and> RTMPCompareMemory N2 N1 32 = 0
      \<or> RTMPCompareMemory N1 N2 32 = 1 \<and> RTMPCompareMemory N2 N1 32 = 2
      \<or> RTMPCompareMemory N1 N2 32 = 2 \<and> RTMPCompareMemory N2 N1 32 = 1"
    using CompareMemory_range[of N1 N2 32] CompareMemory_sym[of N2 N1 32] by (auto simp: numeral_2_eq_2)
  ultimately show ?thesis
    by (elim disjE conjE) (simp_all add: ptk_concatenation_def Let_def a)
qed

lemma ptk_concatenation_length:
  assumes "32 \<le> length N1" "32 \<le> length N2" "6 \<le> length AA" "6 \<le> length SA"
  shows "length (ptk_concatenation N1 AA N2 SA) = 76"
  using assms by (simp add: ptk_concatenation_def Let_def)

end
