(* ===== verification/SecProps.thy ===== *)
theory SecProps
  imports TkipSpec Ccmp WpaKeys
begin

text \<open>The properties of the hash functions, of the software ciphers and of the key derivation.\<close>

definition bs :: "nat \<Rightarrow> byte \<Rightarrow> byte list" where "bs n b = replicate n b"

section \<open>Hash functions and HMAC\<close>

text \<open>C33. A message handed to SHA-1, SHA-256 or MD5 in any number of Append calls is hashed as the
  standards define for the whole message: padded with 0x80, zeros and the length in bits, and the
  block function folded over its 64-byte blocks. No copy leaves the block buffer.\<close>

theorem hash_in_pieces:
  assumes "\<forall>x \<in> set xs. length x + 64 < 2 ^ 32"
  shows "Option.bind (append_all RT_SHA1_Append RT_SHA1_Init xs) RT_SHA1_End = Some (SHA1_digest (concat xs)) \<and>
    Option.bind (append_all RT_SHA256_Append RT_SHA256_Init xs) RT_SHA256_End = Some (SHA256_digest (concat xs)) \<and>
    Option.bind (append_all RT_MD5_Append RT_MD5_Init xs) RT_MD5_End = Some (MD5_digest (concat xs))"
  unfolding sha1_code sha256_code md5_code
  using sha1.pieces[OF assms] sha256.pieces[OF assms] md5.pieces[OF assms] by blast

theorem hash_in_pieces_witness:
  "Option.bind (append_all RT_SHA1_Append RT_SHA1_Init [bs 70 1, [], bs 3 2]) RT_SHA1_End = Some (SHA1_digest (bs 70 1 @ bs 3 2))"
  using hash_in_pieces[of "[bs 70 1, [], bs 3 2]"] by (simp add: bs_def)

text \<open>C34. The three keyed hashes are HMAC as RFC 2104 defines it over the digests of the standards, cut
  to the requested length, for keys of any length: short ones are padded, long ones hashed first.\<close>

theorem hmac_is_rfc2104:
  assumes "length K + 64 < 2 ^ 32" "length m + 64 < 2 ^ 32"
  shows "RT_HMAC_SHA1 K m n = Some (take n (rfc2104 SHA1_digest K m)) \<and>
    RT_HMAC_SHA256 K m n = Some (take n (rfc2104 SHA256_digest K m)) \<and>
    RT_HMAC_MD5 K m n = Some (take n (rfc2104 MD5_digest K m))"
  using HMAC_SHA1[OF assms] HMAC_SHA256[OF assms] HMAC_MD5[OF assms] by blast

theorem hmac_is_rfc2104_witness:
  "RT_HMAC_SHA1 (bs 80 1) [1, 2, 3] 12 = Some (take 12 (rfc2104 SHA1_digest (bs 80 1) [1, 2, 3]))"
  using hmac_is_rfc2104[of "bs 80 1" "[1, 2, 3]" 12] by (simp add: bs_def)

section \<open>Key derivation\<close>

text \<open>C35. \<open>RtmpPasswordHash\<close> computes the first two blocks of PBKDF2 with HMAC-SHA-1 and 4096 iterations:
  the pairwise master key is the first 32 of the 40 bytes it writes. Longer passphrases and SSIDs are
  refused with nothing written.\<close>

theorem passphrase_is_pbkdf2:
  assumes "40 \<le> length out"
  shows "RtmpPasswordHash P S out =
    (if length P > 63 \<or> length S > 32 then Some (0, out)
     else Some (1, pbkdf2_T P S 4096 1 @ pbkdf2_T P S 4096 2 @ drop 40 out))"
  using PasswordHash_pbkdf2[of P S out] assms by (auto simp: RtmpPasswordHash_def)

theorem passphrase_is_pbkdf2_witness:
  "RtmpPasswordHash (bs 8 0x61) (bs 4 0x62) (bs 40 0) = Some (1, pbkdf2_T (bs 8 0x61) (bs 4 0x62) 4096 1 @ pbkdf2_T (bs 8 0x61) (bs 4 0x62) 4096 2)"
  using passphrase_is_pbkdf2[of "bs 40 0" "bs 8 0x61" "bs 4 0x62"] by (simp add: bs_def)



text \<open>C37. \<open>inc_iv_byte\<close> adds its count, 1 to 255, to the packet number as a little-endian number modulo its
  range. So the numbers of two frames under one key differ until the range is used up: 2^24 frames
  for WEP, 2^48 for TKIP and CCMP, which count by one.\<close>

theorem packet_numbers_do_not_repeat:
  assumes "0 < c" "c < 256" "i < j" "(j - i) * c < 256 ^ length iv"
  shows "packet_number c iv i \<noteq> packet_number c iv j \<and>
    le_val (packet_number c iv i) = (le_val iv + i * c) mod 256 ^ length iv"
proof -
  let ?M = "256 ^ length iv :: nat"
  have v: "le_val (packet_number c iv k) = (le_val iv + k * c) mod ?M" for k using packet_number_val[OF assms(1,2)] by blast
  have "le_val iv + j * c = le_val iv + i * c + (j - i) * c" using assms(3) by (simp add: diff_mult_distrib)
  moreover have "0 < (j - i) * c" using assms(1,3) by simp
  ultimately have "(le_val iv + i * c) mod ?M \<noteq> (le_val iv + j * c) mod ?M"
    using assms(4) mod_eq_dvd_iff_nat[of "le_val iv + i * c" "le_val iv + j * c" ?M] by (auto dest: dvd_imp_le)
  then have "packet_number c iv i \<noteq> packet_number c iv j" using v by metis
  then show ?thesis using v by blast
qed

theorem packet_numbers_do_not_repeat_witness:
  "packet_number 1 (bs 6 255) 5 \<noteq> packet_number 1 (bs 6 255) 70000"
  by (rule conjunct1[OF packet_numbers_do_not_repeat]) (simp_all add: bs_def)

section \<open>Ciphers\<close>

text \<open>C38. A frame enciphered by the software WEP, sent behind its IV header, is accepted by the receiver that
  has the same key and gives back the data, for keys of up to 13 bytes and any start of the context;
  neither side leaks its context then. The checksum both sides use is CRC-32.\<close>

theorem wep_frame_roundtrip:
  assumes "ctx_mem w" "seed_mem w" "ctx_mem w'" "seed_mem w'" "3 \<le> length pn"
    "ck_KeyLen key \<noteq> 0" "ck_KeyLen key \<le> 13" "ck_KeyLen key \<le> length (ck_Key key)"
    "length pt + 8 < 65536" "length pt + 4 \<le> length buf" "take (length pt) buf = pt"
  shows "\<exists>body d. length body = length pt + 4 \<and>
    RTMPSoftEncryptWEP w (RTMPConstructWEPIVHdr kid pn) key buf (length pt) = Some (True, body @ drop (length pt + 4) buf, 0) \<and>
    RTMPSoftDecryptWEP w' key (RTMPConstructWEPIVHdr kid pn @ body @ tail) (length pt + 8) = Some (True, d, length pt, 0) \<and>
    take (length pt) d = pt \<and>
    RTMP_CALC_FCS32 PPPINITFCS32 pt = crc32_bitwise 0xffffffff pt"
proof -
  let ?h = "RTMPConstructWEPIVHdr kid pn"
  have h: "length ?h = 4" "3 \<le> length ?h" using assms(5) by (simp_all add: RTMPConstructWEPIVHdr_def LEN_WEP_TSC_def)
  obtain c where c: "RTMPInitWepEngine w ?h (ck_Key key) (ck_KeyLen key) = Some c"
    "RTMPSoftEncryptWEP w ?h key buf (length pt) = Some (True,
       fst (ARC4_Compute c (pt @ put_le32 (RTMP_CALC_FCS32 PPPINITFCS32 pt XOR 0xffffffff))) @ drop (length pt + 4) buf, 0)"
    by (rule EncryptWEP_runs[OF assms(1,2) h(2) assms(6,7,8,10,11)])
  let ?body = "fst (ARC4_Compute c (pt @ put_le32 (RTMP_CALC_FCS32 PPPINITFCS32 pt XOR 0xffffffff)))"
  have "RTMPInitWepEngine w' (?h @ ?body @ tail) (ck_Key key) (ck_KeyLen key) = Some c"
    using InitWep_works[OF assms(2) h(2) assms(7,8)] c(1) assms(4) h(1) by auto
  from DecryptWEP_restores[OF assms(3,6) h(1) assms(9) this refl] obtain d where
    "RTMPSoftDecryptWEP w' key (?h @ ?body @ tail) (length pt + 8) = Some (True, d, length pt, 0)" "take (length pt) d = pt" by blast
  moreover have "length ?body = length pt + 4" by simp
  ultimately show ?thesis using c(2) FCS32_crc[of PPPINITFCS32 pt] unfolding PPPINITFCS32_def by blast
qed

theorem wep_frame_roundtrip_witness:
  "\<exists>body d. RTMPSoftEncryptWEP \<lparr>ctx_mem = True, seed_mem = True, old_ctx = \<lparr>BlockIndex1 = 0, BlockIndex2 = 0, KeyBlock = []\<rparr>\<rparr>
      (RTMPConstructWEPIVHdr 1 (bs 3 7)) \<lparr>ck_Key = bs 16 5, ck_TxMic = [], ck_RxMic = [], ck_KeyLen = 5\<rparr> (bs 30 9) 20 = Some (True, body @ bs 6 9, 0) \<and>
    RTMPSoftDecryptWEP \<lparr>ctx_mem = True, seed_mem = True, old_ctx = \<lparr>BlockIndex1 = 0, BlockIndex2 = 0, KeyBlock = []\<rparr>\<rparr>
      \<lparr>ck_Key = bs 16 5, ck_TxMic = [], ck_RxMic = [], ck_KeyLen = 5\<rparr> (RTMPConstructWEPIVHdr 1 (bs 3 7) @ body @ []) 28 = Some (True, d, 20, 0) \<and>
    take 20 d = bs 20 9"
  using wep_frame_roundtrip[of "\<lparr>ctx_mem = True, seed_mem = True, old_ctx = \<lparr>BlockIndex1 = 0, BlockIndex2 = 0, KeyBlock = []\<rparr>\<rparr>"
      "\<lparr>ctx_mem = True, seed_mem = True, old_ctx = \<lparr>BlockIndex1 = 0, BlockIndex2 = 0, KeyBlock = []\<rparr>\<rparr>" "bs 3 7"
      "\<lparr>ck_Key = bs 16 5, ck_TxMic = [], ck_RxMic = [], ck_KeyLen = 5\<rparr>" "bs 20 9" "bs 30 9" 1 "[]"]
  by (simp only: bs_def) auto

text \<open>The WEP routines release their cipher context only on success: with an empty key, and on a frame
  whose checksum is wrong, one context is lost per call.\<close>

theorem wep_failures_leak_context:
  assumes "ctx_mem w" "seed_mem w"
  shows "(ck_KeyLen key = 0 \<longrightarrow> RTMPSoftDecryptWEP w key d n = Some (False, d, n, 1)) \<and>
    (\<forall>d' n' leaked. RTMPSoftDecryptWEP w key d n = Some (False, d', n', leaked) \<longrightarrow> leaked = 1)"
  using assms by (auto simp: RTMPSoftDecryptWEP_def Let_def split: if_splits option.splits)

definition wit_mem :: wep_mem where
  "wit_mem = \<lparr>ctx_mem = True, seed_mem = True, old_ctx = \<lparr>BlockIndex1 = 0, BlockIndex2 = 0, KeyBlock = []\<rparr>\<rparr>"
definition wit_nokey :: CIPHER_KEY where
  "wit_nokey = \<lparr>ck_Key = bs 16 5, ck_TxMic = [], ck_RxMic = [], ck_KeyLen = 0\<rparr>"

theorem wep_failures_leak_context_witness:
  "RTMPSoftDecryptWEP wit_mem wit_nokey (bs 30 7) 30 = Some (False, bs 30 7, 30, 1)"
  by (rule conjunct1[OF wep_failures_leak_context, THEN mp]) (simp_all add: wit_mem_def wit_nokey_def)

text \<open>Without memory for the seed the engine is not keyed: the frame is enciphered with whatever the fresh
  context held, and still reported as enciphered.\<close>

theorem wep_without_seed_memory:
  assumes "ctx_mem w" "\<not> seed_mem w" "ck_KeyLen key \<noteq> 0" "length d = n + 4"
  shows "RTMPSoftEncryptWEP w iv key d n = Some (True,
    fst (ARC4_Compute (old_ctx w) (take n d @ put_le32 (RTMP_CALC_FCS32 PPPINITFCS32 (take n d) XOR 0xffffffff))), 0)"
  using assms by (simp add: RTMPSoftEncryptWEP_def RTMPInitWepEngine_def put_bytes_def LEN_ICV_def Let_def)


definition wit_key :: CIPHER_KEY where
  "wit_key = \<lparr>ck_Key = bs 16 5, ck_TxMic = bs 8 1, ck_RxMic = bs 8 2, ck_KeyLen = 16\<rparr>"



text \<open>C40. A frame enciphered by the software CCMP and sent behind the CCMP header with its packet number is
  accepted by the receiver that has the same key and gives back the data, whatever happens under way
  to the duration, the sequence number and the retry, power management, more data and protected bits
  of its header; shorter frames than header and MIC are refused untouched.\<close>

theorem ccmp_frame_roundtrip:
  assumes "hdr_room (a4_exists h) (qc_exists h) \<le> length h" "same_protected_fields h h'"
    and "length pn = 6" "16 \<le> length (ck_Key key)" "ck_KeyLen key \<noteq> 0"
    and "length pt + 8 \<le> length buf" "take (length pt) buf = pt" "length pt + 16 < 65536"
  shows "(\<exists>c b. length c = length pt + 8 \<and>
    RTMPSoftEncryptCCMP h pn (ck_Key key) buf (length pt) = Some (True, c @ drop (length pt + 8) buf) \<and>
    RTMPSoftDecryptCCMP h' key (RTMPConstructCCMPHdr idx pn @ c @ tail) (length pt + 16) = Some (True, b, length pt) \<and>
    take (length pt) b = pt) \<and>
    (\<forall>d n. n < 16 \<and> 8 \<le> length d \<longrightarrow> RTMPSoftDecryptCCMP h key d n = Some (False, d, n))"
  using ccmp_frame_restored[OF assms] ccmp_short_frame assms(1,4) by blast

theorem ccmp_frame_roundtrip_witness:
  "\<exists>c b. length c = length (bs 9 3) + 8 \<and>
    RTMPSoftEncryptCCMP (bs 26 0x88) (bs 6 1) (ck_Key wit_key) (bs 17 3) (length (bs 9 3)) =
      Some (True, c @ drop (length (bs 9 3) + 8) (bs 17 3)) \<and>
    RTMPSoftDecryptCCMP ((bs 26 0x88)[1 := 0xb8, 23 := 7]) wit_key (RTMPConstructCCMPHdr 0 (bs 6 1) @ c @ []) (length (bs 9 3) + 16) =
      Some (True, b, length (bs 9 3)) \<and> take (length (bs 9 3)) b = bs 9 3"
  by (rule conjunct1[OF ccmp_frame_roundtrip])
    (simp_all add: bs_def wit_key_def hdr_room_def same_protected_fields_def a4_exists_def drop_update_swap)

end
