(* ===== verification/Beacon.thy ===== *)
theory Beacon
  imports WifiPrelude "HOL-Library.Monad_Syntax"
begin

text \<open>The parser of beacons and probe responses, \<open>PeerBeaconAndProbeRspSanity\<close> of
  common/cmm_sanity.c, with the TIM reader of sta/sanity.c. The message lies in the buffer of a
  queue element; every access to it, to the 1024 bytes behind \<open>pVIE\<close> and to the 512 bytes of the
  WPS buffer is checked, and \<open>None\<close> is an access outside (or a copy of negative length).\<close>

section \<open>Buffers\<close>

text \<open>\<open>NdisMoveMemory\<close> into a buffer, from a buffer, and \<open>NdisEqualMemory\<close> of a buffer and a
  constant.\<close>

definition bmove :: "byte list \<Rightarrow> nat \<Rightarrow> byte list \<Rightarrow> byte list option" where
  "bmove b off src =
    (if off + length src \<le> length b then Some (take off b @ src @ drop (off + length src) b) else None)"

definition bread :: "byte list \<Rightarrow> nat \<Rightarrow> nat \<Rightarrow> byte list option" where
  "bread b p n = (if p + n \<le> length b then Some (take n (drop p b)) else None)"

definition beq :: "byte list \<Rightarrow> nat \<Rightarrow> byte list \<Rightarrow> bool option" where
  "beq b p c = map_option (\<lambda>x. x = c) (bread b p (length c))"

definition u16 :: "byte \<Rightarrow> byte \<Rightarrow> nat" where "u16 lo hi = unat lo + 256 * unat hi"

section \<open>Constants\<close>

definition MAX_VIE_LEN :: nat where "MAX_VIE_LEN = 1024"
definition MAX_LEN_OF_SSID :: nat where "MAX_LEN_OF_SSID = 32"
definition MAX_LEN_OF_SUPPORTED_RATES :: nat where "MAX_LEN_OF_SUPPORTED_RATES = 12"
definition SIZE_HT_CAP_IE :: nat where "SIZE_HT_CAP_IE = 26"
definition SIZE_ADD_HT_INFO_IE :: nat where "SIZE_ADD_HT_INFO_IE = 22"
definition TIMESTAMP_LEN :: nat where "TIMESTAMP_LEN = 8"
definition CKIP_NEGOTIATION_LENGTH :: nat where "CKIP_NEGOTIATION_LENGTH = 30"

definition IE_SSID :: byte where "IE_SSID = 0"
definition IE_SUPP_RATES :: byte where "IE_SUPP_RATES = 1"
definition IE_FH_PARM :: byte where "IE_FH_PARM = 2"
definition IE_DS_PARM :: byte where "IE_DS_PARM = 3"
definition IE_CF_PARM :: byte where "IE_CF_PARM = 4"
definition IE_TIM :: byte where "IE_TIM = 5"
definition IE_IBSS_PARM :: byte where "IE_IBSS_PARM = 6"
definition IE_COUNTRY :: byte where "IE_COUNTRY = 7"
definition IE_QBSS_LOAD :: byte where "IE_QBSS_LOAD = 11"
definition IE_CHANNEL_SWITCH_ANNOUNCEMENT :: byte where "IE_CHANNEL_SWITCH_ANNOUNCEMENT = 37"
definition IE_ERP :: byte where "IE_ERP = 42"
definition IE_HT_CAP :: byte where "IE_HT_CAP = 45"
definition IE_RSN :: byte where "IE_RSN = 48"
definition IE_EXT_SUPP_RATES :: byte where "IE_EXT_SUPP_RATES = 50"
definition IE_ADD_HT :: byte where "IE_ADD_HT = 61"
definition IE_SECONDARY_CH_OFFSET :: byte where "IE_SECONDARY_CH_OFFSET = 62"
definition IE_EXT_CAPABILITY :: byte where "IE_EXT_CAPABILITY = 127"
definition IE_AIRONET_CKIP :: byte where "IE_AIRONET_CKIP = 133"
definition IE_AP_TX_POWER :: byte where "IE_AP_TX_POWER = 150"
definition IE_VENDOR_SPECIFIC :: byte where "IE_VENDOR_SPECIFIC = 221"

definition WPA_OUI :: "byte list" where "WPA_OUI = [0x00, 0x50, 0xf2, 0x01]"
definition WPS_OUI :: "byte list" where "WPS_OUI = [0x00, 0x50, 0xf2, 0x04]"
definition RSN_OUI :: "byte list" where "RSN_OUI = [0x00, 0x0f, 0xac]"
definition SES_OUI :: "byte list" where "SES_OUI = [0x00, 0x90, 0x4c]"
definition PRE_N_HT_OUI :: "byte list" where "PRE_N_HT_OUI = [0x00, 0x90, 0x4c]"
definition RALINK_OUI :: "byte list" where "RALINK_OUI = [0x00, 0x0c, 0x43]"
definition CISCO_OUI :: "byte list" where "CISCO_OUI = [0x00, 0x40, 0x96]"
definition WME_INFO_ELEM :: "byte list" where "WME_INFO_ELEM = [0x00, 0x50, 0xf2, 0x02, 0x00, 0x01]"
definition WME_PARM_ELEM :: "byte list" where "WME_PARM_ELEM = [0x00, 0x50, 0xf2, 0x02, 0x01, 0x01]"
definition OUI_PREN_HT_CAP :: byte where "OUI_PREN_HT_CAP = 51"
definition OUI_PREN_ADD_HT :: byte where "OUI_PREN_ADD_HT = 52"

definition QID_AC_BK :: nat where "QID_AC_BK = 1"
definition QID_AC_VI :: nat where "QID_AC_VI = 2"
definition QID_AC_VO :: nat where "QID_AC_VO = 3"
definition CW_MIN_IN_BITS :: byte where "CW_MIN_IN_BITS = 4"
definition CW_MAX_IN_BITS :: byte where "CW_MAX_IN_BITS = 10"

section \<open>The parsed beacon\<close>

record CF_PARM =
  cf_bValid :: bool
  cf_CfpCount :: byte
  cf_CfpPeriod :: byte
  cf_CfpMaxDuration :: nat
  cf_CfpDurRemaining :: nat

record EDCA_PARM =
  ed_bValid :: bool
  ed_bQAck :: bool
  ed_bQueueRequest :: bool
  ed_bTxopRequest :: bool
  ed_bAPSDCapable :: bool
  ed_EdcaUpdateCount :: byte
  ed_Aifsn :: "byte list"
  ed_Cwmin :: "byte list"
  ed_Cwmax :: "byte list"
  ed_Txop :: "nat list"
  ed_bACM :: "bool list"

record QBSS_LOAD_PARM =
  ql_bValid :: bool
  ql_StaNum :: nat
  ql_ChannelUtilization :: byte
  ql_RemainingAdmissionControl :: nat

text \<open>\<open>QosCapability\<close> of the structure is never written by the parser; the HT elements are kept as
  their raw 26 and 22 bytes, \<open>ExtCapInfo\<close> as its 4.\<close>

record QOS_CAPABILITY_PARM =
  qc_bValid :: bool
  qc_bQAck :: bool
  qc_bQueueRequest :: bool
  qc_bTxopRequest :: bool
  qc_EdcaUpdateCount :: byte

record BCN_IE_LIST =
  il_Addr2 :: "byte list"
  il_Bssid :: "byte list"
  il_Ssid :: "byte list"
  il_SsidLen :: nat
  il_BssType :: nat
  il_BeaconPeriod :: nat
  il_Channel :: byte
  il_NewChannel :: byte
  il_AtimWin :: nat
  il_CapabilityInfo :: "16 word"
  il_Erp :: byte
  il_DtimCount :: byte
  il_DtimPeriod :: byte
  il_BcastFlag :: bool
  il_MessageToMe :: bool
  il_SupRate :: "byte list"
  il_SupRateLen :: nat
  il_ExtRate :: "byte list"
  il_ExtRateLen :: nat
  il_CkipFlag :: byte
  il_AironetCellPowerLimit :: byte
  il_TimeStamp :: "byte list"
  il_CfParm :: CF_PARM
  il_EdcaParm :: EDCA_PARM
  il_QbssLoad :: QBSS_LOAD_PARM
  il_QosCapability :: QOS_CAPABILITY_PARM
  il_RalinkIe :: "32 word"
  il_ExtCapInfo :: "byte list"
  il_HtCapabilityLen :: nat
  il_PreNHtCapabilityLen :: nat
  il_HtCapability :: "byte list"
  il_AddHtInfoLen :: nat
  il_AddHtInfo :: "byte list"
  il_NewExtChannelOffset :: byte

text \<open>The structure as the callers pass it, \<open>NdisZeroMemory\<close>'d.\<close>

definition zero_cf :: CF_PARM where
  "zero_cf = \<lparr>cf_bValid = False, cf_CfpCount = 0, cf_CfpPeriod = 0, cf_CfpMaxDuration = 0, cf_CfpDurRemaining = 0\<rparr>"

definition zero_edca :: EDCA_PARM where
  "zero_edca = \<lparr>ed_bValid = False, ed_bQAck = False, ed_bQueueRequest = False, ed_bTxopRequest = False,
    ed_bAPSDCapable = False, ed_EdcaUpdateCount = 0, ed_Aifsn = replicate 4 0, ed_Cwmin = replicate 4 0,
    ed_Cwmax = replicate 4 0, ed_Txop = replicate 4 0, ed_bACM = replicate 4 False\<rparr>"

definition zero_qbss :: QBSS_LOAD_PARM where
  "zero_qbss = \<lparr>ql_bValid = False, ql_StaNum = 0, ql_ChannelUtilization = 0, ql_RemainingAdmissionControl = 0\<rparr>"

definition zero_qos :: QOS_CAPABILITY_PARM where
  "zero_qos = \<lparr>qc_bValid = False, qc_bQAck = False, qc_bQueueRequest = False, qc_bTxopRequest = False,
    qc_EdcaUpdateCount = 0\<rparr>"

definition zero_ie_list :: BCN_IE_LIST where
  "zero_ie_list = \<lparr>il_Addr2 = replicate 6 0, il_Bssid = replicate 6 0, il_Ssid = replicate 32 0, il_SsidLen = 0,
    il_BssType = 0, il_BeaconPeriod = 0, il_Channel = 0, il_NewChannel = 0, il_AtimWin = 0,
    il_CapabilityInfo = 0, il_Erp = 0, il_DtimCount = 0, il_DtimPeriod = 0, il_BcastFlag = False,
    il_MessageToMe = False, il_SupRate = replicate 12 0, il_SupRateLen = 0, il_ExtRate = replicate 12 0,
    il_ExtRateLen = 0, il_CkipFlag = 0, il_AironetCellPowerLimit = 0, il_TimeStamp = replicate 8 0,
    il_CfParm = zero_cf, il_EdcaParm = zero_edca, il_QbssLoad = zero_qbss, il_QosCapability = zero_qos,
    il_RalinkIe = 0, il_ExtCapInfo = replicate 4 0, il_HtCapabilityLen = 0, il_PreNHtCapabilityLen = 0,
    il_HtCapability = replicate 26 0, il_AddHtInfoLen = 0, il_AddHtInfo = replicate 22 0,
    il_NewExtChannelOffset = 0\<rparr>"

text \<open>What the parser reads of the adapter.\<close>

record bcn_ctx =
  bc_ChannelList :: "byte list"
  bc_STA :: bool
  bc_INFRA_ON :: bool
  bc_Bssid :: "byte list"
  bc_Aid :: nat
  bc_RfChannel :: byte

text \<open>\<open>ChannelSanity\<close>: the first \<open>ChannelListNum\<close> entries of the list are \<open>bc_ChannelList\<close>.\<close>

definition ChannelSanity :: "bcn_ctx \<Rightarrow> byte \<Rightarrow> bool" where
  "ChannelSanity pAd channel = list_ex (\<lambda>c. channel = c) (bc_ChannelList pAd)"

section \<open>The TIM element\<close>

text \<open>The broadcast flag, the DTIM count and period and the bit of station \<open>Aid\<close>; \<open>Ptr\<close> is the
  position of the element. \<open>N2\<close> and \<open>MyByte\<close> are octets.\<close>

definition GetTimBit :: "byte list \<Rightarrow> nat \<Rightarrow> nat \<Rightarrow> (byte \<times> bool \<times> byte \<times> byte \<times> bool) option" where
  "GetTimBit b Ptr Aid = do {
     TimLen \<leftarrow> nth_opt b (Ptr + 1);
     DtimCount \<leftarrow> nth_opt b (Ptr + 2);
     DtimPeriod \<leftarrow> nth_opt b (Ptr + 3);
     BitCntl \<leftarrow> nth_opt b (Ptr + 4);
     let Bcast = (DtimCount = 0 \<and> BitCntl AND 0x01 \<noteq> 0);
     let N1 = BitCntl AND 0xfe;
     let N2 = TimLen - 4 + N1;
     let MyByte = (of_nat (Aid div 8) - N1 :: byte);
     let MyBit = (of_nat (Aid mod 16) - (if MyByte AND 0x01 \<noteq> 0 then 8 else 0) :: byte);
     if Aid < unat N1 * 8 \<or> (unat N2 + 1) * 8 \<le> Aid then Some (TimLen, Bcast, DtimCount, DtimPeriod, False)
     else do {
       x \<leftarrow> nth_opt b (Ptr + 4 + (unat MyByte + 1));
       Some (TimLen, Bcast, DtimCount, DtimPeriod, bit x (unat MyBit)) } }"

section \<open>The walk over the elements\<close>

text \<open>The local variables of the parser: the necessary fields seen so far (\<open>Sanity\<close>), the reported
  elements and their length, the control channel, the WPS buffer (\<open>None\<close> if it was not allocated)
  and the length collected in it.\<close>

record pb_state =
  pb_ie :: BCN_IE_LIST
  pb_Sanity :: byte
  pb_VIE :: "byte list"
  pb_LengthVIE :: nat
  pb_CtrlChannel :: byte
  pb_Wsc :: "byte list option"
  pb_WscLen :: nat

text \<open>How an element leaves the switch: \<open>break\<close>, \<open>goto SanityCheck\<close>, or \<open>return FALSE\<close>.\<close>

datatype ie_exit = Break pb_state | Goto_SanityCheck pb_state | Return_FALSE pb_state

definition set_ie :: "(BCN_IE_LIST \<Rightarrow> BCN_IE_LIST) \<Rightarrow> pb_state \<Rightarrow> pb_state" where
  "set_ie f st = st\<lparr>pb_ie := f (pb_ie st)\<rparr>"

text \<open>Copying the element at \<open>p\<close> behind the elements reported so far.\<close>

definition report_ie :: "byte list \<Rightarrow> nat \<Rightarrow> nat \<Rightarrow> pb_state \<Rightarrow> pb_state option" where
  "report_ie b p len st = do {
     e \<leftarrow> bread b p (len + 2);
     v \<leftarrow> bmove (pb_VIE st) (pb_LengthVIE st) e;
     Some (st\<lparr>pb_VIE := v, pb_LengthVIE := pb_LengthVIE st + (len + 2)\<rparr>) }"

text \<open>The EDCA parameters of a WMM parameter element, four octets for each access category, and the
  defaults of a WMM information element.\<close>

definition edca_ac :: "byte list \<Rightarrow> EDCA_PARM \<Rightarrow> EDCA_PARM" where
  "edca_ac q e = (let aci = unat (drop_bit 5 (q ! 0 AND 0x60)) in
     e\<lparr>ed_bACM := (ed_bACM e)[aci := (q ! 0 AND 0x10 = 0x10)],
       ed_Aifsn := (ed_Aifsn e)[aci := q ! 0 AND 0x0f],
       ed_Cwmin := (ed_Cwmin e)[aci := q ! 1 AND 0x0f],
       ed_Cwmax := (ed_Cwmax e)[aci := drop_bit 4 (q ! 1)],
       ed_Txop := (ed_Txop e)[aci := u16 (q ! 2) (q ! 3)]\<rparr>)"

definition edca_head :: "byte \<Rightarrow> EDCA_PARM \<Rightarrow> EDCA_PARM" where
  "edca_head q e = e\<lparr>ed_bValid := True, ed_bQAck := False, ed_bQueueRequest := False, ed_bTxopRequest := False,
     ed_EdcaUpdateCount := q AND 0x0f, ed_bAPSDCapable := (q AND 0x80 \<noteq> 0)\<rparr>"

definition wme_parm :: "byte list \<Rightarrow> EDCA_PARM \<Rightarrow> EDCA_PARM" where
  "wme_parm oct e = fold (\<lambda>i. edca_ac (drop (8 + 4 * i) oct)) [0..<4] (edca_head (oct ! 6) e)"

definition wme_info :: "byte list \<Rightarrow> EDCA_PARM \<Rightarrow> EDCA_PARM" where
  "wme_info oct e = (edca_head (oct ! 6) e)
    \<lparr>ed_bACM := (ed_bACM e)[QID_AC_BE := False, QID_AC_BK := False, QID_AC_VI := False, QID_AC_VO := False],
     ed_Aifsn := (ed_Aifsn e)[QID_AC_BE := 3, QID_AC_BK := 7, QID_AC_VI := 2, QID_AC_VO := 2],
     ed_Cwmin := (ed_Cwmin e)[QID_AC_BE := CW_MIN_IN_BITS, QID_AC_BK := CW_MIN_IN_BITS,
       QID_AC_VI := CW_MIN_IN_BITS - 1, QID_AC_VO := CW_MIN_IN_BITS - 2],
     ed_Cwmax := (ed_Cwmax e)[QID_AC_BE := CW_MAX_IN_BITS, QID_AC_BK := CW_MAX_IN_BITS,
       QID_AC_VI := CW_MAX_IN_BITS, QID_AC_VO := CW_MAX_IN_BITS - 1],
     ed_Txop := (ed_Txop e)[QID_AC_BE := 0, QID_AC_BK := 0, QID_AC_VI := 96, QID_AC_VO := 48]\<rparr>"

section \<open>The elements\<close>

text \<open>One function per case of the switch. \<open>p\<close> is the position of the element, \<open>len\<close> its length;
  \<open>Octet[i]\<close> is the octet at \<open>p + 2 + i\<close>.\<close>

definition ie_ssid :: "byte list \<Rightarrow> nat \<Rightarrow> nat \<Rightarrow> pb_state \<Rightarrow> ie_exit option" where
  "ie_ssid b p len st =
    (if pb_Sanity st AND 0x1 \<noteq> 0 then Some (Break st)
     else if len \<le> MAX_LEN_OF_SSID then do {
       o0 \<leftarrow> bread b (p + 2) len;
       s \<leftarrow> bmove (il_Ssid (pb_ie st)) 0 o0;
       Some (Break (set_ie (\<lambda>i. i\<lparr>il_Ssid := s, il_SsidLen := len\<rparr>) st\<lparr>pb_Sanity := pb_Sanity st OR 0x1\<rparr>)) }
     else Some (Goto_SanityCheck st))"

definition ie_supp_rates :: "byte list \<Rightarrow> nat \<Rightarrow> nat \<Rightarrow> pb_state \<Rightarrow> ie_exit option" where
  "ie_supp_rates b p len st =
    (if len \<le> MAX_LEN_OF_SUPPORTED_RATES then do {
       o0 \<leftarrow> bread b (p + 2) len;
       r \<leftarrow> bmove (il_SupRate (pb_ie st)) 0 o0;
       Some (Break (set_ie (\<lambda>i. i\<lparr>il_SupRate := r, il_SupRateLen := len\<rparr>) st\<lparr>pb_Sanity := pb_Sanity st OR 0x2\<rparr>)) }
     else Some (Goto_SanityCheck st))"

definition ie_ht_cap :: "byte list \<Rightarrow> nat \<Rightarrow> nat \<Rightarrow> pb_state \<Rightarrow> ie_exit option" where
  "ie_ht_cap b p len st =
    (if SIZE_HT_CAP_IE \<le> len then do {
       h \<leftarrow> bread b (p + 2) 26;
       st' \<leftarrow> report_ie b p len (set_ie (\<lambda>i. i\<lparr>il_HtCapability := h, il_HtCapabilityLen := SIZE_HT_CAP_IE,
         il_PreNHtCapabilityLen := 0\<rparr>) st);
       Some (Break st') }
     else Some (Break st))"

definition ie_add_ht :: "byte list \<Rightarrow> nat \<Rightarrow> nat \<Rightarrow> pb_state \<Rightarrow> ie_exit option" where
  "ie_add_ht b p len st =
    (if 22 \<le> len then do {
       h \<leftarrow> bread b (p + 2) 22;
       st' \<leftarrow> report_ie b p len ((set_ie (\<lambda>i. i\<lparr>il_AddHtInfo := h, il_AddHtInfoLen := SIZE_ADD_HT_INFO_IE\<rparr>) st)
         \<lparr>pb_CtrlChannel := h ! 0\<rparr>);
       Some (Break st') }
     else Some (Break st))"

definition ie_secondary_ch_offset :: "byte list \<Rightarrow> nat \<Rightarrow> nat \<Rightarrow> pb_state \<Rightarrow> ie_exit option" where
  "ie_secondary_ch_offset b p len st =
    (if len = 1 then do {
       x \<leftarrow> nth_opt b (p + 2);
       Some (Break (set_ie (\<lambda>i. i\<lparr>il_NewExtChannelOffset := x\<rparr>) st)) }
     else Some (Break st))"

definition ie_ds_parm :: "bcn_ctx \<Rightarrow> byte list \<Rightarrow> nat \<Rightarrow> nat \<Rightarrow> pb_state \<Rightarrow> ie_exit option" where
  "ie_ds_parm pAd b p len st =
    (if len = 1 then do {
       c \<leftarrow> nth_opt b (p + 2);
       let st' = set_ie (\<lambda>i. i\<lparr>il_Channel := c\<rparr>) st;
       if \<not> ChannelSanity pAd c then Some (Goto_SanityCheck st')
       else Some (Break (st'\<lparr>pb_Sanity := pb_Sanity st' OR 0x4\<rparr>)) }
     else Some (Goto_SanityCheck st))"

definition ie_cf_parm :: "byte list \<Rightarrow> nat \<Rightarrow> nat \<Rightarrow> pb_state \<Rightarrow> ie_exit option" where
  "ie_cf_parm b p len st =
    (if len = 6 then do {
       q \<leftarrow> bread b (p + 2) 6;
       Some (Break (set_ie (\<lambda>i. i\<lparr>il_CfParm := \<lparr>cf_bValid = True, cf_CfpCount = q ! 0, cf_CfpPeriod = q ! 1,
         cf_CfpMaxDuration = u16 (q ! 2) (q ! 3), cf_CfpDurRemaining = u16 (q ! 4) (q ! 5)\<rparr>\<rparr>) st)) }
     else Some (Return_FALSE st))"

definition ie_ibss_parm :: "byte list \<Rightarrow> nat \<Rightarrow> nat \<Rightarrow> pb_state \<Rightarrow> ie_exit option" where
  "ie_ibss_parm b p len st =
    (if len = 2 then do {
       q \<leftarrow> bread b (p + 2) 2;
       Some (Break (set_ie (\<lambda>i. i\<lparr>il_AtimWin := u16 (q ! 0) (q ! 1)\<rparr>) st)) }
     else Some (Return_FALSE st))"

text \<open>Only in beacons of the own access point.\<close>

definition ie_tim :: "bcn_ctx \<Rightarrow> byte \<Rightarrow> byte list \<Rightarrow> nat \<Rightarrow> pb_state \<Rightarrow> ie_exit option" where
  "ie_tim pAd SubType b p st =
    (if SubType = SUBTYPE_BEACON \<and> bc_INFRA_ON pAd \<and> il_Bssid (pb_ie st) = bc_Bssid pAd then do {
       (tl, bc, dc, dp, me) \<leftarrow> GetTimBit b p (bc_Aid pAd);
       Some (Break (set_ie (\<lambda>i. i\<lparr>il_BcastFlag := bc, il_DtimCount := dc, il_DtimPeriod := dp, il_MessageToMe := me\<rparr>) st)) }
     else Some (Break st))"

definition ie_csa :: "byte list \<Rightarrow> nat \<Rightarrow> nat \<Rightarrow> pb_state \<Rightarrow> ie_exit option" where
  "ie_csa b p len st =
    (if len = 3 then do {
       c \<leftarrow> nth_opt b (p + 3);
       Some (Break (set_ie (\<lambda>i. i\<lparr>il_NewChannel := c\<rparr>) st)) }
     else Some (Break st))"

text \<open>The vendor elements, in the order of the comparisons: Ralink, the HT elements before 802.11n,
  WPA, the two WMM elements, WPS. A WPS element is appended to the WPS buffer without its OUI; with
  \<open>Len < 4\<close> the length of the copy is negative.\<close>

definition ie_wps :: "byte list \<Rightarrow> nat \<Rightarrow> nat \<Rightarrow> pb_state \<Rightarrow> ie_exit option" where
  "ie_wps b p len st =
    (case pb_Wsc st of None \<Rightarrow> Some (Break st)
     | Some w \<Rightarrow>
        if pb_WscLen st < 512 then
          (if len < 4 then None
           else do {
             q \<leftarrow> bread b (p + 6) (len - 4);
             w' \<leftarrow> bmove w (pb_WscLen st) q;
             Some (Break (st\<lparr>pb_Wsc := Some w', pb_WscLen := pb_WscLen st + (len - 4)\<rparr>)) })
        else Some (Break st))"

definition ie_pren_ht :: "byte list \<Rightarrow> nat \<Rightarrow> nat \<Rightarrow> pb_state \<Rightarrow> ie_exit option" where
  "ie_pren_ht b p len st = do {
     t \<leftarrow> nth_opt b (p + 5);
     st1 \<leftarrow> (if t = OUI_PREN_HT_CAP \<and> 30 \<le> len \<and> il_HtCapabilityLen (pb_ie st) = 0 then do {
         h \<leftarrow> bread b (p + 6) 26;
         Some (set_ie (\<lambda>i. i\<lparr>il_HtCapability := h, il_PreNHtCapabilityLen := SIZE_HT_CAP_IE\<rparr>) st) }
       else Some st);
     st2 \<leftarrow> (if t = OUI_PREN_ADD_HT \<and> 26 \<le> len then do {
         h \<leftarrow> bread b (p + 6) 22;
         Some (set_ie (\<lambda>i. i\<lparr>il_AddHtInfo := h, il_AddHtInfoLen := SIZE_ADD_HT_INFO_IE\<rparr>) st1) }
       else Some st1);
     Some (Break st2) }"

definition ie_wmm_wps :: "byte list \<Rightarrow> nat \<Rightarrow> nat \<Rightarrow> pb_state \<Rightarrow> ie_exit option" where
  "ie_wmm_wps b p len st = do {
     isparm \<leftarrow> beq b (p + 2) WME_PARM_ELEM;
     if isparm \<and> len = 24 then do {
       q \<leftarrow> bread b (p + 2) 24;
       Some (Break (set_ie (\<lambda>i. i\<lparr>il_EdcaParm := wme_parm q (il_EdcaParm i)\<rparr>) st)) }
     else do {
       isinfo \<leftarrow> beq b (p + 2) WME_INFO_ELEM;
       if isinfo \<and> len = 7 then do {
         q \<leftarrow> bread b (p + 2) 7;
         Some (Break (set_ie (\<lambda>i. i\<lparr>il_EdcaParm := wme_info q (il_EdcaParm i)\<rparr>) st)) }
       else do {
         iswps \<leftarrow> beq b (p + 2) WPS_OUI;
         if iswps then ie_wps b p len st else Some (Break st) } } }"

definition ie_vendor :: "bcn_ctx \<Rightarrow> byte list \<Rightarrow> nat \<Rightarrow> nat \<Rightarrow> pb_state \<Rightarrow> ie_exit option" where
  "ie_vendor pAd b p len st = do {
     ralink \<leftarrow> beq b (p + 2) RALINK_OUI;
     if ralink \<and> len = 7 then do {
       x \<leftarrow> nth_opt b (p + 5);
       Some (Break (set_ie (\<lambda>i. i\<lparr>il_RalinkIe := if x \<noteq> 0 then ucast x else 0xf0000000\<rparr>) st)) }
     else do {
       pren \<leftarrow> (if il_HtCapabilityLen (pb_ie st) = 0 then beq b (p + 2) PRE_N_HT_OUI else Some False);
       if pren \<and> 4 \<le> len \<and> bc_STA pAd then ie_pren_ht b p len st
       else do {
         wpa \<leftarrow> beq b (p + 2) WPA_OUI;
         if wpa then map_option Break (report_ie b p len st)
         else ie_wmm_wps b p len st } } }"

definition ie_ext_supp_rates :: "byte list \<Rightarrow> nat \<Rightarrow> nat \<Rightarrow> pb_state \<Rightarrow> ie_exit option" where
  "ie_ext_supp_rates b p len st =
    (if len \<le> MAX_LEN_OF_SUPPORTED_RATES then do {
       o0 \<leftarrow> bread b (p + 2) len;
       r \<leftarrow> bmove (il_ExtRate (pb_ie st)) 0 o0;
       Some (Break (set_ie (\<lambda>i. i\<lparr>il_ExtRate := r, il_ExtRateLen := len\<rparr>) st)) }
     else Some (Break st))"

definition ie_erp :: "byte list \<Rightarrow> nat \<Rightarrow> nat \<Rightarrow> pb_state \<Rightarrow> ie_exit option" where
  "ie_erp b p len st =
    (if len = 1 then do {
       x \<leftarrow> nth_opt b (p + 2);
       Some (Break (set_ie (\<lambda>i. i\<lparr>il_Erp := x\<rparr>) st)) }
     else Some (Break st))"

definition ie_aironet_ckip :: "byte list \<Rightarrow> nat \<Rightarrow> nat \<Rightarrow> pb_state \<Rightarrow> ie_exit option" where
  "ie_aironet_ckip b p len st =
    (if len < CKIP_NEGOTIATION_LENGTH - 2 then Some (Break st)
     else do {
       x \<leftarrow> nth_opt b (p + 10);
       Some (Break (set_ie (\<lambda>i. i\<lparr>il_CkipFlag := x\<rparr>) st)) })"

definition ie_ap_tx_power :: "byte list \<Rightarrow> nat \<Rightarrow> nat \<Rightarrow> pb_state \<Rightarrow> ie_exit option" where
  "ie_ap_tx_power b p len st =
    (if len \<noteq> 6 then Some (Break st)
     else do {
       cisco \<leftarrow> beq b (p + 2) CISCO_OUI;
       if cisco then do {
         x \<leftarrow> nth_opt b (p + 6);
         Some (Break (set_ie (\<lambda>i. i\<lparr>il_AironetCellPowerLimit := x\<rparr>) st)) }
       else Some (Break st) })"

definition ie_rsn :: "byte list \<Rightarrow> nat \<Rightarrow> nat \<Rightarrow> pb_state \<Rightarrow> ie_exit option" where
  "ie_rsn b p len st = do {
     rsn \<leftarrow> beq b (p + 4) RSN_OUI;
     if rsn then map_option Break (report_ie b p len st) else Some (Break st) }"

definition ie_qbss_load :: "byte list \<Rightarrow> nat \<Rightarrow> nat \<Rightarrow> pb_state \<Rightarrow> ie_exit option" where
  "ie_qbss_load b p len st =
    (if len = 5 then do {
       q \<leftarrow> bread b (p + 2) 5;
       map_option Break (report_ie b p len (set_ie (\<lambda>i. i\<lparr>il_QbssLoad := \<lparr>ql_bValid = True, ql_StaNum = u16 (q ! 0) (q ! 1),
         ql_ChannelUtilization = q ! 2, ql_RemainingAdmissionControl = u16 (q ! 3) (q ! 4)\<rparr>\<rparr>) st)) }
     else Some (Break st))"

text \<open>All four octets of the structure are copied, whatever the length of the element.\<close>

definition ie_ext_capability :: "byte list \<Rightarrow> nat \<Rightarrow> nat \<Rightarrow> pb_state \<Rightarrow> ie_exit option" where
  "ie_ext_capability b p len st =
    (if 1 \<le> len then do {
       q \<leftarrow> bread b (p + 2) 4;
       Some (Break (set_ie (\<lambda>i. i\<lparr>il_ExtCapInfo := q\<rparr>) st)) }
     else Some (Break st))"

text \<open>The switch.\<close>

definition ie_switch :: "bcn_ctx \<Rightarrow> byte \<Rightarrow> byte list \<Rightarrow> nat \<Rightarrow> byte \<Rightarrow> nat \<Rightarrow> pb_state \<Rightarrow> ie_exit option" where
  "ie_switch pAd SubType b p Eid len st =
    (if Eid = IE_SSID then ie_ssid b p len st
     else if Eid = IE_SUPP_RATES then ie_supp_rates b p len st
     else if Eid = IE_HT_CAP then ie_ht_cap b p len st
     else if Eid = IE_ADD_HT then ie_add_ht b p len st
     else if Eid = IE_SECONDARY_CH_OFFSET then ie_secondary_ch_offset b p len st
     else if Eid = IE_FH_PARM then Some (Break st)
     else if Eid = IE_DS_PARM then ie_ds_parm pAd b p len st
     else if Eid = IE_CF_PARM then ie_cf_parm b p len st
     else if Eid = IE_IBSS_PARM then ie_ibss_parm b p len st
     else if Eid = IE_TIM then ie_tim pAd SubType b p st
     else if Eid = IE_CHANNEL_SWITCH_ANNOUNCEMENT then ie_csa b p len st
     else if Eid = IE_VENDOR_SPECIFIC then ie_vendor pAd b p len st
     else if Eid = IE_EXT_SUPP_RATES then ie_ext_supp_rates b p len st
     else if Eid = IE_ERP then ie_erp b p len st
     else if Eid = IE_AIRONET_CKIP then ie_aironet_ckip b p len st
     else if Eid = IE_AP_TX_POWER then ie_ap_tx_power b p len st
     else if Eid = IE_RSN then ie_rsn b p len st
     else if Eid = IE_COUNTRY then map_option Break (report_ie b p len st)
     else if Eid = IE_QBSS_LOAD then ie_qbss_load b p len st
     else if Eid = IE_EXT_CAPABILITY then ie_ext_capability b p len st
     else Some (Break st))"

section \<open>The parser\<close>

text \<open>The loop over the elements; \<open>Length\<close> is the offset of the element in the message. The loop
  condition reads the length octet of an element that may lie behind the message.\<close>

function ie_loop :: "bcn_ctx \<Rightarrow> byte \<Rightarrow> byte list \<Rightarrow> nat \<Rightarrow> nat \<Rightarrow> pb_state \<Rightarrow> ie_exit option" where
  "ie_loop pAd SubType b MsgLen Length st =
    (case nth_opt b (Length + 1) of None \<Rightarrow> None | Some l \<Rightarrow>
      if MsgLen < Length + 2 + unat l then Some (Break st)
      else if MAX_VIE_LEN \<le> pb_LengthVIE st + unat l + 2 then Some (Break st)
      else (case ie_switch pAd SubType b Length (b ! Length) (unat l) st of None \<Rightarrow> None
        | Some (Break st') \<Rightarrow> ie_loop pAd SubType b MsgLen (Length + 2 + unat l) st'
        | Some e \<Rightarrow> Some e))"
  by pat_completeness auto

termination
  by (relation "measure (\<lambda>(pAd, SubType, b, MsgLen, Length, st). MsgLen - Length)") auto

declare ie_loop.simps [simp del]

text \<open>The channel of a 5 GHz beacon without a DS element, and the collected WPS element, whose length
  octet is the sum modulo 256.\<close>

definition bcn_channel :: "bcn_ctx \<Rightarrow> byte \<Rightarrow> pb_state \<Rightarrow> pb_state" where
  "bcn_channel pAd MsgChannel st =
    (if 14 < bc_RfChannel pAd \<and> pb_Sanity st AND 0x4 = 0
     then (set_ie (\<lambda>i. i\<lparr>il_Channel := if pb_CtrlChannel st \<noteq> 0 then pb_CtrlChannel st else MsgChannel\<rparr>) st)
       \<lparr>pb_Sanity := pb_Sanity st OR 0x4\<rparr>
     else st)"

definition bcn_wsc :: "pb_state \<Rightarrow> pb_state option" where
  "bcn_wsc st =
    (case pb_Wsc st of None \<Rightarrow> Some st
     | Some w \<Rightarrow>
        if 0 < pb_WscLen st \<and> pb_WscLen st < 512 then do {
          v \<leftarrow> bmove (pb_VIE st) (pb_LengthVIE st) [0xdd, of_nat (pb_WscLen st + 4), 0x00, 0x50, 0xf2, 0x04];
          v' \<leftarrow> bmove v (pb_LengthVIE st + 6) (take (pb_WscLen st) w);
          Some (st\<lparr>pb_VIE := v', pb_LengthVIE := pb_LengthVIE st + (pb_WscLen st + 6)\<rparr>) }
        else Some st)"

text \<open>The header: the addresses, the time stamp, the beacon period and the capabilities. \<open>VIE\<close> is the
  caller's buffer, \<open>wsc\<close> the outcome of the allocation of the WPS buffer.\<close>

definition bcn_header :: "byte list \<Rightarrow> BCN_IE_LIST \<Rightarrow> byte list option \<Rightarrow> byte list \<Rightarrow> pb_state" where
  "bcn_header b ie wsc VIE =
    (let cap = (ucast (b ! 34) OR push_bit 8 (ucast (b ! 35)) :: 16 word) in
     \<lparr>pb_ie = ie\<lparr>il_AironetCellPowerLimit := 0xFF, il_NewExtChannelOffset := 0xff,
        il_Addr2 := take 6 (drop 10 b), il_Bssid := take 6 (drop 16 b), il_TimeStamp := take 8 (drop 24 b),
        il_BeaconPeriod := u16 (b ! 32) (b ! 33), il_CapabilityInfo := cap,
        il_BssType := if cap AND 0x0001 \<noteq> 0 then BSS_INFRA else BSS_ADHOC\<rparr>,
      pb_Sanity = 0, pb_VIE = VIE, pb_LengthVIE = 0, pb_CtrlChannel = 0, pb_Wsc = wsc, pb_WscLen = 0\<rparr>)"

text \<open>The verdict, the parsed elements, the reported elements and their length.\<close>

type_synonym bcn_result = "bool \<times> BCN_IE_LIST \<times> nat \<times> byte list"

definition bcn_result :: "bool \<Rightarrow> pb_state \<Rightarrow> bcn_result" where
  "bcn_result r st = (r, pb_ie st, pb_LengthVIE st, pb_VIE st)"

definition PeerBeaconAndProbeRspSanity ::
  "bcn_ctx \<Rightarrow> byte list option \<Rightarrow> byte list \<Rightarrow> nat \<Rightarrow> byte \<Rightarrow> BCN_IE_LIST \<Rightarrow> byte list \<Rightarrow> bcn_result option" where
  "PeerBeaconAndProbeRspSanity pAd wsc b MsgLen MsgChannel ie VIE =
    (if length b < LENGTH_802_11 + TIMESTAMP_LEN + 4 then None
     else do {
       e \<leftarrow> ie_loop pAd (drop_bit 4 (b ! 0)) b MsgLen (LENGTH_802_11 + TIMESTAMP_LEN + 4) (bcn_header b ie wsc VIE);
       case e of
         Return_FALSE st \<Rightarrow> Some (bcn_result False st)
       | Goto_SanityCheck st \<Rightarrow> Some (bcn_result (pb_Sanity st = 0x7) st)
       | Break st \<Rightarrow> do {
           st' \<leftarrow> bcn_wsc (bcn_channel pAd MsgChannel st);
           Some (bcn_result (pb_Sanity st' = 0x7) st') } })"

end
