(* ===== verification/BssEntry.thy ===== *)
theory BssEntry
  imports Beacon
begin

text \<open>One entry of the BSS table (common/mlme.c): \<open>BssCipherParse\<close>, which reads the security
  elements of the entry, and \<open>BssEntrySet\<close>, which fills it from a parsed beacon. Reads and copies
  outside the arrays of the entry or of the caller's buffer are \<open>None\<close>. The build has no VHT, WAPI
  and WSC code.\<close>

section \<open>The entry\<close>

definition MAX_CUSTOM_LEN :: nat where "MAX_CUSTOM_LEN = 128"
definition EXTCHA_ABOVE :: byte where "EXTCHA_ABOVE = 1"
definition EXTCHA_BELOW :: byte where "EXTCHA_BELOW = 3"

text \<open>\<open>NDIS_802_11_ENCRYPTION_STATUS\<close> and \<open>NDIS_802_11_AUTHENTICATION_MODE\<close> (include/oid.h) are
  compared by their numbers.\<close>

type_synonym enc_status = nat
type_synonym auth_mode = nat

definition Ndis802_11WEPEnabled :: enc_status where "Ndis802_11WEPEnabled = 0"
definition Ndis802_11Encryption1Enabled :: enc_status where "Ndis802_11Encryption1Enabled = 0"
definition Ndis802_11Encryption2Enabled :: enc_status where "Ndis802_11Encryption2Enabled = 4"
definition Ndis802_11Encryption3Enabled :: enc_status where "Ndis802_11Encryption3Enabled = 6"
definition Ndis802_11GroupWEP40Enabled :: enc_status where "Ndis802_11GroupWEP40Enabled = 10"
definition Ndis802_11GroupWEP104Enabled :: enc_status where "Ndis802_11GroupWEP104Enabled = 11"

definition Ndis802_11AuthModeOpen :: auth_mode where "Ndis802_11AuthModeOpen = 0"
definition Ndis802_11AuthModeWPA :: auth_mode where "Ndis802_11AuthModeWPA = 3"
definition Ndis802_11AuthModeWPAPSK :: auth_mode where "Ndis802_11AuthModeWPAPSK = 4"
definition Ndis802_11AuthModeWPANone :: auth_mode where "Ndis802_11AuthModeWPANone = 5"
definition Ndis802_11AuthModeWPA2 :: auth_mode where "Ndis802_11AuthModeWPA2 = 6"
definition Ndis802_11AuthModeWPA2PSK :: auth_mode where "Ndis802_11AuthModeWPA2PSK = 7"
definition Ndis802_11AuthModeMax :: auth_mode where "Ndis802_11AuthModeMax = 10"

lemmas ndis_defs =
  Ndis802_11WEPEnabled_def Ndis802_11Encryption1Enabled_def Ndis802_11WEPDisabled_def
  Ndis802_11Encryption2Enabled_def Ndis802_11Encryption3Enabled_def Ndis802_11GroupWEP40Enabled_def
  Ndis802_11GroupWEP104Enabled_def Ndis802_11AuthModeOpen_def Ndis802_11AuthModeWPA_def
  Ndis802_11AuthModeWPAPSK_def Ndis802_11AuthModeWPANone_def Ndis802_11AuthModeWPA2_def
  Ndis802_11AuthModeWPA2PSK_def Ndis802_11AuthModeMax_def

record CIPHER_SUITE =
  cs_PairCipher :: enc_status
  cs_PairCipherAux :: enc_status
  cs_GroupCipher :: enc_status
  cs_RsnCapability :: nat
  cs_bMixMode :: bool

record NDIS_802_11_FIXED_IEs =
  fx_Timestamp :: "byte list"
  fx_BeaconInterval :: nat
  fx_Capabilities :: "16 word"

record WPA_IE =
  wi_IELen :: nat
  wi_IE :: "byte list"

record BSS_ENTRY =
  be_Bssid :: "byte list"
  be_Channel :: byte
  be_CentralChannel :: byte
  be_BssType :: nat
  be_AtimWin :: nat
  be_BeaconPeriod :: nat
  be_SupRate :: "byte list"
  be_SupRateLen :: nat
  be_ExtRate :: "byte list"
  be_ExtRateLen :: nat
  be_HtCapability :: "byte list"
  be_HtCapabilityLen :: nat
  be_AddHtInfo :: "byte list"
  be_AddHtInfoLen :: nat
  be_NewExtChanOffset :: byte
  be_Rssi :: int
  be_Privacy :: bool
  be_Hidden :: bool
  be_CapabilityInfo :: "16 word"
  be_CfParm :: CF_PARM
  be_SsidLen :: nat
  be_Ssid :: "byte list"
  be_SameRxTimeCount :: byte
  be_LastBeaconRxTimeA :: tick
  be_LastBeaconRxTime :: tick
  be_bSES :: bool
  be_WPA :: CIPHER_SUITE
  be_WPA2 :: CIPHER_SUITE
  be_FixIEs :: NDIS_802_11_FIXED_IEs
  be_AuthModeAux :: auth_mode
  be_AuthMode :: auth_mode
  be_WepStatus :: enc_status
  be_VarIELen :: nat
  be_VarIEs :: "byte list"
  be_VarIeFromProbeRspLen :: nat
  be_pVarIeFromProbRsp :: "nat option"
  be_CkipFlag :: byte
  be_EdcaParm :: EDCA_PARM
  be_QosCapability :: QOS_CAPABILITY_PARM
  be_QbssLoad :: QBSS_LOAD_PARM
  be_WpaIE :: WPA_IE
  be_RsnIE :: WPA_IE
  be_WpsIE :: WPA_IE
  be_CountryString :: "byte list"
  be_bHasCountryIE :: bool

definition zero_cipher :: CIPHER_SUITE where
  "zero_cipher = \<lparr>cs_PairCipher = 0, cs_PairCipherAux = 0, cs_GroupCipher = 0, cs_RsnCapability = 0, cs_bMixMode = False\<rparr>"

definition zero_wpa_ie :: WPA_IE where
  "zero_wpa_ie = \<lparr>wi_IELen = 0, wi_IE = replicate MAX_CUSTOM_LEN 0\<rparr>"

definition zero_entry :: BSS_ENTRY where
  "zero_entry = \<lparr>be_Bssid = replicate 6 0, be_Channel = 0, be_CentralChannel = 0, be_BssType = 0, be_AtimWin = 0,
    be_BeaconPeriod = 0, be_SupRate = replicate 12 0, be_SupRateLen = 0, be_ExtRate = replicate 12 0,
    be_ExtRateLen = 0, be_HtCapability = replicate 26 0, be_HtCapabilityLen = 0, be_AddHtInfo = replicate 22 0,
    be_AddHtInfoLen = 0, be_NewExtChanOffset = 0, be_Rssi = 0, be_Privacy = False, be_Hidden = False,
    be_CapabilityInfo = 0, be_CfParm = zero_cf, be_SsidLen = 0, be_Ssid = replicate 32 0, be_SameRxTimeCount = 0,
    be_LastBeaconRxTimeA = 0, be_LastBeaconRxTime = 0, be_bSES = False, be_WPA = zero_cipher,
    be_WPA2 = zero_cipher,
    be_FixIEs = \<lparr>fx_Timestamp = replicate 8 0, fx_BeaconInterval = 0, fx_Capabilities = 0\<rparr>,
    be_AuthModeAux = 0, be_AuthMode = 0, be_WepStatus = 0, be_VarIELen = 0, be_VarIEs = replicate MAX_VIE_LEN 0,
    be_VarIeFromProbeRspLen = 0, be_pVarIeFromProbRsp = None, be_CkipFlag = 0, be_EdcaParm = zero_edca,
    be_QosCapability = zero_qos, be_QbssLoad = zero_qbss, be_WpaIE = zero_wpa_ie, be_RsnIE = zero_wpa_ie,
    be_WpsIE = zero_wpa_ie, be_CountryString = replicate 3 0, be_bHasCountryIE = False\<rparr>"

section \<open>The security elements\<close>

definition group_cipher :: "byte \<Rightarrow> enc_status \<Rightarrow> enc_status" where
  "group_cipher t old =
    (if t = 1 then Ndis802_11GroupWEP40Enabled else if t = 5 then Ndis802_11GroupWEP104Enabled
     else if t = 2 then Ndis802_11Encryption2Enabled else if t = 4 then Ndis802_11Encryption3Enabled else old)"

definition pair_cipher :: "byte \<Rightarrow> enc_status" where
  "pair_cipher t =
    (if t = 1 \<or> t = 5 then Ndis802_11Encryption1Enabled else if t = 2 then Ndis802_11Encryption2Enabled
     else if t = 4 then Ndis802_11Encryption3Enabled else Ndis802_11WEPDisabled)"

text \<open>The loops over the \<open>Count\<close> pairwise suites: the better cipher goes to \<open>PairCipher\<close>. The
  selector is \<open>q\<close>; its type is the fourth octet.\<close>

definition add_pair_cipher :: "byte \<Rightarrow> CIPHER_SUITE \<Rightarrow> CIPHER_SUITE" where
  "add_pair_cipher t s = (let TmpCipher = pair_cipher t in
     if cs_PairCipher s < TmpCipher then s\<lparr>cs_PairCipherAux := cs_PairCipher s, cs_PairCipher := TmpCipher\<rparr>
     else s\<lparr>cs_PairCipherAux := TmpCipher\<rparr>)"

fun pairwise_loop :: "byte list \<Rightarrow> nat \<Rightarrow> nat \<Rightarrow> CIPHER_SUITE \<Rightarrow> (nat \<times> CIPHER_SUITE) option" where
  "pairwise_loop b 0 q s = Some (q, s)"
| "pairwise_loop b (Suc Count) q s = do {
     t \<leftarrow> nth_opt b (q + 3);
     pairwise_loop b Count (q + 4) (add_pair_cipher t s) }"

definition announce_auth :: "auth_mode \<Rightarrow> BSS_ENTRY \<Rightarrow> BSS_ENTRY" where
  "announce_auth m e =
    (if be_AuthMode e = Ndis802_11AuthModeOpen then e\<lparr>be_AuthMode := m\<rparr> else e\<lparr>be_AuthModeAux := m\<rparr>)"

definition rsn_auth :: "byte \<Rightarrow> auth_mode" where
  "rsn_auth t = (if t = 0 then Ndis802_11AuthModeWPANone else if t = 1 then Ndis802_11AuthModeWPA2
     else if t = 2 then Ndis802_11AuthModeWPA2PSK else Ndis802_11AuthModeMax)"

fun akm_loop :: "byte list \<Rightarrow> nat \<Rightarrow> nat \<Rightarrow> BSS_ENTRY \<Rightarrow> (nat \<times> BSS_ENTRY) option" where
  "akm_loop b 0 q e = Some (q, e)"
| "akm_loop b (Suc Count) q e = do {
     rsn \<leftarrow> beq b q RSN_OUI;
     if \<not> rsn then Some (q, e)
     else do {
       t \<leftarrow> nth_opt b (q + 3);
       akm_loop b Count (q + 4) (announce_auth (rsn_auth t) e) } }"

text \<open>A WPA element at \<open>p\<close>: the group suite, the pairwise suites, one key management suite. The
  count of the latter is read and not used.\<close>

definition wpa_element :: "nat \<Rightarrow> BSS_ENTRY \<Rightarrow> BSS_ENTRY option" where
  "wpa_element p e = do {
     let b = be_VarIEs e;
     g \<leftarrow> nth_opt b (p + 11);
     let s = (be_WPA e)\<lparr>cs_GroupCipher := group_cipher g (cs_GroupCipher (be_WPA e))\<rparr>;
     lo \<leftarrow> nth_opt b (p + 12);
     hi \<leftarrow> nth_opt b (p + 13);
     (q, s1) \<leftarrow> pairwise_loop b (u16 lo hi) (p + 14) s;
     a0 \<leftarrow> nth_opt b q;
     a1 \<leftarrow> nth_opt b (q + 1);
     t \<leftarrow> nth_opt b (q + 5);
     let e1 = e\<lparr>be_WPA := s1\<rparr>;
     let e2 = (if t = 1 then announce_auth Ndis802_11AuthModeWPA e1
               else if t = 2 then announce_auth Ndis802_11AuthModeWPAPSK e1 else e1);
     let e3 = (if be_BssType e2 = BSS_ADHOC
               then e2\<lparr>be_AuthMode := Ndis802_11AuthModeWPANone, be_AuthModeAux := Ndis802_11AuthModeWPANone,
                   be_WepStatus := cs_GroupCipher s1,
                   be_WPA := if cs_PairCipherAux s1 = Ndis802_11WEPDisabled
                             then s1\<lparr>cs_PairCipherAux := cs_GroupCipher s1\<rparr> else s1\<rparr>
               else e2\<lparr>be_WepStatus := cs_PairCipher s1\<rparr>);
     Some (if cs_GroupCipher (be_WPA e3) \<noteq> cs_PairCipher (be_WPA e3)
           then e3\<lparr>be_WPA := (be_WPA e3)\<lparr>cs_bMixMode := True\<rparr>\<rparr> else e3) }"

definition rsn_element :: "nat \<Rightarrow> BSS_ENTRY \<Rightarrow> BSS_ENTRY option" where
  "rsn_element p e = do {
     let b = be_VarIEs e;
     v0 \<leftarrow> nth_opt b (p + 2);
     v1 \<leftarrow> nth_opt b (p + 3);
     if u16 v0 v1 \<noteq> 1 then Some e
     else do {
       rsn \<leftarrow> beq b (p + 4) RSN_OUI;
       if \<not> rsn then Some e
       else do {
         g \<leftarrow> nth_opt b (p + 7);
         let s = (be_WPA2 e)\<lparr>cs_GroupCipher := group_cipher g (cs_GroupCipher (be_WPA2 e))\<rparr>;
         lo \<leftarrow> nth_opt b (p + 8);
         hi \<leftarrow> nth_opt b (p + 9);
         (q, s1) \<leftarrow> pairwise_loop b (u16 lo hi) (p + 10) s;
         a0 \<leftarrow> nth_opt b q;
         a1 \<leftarrow> nth_opt b (q + 1);
         (r, e1) \<leftarrow> akm_loop b (u16 a0 a1) (q + 2) (e\<lparr>be_WPA2 := s1\<rparr>);
         let e2 = (if be_BssType e1 = BSS_ADHOC
                   then let w = (be_WPA e1)\<lparr>cs_PairCipherAux := cs_PairCipherAux s1, cs_GroupCipher := cs_GroupCipher s1\<rparr>
                     in e1\<lparr>be_WPA := if cs_PairCipherAux w = Ndis802_11WEPDisabled
                                     then w\<lparr>cs_PairCipherAux := cs_GroupCipher w\<rparr> else w\<rparr>
                   else e1);
         let e3 = e2\<lparr>be_WepStatus := cs_PairCipher s1\<rparr>;
         c0 \<leftarrow> nth_opt b r;
         c1 \<leftarrow> nth_opt b (r + 1);
         Some (e3\<lparr>be_WPA2 := s1\<lparr>cs_RsnCapability := u16 c0 c1,
             cs_bMixMode := cs_bMixMode s1 \<or> cs_GroupCipher s1 \<noteq> cs_PairCipher s1\<rparr>\<rparr>) } } }"

definition cipher_element :: "nat \<Rightarrow> BSS_ENTRY \<Rightarrow> BSS_ENTRY option" where
  "cipher_element p e = do {
     let b = be_VarIEs e;
     Eid \<leftarrow> nth_opt b p;
     if Eid = IE_VENDOR_SPECIFIC then do {
       ses \<leftarrow> beq b (p + 2) SES_OUI;
       len \<leftarrow> nth_opt b (p + 1);
       if ses \<and> len = 7 then Some (e\<lparr>be_bSES := True\<rparr>)
       else do {
         wpa \<leftarrow> beq b (p + 2) WPA_OUI;
         if \<not> wpa then Some e else wpa_element p e } }
     else if Eid = IE_RSN then rsn_element p e
     else Some e }"

text \<open>The walk: \<open>Length\<close> octets of \<open>VarIEs\<close> are left.\<close>

function cipher_loop :: "int \<Rightarrow> BSS_ENTRY \<Rightarrow> BSS_ENTRY option" where
  "cipher_loop Length e =
    (if Length \<le> 0 then Some e
     else let p = be_VarIELen e - nat Length in
       (case cipher_element p e of None \<Rightarrow> None | Some e' \<Rightarrow>
         (case nth_opt (be_VarIEs e') (p + 1) of None \<Rightarrow> None | Some l \<Rightarrow>
            cipher_loop (Length - (int (unat l) + 2)) e')))"
  by pat_completeness auto

termination
  by (relation "measure (\<lambda>(Length, e). nat Length)") (auto intro: le_less_trans[where y = 0])

declare cipher_loop.simps [simp del]

definition init_cipher :: CIPHER_SUITE where
  "init_cipher = \<lparr>cs_PairCipher = Ndis802_11WEPDisabled, cs_PairCipherAux = Ndis802_11WEPDisabled,
     cs_GroupCipher = Ndis802_11WEPDisabled, cs_RsnCapability = 0, cs_bMixMode = False\<rparr>"

definition BssCipherParse :: "BSS_ENTRY \<Rightarrow> BSS_ENTRY option" where
  "BssCipherParse pBss = cipher_loop (int (be_VarIELen pBss))
    (pBss\<lparr>be_WepStatus := if be_Privacy pBss then Ndis802_11WEPEnabled else Ndis802_11WEPDisabled,
      be_AuthMode := Ndis802_11AuthModeOpen, be_AuthModeAux := Ndis802_11AuthModeOpen,
      be_WPA := init_cipher, be_WPA2 := init_cipher\<rparr>)"

section \<open>Filling an entry\<close>

text \<open>\<open>get_cent_ch_by_htinfo\<close> of mgmt/mgmt_ht.c on the raw HT elements: octet 0 of the additional
  element is the control channel, the low bits of octet 1 the extension offset, bit 1 of the
  capabilities the 40 MHz bit. Channels are octets.\<close>

definition get_cent_ch_by_htinfo :: "byte list \<Rightarrow> byte list \<Rightarrow> byte" where
  "get_cent_ch_by_htinfo ht_op ht_cap =
    (let ControlChan = ht_op ! 0; ExtChanOffset = ht_op ! 1 AND 0x3; bw40 = (ht_cap ! 0 AND 0x2 \<noteq> 0) in
     if 2 < ControlChan \<and> ExtChanOffset = EXTCHA_BELOW \<and> bw40 then ControlChan - 2
     else if ExtChanOffset = EXTCHA_ABOVE \<and> bw40 then ControlChan + 2
     else ControlChan)"

definition ZeroSsid :: "byte list" where "ZeroSsid = replicate 32 0"

text \<open>The name: a beacon of a hidden network does not overwrite a name already known.\<close>

definition set_ssid :: "BCN_IE_LIST \<Rightarrow> BSS_ENTRY \<Rightarrow> BSS_ENTRY option" where
  "set_ssid ie pBss =
    (if 0 < il_SsidLen ie then do {
       s \<leftarrow> bread (il_Ssid ie) 0 (il_SsidLen ie);
       z \<leftarrow> bread ZeroSsid 0 (il_SsidLen ie);
       if s \<noteq> z then do {
         n \<leftarrow> bmove (replicate MAX_LEN_OF_SSID 0) 0 s;
         Some (pBss\<lparr>be_Ssid := n, be_SsidLen := il_SsidLen ie, be_Hidden := False\<rparr>) }
       else Some (pBss\<lparr>be_Hidden := True\<rparr>) }
     else do {
       s \<leftarrow> bread (be_Ssid pBss) 0 (be_SsidLen pBss);
       z \<leftarrow> bread ZeroSsid 0 (be_SsidLen pBss);
       Some (if s = z then pBss\<lparr>be_Ssid := replicate MAX_LEN_OF_SSID 0, be_SsidLen := 0, be_Hidden := True\<rparr>
             else pBss\<lparr>be_Hidden := True\<rparr>) })"

text \<open>The fixed fields, the time of reception \<open>now\<close>, the rates, the channel. The four contention-free
  numbers of the entry are kept as the parameter record they come from.\<close>

definition set_fixed :: "BCN_IE_LIST \<Rightarrow> int \<Rightarrow> tick \<Rightarrow> BSS_ENTRY \<Rightarrow> BSS_ENTRY option" where
  "set_fixed ie Rssi now pBss = do {
     let infra = (il_BssType ie = BSS_INFRA);
     let ext_len = min (il_ExtRateLen ie) MAX_LEN_OF_SUPPORTED_RATES;
     sup \<leftarrow> bmove (be_SupRate pBss) 0 (take (min (il_SupRateLen ie) MAX_LEN_OF_SUPPORTED_RATES) (il_SupRate ie));
     ext \<leftarrow> bmove (be_ExtRate pBss) 0 (take ext_len (il_ExtRate ie));
     Some (pBss\<lparr>be_BssType := il_BssType ie, be_BeaconPeriod := il_BeaconPeriod ie,
       be_CfParm := if infra \<and> cf_bValid (il_CfParm ie) then il_CfParm ie else be_CfParm pBss,
       be_AtimWin := if infra then be_AtimWin pBss else il_AtimWin ie,
       be_LastBeaconRxTime := now, be_CapabilityInfo := il_CapabilityInfo ie,
       be_Privacy := (il_CapabilityInfo ie AND 0x0010 \<noteq> 0),
       be_SupRate := sup, be_SupRateLen := il_SupRateLen ie, be_ExtRate := ext, be_ExtRateLen := ext_len,
       be_NewExtChanOffset := il_NewExtChannelOffset ie, be_Channel := il_Channel ie,
       be_CentralChannel := il_Channel ie, be_Rssi := Rssi, be_CkipFlag := il_CkipFlag ie,
       be_FixIEs := \<lparr>fx_Timestamp = il_TimeStamp ie, fx_BeaconInterval = il_BeaconPeriod ie,
         fx_Capabilities = il_CapabilityInfo ie\<rparr>\<rparr>) }"

definition set_vie :: "nat \<Rightarrow> byte list \<Rightarrow> BSS_ENTRY \<Rightarrow> BSS_ENTRY option" where
  "set_vie LengthVIE pVIE pBss =
    (if LengthVIE \<noteq> 0 then do {
       v \<leftarrow> bread pVIE 0 LengthVIE;
       w \<leftarrow> bmove (be_VarIEs pBss) 0 v;
       Some (pBss\<lparr>be_VarIELen := LengthVIE, be_VarIEs := w\<rparr>) }
     else Some (pBss\<lparr>be_VarIELen := 0\<rparr>))"

definition set_ht :: "BCN_IE_LIST \<Rightarrow> BSS_ENTRY \<Rightarrow> BSS_ENTRY option" where
  "set_ht ie pBss0 =
    (let pBss = pBss0\<lparr>be_AddHtInfoLen := 0, be_HtCapabilityLen := 0\<rparr> in
     if 0 < il_HtCapabilityLen ie then do {
       h \<leftarrow> bread (il_HtCapability ie) 0 (il_HtCapabilityLen ie);
       h' \<leftarrow> bmove (be_HtCapability pBss) 0 h;
       let e = pBss\<lparr>be_HtCapabilityLen := il_HtCapabilityLen ie, be_HtCapability := h'\<rparr>;
       if 0 < il_AddHtInfoLen ie then do {
         a \<leftarrow> bread (il_AddHtInfo ie) 0 (il_AddHtInfoLen ie);
         a' \<leftarrow> bmove (be_AddHtInfo e) 0 a;
         Some (e\<lparr>be_AddHtInfoLen := il_AddHtInfoLen ie, be_AddHtInfo := a',
           be_CentralChannel := get_cent_ch_by_htinfo (il_AddHtInfo ie) (il_HtCapability ie)\<rparr>) }
       else Some e }
     else Some pBss)"

definition set_qos :: "BCN_IE_LIST \<Rightarrow> BSS_ENTRY \<Rightarrow> BSS_ENTRY" where
  "set_qos ie pBss = pBss
    \<lparr>be_EdcaParm := if ed_bValid (il_EdcaParm ie) then il_EdcaParm ie else (be_EdcaParm pBss)\<lparr>ed_bValid := False\<rparr>,
     be_QosCapability := if qc_bValid (il_QosCapability ie) then il_QosCapability ie
       else (be_QosCapability pBss)\<lparr>qc_bValid := False\<rparr>,
     be_QbssLoad := if ql_bValid (il_QbssLoad ie) then il_QbssLoad ie
       else (be_QbssLoad pBss)\<lparr>ql_bValid := False\<rparr>\<rparr>"

text \<open>The second walk over the reported elements keeps the WPS, WPA and RSN elements (when they fit
  into 128 octets) and the country string.\<close>

definition keep_element :: "byte list \<Rightarrow> nat \<Rightarrow> nat \<Rightarrow> WPA_IE \<Rightarrow> WPA_IE option" where
  "keep_element v p len w =
    (if MAX_CUSTOM_LEN < len + 2 then Some (w\<lparr>wi_IELen := 0\<rparr>)
     else do {
       e \<leftarrow> bread v p (len + 2);
       x \<leftarrow> bmove (wi_IE w) 0 e;
       Some (w\<lparr>wi_IELen := len + 2, wi_IE := x\<rparr>) })"

definition vie_element :: "byte list \<Rightarrow> nat \<Rightarrow> byte \<Rightarrow> nat \<Rightarrow> BSS_ENTRY \<Rightarrow> BSS_ENTRY option" where
  "vie_element v p Eid len e =
    (if Eid = IE_VENDOR_SPECIFIC then do {
       wps \<leftarrow> beq v (p + 2) WPS_OUI;
       if wps then do { w \<leftarrow> keep_element v p len (be_WpsIE e); Some (e\<lparr>be_WpsIE := w\<rparr>) }
       else do {
         wpa \<leftarrow> beq v (p + 2) WPA_OUI;
         if wpa then do { w \<leftarrow> keep_element v p len (be_WpaIE e); Some (e\<lparr>be_WpaIE := w\<rparr>) }
         else Some e } }
     else if Eid = IE_RSN then do {
       rsn \<leftarrow> beq v (p + 4) RSN_OUI;
       if rsn then do { w \<leftarrow> keep_element v p len (be_RsnIE e); Some (e\<lparr>be_RsnIE := w\<rparr>) }
       else Some e }
     else if Eid = IE_COUNTRY then do {
       c \<leftarrow> bread v (p + 2) 3;
       Some (e\<lparr>be_CountryString := c, be_bHasCountryIE := True\<rparr>) }
     else Some e)"

function vie_loop :: "byte list \<Rightarrow> nat \<Rightarrow> nat \<Rightarrow> BSS_ENTRY \<Rightarrow> BSS_ENTRY option" where
  "vie_loop v LengthVIE Length e =
    (case nth_opt v (Length + 1) of None \<Rightarrow> None | Some l \<Rightarrow>
      if LengthVIE < Length + 2 + unat l then Some e
      else (case vie_element v Length (v ! Length) (unat l) e of None \<Rightarrow> None
        | Some e' \<Rightarrow> vie_loop v LengthVIE (Length + 2 + unat l) e'))"
  by pat_completeness auto

termination
  by (relation "measure (\<lambda>(v, LengthVIE, Length, e). LengthVIE - Length)") auto

declare vie_loop.simps [simp del]

definition BssEntrySet ::
  "BSS_ENTRY \<Rightarrow> BCN_IE_LIST \<Rightarrow> int \<Rightarrow> tick \<Rightarrow> nat \<Rightarrow> byte list \<Rightarrow> BSS_ENTRY option" where
  "BssEntrySet pBss ie Rssi now LengthVIE pVIE = do {
     e1 \<leftarrow> set_ssid ie (pBss\<lparr>be_Bssid := il_Bssid ie\<rparr>);
     e2 \<leftarrow> set_fixed ie Rssi now e1;
     e3 \<leftarrow> set_vie LengthVIE pVIE e2;
     e4 \<leftarrow> set_ht ie e3;
     e5 \<leftarrow> BssCipherParse e4;
     let e6 = (set_qos ie e5)\<lparr>be_WpaIE := zero_wpa_ie, be_RsnIE := zero_wpa_ie, be_WpsIE := zero_wpa_ie,
       be_CountryString := replicate 3 0, be_bHasCountryIE := False\<rparr>;
     vie_loop pVIE LengthVIE 0 e6 }"

end
