(* ===== verification/BssTable.thy ===== *)
theory BssTable
  imports BssEntry
begin

text \<open>The table of access points (common/mlme.c) and its aging (sta/connect.c). The probe-response
  buffers \<open>pVarIeFromProbRsp\<close> are addresses into a memory of their own, shared by the tables; the
  table operations move their content. \<open>None\<close> is an access through a NULL pointer or outside a buffer
  or a table.\<close>

definition MAX_LEN_OF_BSS_TABLE :: nat where "MAX_LEN_OF_BSS_TABLE = 128"

record BSS_TABLE =
  bt_BssNr :: nat
  bt_BssOverlapNr :: nat
  bt_BssEntry :: "BSS_ENTRY list"

type_synonym vie_mem = "nat \<Rightarrow> byte list"

definition vie_zero :: "nat option \<Rightarrow> vie_mem \<Rightarrow> vie_mem" where
  "vie_zero p m = (case p of None \<Rightarrow> m | Some a \<Rightarrow> m(a := replicate MAX_VIE_LEN 0))"

section \<open>Initialisation and search\<close>

definition init_bss :: "nat option \<Rightarrow> BSS_ENTRY" where
  "init_bss p = zero_entry\<lparr>be_Rssi := -127, be_pVarIeFromProbRsp := p\<rparr>"

definition BssTableInit :: "BSS_TABLE \<Rightarrow> vie_mem \<Rightarrow> BSS_TABLE \<times> vie_mem" where
  "BssTableInit Tab m =
    (\<lparr>bt_BssNr = 0, bt_BssOverlapNr = 0,
      bt_BssEntry = map (\<lambda>e. init_bss (be_pVarIeFromProbRsp e)) (bt_BssEntry Tab)\<rparr>,
     fold (\<lambda>e. vie_zero (be_pVarIeFromProbRsp e)) (bt_BssEntry Tab) m)"

definition same_band :: "byte \<Rightarrow> byte \<Rightarrow> bool" where
  "same_band c d \<longleftrightarrow> (c \<le> 14 \<and> d \<le> 14) \<or> (14 < c \<and> 14 < d)"

definition SSID_EQUAL :: "byte list \<Rightarrow> nat \<Rightarrow> byte list \<Rightarrow> nat \<Rightarrow> bool" where
  "SSID_EQUAL s1 len1 s2 len2 \<longleftrightarrow> len1 = len2 \<and> take len1 s1 = take len1 s2"

text \<open>The sequential searches: the first of the \<open>BssNr\<close> entries with a property, \<open>BSS_NOT_FOUND\<close> is
  \<open>None\<close>.\<close>

definition first_entry :: "(BSS_ENTRY \<Rightarrow> bool) \<Rightarrow> BSS_TABLE \<Rightarrow> nat option" where
  "first_entry P Tab = find (\<lambda>i. P (bt_BssEntry Tab ! i)) [0..<bt_BssNr Tab]"

definition same_bss :: "byte list \<Rightarrow> byte \<Rightarrow> BSS_ENTRY \<Rightarrow> bool" where
  "same_bss Bssid Channel e \<longleftrightarrow> same_band (be_Channel e) Channel \<and> be_Bssid e = Bssid"

definition BssTableSearch :: "BSS_TABLE \<Rightarrow> byte list \<Rightarrow> byte \<Rightarrow> nat option" where
  "BssTableSearch Tab Bssid Channel = first_entry (same_bss Bssid Channel) Tab"

definition BssSsidTableSearch :: "BSS_TABLE \<Rightarrow> byte list \<Rightarrow> byte list \<Rightarrow> nat \<Rightarrow> byte \<Rightarrow> nat option" where
  "BssSsidTableSearch Tab Bssid Ssid SsidLen Channel =
    first_entry (\<lambda>e. same_bss Bssid Channel e \<and> SSID_EQUAL Ssid SsidLen (be_Ssid e) (be_SsidLen e)) Tab"

definition BssTableSearchWithSSID :: "BSS_TABLE \<Rightarrow> byte list \<Rightarrow> byte list \<Rightarrow> nat \<Rightarrow> byte \<Rightarrow> nat option" where
  "BssTableSearchWithSSID Tab Bssid Ssid SsidLen Channel =
    first_entry (\<lambda>e. same_bss Bssid Channel e \<and>
      (SSID_EQUAL Ssid SsidLen (be_Ssid e) (be_SsidLen e) \<or>
       take SsidLen Ssid = take SsidLen ZeroSsid \<or>
       take (be_SsidLen e) (be_Ssid e) = take (be_SsidLen e) ZeroSsid)) Tab"

definition BssSsidTableSearchBySSID :: "BSS_TABLE \<Rightarrow> byte list \<Rightarrow> nat \<Rightarrow> nat option" where
  "BssSsidTableSearchBySSID Tab Ssid SsidLen =
    first_entry (\<lambda>e. SSID_EQUAL Ssid SsidLen (be_Ssid e) (be_SsidLen e)) Tab"

section \<open>Deletion\<close>

text \<open>Moving the entries behind \<open>j\<close> up by one, \<open>n\<close> of them. Each slot keeps its buffer and gets the
  content of the next; a slot without a buffer takes over the pointer of the next.\<close>

definition move_entry :: "nat \<Rightarrow> BSS_ENTRY list \<Rightarrow> vie_mem \<Rightarrow> (BSS_ENTRY list \<times> vie_mem) option" where
  "move_entry j es m = do {
     x \<leftarrow> nth_opt es j;
     y \<leftarrow> nth_opt es (j + 1);
     (case be_pVarIeFromProbRsp x of
        None \<Rightarrow> Some (es[j := y], m)
      | Some old \<Rightarrow> do {
          let m1 = m(old := replicate MAX_VIE_LEN 0);
          src \<leftarrow> (if be_VarIeFromProbeRspLen y = 0 then Some []
                  else (case be_pVarIeFromProbRsp y of None \<Rightarrow> None
                    | Some a \<Rightarrow> bread (m1 a) 0 (be_VarIeFromProbeRspLen y)));
          d \<leftarrow> bmove (m1 old) 0 src;
          Some (es[j := y\<lparr>be_pVarIeFromProbRsp := Some old\<rparr>], m1(old := d)) }) }"

fun move_up :: "nat \<Rightarrow> nat \<Rightarrow> BSS_ENTRY list \<Rightarrow> vie_mem \<Rightarrow> (BSS_ENTRY list \<times> vie_mem) option" where
  "move_up 0 j es m = Some (es, m)"
| "move_up (Suc n) j es m = do { (es', m') \<leftarrow> move_entry j es m; move_up n (j + 1) es' m' }"

definition BssTableDeleteEntry :: "BSS_TABLE \<Rightarrow> byte list \<Rightarrow> byte \<Rightarrow> vie_mem \<Rightarrow> (BSS_TABLE \<times> vie_mem) option" where
  "BssTableDeleteEntry Tab Bssid Channel m =
    (case first_entry (\<lambda>e. be_Channel e = Channel \<and> be_Bssid e = Bssid) Tab of
       None \<Rightarrow> Some (Tab, m)
     | Some i \<Rightarrow> do {
         let n = bt_BssNr Tab;
         (es, m1) \<leftarrow> move_up (n - 1 - i) i (bt_BssEntry Tab) m;
         last_e \<leftarrow> nth_opt es (n - 1);
         let p = be_pVarIeFromProbRsp last_e;
         Some (Tab\<lparr>bt_BssNr := n - 1, bt_BssEntry := es[n - 1 := zero_entry\<lparr>be_pVarIeFromProbRsp := p\<rparr>]\<rparr>,
               vie_zero p m1) })"

text \<open>Aging. The number of entries is counted down in a local variable; after a deletion the loop goes
  on with the next index. The slot behind the last entry is cleared without putting its buffer back.
  \<open>clock i\<close> is the up time read in round \<open>i\<close>; \<open>keep\<close> is the current network's name when the station
  is connected.\<close>

definition same_rx_update :: "BSS_ENTRY \<Rightarrow> BSS_ENTRY" where
  "same_rx_update e =
    (if be_LastBeaconRxTimeA e \<noteq> be_LastBeaconRxTime e
     then e\<lparr>be_LastBeaconRxTimeA := be_LastBeaconRxTime e, be_SameRxTimeCount := 0\<rparr>
     else e\<lparr>be_SameRxTimeCount := be_SameRxTimeCount e + 1\<rparr>)"

definition entry_expired :: "tick \<Rightarrow> tick \<Rightarrow> byte \<Rightarrow> (byte list \<times> nat) option \<Rightarrow> BSS_ENTRY \<Rightarrow> bool" where
  "entry_expired now max_diff max_count keep e \<longleftrightarrow>
    (RTMP_TIME_AFTER now (be_LastBeaconRxTime e + max_diff) \<or> max_count < be_SameRxTimeCount e) \<and>
    \<not> (case keep of None \<Rightarrow> False | Some (Ssid, SsidLen) \<Rightarrow> take SsidLen (be_Ssid e) = take SsidLen Ssid)"

definition maintain_delete :: "nat \<Rightarrow> nat \<Rightarrow> BSS_ENTRY list \<Rightarrow> vie_mem \<Rightarrow> (BSS_ENTRY list \<times> vie_mem) option" where
  "maintain_delete i n es m = do {
     (es', m1) \<leftarrow> move_up (n - 1 - i) i es m;
     last_e \<leftarrow> nth_opt es' (n - 1);
     Some (es'[n - 1 := zero_entry], vie_zero (be_pVarIeFromProbRsp last_e) m1) }"

function maintain_loop ::
  "(nat \<Rightarrow> tick) \<Rightarrow> tick \<Rightarrow> byte \<Rightarrow> (byte list \<times> nat) option \<Rightarrow> nat \<Rightarrow> nat \<Rightarrow> BSS_ENTRY list \<Rightarrow> vie_mem \<Rightarrow>
   (nat \<times> BSS_ENTRY list \<times> vie_mem) option" where
  "maintain_loop clock max_diff max_count keep i n es m =
    (if n \<le> i then Some (n, es, m)
     else (case nth_opt es i of None \<Rightarrow> None | Some e0 \<Rightarrow>
       (let e = same_rx_update e0; es1 = es[i := e] in
        if entry_expired (clock i) max_diff max_count keep e
        then (case maintain_delete i n es1 m of None \<Rightarrow> None
          | Some (es2, m2) \<Rightarrow> maintain_loop clock max_diff max_count keep (i + 1) (n - 1) es2 m2)
        else maintain_loop clock max_diff max_count keep (i + 1) n es1 m)))"
  by pat_completeness auto

termination
  by (relation "measure (\<lambda>(clock, max_diff, max_count, keep, i, n, es, m). n - i)") auto

declare maintain_loop.simps [simp del]

definition MaintainBssTable ::
  "(nat \<Rightarrow> tick) \<Rightarrow> tick \<Rightarrow> byte \<Rightarrow> (byte list \<times> nat) option \<Rightarrow> BSS_TABLE \<Rightarrow> vie_mem \<Rightarrow> (BSS_TABLE \<times> vie_mem) option" where
  "MaintainBssTable clock max_diff max_count keep Tab m = do {
     (n, es, m') \<leftarrow> maintain_loop clock max_diff max_count keep 0 (bt_BssNr Tab) (bt_BssEntry Tab) m;
     Some (Tab\<lparr>bt_BssNr := n, bt_BssEntry := es\<rparr>, m') }"

section \<open>Insertion\<close>

text \<open>What \<open>BssTableSetEntry\<close> reads and writes of the adapter: the two connection flags, the network
  the station is after (\<open>MlmeAux\<close>) and the one the supplicant waits for (\<open>Cfg_pending\<close>).\<close>

record set_ctx =
  sc_Connected :: bool
  sc_ApConnected :: bool
  sc_AuxBssid :: "byte list"
  sc_AuxSsid :: "byte list"
  sc_AuxSsidLen :: nat
  sc_PendSsid :: "byte list"
  sc_PendSsidLen :: nat

definition wanted_bss :: "set_ctx \<Rightarrow> BCN_IE_LIST \<Rightarrow> bool" where
  "wanted_bss c ie \<longleftrightarrow> sc_AuxBssid c = il_Bssid ie \<or>
     SSID_EQUAL (sc_AuxSsid c) (sc_AuxSsidLen c) (il_Ssid ie) (il_SsidLen ie) \<or>
     SSID_EQUAL (sc_PendSsid c) (sc_PendSsidLen c) (il_Ssid ie) (il_SsidLen ie)"

definition set_entry_at ::
  "nat \<Rightarrow> BCN_IE_LIST \<Rightarrow> int \<Rightarrow> tick \<Rightarrow> nat \<Rightarrow> byte list \<Rightarrow> BSS_TABLE \<Rightarrow> BSS_TABLE option" where
  "set_entry_at i ie Rssi now LengthVIE pVIE Tab = do {
     e \<leftarrow> nth_opt (bt_BssEntry Tab) i;
     e' \<leftarrow> BssEntrySet e ie Rssi now LengthVIE pVIE;
     Some (Tab\<lparr>bt_BssEntry := (bt_BssEntry Tab)[i := e']\<rparr>) }"

text \<open>The returned index (\<open>None\<close> is \<open>BSS_NOT_FOUND\<close>), the adapter fields and the table.\<close>

definition BssTableSetEntry ::
  "set_ctx \<Rightarrow> BSS_TABLE \<Rightarrow> BCN_IE_LIST \<Rightarrow> int \<Rightarrow> tick \<Rightarrow> nat \<Rightarrow> byte list \<Rightarrow> (nat option \<times> set_ctx \<times> BSS_TABLE) option" where
  "BssTableSetEntry c Tab ie Rssi now LengthVIE pVIE =
    (case BssTableSearch Tab (il_Bssid ie) (il_Channel ie) of
       Some i \<Rightarrow> do {
         T \<leftarrow> set_entry_at i ie Rssi now LengthVIE pVIE Tab;
         Some (Some i, c, T) }
     | None \<Rightarrow>
         if MAX_LEN_OF_BSS_TABLE \<le> bt_BssNr Tab then
           (if \<not> sc_Connected c \<or> \<not> sc_ApConnected c then
              (if wanted_bss c ie then do {
                 let i = bt_BssOverlapNr Tab;
                 T \<leftarrow> set_entry_at i ie Rssi now LengthVIE pVIE Tab;
                 Some (Some i, c\<lparr>sc_PendSsidLen := 0, sc_PendSsid := replicate MAX_LEN_OF_SSID 0\<rparr>,
                   T\<lparr>bt_BssOverlapNr := (i + 1) mod MAX_LEN_OF_BSS_TABLE\<rparr>) }
               else Some (None, c, Tab))
            else Some (None, c, Tab))
         else do {
           let i = bt_BssNr Tab;
           T \<leftarrow> set_entry_at i ie Rssi now LengthVIE pVIE Tab;
           Some (Some i, c, T\<lparr>bt_BssNr := i + 1\<rparr>) })"

end
