(* ===== verification/BssSelect.thy ===== *)
theory BssSelect
  imports BssTable
begin

text \<open>The choice among the access points found (common/mlme.c): \<open>BssTableSsidSort\<close> copies the
  acceptable entries of the scan table and sorts them with \<open>BssTableSortByRssi\<close>; with
  \<open>RadarChannelCheck\<close> of common/cmm_radar.c. The build has no WSC, WAPI and carrier-detection code.\<close>

section \<open>The sort\<close>

text \<open>The exchanges of round \<open>i\<close>, over all later positions, and the rounds.\<close>

definition swap_if_stronger :: "nat \<Rightarrow> nat \<Rightarrow> BSS_ENTRY list \<Rightarrow> BSS_ENTRY list" where
  "swap_if_stronger i j es =
    (if be_Rssi (es ! i) < be_Rssi (es ! j) then es[j := es ! i, i := es ! j] else es)"

definition sort_round :: "nat \<Rightarrow> nat \<Rightarrow> BSS_ENTRY list \<Rightarrow> BSS_ENTRY list" where
  "sort_round n i es = fold (swap_if_stronger i) [i + 1..<n] es"

text \<open>\<open>mem\<close> is the outcome of the allocation of the exchange buffer; without it the table is left
  as it is. A table longer than its array is out of bounds.\<close>

definition BssTableSortByRssi :: "bool \<Rightarrow> BSS_TABLE \<Rightarrow> BSS_TABLE option" where
  "BssTableSortByRssi mem Tab =
    (if \<not> mem then Some Tab
     else if length (bt_BssEntry Tab) < bt_BssNr Tab then None
     else Some (Tab\<lparr>bt_BssEntry := fold (sort_round (bt_BssNr Tab)) [0..<bt_BssNr Tab - 1] (bt_BssEntry Tab)\<rparr>))"

section \<open>The choice\<close>

record sel_ctx =
  se_bAutoConnectIfNoSSID :: bool
  se_bIEEE80211H :: bool
  se_AuxChannel :: byte
  se_ChannelList :: "(byte \<times> bool) list"
  se_BssType :: nat
  se_SupplicantWps :: bool
  se_11dStrict :: bool
  se_PhyMode :: "8 word"
  se_AuthMode :: auth_mode
  se_WepStatus :: enc_status

definition WMODE_G :: "8 word" where "WMODE_G = 0x04"
definition WMODE_GN :: "8 word" where "WMODE_GN = 0x08"
definition WMODE_AN :: "8 word" where "WMODE_AN = 0x10"
definition WMODE_AC :: "8 word" where "WMODE_AC = 0x20"

definition WMODE_HT_ONLY :: "8 word \<Rightarrow> bool" where
  "WMODE_HT_ONLY x \<longleftrightarrow> x AND NOT (WMODE_GN OR WMODE_AN OR WMODE_AC) = 0"

definition RadarChannelCheck :: "sel_ctx \<Rightarrow> byte \<Rightarrow> bool" where
  "RadarChannelCheck c Ch = (case find (\<lambda>(ch, dfs). Ch = ch) (se_ChannelList c) of None \<Rightarrow> False | Some (ch, dfs) \<Rightarrow> dfs)"

text \<open>The checks of both branches: an 11n-only or 11g/n-only station skips the others.\<close>

definition phy_refuses :: "sel_ctx \<Rightarrow> BSS_ENTRY \<Rightarrow> bool" where
  "phy_refuses c e \<longleftrightarrow> (be_HtCapabilityLen e = 0 \<and> WMODE_HT_ONLY (se_PhyMode c)) \<or>
     (se_PhyMode c = (WMODE_G OR WMODE_GN) \<and> be_SupRateLen e + be_ExtRateLen e < 12)"

text \<open>The comparison with one cipher suite. \<open>grp\<close> is the group cipher the strength of the station's
  cipher is compared with, \<open>wep_group\<close> says whether a WEP group cipher excuses it.\<close>

definition suite_refuses :: "sel_ctx \<Rightarrow> CIPHER_SUITE \<Rightarrow> enc_status \<Rightarrow> bool \<Rightarrow> bool" where
  "suite_refuses c s grp wep_group \<longleftrightarrow>
     (\<not> cs_bMixMode s \<and> se_WepStatus c \<noteq> cs_GroupCipher s) \<or>
     (se_WepStatus c < grp \<and>
       (wep_group \<longrightarrow> cs_GroupCipher s \<noteq> Ndis802_11GroupWEP40Enabled \<and> cs_GroupCipher s \<noteq> Ndis802_11GroupWEP104Enabled)) \<or>
     (se_WepStatus c = Ndis802_11Encryption2Enabled \<and> se_WepStatus c \<noteq> cs_PairCipher s \<and>
       se_WepStatus c \<noteq> cs_PairCipherAux s)"

text \<open>The authentication modes. With a network name the WPA2 branch compares with the group cipher
  of the WPA suite.\<close>

definition auth_refuses_ssid :: "sel_ctx \<Rightarrow> BSS_ENTRY \<Rightarrow> bool" where
  "auth_refuses_ssid c e \<longleftrightarrow>
    (if Ndis802_11AuthModeWPA \<le> se_AuthMode c then
       (if se_AuthMode c \<noteq> be_AuthMode e \<and> se_AuthMode c \<noteq> be_AuthModeAux e then True
        else if se_AuthMode c = Ndis802_11AuthModeWPA \<or> se_AuthMode c = Ndis802_11AuthModeWPAPSK
          then suite_refuses c (be_WPA e) (cs_GroupCipher (be_WPA e)) True
        else if se_AuthMode c = Ndis802_11AuthModeWPA2 \<or> se_AuthMode c = Ndis802_11AuthModeWPA2PSK
          then suite_refuses c (be_WPA2 e) (cs_GroupCipher (be_WPA e)) True
        else False)
     else se_WepStatus c \<noteq> be_WepStatus e \<and> \<not> be_bSES e)"

definition auth_refuses_any :: "sel_ctx \<Rightarrow> BSS_ENTRY \<Rightarrow> bool" where
  "auth_refuses_any c e \<longleftrightarrow>
    (if Ndis802_11AuthModeWPA \<le> se_AuthMode c then
       (if se_AuthMode c \<noteq> be_AuthMode e \<and> se_AuthMode c \<noteq> be_AuthModeAux e then True
        else if se_AuthMode c = Ndis802_11AuthModeWPA \<or> se_AuthMode c = Ndis802_11AuthModeWPAPSK
          then suite_refuses c (be_WPA e) (cs_GroupCipher (be_WPA e)) False
        else if se_AuthMode c = Ndis802_11AuthModeWPA2 \<or> se_AuthMode c = Ndis802_11AuthModeWPA2PSK
          then suite_refuses c (be_WPA2 e) (cs_GroupCipher (be_WPA2 e)) False
        else False)
     else se_WepStatus c \<noteq> be_WepStatus e)"

definition hidden_included :: "sel_ctx \<Rightarrow> BSS_ENTRY \<Rightarrow> bool" where
  "hidden_included c e \<longleftrightarrow> se_bIEEE80211H c \<and> 14 < se_AuxChannel c \<and> RadarChannelCheck c (be_Channel e) \<and> be_Hidden e"

text \<open>One round of the loop: the entry is copied or not, and the round ends with \<open>continue\<close> or at the
  check of the table's end.\<close>

datatype sel_round = Copy_continue | Continue | Copy | Pass

definition bss_round :: "sel_ctx \<Rightarrow> byte list \<Rightarrow> nat \<Rightarrow> BSS_ENTRY \<Rightarrow> sel_round" where
  "bss_round c Ssid SsidLen e =
    (if be_BssType e = se_BssType c \<and> (SSID_EQUAL Ssid SsidLen (be_Ssid e) (be_SsidLen e) \<or> hidden_included c e) then
       (if se_SupplicantWps c then Copy_continue
        else if se_11dStrict c \<and> \<not> be_bHasCountryIE e then Continue
        else if phy_refuses c e then Continue
        else if auth_refuses_ssid c e then Continue
        else if SsidLen = 0 then Continue
        else Copy)
     else if be_BssType e = se_BssType c \<and> SsidLen = 0 then
       (if phy_refuses c e then Continue else if auth_refuses_any c e then Continue else Copy)
     else Pass)"

text \<open>Copying an entry, with its buffer pointer, to the next slot of the output table.\<close>

definition copy_out :: "BSS_ENTRY \<Rightarrow> BSS_TABLE \<Rightarrow> BSS_TABLE option" where
  "copy_out e Out =
    (if bt_BssNr Out < length (bt_BssEntry Out)
     then Some (Out\<lparr>bt_BssEntry := (bt_BssEntry Out)[bt_BssNr Out := e], bt_BssNr := bt_BssNr Out + 1\<rparr>)
     else None)"

fun select_loop :: "sel_ctx \<Rightarrow> byte list \<Rightarrow> nat \<Rightarrow> BSS_ENTRY list \<Rightarrow> BSS_TABLE \<Rightarrow> BSS_TABLE option" where
  "select_loop c Ssid SsidLen [] Out = Some Out"
| "select_loop c Ssid SsidLen (e # es) Out =
    (case bss_round c Ssid SsidLen e of
       Copy_continue \<Rightarrow> (case copy_out e Out of None \<Rightarrow> None | Some Out' \<Rightarrow> select_loop c Ssid SsidLen es Out')
     | Continue \<Rightarrow> select_loop c Ssid SsidLen es Out
     | Copy \<Rightarrow> (case copy_out e Out of None \<Rightarrow> None
         | Some Out' \<Rightarrow> if MAX_LEN_OF_BSS_TABLE \<le> bt_BssNr Out' then Some Out' else select_loop c Ssid SsidLen es Out')
     | Pass \<Rightarrow> if MAX_LEN_OF_BSS_TABLE \<le> bt_BssNr Out then Some Out else select_loop c Ssid SsidLen es Out)"

definition BssTableSsidSort ::
  "bool \<Rightarrow> sel_ctx \<Rightarrow> BSS_TABLE \<Rightarrow> byte list \<Rightarrow> nat \<Rightarrow> BSS_TABLE \<Rightarrow> vie_mem \<Rightarrow> (BSS_TABLE \<times> vie_mem) option" where
  "BssTableSsidSort mem c ScanTab Ssid SsidLen OutTab m =
    (let (Out, m') = BssTableInit OutTab m in
     if SsidLen = 0 \<and> \<not> se_bAutoConnectIfNoSSID c then Some (Out, m')
     else do {
       Out1 \<leftarrow> select_loop c Ssid SsidLen (take (bt_BssNr ScanTab) (bt_BssEntry ScanTab)) Out;
       Out2 \<leftarrow> BssTableSortByRssi mem Out1;
       Some (Out2, m') })"

end
