(* ===== verification/BeaconSafe.thy ===== *)
theory BeaconSafe
  imports Beacon
begin

text \<open>What bounds the parser of \<open>Beacon\<close>: the elements of a message, the invariant of the walk
  over them, and that the walk keeps it and makes no access outside a buffer, provided the WPS
  elements of the message fit.\<close>

section \<open>The elements of a message\<close>

function elements :: "byte list \<Rightarrow> nat \<Rightarrow> nat \<Rightarrow> nat list" where
  "elements b MsgLen p =
    (if length b \<le> p + 1 \<or> MsgLen < p + 2 + unat (b ! (p + 1)) then []
     else p # elements b MsgLen (p + 2 + unat (b ! (p + 1))))"
  by pat_completeness auto

termination
  by (relation "measure (\<lambda>(b, MsgLen, p). MsgLen - p)") auto

declare elements.simps [simp del]

definition is_wps :: "byte list \<Rightarrow> nat \<Rightarrow> bool" where
  "is_wps b p \<longleftrightarrow> b ! p = IE_VENDOR_SPECIFIC \<and> take 4 (drop (p + 2) b) = WPS_OUI"

definition wps_payload :: "byte list \<Rightarrow> nat list \<Rightarrow> nat" where
  "wps_payload b ps = sum_list (map (\<lambda>p. unat (b ! (p + 1)) - 4) (filter (is_wps b) ps))"

lemma wps_payload_simps [simp]:
  "wps_payload b [] = 0"
  "wps_payload b (p # ps) = (if is_wps b p then unat (b ! (p + 1)) - 4 else 0) + wps_payload b ps"
  by (simp_all add: wps_payload_def)

text \<open>The WPS elements fit: none is shorter than its OUI, together they fill at most the buffer of
  512 bytes, and in a message of at most 1060 bytes the collected element fits behind the reported
  ones.\<close>

definition wps_fits :: "byte list option \<Rightarrow> byte list \<Rightarrow> nat \<Rightarrow> bool" where
  "wps_fits wsc b MsgLen \<longleftrightarrow>
    (case wsc of None \<Rightarrow> True
     | Some w \<Rightarrow> length w = 512 \<and> (let ps = elements b MsgLen 36 in
         list_all (\<lambda>p. is_wps b p \<longrightarrow> 4 \<le> unat (b ! (p + 1))) ps \<and> wps_payload b ps \<le> 512 \<and>
         (wps_payload b ps = 0 \<or> MsgLen \<le> 1060)))"

section \<open>The invariant of the walk\<close>

definition ie_list_ok :: "BCN_IE_LIST \<Rightarrow> bool" where
  "ie_list_ok i \<longleftrightarrow> length (il_Addr2 i) = 6 \<and> length (il_Bssid i) = 6 \<and>
     length (il_Ssid i) = 32 \<and> il_SsidLen i \<le> 32 \<and>
     length (il_SupRate i) = 12 \<and> il_SupRateLen i \<le> 12 \<and> length (il_ExtRate i) = 12 \<and> il_ExtRateLen i \<le> 12 \<and>
     length (il_TimeStamp i) = 8 \<and>
     length (il_HtCapability i) = 26 \<and> il_HtCapabilityLen i \<in> {0, 26} \<and> il_PreNHtCapabilityLen i \<in> {0, 26} \<and>
     length (il_AddHtInfo i) = 22 \<and> il_AddHtInfoLen i \<in> {0, 22} \<and> length (il_ExtCapInfo i) = 4"

definition pb_inv :: "nat \<Rightarrow> pb_state \<Rightarrow> bool" where
  "pb_inv p st \<longleftrightarrow> length (pb_VIE st) = MAX_VIE_LEN \<and> pb_LengthVIE st < MAX_VIE_LEN \<and>
     pb_LengthVIE st + pb_WscLen st + (if 0 < pb_WscLen st then 6 else 0) + 36 \<le> p \<and>
     (\<forall>w. pb_Wsc st = Some w \<longrightarrow> length w = 512) \<and> ie_list_ok (pb_ie st)"

definition exit_ok :: "(pb_state \<Rightarrow> bool) \<Rightarrow> ie_exit option \<Rightarrow> bool" where
  "exit_ok P r \<longleftrightarrow> (case r of None \<Rightarrow> False | Some (Break s) \<Rightarrow> P s | Some (Goto_SanityCheck s) \<Rightarrow> P s
     | Some (Return_FALSE s) \<Rightarrow> P s)"

lemma exit_ok_simps [simp]:
  "exit_ok P None = False"
  "exit_ok P (Some (Break s)) = P s"
  "exit_ok P (Some (Goto_SanityCheck s)) = P s"
  "exit_ok P (Some (Return_FALSE s)) = P s"
  by (simp_all add: exit_ok_def)

lemma bread_ok [simp]: "p + n \<le> length b \<Longrightarrow> bread b p n = Some (take n (drop p b))"
  by (simp add: bread_def)

lemma bmove_ok [simp]:
  "off + length src \<le> length b \<Longrightarrow> bmove b off src = Some (take off b @ src @ drop (off + length src) b)"
  by (simp add: bmove_def)

lemma beq_ok [simp]: "p + length c \<le> length b \<Longrightarrow> beq b p c = Some (take (length c) (drop p b) = c)"
  by (simp add: beq_def)

lemma oui_lengths [simp]:
  "length WPA_OUI = 4" "length WPS_OUI = 4" "length RSN_OUI = 3" "length PRE_N_HT_OUI = 3"
  "length RALINK_OUI = 3" "length CISCO_OUI = 3" "length WME_INFO_ELEM = 6" "length WME_PARM_ELEM = 6"
  "length SES_OUI = 3"
  by (simp_all add: WPA_OUI_def WPS_OUI_def RSN_OUI_def PRE_N_HT_OUI_def RALINK_OUI_def CISCO_OUI_def
    WME_INFO_ELEM_def WME_PARM_ELEM_def SES_OUI_def)

lemma set_ie_sel [simp]:
  "pb_ie (set_ie f st) = f (pb_ie st)" "pb_VIE (set_ie f st) = pb_VIE st"
  "pb_LengthVIE (set_ie f st) = pb_LengthVIE st" "pb_Wsc (set_ie f st) = pb_Wsc st"
  "pb_WscLen (set_ie f st) = pb_WscLen st" "pb_Sanity (set_ie f st) = pb_Sanity st"
  "pb_CtrlChannel (set_ie f st) = pb_CtrlChannel st"
  by (simp_all add: set_ie_def)

lemma pb_inv_mono: "pb_inv p st \<Longrightarrow> p \<le> q \<Longrightarrow> pb_inv q st"
  by (auto simp: pb_inv_def)

lemma pb_inv_set:
  assumes "pb_inv p st" "p \<le> q" "ie_list_ok (pb_ie st) \<Longrightarrow> ie_list_ok (f (pb_ie st))"
  shows "pb_inv q (set_ie f st)"
  using assms by (auto simp: pb_inv_def)

lemma pb_inv_more [simp]:
  "pb_inv p (st\<lparr>pb_Sanity := x\<rparr>) = pb_inv p st" "pb_inv p (st\<lparr>pb_CtrlChannel := c\<rparr>) = pb_inv p st"
  by (simp_all add: pb_inv_def)

text \<open>The position \<open>p\<close> of an element of length \<open>len\<close> inside the message, with the room behind the
  message that the reads beyond an element need, and room to report the element.\<close>

definition at_element :: "byte list \<Rightarrow> nat \<Rightarrow> nat \<Rightarrow> nat \<Rightarrow> pb_state \<Rightarrow> bool" where
  "at_element b MsgLen p len st \<longleftrightarrow> p + 2 + len \<le> MsgLen \<and> MsgLen + 264 \<le> length b \<and>
     pb_LengthVIE st + len + 2 < MAX_VIE_LEN \<and> pb_inv p st"

text \<open>One element: the invariant behind it, and the growth of the WPS buffer.\<close>

definition pb_next :: "byte list \<Rightarrow> nat \<Rightarrow> nat \<Rightarrow> pb_state \<Rightarrow> pb_state \<Rightarrow> bool" where
  "pb_next b p len st s \<longleftrightarrow> pb_inv (p + 2 + len) s \<and> (pb_Wsc s = None \<longleftrightarrow> pb_Wsc st = None) \<and>
     pb_WscLen s \<le> pb_WscLen st + (if is_wps b p \<and> pb_Wsc st \<noteq> None then len - 4 else 0)"

lemma pb_next_set [simp]:
  "pb_next b p len (set_ie f st) = pb_next b p len st"
  "pb_next b p len (st\<lparr>pb_CtrlChannel := c\<rparr>) = pb_next b p len st"
  by (simp_all add: pb_next_def fun_eq_iff)

lemma report_ie_ok:
  assumes "at_element b MsgLen p len st"
  shows "exit_ok (pb_next b p len st) (map_option Break (report_ie b p len st))"
  using assms by (auto simp: at_element_def report_ie_def pb_next_def pb_inv_def MAX_VIE_LEN_def)

lemma report_ie_set_ok:
  assumes "at_element b MsgLen p len st" "ie_list_ok (pb_ie st) \<Longrightarrow> ie_list_ok (f (pb_ie st))"
  shows "exit_ok (pb_next b p len st) (map_option Break (report_ie b p len (set_ie f st)))"
proof -
  have "at_element b MsgLen p len (set_ie f st)"
    using assms by (auto simp: at_element_def intro!: pb_inv_set)
  from report_ie_ok[OF this] show ?thesis by simp
qed

lemma bind_Break: "(do { x \<leftarrow> r; Some (Break x) }) = map_option Break r"
  by (cases r) auto

section \<open>Every element keeps the invariant\<close>

lemma copied_elements_ok:
  assumes "at_element b MsgLen p len st"
  shows "exit_ok (pb_next b p len st) (ie_ssid b p len st)"
    and "exit_ok (pb_next b p len st) (ie_supp_rates b p len st)"
    and "exit_ok (pb_next b p len st) (ie_ext_supp_rates b p len st)"
  using assms
  by (auto simp: at_element_def ie_ssid_def ie_supp_rates_def ie_ext_supp_rates_def pb_next_def pb_inv_def ie_list_ok_def
    MAX_LEN_OF_SSID_def MAX_LEN_OF_SUPPORTED_RATES_def)

lemma fixed_elements_ok:
  assumes "at_element b MsgLen p len st"
  shows "exit_ok (pb_next b p len st) (ie_secondary_ch_offset b p len st)"
    and "exit_ok (pb_next b p len st) (ie_ds_parm pAd b p len st)"
    and "exit_ok (pb_next b p len st) (ie_cf_parm b p len st)"
    and "exit_ok (pb_next b p len st) (ie_ibss_parm b p len st)"
    and "exit_ok (pb_next b p len st) (ie_csa b p len st)"
    and "exit_ok (pb_next b p len st) (ie_erp b p len st)"
    and "exit_ok (pb_next b p len st) (ie_aironet_ckip b p len st)"
    and "exit_ok (pb_next b p len st) (ie_ap_tx_power b p len st)"
    and "exit_ok (pb_next b p len st) (ie_ext_capability b p len st)"
  using assms
  by (auto simp: at_element_def ie_secondary_ch_offset_def ie_ds_parm_def ie_cf_parm_def ie_ibss_parm_def ie_csa_def
    ie_erp_def ie_aironet_ckip_def ie_ap_tx_power_def ie_ext_capability_def pb_next_def pb_inv_def ie_list_ok_def Let_def
    CKIP_NEGOTIATION_LENGTH_def)

lemma reported_elements_ok:
  assumes "at_element b MsgLen p len st"
  shows "exit_ok (pb_next b p len st) (ie_rsn b p len st)"
    and "exit_ok (pb_next b p len st) (ie_qbss_load b p len st)"
    and "exit_ok (pb_next b p len st) (ie_ht_cap b p len st)"
    and "exit_ok (pb_next b p len st) (ie_add_ht b p len st)"
proof -
  note r = report_ie_ok[OF assms] report_ie_set_ok[OF assms]
  have room: "p + 2 + len \<le> length b" "p + 264 \<le> length b" "pb_next b p len st st"
    using assms by (auto simp: at_element_def pb_next_def intro: pb_inv_mono)
  have qbss: "exit_ok (pb_next b p len st)
      (map_option Break (report_ie b p len (set_ie (\<lambda>i. i\<lparr>il_QbssLoad := x\<rparr>) st)))" for x
    by (rule r(2)) (simp add: ie_list_ok_def)
  show "exit_ok (pb_next b p len st) (ie_rsn b p len st)"
    using room r(1) by (simp add: ie_rsn_def)
  show "exit_ok (pb_next b p len st) (ie_qbss_load b p len st)"
    using room qbss by (cases "len = 5") (simp_all add: ie_qbss_load_def)
  show "exit_ok (pb_next b p len st) (ie_ht_cap b p len st)"
    using room r(2) by (simp add: ie_ht_cap_def ie_list_ok_def bind_Break SIZE_HT_CAP_IE_def)
  have "at_element b MsgLen p len (set_ie (\<lambda>i. i\<lparr>il_AddHtInfo := take 22 (drop (p + 2) b),
      il_AddHtInfoLen := SIZE_ADD_HT_INFO_IE\<rparr>) st\<lparr>pb_CtrlChannel := c\<rparr>)" for c
    using assms room by (auto simp: at_element_def pb_inv_def ie_list_ok_def SIZE_ADD_HT_INFO_IE_def)
  from report_ie_ok[OF this]
  show "exit_ok (pb_next b p len st) (ie_add_ht b p len st)"
    using room by (simp add: ie_add_ht_def bind_Break)
qed

lemma GetTimBit_returns:
  assumes "p + 264 \<le> length b"
  shows "\<exists>r. GetTimBit b p Aid = Some r"
proof -
  have "p + 4 + (unat (x :: byte) + 1) < length b" for x
    using assms unsigned_less[of x, where ?'a = nat] by simp
  then show ?thesis
    using assms by (auto simp: GetTimBit_def Let_def)
qed

lemma tim_ok:
  assumes "at_element b MsgLen p len st"
  shows "exit_ok (pb_next b p len st) (ie_tim pAd SubType b p st)"
proof -
  have room: "p + 264 \<le> length b" "pb_next b p len st st"
    using assms by (auto simp: at_element_def pb_next_def intro: pb_inv_mono)
  obtain tl bc dc dp me where "GetTimBit b p (bc_Aid pAd) = Some (tl, bc, dc, dp, me)"
    using GetTimBit_returns[OF room(1), of "bc_Aid pAd"] by (metis prod_cases5)
  with room(2) show ?thesis
    by (auto simp: ie_tim_def pb_next_def pb_inv_def ie_list_ok_def)
qed

text \<open>A WPS element needs the rest of its buffer; the others of the vendor elements do not.\<close>

definition wps_room :: "byte list \<Rightarrow> nat \<Rightarrow> nat \<Rightarrow> pb_state \<Rightarrow> bool" where
  "wps_room b p len st \<longleftrightarrow> (pb_Wsc st \<noteq> None \<and> is_wps b p \<longrightarrow> 4 \<le> len \<and> pb_WscLen st + (len - 4) \<le> 512)"

lemma wps_ok:
  assumes "at_element b MsgLen p len st" "is_wps b p" "wps_room b p len st"
  shows "exit_ok (pb_next b p len st) (ie_wps b p len st)"
  using assms by (auto simp: at_element_def wps_room_def ie_wps_def pb_next_def pb_inv_def split: option.splits)

lemma vendor_ok:
  assumes at: "at_element b MsgLen p len st" and id: "b ! p = IE_VENDOR_SPECIFIC" and wps: "wps_room b p len st"
  shows "exit_ok (pb_next b p len st) (ie_vendor pAd b p len st)"
proof -
  have room: "p + 2 + len \<le> length b" "p + 264 \<le> length b" "pb_next b p len st st"
    using at by (auto simp: at_element_def pb_next_def intro: pb_inv_mono)
  have pren: "exit_ok (pb_next b p len st) (ie_pren_ht b p len st)" if "4 \<le> len"
    using room that by (auto simp: ie_pren_ht_def pb_next_def pb_inv_def ie_list_ok_def SIZE_HT_CAP_IE_def SIZE_ADD_HT_INFO_IE_def)
  have rest: "exit_ok (pb_next b p len st) (ie_wmm_wps b p len st)"
    using room wps_ok[OF at _ wps] id by (auto simp: ie_wmm_wps_def pb_next_def pb_inv_def ie_list_ok_def is_wps_def)
  have ralink: "pb_next b p len st (set_ie (\<lambda>i. i\<lparr>il_RalinkIe := x\<rparr>) st)" for x
    using room(3) by (auto simp: pb_next_def pb_inv_def ie_list_ok_def)
  show ?thesis
    using room pren rest ralink report_ie_ok[OF at] by (auto simp: ie_vendor_def)
qed

lemma switch_ok:
  assumes at: "at_element b MsgLen p len st" and wps: "wps_room b p len st"
  shows "exit_ok (pb_next b p len st) (ie_switch pAd SubType b p (b ! p) len st)"
proof -
  have "pb_next b p len st st"
    using at by (auto simp: at_element_def pb_next_def intro: pb_inv_mono)
  then show ?thesis
    using vendor_ok[OF at _ wps] copied_elements_ok[OF at] fixed_elements_ok[OF at] reported_elements_ok[OF at]
      tim_ok[OF at] report_ie_ok[OF at]
    by (simp add: ie_switch_def del: exit_ok_simps(1))
qed

section \<open>The walk\<close>

text \<open>From element \<open>p\<close> on, the WPS elements still fit into the buffer.\<close>

definition wps_left :: "byte list \<Rightarrow> nat \<Rightarrow> nat \<Rightarrow> pb_state \<Rightarrow> bool" where
  "wps_left b MsgLen p st \<longleftrightarrow> (pb_Wsc st \<noteq> None \<longrightarrow>
     list_all (\<lambda>p. is_wps b p \<longrightarrow> 4 \<le> unat (b ! (p + 1))) (elements b MsgLen p) \<and>
     pb_WscLen st + wps_payload b (elements b MsgLen p) \<le> 512)"

lemma ie_loop_ok:
  assumes "MsgLen + 264 \<le> length b" "p \<le> MsgLen" "pb_inv p st" "wps_left b MsgLen p st"
  shows "\<exists>q \<le> MsgLen. exit_ok (\<lambda>s. pb_inv q s \<and> (pb_Wsc s = None \<longleftrightarrow> pb_Wsc st = None) \<and>
    pb_WscLen s \<le> pb_WscLen st + (if pb_Wsc st = None then 0 else wps_payload b (elements b MsgLen p)))
    (ie_loop pAd SubType b MsgLen p st)"
  using assms
proof (induction pAd SubType b MsgLen p st rule: ie_loop.induct)
  case (1 pAd SubType b MsgLen p st)
  obtain l where l: "nth_opt b (p + 1) = Some l" "l = b ! (p + 1)" "p + 1 < length b"
    using 1(2,3) by (simp add: nth_opt_def)
  show ?case
  proof (cases "MsgLen < p + 2 + unat l \<or> MAX_VIE_LEN \<le> pb_LengthVIE st + unat l + 2")
    case True
    with l 1(3,4) show ?thesis
      by (subst ie_loop.simps) (auto intro!: exI[of _ p])
  next
    case False
    then have el: "elements b MsgLen p = p # elements b MsgLen (p + 2 + unat l)"
      using l by (subst elements.simps) auto
    have at: "at_element b MsgLen p (unat l) st"
      using False 1(2,4) by (simp add: at_element_def)
    have "wps_room b p (unat l) st"
      using 1(5) l(2) by (auto simp: wps_left_def wps_room_def el split: if_splits)
    from switch_ok[OF at this, of pAd SubType]
    obtain e where e: "ie_switch pAd SubType b p (b ! p) (unat l) st = Some e"
      and nx: "exit_ok (pb_next b p (unat l) st) (Some e)"
      by (cases "ie_switch pAd SubType b p (b ! p) (unat l) st") auto
    have le: "p + 2 + unat l \<le> MsgLen" using False by simp
    have run: "ie_loop pAd SubType b MsgLen p st =
        (case e of Break st' \<Rightarrow> ie_loop pAd SubType b MsgLen (p + 2 + unat l) st' | _ \<Rightarrow> Some e)"
      using l(1) False e by (subst ie_loop.simps) (simp split: ie_exit.split)
    show ?thesis
    proof (cases e)
      case (Break st')
      have inv: "pb_inv (p + 2 + unat l) st'" and w: "pb_Wsc st' = None \<longleftrightarrow> pb_Wsc st = None"
        and n: "pb_WscLen st' \<le> pb_WscLen st + (if is_wps b p \<and> pb_Wsc st \<noteq> None then unat l - 4 else 0)"
        using nx Break by (simp_all add: pb_next_def)
      have left: "wps_left b MsgLen (p + 2 + unat l) st'"
        using 1(5) w n l(2) by (auto simp: wps_left_def el split: if_splits)
      obtain q where "q \<le> MsgLen" and q: "exit_ok (\<lambda>s. pb_inv q s \<and> (pb_Wsc s = None \<longleftrightarrow> pb_Wsc st' = None) \<and>
          pb_WscLen s \<le> pb_WscLen st' + (if pb_Wsc st' = None then 0 else wps_payload b (elements b MsgLen (p + 2 + unat l))))
          (ie_loop pAd SubType b MsgLen (p + 2 + unat l) st')"
        using 1(1)[OF l(1) _ _ e[unfolded Break] _ 1(2) le inv left] False Break by auto
      have "exit_ok Q r \<Longrightarrow> (\<And>s. Q s \<Longrightarrow> R s) \<Longrightarrow> exit_ok R r" for Q R r
        by (auto simp: exit_ok_def split: option.splits ie_exit.splits)
      from this[OF q] show ?thesis
        using \<open>q \<le> MsgLen\<close> w n l(2) by (intro exI[of _ q]) (auto simp: run Break el)
    next
      case (Goto_SanityCheck s)
      with nx le run l(2) show ?thesis by (intro exI[of _ "p + 2 + unat l"]) (auto simp: pb_next_def el)
    next
      case (Return_FALSE s)
      with nx le run l(2) show ?thesis by (intro exI[of _ "p + 2 + unat l"]) (auto simp: pb_next_def el)
    qed
  qed
qed

end
