(* ===== verification/BssInv.thy ===== *)
theory BssInv
  imports BssSelect BeaconSafe
begin

text \<open>The invariant of the BSS table: which fields the walks over the security elements touch, what
  an entry holds after \<open>BssEntrySet\<close>, and that every table operation keeps the entries well formed and
  at most one entry for each access point and band.\<close>

section \<open>Results of the option monad\<close>

text \<open>\<open>yields r P\<close>: if \<open>r\<close> is a value, \<open>P\<close> holds for it. The simplification rules take a property
  through the steps of a \<open>do\<close> block.\<close>

definition yields :: "'a option \<Rightarrow> ('a \<Rightarrow> bool) \<Rightarrow> bool" where
  "yields r P \<longleftrightarrow> (\<forall>x. r = Some x \<longrightarrow> P x)"

named_theorems yields_simps \<open>a property through the steps of an option computation\<close>

lemma yields_basic [yields_simps]:
  "yields (Some x) P = P x"
  "yields None P"
  "yields (Option.bind m f) P = yields m (\<lambda>x. yields (f x) P)"
  "yields (if b then r else s) P = (if b then yields r P else yields s P)"
  "yields m (\<lambda>x. True)"
  by (auto simp: yields_def Option.bind_eq_Some_conv)

lemma yields_case [yields_simps]:
  "yields (case q of (a, b) \<Rightarrow> g a b) P = (case q of (a, b) \<Rightarrow> yields (g a b) P)"
  by (simp split: prod.split)

lemma yieldsI: "(\<And>x. r = Some x \<Longrightarrow> P x) \<Longrightarrow> yields r P"
  by (simp add: yields_def)

lemma yieldsD: "yields r P \<Longrightarrow> r = Some x \<Longrightarrow> P x"
  by (simp add: yields_def)

lemma yields_weaken: "yields r P \<Longrightarrow> (\<And>x. P x \<Longrightarrow> Q x) \<Longrightarrow> yields r Q"
  by (simp add: yields_def)

section \<open>What the walks touch\<close>

text \<open>The entry without the fields the parse of the security elements writes, and without those the
  walk over the reported elements writes.\<close>

definition sans_cipher :: "BSS_ENTRY \<Rightarrow> BSS_ENTRY" where
  "sans_cipher e = e\<lparr>be_bSES := False, be_WPA := zero_cipher, be_WPA2 := zero_cipher,
     be_AuthModeAux := 0, be_AuthMode := 0, be_WepStatus := 0\<rparr>"

definition sans_vie :: "BSS_ENTRY \<Rightarrow> BSS_ENTRY" where
  "sans_vie e = e\<lparr>be_WpaIE := zero_wpa_ie, be_RsnIE := zero_wpa_ie, be_WpsIE := zero_wpa_ie,
     be_CountryString := [], be_bHasCountryIE := False\<rparr>"

lemma sans_cipher_upd [simp]:
  "sans_cipher (e\<lparr>be_bSES := x\<rparr>) = sans_cipher e"
  "sans_cipher (e\<lparr>be_WPA := s\<rparr>) = sans_cipher e"
  "sans_cipher (e\<lparr>be_WPA2 := s\<rparr>) = sans_cipher e"
  "sans_cipher (e\<lparr>be_AuthMode := m\<rparr>) = sans_cipher e"
  "sans_cipher (e\<lparr>be_AuthModeAux := m\<rparr>) = sans_cipher e"
  "sans_cipher (e\<lparr>be_WepStatus := w\<rparr>) = sans_cipher e"
  by (simp_all add: sans_cipher_def)

lemma sans_vie_upd [simp]:
  "sans_vie (e\<lparr>be_WpaIE := w\<rparr>) = sans_vie e"
  "sans_vie (e\<lparr>be_RsnIE := w\<rparr>) = sans_vie e"
  "sans_vie (e\<lparr>be_WpsIE := w\<rparr>) = sans_vie e"
  "sans_vie (e\<lparr>be_CountryString := c\<rparr>) = sans_vie e"
  "sans_vie (e\<lparr>be_bHasCountryIE := b\<rparr>) = sans_vie e"
  by (simp_all add: sans_vie_def)

lemma sans_announce [simp]: "sans_cipher (announce_auth m e) = sans_cipher e"
  by (simp add: announce_auth_def)

lemma akm_loop_frame [yields_simps]:
  "sans_cipher e = c \<Longrightarrow> yields (akm_loop b n q e) (\<lambda>(r, e'). sans_cipher e' = c)"
  by (induction b n q e rule: akm_loop.induct) (simp_all add: yields_simps, simp add: yields_def)

lemma wpa_element_frame: "yields (wpa_element p e) (\<lambda>e'. sans_cipher e' = sans_cipher e)"
  by (simp add: wpa_element_def Let_def yields_simps cong: if_cong)

lemma rsn_element_frame: "yields (rsn_element p e) (\<lambda>e'. sans_cipher e' = sans_cipher e)"
  by (auto simp: rsn_element_def Let_def yields_simps intro!: yieldsI dest!: yieldsD[OF akm_loop_frame[OF refl]])

lemma cipher_element_frame: "yields (cipher_element p e) (\<lambda>e'. sans_cipher e' = sans_cipher e)"
  by (simp add: cipher_element_def Let_def yields_simps wpa_element_frame rsn_element_frame)

lemma cipher_loop_frame: "cipher_loop n e = Some e' \<Longrightarrow> sans_cipher e' = sans_cipher e"
proof (induction n e rule: cipher_loop.induct)
  case (1 n e)
  from 1(2) consider "e' = e"
    | f l where "\<not> n \<le> 0" "cipher_element (be_VarIELen e - nat n) e = Some f"
      "nth_opt (be_VarIEs f) (be_VarIELen e - nat n + 1) = Some l" "cipher_loop (n - (int (unat l) + 2)) f = Some e'"
    by (subst (asm) cipher_loop.simps) (auto simp: Let_def split: if_splits option.splits)
  then show ?case
  proof cases
    case 2
    with 1(1)[OF 2(1) refl 2(2,3,4)] show ?thesis by (simp add: yieldsD[OF cipher_element_frame])
  qed simp
qed

lemma BssCipherParse_frame: "BssCipherParse e = Some e' \<Longrightarrow> sans_cipher e' = sans_cipher e"
  by (auto simp: BssCipherParse_def dest!: cipher_loop_frame)

lemma vie_element_frame: "yields (vie_element v p x n e) (\<lambda>e'. sans_vie e' = sans_vie e)"
  by (simp add: vie_element_def yields_simps)

lemma vie_loop_frame: "vie_loop v L n e = Some e' \<Longrightarrow> sans_vie e' = sans_vie e"
proof (induction v L n e rule: vie_loop.induct)
  case (1 v L n e)
  from 1(2) consider "e' = e"
    | f l where "nth_opt v (n + 1) = Some l" "\<not> L < n + 2 + unat l" "vie_element v n (v ! n) (unat l) e = Some f"
      "vie_loop v L (n + 2 + unat l) f = Some e'"
    by (subst (asm) vie_loop.simps) (auto split: if_splits option.splits)
  then show ?case
  proof cases
    case 2
    with 1(1)[OF 2] show ?thesis by (simp add: yieldsD[OF vie_element_frame])
  qed simp
qed

section \<open>What an entry holds\<close>

definition entry_ok :: "BSS_ENTRY \<Rightarrow> bool" where
  "entry_ok e \<longleftrightarrow> be_SsidLen e \<le> 32 \<and> length (be_Ssid e) = 32 \<and>
     be_SupRateLen e \<le> 12 \<and> length (be_SupRate e) = 12 \<and> be_ExtRateLen e \<le> 12 \<and> length (be_ExtRate e) = 12 \<and>
     be_VarIELen e \<le> MAX_VIE_LEN \<and> length (be_VarIEs e) = MAX_VIE_LEN \<and>
     be_HtCapabilityLen e \<in> {0, 26} \<and> length (be_HtCapability e) = 26 \<and>
     be_AddHtInfoLen e \<in> {0, 22} \<and> length (be_AddHtInfo e) = 22"

lemma entry_ok_sans [simp]: "entry_ok (sans_cipher e) = entry_ok e" "entry_ok (sans_vie e) = entry_ok e"
  by (simp_all add: entry_ok_def sans_cipher_def sans_vie_def)

lemma zero_entry_ok [simp]: "entry_ok zero_entry"
  by (simp add: entry_ok_def zero_entry_def MAX_VIE_LEN_def)

text \<open>The part of an entry that comes from the beacon and that the two walks leave alone.\<close>

definition ssid_after :: "BCN_IE_LIST \<Rightarrow> BSS_ENTRY \<Rightarrow> nat \<times> byte list \<times> bool" where
  "ssid_after ie e =
    (if il_SsidLen ie = 0 then
       (if take (be_SsidLen e) (be_Ssid e) = replicate (be_SsidLen e) 0 then (0, [], True)
        else (be_SsidLen e, take (be_SsidLen e) (be_Ssid e), True))
     else if take (il_SsidLen ie) (il_Ssid ie) = replicate (il_SsidLen ie) 0
       then (be_SsidLen e, take (be_SsidLen e) (be_Ssid e), True)
     else (il_SsidLen ie, take (il_SsidLen ie) (il_Ssid ie), False))"

definition from_beacon :: "BCN_IE_LIST \<Rightarrow> int \<Rightarrow> tick \<Rightarrow> nat \<Rightarrow> byte list \<Rightarrow> BSS_ENTRY \<Rightarrow> bool" where
  "from_beacon ie Rssi now LengthVIE pVIE e \<longleftrightarrow> be_Bssid e = il_Bssid ie \<and> be_Channel e = il_Channel ie \<and>
     be_BssType e = il_BssType ie \<and> be_Rssi e = Rssi \<and> be_LastBeaconRxTime e = now \<and>
     be_CapabilityInfo e = il_CapabilityInfo ie \<and> be_Privacy e = (il_CapabilityInfo ie AND 0x0010 \<noteq> 0) \<and>
     be_SupRateLen e = il_SupRateLen ie \<and>
     take (il_SupRateLen ie) (be_SupRate e) = take (il_SupRateLen ie) (il_SupRate ie) \<and>
     be_VarIELen e = LengthVIE \<and> take LengthVIE (be_VarIEs e) = take LengthVIE pVIE \<and>
     be_HtCapabilityLen e = il_HtCapabilityLen ie \<and>
     (il_HtCapabilityLen ie \<noteq> 0 \<longrightarrow> be_HtCapability e = il_HtCapability ie)"

lemma from_beacon_sans [simp]:
  "from_beacon ie r t n v (sans_cipher e) = from_beacon ie r t n v e"
  "from_beacon ie r t n v (sans_vie e) = from_beacon ie r t n v e"
  by (simp_all add: from_beacon_def sans_cipher_def sans_vie_def)

definition slot_of :: "BSS_ENTRY \<Rightarrow> nat option \<times> nat \<times> tick \<times> byte" where
  "slot_of e = (be_pVarIeFromProbRsp e, be_VarIeFromProbeRspLen e, be_LastBeaconRxTimeA e, be_SameRxTimeCount e)"

definition name_of :: "BSS_ENTRY \<Rightarrow> nat \<times> byte list \<times> bool" where
  "name_of e = (be_SsidLen e, take (be_SsidLen e) (be_Ssid e), be_Hidden e)"

lemma slot_name_sans [simp]:
  "slot_of (sans_cipher e) = slot_of e" "slot_of (sans_vie e) = slot_of e"
  "name_of (sans_cipher e) = name_of e" "name_of (sans_vie e) = name_of e"
  by (simp_all add: slot_of_def name_of_def sans_cipher_def sans_vie_def)

lemma set_ssid_ok:
  assumes "entry_ok e" "ie_list_ok ie"
  shows "yields (set_ssid ie e) (\<lambda>e'. entry_ok e' \<and> be_Bssid e' = be_Bssid e \<and> slot_of e' = slot_of e \<and>
    name_of e' = ssid_after ie e)"
  using assms
  by (auto simp: set_ssid_def yields_simps entry_ok_def ie_list_ok_def ZeroSsid_def slot_of_def name_of_def
    ssid_after_def MAX_LEN_OF_SSID_def min_def intro!: yieldsI)

lemma set_fixed_ok:
  assumes "entry_ok e" "ie_list_ok ie"
  shows "yields (set_fixed ie r t e) (\<lambda>e'. entry_ok e' \<and> be_Bssid e' = be_Bssid e \<and> slot_of e' = slot_of e \<and>
    name_of e' = name_of e \<and> be_Channel e' = il_Channel ie \<and> be_BssType e' = il_BssType ie \<and> be_Rssi e' = r \<and>
    be_LastBeaconRxTime e' = t \<and> be_CapabilityInfo e' = il_CapabilityInfo ie \<and>
    be_Privacy e' = (il_CapabilityInfo ie AND 0x0010 \<noteq> 0) \<and> be_SupRateLen e' = il_SupRateLen ie \<and>
    take (il_SupRateLen ie) (be_SupRate e') = take (il_SupRateLen ie) (il_SupRate ie))"
  using assms
  by (auto simp: set_fixed_def Let_def yields_simps entry_ok_def ie_list_ok_def slot_of_def name_of_def
    MAX_LEN_OF_SUPPORTED_RATES_def intro!: yieldsI)

lemma set_vie_ok:
  assumes "entry_ok e"
  shows "yields (set_vie n v e) (\<lambda>e'. entry_ok e' \<and> be_Bssid e' = be_Bssid e \<and> slot_of e' = slot_of e \<and>
    name_of e' = name_of e \<and> be_Channel e' = be_Channel e \<and> be_BssType e' = be_BssType e \<and> be_Rssi e' = be_Rssi e \<and>
    be_LastBeaconRxTime e' = be_LastBeaconRxTime e \<and> be_CapabilityInfo e' = be_CapabilityInfo e \<and>
    be_Privacy e' = be_Privacy e \<and> be_SupRateLen e' = be_SupRateLen e \<and> be_SupRate e' = be_SupRate e \<and>
    be_VarIELen e' = n \<and> take n (be_VarIEs e') = take n v)"
  using assms
  by (auto simp: set_vie_def yields_simps entry_ok_def slot_of_def name_of_def bread_def bmove_def min_def
    split: if_splits intro!: yieldsI)

lemma set_ht_ok:
  assumes "entry_ok e" "ie_list_ok ie"
  shows "yields (set_ht ie e) (\<lambda>e'. entry_ok e' \<and> be_Bssid e' = be_Bssid e \<and> slot_of e' = slot_of e \<and>
    name_of e' = name_of e \<and> be_Channel e' = be_Channel e \<and> be_BssType e' = be_BssType e \<and> be_Rssi e' = be_Rssi e \<and>
    be_LastBeaconRxTime e' = be_LastBeaconRxTime e \<and> be_CapabilityInfo e' = be_CapabilityInfo e \<and>
    be_Privacy e' = be_Privacy e \<and> be_SupRateLen e' = be_SupRateLen e \<and> be_SupRate e' = be_SupRate e \<and>
    be_VarIELen e' = be_VarIELen e \<and> be_VarIEs e' = be_VarIEs e \<and>
    be_HtCapabilityLen e' = il_HtCapabilityLen ie \<and>
    (il_HtCapabilityLen ie \<noteq> 0 \<longrightarrow> be_HtCapability e' = il_HtCapability ie))"
  using assms
  by (auto simp: set_ht_def Let_def yields_simps entry_ok_def ie_list_ok_def slot_of_def name_of_def
    intro!: yieldsI)

lemma sans_eq_parts:
  assumes "sans_cipher e' = sans_cipher e"
  shows "entry_ok e' = entry_ok e" "from_beacon ie r t n v e' = from_beacon ie r t n v e"
    "slot_of e' = slot_of e" "name_of e' = name_of e"
  using assms by (metis entry_ok_sans(1) from_beacon_sans(1) slot_name_sans)+

lemma sans_vie_parts:
  assumes "sans_vie e' = sans_vie e"
  shows "entry_ok e' = entry_ok e" "from_beacon ie r t n v e' = from_beacon ie r t n v e"
    "slot_of e' = slot_of e" "name_of e' = name_of e"
  using assms by (metis entry_ok_sans(2) from_beacon_sans(2) slot_name_sans)+

lemma set_qos_parts [simp]:
  "entry_ok (set_qos ie e) = entry_ok e" "from_beacon i r t n v (set_qos ie e) = from_beacon i r t n v e"
  "slot_of (set_qos ie e) = slot_of e" "name_of (set_qos ie e) = name_of e"
  by (simp_all add: set_qos_def entry_ok_def from_beacon_def slot_of_def name_of_def)

lemma BssEntrySet_ok:
  assumes "entry_ok e" "ie_list_ok ie"
  shows "yields (BssEntrySet e ie r t n v) (\<lambda>e'. entry_ok e' \<and> from_beacon ie r t n v e' \<and> slot_of e' = slot_of e \<and>
    name_of e' = ssid_after ie e)"
proof (rule yieldsI)
  fix e' assume "BssEntrySet e ie r t n v = Some e'"
  then obtain e1 e2 e3 e4 e5 where 1: "set_ssid ie (e\<lparr>be_Bssid := il_Bssid ie\<rparr>) = Some e1"
    and 2: "set_fixed ie r t e1 = Some e2" and 3: "set_vie n v e2 = Some e3" and 4: "set_ht ie e3 = Some e4"
    and 5: "BssCipherParse e4 = Some e5" and 6: "vie_loop v n 0 ((set_qos ie e5)\<lparr>be_WpaIE := zero_wpa_ie,
      be_RsnIE := zero_wpa_ie, be_WpsIE := zero_wpa_ie, be_CountryString := replicate 3 0, be_bHasCountryIE := False\<rparr>) = Some e'"
    by (auto simp: BssEntrySet_def Let_def Option.bind_eq_Some_conv)
  have ok0: "entry_ok (e\<lparr>be_Bssid := il_Bssid ie\<rparr>)" "slot_of (e\<lparr>be_Bssid := il_Bssid ie\<rparr>) = slot_of e"
    "ssid_after ie (e\<lparr>be_Bssid := il_Bssid ie\<rparr>) = ssid_after ie e"
    using assms(1) by (simp_all add: entry_ok_def slot_of_def ssid_after_def)
  note f1 = yieldsD[OF set_ssid_ok[OF ok0(1) assms(2)] 1]
  note f2 = yieldsD[OF set_fixed_ok[OF _ assms(2)] 2]
  note f3 = yieldsD[OF set_vie_ok 3]
  note f4 = yieldsD[OF set_ht_ok[OF _ assms(2)] 4]
  have "entry_ok e4 \<and> from_beacon ie r t n v e4 \<and> slot_of e4 = slot_of e \<and> name_of e4 = ssid_after ie e"
    using f1 f2 f3 f4 ok0 by (simp add: from_beacon_def)
  moreover have "sans_cipher e5 = sans_cipher e4" by (rule BssCipherParse_frame[OF 5])
  moreover have "sans_vie e' = sans_vie (set_qos ie e5)" using vie_loop_frame[OF 6] by simp
  ultimately show "entry_ok e' \<and> from_beacon ie r t n v e' \<and> slot_of e' = slot_of e \<and> name_of e' = ssid_after ie e"
    using sans_vie_parts[of e' "set_qos ie e5"] sans_eq_parts[of e5 e4] by simp
qed

section \<open>The searches\<close>

lemma first_entry_Some:
  "first_entry P T = Some i \<longleftrightarrow> i < bt_BssNr T \<and> P (bt_BssEntry T ! i) \<and> (\<forall>j < i. \<not> P (bt_BssEntry T ! j))"
  by (auto simp: first_entry_def find_Some_iff)

lemma first_entry_None: "first_entry P T = None \<longleftrightarrow> (\<forall>i < bt_BssNr T. \<not> P (bt_BssEntry T ! i))"
  by (auto simp: first_entry_def find_None_iff)

definition bss_key :: "BSS_ENTRY \<Rightarrow> byte list \<times> bool" where
  "bss_key e = (be_Bssid e, be_Channel e \<le> 14)"

lemma same_bss_key: "same_bss b c e \<longleftrightarrow> bss_key e = (b, c \<le> 14)"
  by (auto simp: same_bss_def same_band_def bss_key_def)

section \<open>The table invariant\<close>

definition bss_keys :: "BSS_TABLE \<Rightarrow> (byte list \<times> bool) list" where
  "bss_keys T = map bss_key (take (bt_BssNr T) (bt_BssEntry T))"

definition bss_tab_ok :: "BSS_TABLE \<Rightarrow> bool" where
  "bss_tab_ok T \<longleftrightarrow> length (bt_BssEntry T) = MAX_LEN_OF_BSS_TABLE \<and> bt_BssNr T \<le> MAX_LEN_OF_BSS_TABLE \<and>
     bt_BssOverlapNr T < MAX_LEN_OF_BSS_TABLE \<and> (\<forall>e \<in> set (bt_BssEntry T). entry_ok e) \<and> distinct (bss_keys T)"

lemma BssTableInit_ok:
  assumes "length (bt_BssEntry T) = MAX_LEN_OF_BSS_TABLE"
  shows "bss_tab_ok (fst (BssTableInit T m))"
  using assms
  by (auto simp: bss_tab_ok_def BssTableInit_def bss_keys_def MAX_LEN_OF_BSS_TABLE_def init_bss_def entry_ok_def zero_entry_def
    MAX_VIE_LEN_def)

lemma keys_nth: "bss_tab_ok T \<Longrightarrow> i < bt_BssNr T \<Longrightarrow> bss_keys T ! i = bss_key (bt_BssEntry T ! i)"
  by (auto simp: bss_tab_ok_def bss_keys_def)

lemma length_keys [simp]: "bss_tab_ok T \<Longrightarrow> length (bss_keys T) = bt_BssNr T"
  by (auto simp: bss_tab_ok_def bss_keys_def)

lemma search_None: "bss_tab_ok T \<Longrightarrow> BssTableSearch T b c = None \<Longrightarrow> (b, c \<le> 14) \<notin> set (bss_keys T)"
  by (auto simp: BssTableSearch_def first_entry_None same_bss_key in_set_conv_nth keys_nth)

lemma bss_key_inj:
  assumes "bss_tab_ok T" "i < bt_BssNr T" "j < bt_BssNr T" "bss_key (bt_BssEntry T ! i) = bss_key (bt_BssEntry T ! j)"
  shows "i = j"
proof -
  have "distinct (bss_keys T)" using assms(1) by (simp add: bss_tab_ok_def)
  then show ?thesis
    using nth_eq_iff_index_eq[of "bss_keys T" i j] assms by (simp add: keys_nth)
qed

lemma search_Some_iff:
  assumes "bss_tab_ok T"
  shows "BssTableSearch T b c = Some i \<longleftrightarrow> i < bt_BssNr T \<and> bss_key (bt_BssEntry T ! i) = (b, c \<le> 14)"
proof -
  have "bss_key (bt_BssEntry T ! j) \<noteq> (b, c \<le> 14)"
    if "i < bt_BssNr T" "bss_key (bt_BssEntry T ! i) = (b, c \<le> 14)" "j < i" for j
    using bss_key_inj[OF assms, of i j] that by auto
  then show ?thesis
    by (simp add: BssTableSearch_def first_entry_Some same_bss_key) blast
qed

end
