(* ===== verification/BssKeep.thy ===== *)
theory BssKeep
  imports BssInv
begin

text \<open>Insertion, deletion and aging keep the invariant of the BSS table; what they do to the list of
  access points. An entry apart from its buffer pointer is its \<open>core\<close>.\<close>

section \<open>Insertion\<close>

lemma set_entry_at_ok:
  assumes T: "bss_tab_ok T" and ie: "ie_list_ok ie" and i: "i < MAX_LEN_OF_BSS_TABLE"
    and r: "set_entry_at i ie r t n v T = Some T'"
  obtains e' where "T' = T\<lparr>bt_BssEntry := (bt_BssEntry T)[i := e']\<rparr>" "entry_ok e'"
    "from_beacon ie r t n v e'" "slot_of e' = slot_of (bt_BssEntry T ! i)"
    "name_of e' = ssid_after ie (bt_BssEntry T ! i)"
proof -
  have len: "i < length (bt_BssEntry T)" using T i by (simp add: bss_tab_ok_def)
  then have "entry_ok (bt_BssEntry T ! i)" using T by (simp add: bss_tab_ok_def)
  from BssEntrySet_ok[OF this ie, of r t n v] r len show thesis
    by (auto simp: set_entry_at_def Option.bind_eq_Some_conv yields_def intro: that)
qed

lemma bss_key_from_beacon: "from_beacon ie r t n v e \<Longrightarrow> bss_key e = (il_Bssid ie, il_Channel ie \<le> 14)"
  by (simp add: from_beacon_def bss_key_def)

lemma tab_ok_upd_entry:
  assumes "bss_tab_ok T" "i < bt_BssNr T" "entry_ok e"
    and "\<And>j. j < bt_BssNr T \<Longrightarrow> j \<noteq> i \<Longrightarrow> bss_key (bt_BssEntry T ! j) \<noteq> bss_key e"
  shows "bss_tab_ok (T\<lparr>bt_BssEntry := (bt_BssEntry T)[i := e]\<rparr>)"
proof -
  have "distinct ((bss_keys T)[i := bss_key e])"
    using assms
    by (intro distinct_list_update) (auto simp: in_set_conv_nth keys_nth, simp add: bss_tab_ok_def, metis)
  moreover have "bss_keys (T\<lparr>bt_BssEntry := (bt_BssEntry T)[i := e]\<rparr>) = (bss_keys T)[i := bss_key e]"
    using assms(2) by (simp add: bss_keys_def take_update_swap map_update)
  ultimately show ?thesis
    using assms(1,3) by (auto simp: bss_tab_ok_def dest: set_update_subset_insert[THEN subsetD])
qed

lemma tab_ok_append_entry:
  assumes "bss_tab_ok T" "bt_BssNr T < MAX_LEN_OF_BSS_TABLE" "entry_ok e" "bss_key e \<notin> set (bss_keys T)"
  shows "bss_tab_ok (T\<lparr>bt_BssEntry := (bt_BssEntry T)[bt_BssNr T := e], bt_BssNr := bt_BssNr T + 1\<rparr>)"
proof -
  have "take (bt_BssNr T + 1) ((bt_BssEntry T)[bt_BssNr T := e]) = take (bt_BssNr T) (bt_BssEntry T) @ [e]"
    using assms(1,2) by (simp add: bss_tab_ok_def take_Suc_conv_app_nth)
  then have "bss_keys (T\<lparr>bt_BssEntry := (bt_BssEntry T)[bt_BssNr T := e], bt_BssNr := bt_BssNr T + 1\<rparr>) =
      bss_keys T @ [bss_key e]"
    by (simp add: bss_keys_def)
  then show ?thesis
    using assms by (auto simp: bss_tab_ok_def dest: set_update_subset_insert[THEN subsetD])
qed

lemma tab_ok_overlap: "bss_tab_ok T \<Longrightarrow> bss_tab_ok (T\<lparr>bt_BssOverlapNr := k mod MAX_LEN_OF_BSS_TABLE\<rparr>)"
  by (simp add: bss_tab_ok_def bss_keys_def MAX_LEN_OF_BSS_TABLE_def)

text \<open>After an insertion the access point is found at the returned index, and the entry there comes
  from the beacon.\<close>

lemma BssTableSetEntry_ok:
  assumes T: "bss_tab_ok T" and ie: "ie_list_ok ie"
    and r: "BssTableSetEntry c T ie r t n v = Some (res, c', T')"
  shows "bss_tab_ok T' \<and> (case res of None \<Rightarrow> T' = T
    | Some i \<Rightarrow> BssTableSearch T' (il_Bssid ie) (il_Channel ie) = Some i \<and>
        from_beacon ie r t n v (bt_BssEntry T' ! i) \<and>
        name_of (bt_BssEntry T' ! i) = ssid_after ie (bt_BssEntry T ! i) \<and>
        slot_of (bt_BssEntry T' ! i) = slot_of (bt_BssEntry T ! i) \<and>
        (\<forall>j. j \<noteq> i \<longrightarrow> bt_BssEntry T' ! j = bt_BssEntry T ! j))"
proof -
  let ?k = "(il_Bssid ie, il_Channel ie \<le> 14)"
  have len: "length (bt_BssEntry T) = MAX_LEN_OF_BSS_TABLE" and nr: "bt_BssNr T \<le> MAX_LEN_OF_BSS_TABLE"
    and ov: "bt_BssOverlapNr T < MAX_LEN_OF_BSS_TABLE" using T by (auto simp: bss_tab_ok_def)
  show ?thesis
  proof (cases "BssTableSearch T (il_Bssid ie) (il_Channel ie)")
    case (Some i)
    then have found: "set_entry_at i ie r t n v T = Some T'" "res = Some i"
      using r by (auto simp: BssTableSetEntry_def Option.bind_eq_Some_conv)
    have i: "i < bt_BssNr T" and k: "bss_key (bt_BssEntry T ! i) = ?k"
      using Some by (simp_all add: search_Some_iff[OF T])
    obtain e' where e': "T' = T\<lparr>bt_BssEntry := (bt_BssEntry T)[i := e']\<rparr>" "entry_ok e'" "from_beacon ie r t n v e'"
      "slot_of e' = slot_of (bt_BssEntry T ! i)" "name_of e' = ssid_after ie (bt_BssEntry T ! i)"
      using set_entry_at_ok[OF T ie _ found(1)] i nr by force
    note key = bss_key_from_beacon[OF e'(3)]
    have ok: "bss_tab_ok T'"
      unfolding e'(1) using k key bss_key_inj[OF T _ i] by (intro tab_ok_upd_entry[OF T i e'(2)]) metis
    have "i < length (bt_BssEntry T)" using i nr len by simp
    with ok e' i key found(2) show ?thesis by (simp add: search_Some_iff[OF ok[unfolded e'(1)]])
  next
    case None
    note absent = search_None[OF T None]
    show ?thesis
    proof (cases "bt_BssNr T < MAX_LEN_OF_BSS_TABLE")
      case True
      with None r obtain T1 where new: "set_entry_at (bt_BssNr T) ie r t n v T = Some T1" "res = Some (bt_BssNr T)"
        "T' = T1\<lparr>bt_BssNr := bt_BssNr T + 1\<rparr>"
        by (auto simp: BssTableSetEntry_def Let_def Option.bind_eq_Some_conv)
      obtain e' where e': "T1 = T\<lparr>bt_BssEntry := (bt_BssEntry T)[bt_BssNr T := e']\<rparr>" "entry_ok e'" "from_beacon ie r t n v e'"
        "slot_of e' = slot_of (bt_BssEntry T ! bt_BssNr T)" "name_of e' = ssid_after ie (bt_BssEntry T ! bt_BssNr T)"
        using set_entry_at_ok[OF T ie True new(1)] by force
      note key = bss_key_from_beacon[OF e'(3)]
      have T': "T' = T\<lparr>bt_BssEntry := (bt_BssEntry T)[bt_BssNr T := e'], bt_BssNr := bt_BssNr T + 1\<rparr>"
        using new(3) e'(1) by simp
      have ok: "bss_tab_ok T'"
        unfolding T' by (rule tab_ok_append_entry[OF T True e'(2)]) (simp add: key absent)
      have "bt_BssNr T < length (bt_BssEntry T)" using True len by simp
      with ok e' key new(2) T' show ?thesis by (simp add: search_Some_iff[OF ok[unfolded T', simplified]])
    next
      case False
      let ?i = "bt_BssOverlapNr T"
      have i: "?i < bt_BssNr T" using False ov by simp
      show ?thesis
      proof (cases "(\<not> sc_Connected c \<or> \<not> sc_ApConnected c) \<and> wanted_bss c ie")
        case False': False
        with r None False have "res = None" "T' = T"
          by (auto simp: BssTableSetEntry_def split: if_splits)
        with T show ?thesis by simp
      next
        case True
        with r None False obtain T1 where 2: "set_entry_at ?i ie r t n v T = Some T1" "res = Some ?i"
          "T' = T1\<lparr>bt_BssOverlapNr := (?i + 1) mod MAX_LEN_OF_BSS_TABLE\<rparr>"
          by (auto simp: BssTableSetEntry_def Let_def Option.bind_eq_Some_conv)
        obtain e' where e': "T1 = T\<lparr>bt_BssEntry := (bt_BssEntry T)[?i := e']\<rparr>" "entry_ok e'" "from_beacon ie r t n v e'"
          "slot_of e' = slot_of (bt_BssEntry T ! ?i)" "name_of e' = ssid_after ie (bt_BssEntry T ! ?i)"
          using set_entry_at_ok[OF T ie ov 2(1)] by force
        note key = bss_key_from_beacon[OF e'(3)]
        have "bss_key (bt_BssEntry T ! j) \<noteq> bss_key e'" if "j < bt_BssNr T" for j
          using absent that key by (metis keys_nth[OF T] length_keys[OF T] nth_mem)
        then have "bss_tab_ok T1" unfolding e'(1) by (intro tab_ok_upd_entry[OF T i e'(2)])
        then have ok: "bss_tab_ok T'" unfolding 2(3) by (rule tab_ok_overlap)
        have "?i < length (bt_BssEntry T)" using ov len by simp
        with ok e' i key 2(2,3) show ?thesis by (simp add: search_Some_iff[OF ok[unfolded 2(3) e'(1), simplified]])
      qed
    qed
  qed
qed

section \<open>Moving entries up\<close>

definition bss_core :: "BSS_ENTRY \<Rightarrow> BSS_ENTRY" where
  "bss_core e = e\<lparr>be_pVarIeFromProbRsp := None\<rparr>"

lemma bss_core_parts [simp]:
  "entry_ok (bss_core e) = entry_ok e" "bss_key (bss_core e) = bss_key e"
  "bss_core (e\<lparr>be_pVarIeFromProbRsp := p\<rparr>) = bss_core e"
  "be_VarIeFromProbeRspLen (bss_core e) = be_VarIeFromProbeRspLen e"
  by (simp_all add: bss_core_def entry_ok_def bss_key_def)

text \<open>The \<open>n\<close> items behind \<open>j\<close> moved up by one.\<close>

definition shifted :: "nat \<Rightarrow> nat \<Rightarrow> 'a list \<Rightarrow> 'a list" where
  "shifted n j xs = take j xs @ take n (drop (j + 1) xs) @ drop (j + n) xs"

lemma shifted_0 [simp]: "shifted 0 j xs = xs"
  by (simp add: shifted_def)

lemma shifted_nth:
  assumes "j + n < length xs" "k < length xs"
  shows "shifted n j xs ! k = (if j \<le> k \<and> k < j + n then xs ! (k + 1) else xs ! k)"
proof -
  have "min (length xs - Suc j) n = n" using assms(1) by simp
  then show ?thesis using assms by (auto simp: shifted_def nth_append)
qed

lemma shifted_length [simp]: "j + n < length xs \<Longrightarrow> length (shifted n j xs) = length xs"
  by (auto simp: shifted_def)

lemma shifted_step:
  assumes "j + Suc n < length xs"
  shows "shifted n (Suc j) (xs[j := xs ! Suc j]) = shifted (Suc n) j xs"
  using assms by (intro nth_equalityI) (auto simp: shifted_nth nth_list_update)

lemma move_entry_core:
  assumes "move_entry j es m = Some (es', m')"
  shows "Suc j < length es \<and> length es' = length es \<and>
    map bss_core es' = (map bss_core es)[j := map bss_core es ! Suc j]"
  using assms
  by (auto simp: move_entry_def Let_def Option.bind_eq_Some_conv nth_opt_eq_Some map_update
    split: option.splits if_splits)

lemma move_up_core:
  "move_up n j es m = Some (es', m') \<Longrightarrow> j + n < length es \<Longrightarrow>
    length es' = length es \<and> map bss_core es' = shifted n j (map bss_core es)"
proof (induction n j es m arbitrary: es' m' rule: move_up.induct)
  case (2 n j es m)
  then obtain es1 m1 where 1: "move_entry j es m = Some (es1, m1)" "move_up n (Suc j) es1 m1 = Some (es', m')"
    by (auto simp: Option.bind_eq_Some_conv)
  note c = move_entry_core[OF 1(1)]
  have "length es' = length es1 \<and> map bss_core es' = shifted n (Suc j) (map bss_core es1)"
    using 2(1)[OF 1(1) refl, of es' m'] 1(2) 2(3) c by simp
  with c 2(3) shifted_step[of j n "map bss_core es"] show ?case by simp
qed simp

text \<open>Deleting entry \<open>i\<close> of \<open>n\<close>: what is left of the first \<open>n\<close>.\<close>

lemma shifted_removes:
  assumes "i < n" "n \<le> length xs"
  shows "take (n - 1) (shifted (n - 1 - i) i xs) = take i xs @ drop (Suc i) (take n xs)"
  using assms by (intro nth_equalityI) (auto simp: shifted_nth nth_append)

section \<open>Deletion and aging\<close>

lemma shifted_set: "j + n < length xs \<Longrightarrow> set (shifted n j xs) \<subseteq> set xs"
  by (auto simp: shifted_def dest: in_set_takeD in_set_dropD)

lemma keys_core: "bss_keys T = map bss_key (take (bt_BssNr T) (map bss_core (bt_BssEntry T)))"
  by (simp add: bss_keys_def take_map comp_def)

text \<open>A table whose entries moved up over entry \<open>i\<close>, with slot \<open>n - 1\<close> cleared.\<close>

lemma tab_ok_removed:
  assumes T: "bss_tab_ok T" and i: "i < n" "n \<le> MAX_LEN_OF_BSS_TABLE"
    and nr: "bt_BssNr T = n" and len: "length es = length (bt_BssEntry T)"
    and core: "map bss_core es = shifted (n - 1 - i) i (map bss_core (bt_BssEntry T))" and z: "entry_ok z"
  shows "bss_tab_ok (T\<lparr>bt_BssNr := n - 1, bt_BssEntry := es[n - 1 := z]\<rparr>)"
    and "bss_keys (T\<lparr>bt_BssNr := n - 1, bt_BssEntry := es[n - 1 := z]\<rparr>) = take i (bss_keys T) @ drop (Suc i) (bss_keys T)"
proof -
  have l: "length (bt_BssEntry T) = MAX_LEN_OF_BSS_TABLE" using T by (simp add: bss_tab_ok_def)
  have bound: "i + (n - 1 - i) < length (bt_BssEntry T)" using i l by simp
  show keys: "bss_keys (T\<lparr>bt_BssNr := n - 1, bt_BssEntry := es[n - 1 := z]\<rparr>) = take i (bss_keys T) @ drop (Suc i) (bss_keys T)"
    using shifted_removes[of i n "map bss_core (bt_BssEntry T)"] i l nr
    by (simp add: keys_core map_update core take_map drop_map)
  have "\<forall>e \<in> set (map bss_core es). entry_ok e"
    using shifted_set[of i "n - 1 - i" "map bss_core (bt_BssEntry T)"] bound T
    unfolding core by (auto simp: bss_tab_ok_def)
  then have "\<forall>e \<in> set (es[n - 1 := z]). entry_ok e"
    using z by (auto dest: set_update_subset_insert[THEN subsetD])
  moreover have "distinct (take i (bss_keys T) @ drop (Suc i) (bss_keys T))"
    using T set_take_disj_set_drop_if_distinct[of "bss_keys T" i "Suc i"] by (simp add: bss_tab_ok_def)
  ultimately show "bss_tab_ok (T\<lparr>bt_BssNr := n - 1, bt_BssEntry := es[n - 1 := z]\<rparr>)"
    using T len i nr unfolding bss_tab_ok_def keys by simp
qed

lemma BssTableDeleteEntry_ok:
  assumes T: "bss_tab_ok T" and r: "BssTableDeleteEntry T b c m = Some (T', m')"
  shows "bss_tab_ok T'"
    and "(case first_entry (\<lambda>e. be_Channel e = c \<and> be_Bssid e = b) T of None \<Rightarrow> T' = T \<and> m' = m
      | Some i \<Rightarrow> bss_keys T' = take i (bss_keys T) @ drop (Suc i) (bss_keys T))"
proof -
  have "bss_tab_ok T' \<and> (case first_entry (\<lambda>e. be_Channel e = c \<and> be_Bssid e = b) T of None \<Rightarrow> T' = T \<and> m' = m
      | Some i \<Rightarrow> bss_keys T' = take i (bss_keys T) @ drop (Suc i) (bss_keys T))"
  proof (cases "first_entry (\<lambda>e. be_Channel e = c \<and> be_Bssid e = b) T")
    case None
    with r T show ?thesis by (simp add: BssTableDeleteEntry_def)
  next
    case (Some i)
    let ?n = "bt_BssNr T"
    have i: "i < ?n" using Some by (simp add: first_entry_Some)
    have n: "?n \<le> MAX_LEN_OF_BSS_TABLE" "length (bt_BssEntry T) = MAX_LEN_OF_BSS_TABLE" using T by (simp_all add: bss_tab_ok_def)
    obtain es m1 p where mv: "move_up (?n - 1 - i) i (bt_BssEntry T) m = Some (es, m1)"
      and T': "T' = T\<lparr>bt_BssNr := ?n - 1, bt_BssEntry := es[?n - 1 := zero_entry\<lparr>be_pVarIeFromProbRsp := p\<rparr>]\<rparr>"
      using r Some by (auto simp: BssTableDeleteEntry_def Let_def Option.bind_eq_Some_conv)
    have c: "length es = length (bt_BssEntry T) \<and> map bss_core es = shifted (?n - 1 - i) i (map bss_core (bt_BssEntry T))"
      using move_up_core[OF mv] i n by simp
    have "entry_ok (zero_entry\<lparr>be_pVarIeFromProbRsp := p\<rparr>)"
      using zero_entry_ok by (simp only: entry_ok_def) simp
    from tab_ok_removed[OF T i n(1) refl _ _ this] c Some show ?thesis unfolding T' by simp
  qed
  then show "bss_tab_ok T'" and "(case first_entry (\<lambda>e. be_Channel e = c \<and> be_Bssid e = b) T of None \<Rightarrow> T' = T \<and> m' = m
      | Some i \<Rightarrow> bss_keys T' = take i (bss_keys T) @ drop (Suc i) (bss_keys T))"
    by simp_all
qed

lemma same_rx_parts [simp]:
  "entry_ok (same_rx_update e) = entry_ok e" "bss_key (same_rx_update e) = bss_key e"
  "be_pVarIeFromProbRsp (same_rx_update e) = be_pVarIeFromProbRsp e"
  "be_VarIeFromProbeRspLen (same_rx_update e) = be_VarIeFromProbeRspLen e"
  by (simp_all add: same_rx_update_def entry_ok_def bss_key_def)

lemma tab_ok_same_rx:
  assumes "bss_tab_ok T" "i < bt_BssNr T"
  shows "bss_tab_ok (T\<lparr>bt_BssEntry := (bt_BssEntry T)[i := same_rx_update (bt_BssEntry T ! i)]\<rparr>)"
proof (rule tab_ok_upd_entry[OF assms])
  show "entry_ok (same_rx_update (bt_BssEntry T ! i))" using assms by (auto simp: bss_tab_ok_def)
  show "bss_key (bt_BssEntry T ! j) \<noteq> bss_key (same_rx_update (bt_BssEntry T ! i))"
    if "j < bt_BssNr T" "j \<noteq> i" for j
    using that bss_key_inj[OF assms(1) that(1) assms(2)] by auto
qed

lemma maintain_delete_ok:
  assumes T: "bss_tab_ok T" and i: "i < bt_BssNr T"
    and r: "maintain_delete i (bt_BssNr T) (bt_BssEntry T) m = Some (es, m')"
  shows "bss_tab_ok (T\<lparr>bt_BssNr := bt_BssNr T - 1, bt_BssEntry := es\<rparr>)"
proof -
  have n: "bt_BssNr T \<le> MAX_LEN_OF_BSS_TABLE" "length (bt_BssEntry T) = MAX_LEN_OF_BSS_TABLE"
    using T by (simp_all add: bss_tab_ok_def)
  obtain es1 m1 where mv: "move_up (bt_BssNr T - 1 - i) i (bt_BssEntry T) m = Some (es1, m1)"
    and es: "es = es1[bt_BssNr T - 1 := zero_entry]"
    using r by (auto simp: maintain_delete_def Option.bind_eq_Some_conv)
  show ?thesis
    unfolding es using move_up_core[OF mv] i n
    by (intro tab_ok_removed(1)[OF T i n(1) refl _ _ zero_entry_ok]) simp_all
qed

lemma maintain_loop_ok:
  assumes "maintain_loop clock d k keep i n es m = Some (n', es', m')"
    and "bss_tab_ok (T\<lparr>bt_BssNr := n, bt_BssEntry := es\<rparr>)"
  shows "bss_tab_ok (T\<lparr>bt_BssNr := n', bt_BssEntry := es'\<rparr>) \<and> n' \<le> n"
  using assms
proof (induction clock d k keep i n es m rule: maintain_loop.induct)
  case (1 clock d k keep i n es m)
  let ?T = "T\<lparr>bt_BssNr := n, bt_BssEntry := es\<rparr>"
  show ?case
  proof (cases "n \<le> i")
    case True
    with 1(3,4) show ?thesis by (subst (asm) maintain_loop.simps) simp
  next
    case False
    let ?e = "same_rx_update (es ! i)"
    have i: "i < bt_BssNr ?T" and il: "nth_opt es i = Some (es ! i)"
      using False 1(4) by (simp_all add: bss_tab_ok_def nth_opt_eq_Some)
    have ok1: "bss_tab_ok (T\<lparr>bt_BssNr := n, bt_BssEntry := es[i := ?e]\<rparr>)"
      using tab_ok_same_rx[OF 1(4) i] by simp
    show ?thesis
    proof (cases "entry_expired (clock i) d k keep ?e")
      case False': False
      with 1(3) False il have "maintain_loop clock d k keep (i + 1) n (es[i := ?e]) m = Some (n', es', m')"
        by (subst (asm) maintain_loop.simps) (simp add: Let_def)
      from 1(2)[OF False il refl refl False' this ok1] show ?thesis .
    next
      case True
      with 1(3) False il obtain es2 m2 where del: "maintain_delete i n (es[i := ?e]) m = Some (es2, m2)"
        and run: "maintain_loop clock d k keep (i + 1) (n - 1) es2 m2 = Some (n', es', m')"
        by (subst (asm) maintain_loop.simps) (auto simp: Let_def split: option.splits)
      have "bss_tab_ok (T\<lparr>bt_BssNr := n - 1, bt_BssEntry := es2\<rparr>)"
        using maintain_delete_ok[OF ok1, of i m es2 m2] del False by simp
      from 1(1)[OF False il refl refl True del refl run this] show ?thesis by (auto intro: le_trans[OF _ diff_le_self[of n 1]])
    qed
  qed
qed

lemma MaintainBssTable_ok:
  assumes "bss_tab_ok T" "MaintainBssTable clock d k keep T m = Some (T', m')"
  shows "bss_tab_ok T' \<and> bt_BssNr T' \<le> bt_BssNr T"
  using assms maintain_loop_ok[of clock d k keep 0 "bt_BssNr T" "bt_BssEntry T" m _ _ _ T]
  by (auto simp: MaintainBssTable_def Option.bind_eq_Some_conv)

end
