(* ===== verification/BssBuffers.thy ===== *)
theory BssBuffers
  imports BssKeep
begin

text \<open>The probe-response buffers of the BSS table. Seen as a list of access points with their probe
  responses, the table loses exactly the deleted one when all slots have buffers of their own; the
  aging gives the buffers of the deleted entries up and passes over the entries behind them.\<close>

section \<open>The table as a list of access points\<close>

definition bss_view :: "vie_mem \<Rightarrow> BSS_ENTRY \<Rightarrow> BSS_ENTRY \<times> byte list" where
  "bss_view m e = (bss_core e, case be_pVarIeFromProbRsp e of None \<Rightarrow> []
     | Some a \<Rightarrow> take (be_VarIeFromProbeRspLen e) (m a))"

definition bss_list :: "BSS_TABLE \<Rightarrow> vie_mem \<Rightarrow> (BSS_ENTRY \<times> byte list) list" where
  "bss_list T m = map (bss_view m) (take (bt_BssNr T) (bt_BssEntry T))"

fun drop_first :: "('a \<Rightarrow> bool) \<Rightarrow> 'a list \<Rightarrow> 'a list" where
  "drop_first P [] = []"
| "drop_first P (x # xs) = (if P x then xs else x # drop_first P xs)"

lemma drop_first_none: "(\<And>x. x \<in> set xs \<Longrightarrow> \<not> P x) \<Longrightarrow> drop_first P xs = xs"
  by (induction xs) auto

lemma drop_first_at:
  "i < length xs \<Longrightarrow> P (xs ! i) \<Longrightarrow> (\<And>j. j < i \<Longrightarrow> \<not> P (xs ! j)) \<Longrightarrow> drop_first P xs = take i xs @ drop (Suc i) xs"
proof (induction xs arbitrary: i)
  case (Cons x xs)
  show ?case
  proof (cases i)
    case 0
    with Cons show ?thesis by simp
  next
    case (Suc k)
    with Cons.prems(3)[of 0] Cons.prems(3)[of "Suc j" for j] Cons.prems(1,2) Cons.IH[of k] show ?thesis by simp
  qed
qed simp

text \<open>The first \<open>n\<close> slots have buffers of their own.\<close>

definition bufs_ok :: "nat \<Rightarrow> BSS_ENTRY list \<Rightarrow> vie_mem \<Rightarrow> bool" where
  "bufs_ok n es m \<longleftrightarrow> n \<le> length es \<and>
     (\<forall>i < n. be_VarIeFromProbeRspLen (es ! i) \<le> MAX_VIE_LEN \<and>
        (\<exists>a. be_pVarIeFromProbRsp (es ! i) = Some a \<and> length (m a) = MAX_VIE_LEN)) \<and>
     (\<forall>i < n. \<forall>k < n. be_pVarIeFromProbRsp (es ! i) = be_pVarIeFromProbRsp (es ! k) \<longrightarrow> i = k)"

lemma bufs_ok_D:
  assumes "bufs_ok n es m" "i < n"
  obtains a where "be_pVarIeFromProbRsp (es ! i) = Some a" "length (m a) = MAX_VIE_LEN"
    "be_VarIeFromProbeRspLen (es ! i) \<le> MAX_VIE_LEN"
  using assms by (auto simp: bufs_ok_def)

lemma bufs_ok_mono: "bufs_ok n es m \<Longrightarrow> k \<le> n \<Longrightarrow> bufs_ok k es m"
  by (auto simp: bufs_ok_def)

lemma bufs_ok_cong:
  assumes "bufs_ok n es m" "length es' = length es"
    and "\<And>i. i < n \<Longrightarrow> be_pVarIeFromProbRsp (es' ! i) = be_pVarIeFromProbRsp (es ! i)"
    and "\<And>i. i < n \<Longrightarrow> be_VarIeFromProbeRspLen (es' ! i) \<le> MAX_VIE_LEN"
    and "\<And>i a. i < n \<Longrightarrow> be_pVarIeFromProbRsp (es ! i) = Some a \<Longrightarrow> length (m' a) = length (m a)"
  shows "bufs_ok n es' m'"
  using assms unfolding bufs_ok_def by (metis (no_types, lifting))

section \<open>Moving one entry, and all\<close>

lemma move_entry_view:
  assumes b: "bufs_ok n es m" and j: "Suc j < n"
  shows "\<exists>es' m'. move_entry j es m = Some (es', m') \<and> bufs_ok n es' m' \<and> length es' = length es \<and>
    map be_pVarIeFromProbRsp es' = map be_pVarIeFromProbRsp es \<and>
    map (bss_view m') (take n es') = (map (bss_view m) (take n es))[j := map (bss_view m) (take n es) ! Suc j]"
proof -
  let ?y = "es ! Suc j"
  obtain a where a: "be_pVarIeFromProbRsp (es ! j) = Some a" "length (m a) = MAX_VIE_LEN"
    using bufs_ok_D[OF b, of j] j by auto
  obtain c where c: "be_pVarIeFromProbRsp ?y = Some c" "length (m c) = MAX_VIE_LEN"
    "be_VarIeFromProbeRspLen ?y \<le> MAX_VIE_LEN"
    using bufs_ok_D[OF b j] by auto
  have len: "n \<le> length es" using b by (simp add: bufs_ok_def)
  have own: "i = k" if "i < n" "k < n" "be_pVarIeFromProbRsp (es ! i) = be_pVarIeFromProbRsp (es ! k)" for i k
    using b that by (auto simp: bufs_ok_def)
  have ac: "a \<noteq> c" using own[of j "Suc j"] a(1) c(1) j by auto
  let ?src = "take (be_VarIeFromProbeRspLen ?y) (m c)"
  let ?d = "?src @ drop (length ?src) (replicate MAX_VIE_LEN 0)"
  let ?es = "es[j := ?y\<lparr>be_pVarIeFromProbRsp := Some a\<rparr>]"
  let ?m = "m(a := ?d)"
  have run: "move_entry j es m = Some (?es, ?m)"
    using a c j len ac by (auto simp: move_entry_def Let_def bread_def bmove_def fun_upd_def)
  have ptr: "be_pVarIeFromProbRsp (?es ! i) = be_pVarIeFromProbRsp (es ! i)" if "i < n" for i
    using a(1) that len j by (auto simp: nth_list_update)
  have "bufs_ok n ?es ?m"
  proof (rule bufs_ok_cong[OF b])
    show "be_VarIeFromProbeRspLen (?es ! i) \<le> MAX_VIE_LEN" if "i < n" for i
      using that b c(3) len by (cases "i = j") (auto simp: bufs_ok_def)
    show "length (?m x) = length (m x)" if "i < n" "be_pVarIeFromProbRsp (es ! i) = Some x" for i x
      using a(2) c by auto
  qed (use ptr in auto)
  moreover have "bss_view ?m (?es ! i) = (if i = j then bss_view m ?y else bss_view m (es ! i))" if "i < n" for i
  proof (cases "i = j")
    case True
    with c len j show ?thesis by (simp add: bss_view_def)
  next
    case False
    then have "be_pVarIeFromProbRsp (es ! i) \<noteq> Some a" using own[of i j] a(1) that j by auto
    with False show ?thesis by (auto simp: bss_view_def split: option.split)
  qed
  then have "map (bss_view ?m) (take n ?es) = (map (bss_view m) (take n es))[j := map (bss_view m) (take n es) ! Suc j]"
    using j len by (intro nth_equalityI) (auto simp: nth_list_update)
  moreover have "map be_pVarIeFromProbRsp ?es = map be_pVarIeFromProbRsp es"
    using a(1) j len by (simp add: map_update list_update_same_conv)
  ultimately show ?thesis using run by auto
qed

lemma move_up_view:
  assumes "bufs_ok n es m" "j + k < n"
  shows "\<exists>es' m'. move_up k j es m = Some (es', m') \<and> bufs_ok n es' m' \<and> length es' = length es \<and>
    map be_pVarIeFromProbRsp es' = map be_pVarIeFromProbRsp es \<and>
    map (bss_view m') (take n es') = shifted k j (map (bss_view m) (take n es))"
  using assms
proof (induction k arbitrary: j es m)
  case (Suc k)
  have j: "Suc j < n" using Suc.prems(2) by simp
  obtain es1 m1 where 1: "move_entry j es m = Some (es1, m1)" "bufs_ok n es1 m1" "length es1 = length es"
    "map be_pVarIeFromProbRsp es1 = map be_pVarIeFromProbRsp es"
    "map (bss_view m1) (take n es1) = (map (bss_view m) (take n es))[j := map (bss_view m) (take n es) ! Suc j]"
    using move_entry_view[OF Suc.prems(1) j] by auto
  obtain es' m' where 2: "move_up k (Suc j) es1 m1 = Some (es', m')" "bufs_ok n es' m'" "length es' = length es1"
    "map be_pVarIeFromProbRsp es' = map be_pVarIeFromProbRsp es1"
    "map (bss_view m') (take n es') = shifted k (Suc j) (map (bss_view m1) (take n es1))"
    using Suc.IH[OF 1(2), of "Suc j"] Suc.prems(2) by auto
  have "n \<le> length es" using Suc.prems(1) by (simp add: bufs_ok_def)
  then have "shifted k (Suc j) (map (bss_view m1) (take n es1)) = shifted (Suc k) j (map (bss_view m) (take n es))"
    using Suc.prems(2) unfolding 1(5) by (intro shifted_step) simp
  with 1 2 show ?case by simp
qed simp

lemma vie_zero_other:
  assumes "bufs_ok n es m" "k < n" "i < n" "i \<noteq> k"
  shows "bss_view (vie_zero (be_pVarIeFromProbRsp (es ! k)) m) (es ! i) = bss_view m (es ! i)"
proof -
  obtain a where a: "be_pVarIeFromProbRsp (es ! k) = Some a" using bufs_ok_D[OF assms(1,2)] by auto
  then have "be_pVarIeFromProbRsp (es ! i) \<noteq> Some a" using assms by (auto simp: bufs_ok_def)
  with a show ?thesis by (auto simp: bss_view_def vie_zero_def split: option.split)
qed

lemma vie_zero_length: "length (m a) = MAX_VIE_LEN \<Longrightarrow> length (vie_zero p m a) = MAX_VIE_LEN"
  by (simp add: vie_zero_def split: option.split)

lemma bufs_ok_clear:
  assumes b: "bufs_ok n es m" and k: "k < n"
    and z: "be_pVarIeFromProbRsp z = be_pVarIeFromProbRsp (es ! k)" "be_VarIeFromProbeRspLen z \<le> MAX_VIE_LEN"
  shows "bufs_ok n (es[k := z]) (vie_zero p m)"
proof (rule bufs_ok_cong[OF b])
  show "be_VarIeFromProbeRspLen (es[k := z] ! i) \<le> MAX_VIE_LEN" if "i < n" for i
    using that b z(2) by (cases "i = k") (auto simp: bufs_ok_def)
  show "be_pVarIeFromProbRsp (es[k := z] ! i) = be_pVarIeFromProbRsp (es ! i)" if "i < n" for i
    using that k z(1) b by (cases "i = k") (auto simp: bufs_ok_def)
  show "length (vie_zero p m a) = length (m a)" if "i < n" "be_pVarIeFromProbRsp (es ! i) = Some a" for i a
    using bufs_ok_D[OF b that(1)] that(2) vie_zero_length by (metis option.inject)
qed simp

section \<open>Deletion\<close>

lemma take_shifted_remove:
  assumes "i < n" "length xs = n"
  shows "take (n - 1) (shifted (n - 1 - i) i xs) = take i xs @ drop (Suc i) xs"
  using shifted_removes[of i n xs] assms by simp

lemma BssTableDeleteEntry_list:
  assumes nr: "bt_BssNr T \<le> length (bt_BssEntry T)" and b: "bufs_ok (bt_BssNr T) (bt_BssEntry T) m"
  shows "\<exists>T' m'. BssTableDeleteEntry T bssid ch m = Some (T', m') \<and>
    bss_list T' m' = drop_first (\<lambda>x. be_Channel (fst x) = ch \<and> be_Bssid (fst x) = bssid) (bss_list T m) \<and>
    map be_pVarIeFromProbRsp (bt_BssEntry T') = map be_pVarIeFromProbRsp (bt_BssEntry T) \<and>
    bufs_ok (bt_BssNr T) (bt_BssEntry T') m'"
proof -
  let ?P = "\<lambda>e. be_Channel e = ch \<and> be_Bssid e = bssid"
  let ?Q = "\<lambda>x. be_Channel (fst x) = ch \<and> be_Bssid (fst x) = bssid"
  let ?n = "bt_BssNr T" and ?es = "bt_BssEntry T"
  have PQ: "?Q (bss_list T m ! i) \<longleftrightarrow> ?P (?es ! i)" if "i < ?n" for i
    using that nr by (simp add: bss_list_def bss_view_def bss_core_def)
  have ll: "length (bss_list T m) = ?n" using nr by (simp add: bss_list_def)
  show ?thesis
  proof (cases "first_entry ?P T")
    case None
    then have "drop_first ?Q (bss_list T m) = bss_list T m"
    proof (intro drop_first_none)
      fix x assume "x \<in> set (bss_list T m)"
      then obtain i where i: "i < ?n" and x: "x = bss_list T m ! i" unfolding in_set_conv_nth ll by blast
      have "\<not> ?P (?es ! i)" using None i by (simp add: first_entry_None)
      then show "\<not> ?Q x" unfolding x using PQ[OF i] by simp
    qed
    with None b show ?thesis by (simp add: BssTableDeleteEntry_def)
  next
    case (Some i)
    then have i: "i < ?n" "?P (?es ! i)" "\<And>j. j < i \<Longrightarrow> \<not> ?P (?es ! j)" by (auto simp: first_entry_Some)
    obtain es m1 where mv: "move_up (?n - 1 - i) i ?es m = Some (es, m1)" "bufs_ok ?n es m1" "length es = length ?es"
      "map be_pVarIeFromProbRsp es = map be_pVarIeFromProbRsp ?es"
      "map (bss_view m1) (take ?n es) = shifted (?n - 1 - i) i (bss_list T m)"
      using move_up_view[OF b, of i "?n - 1 - i"] i(1) by (auto simp: bss_list_def)
    let ?l = "es ! (?n - 1)"
    let ?z = "zero_entry\<lparr>be_pVarIeFromProbRsp := be_pVarIeFromProbRsp ?l\<rparr>"
    let ?m = "vie_zero (be_pVarIeFromProbRsp ?l) m1"
    let ?T = "T\<lparr>bt_BssNr := ?n - 1, bt_BssEntry := es[?n - 1 := ?z]\<rparr>"
    have run: "BssTableDeleteEntry T bssid ch m = Some (?T, ?m)"
      using Some mv(1,3) i(1) nr by (simp add: BssTableDeleteEntry_def Let_def)
    have others: "bss_view ?m (es ! k) = bss_view m1 (es ! k)" if "k < ?n - 1" for k
      using vie_zero_other[OF mv(2), of "?n - 1" k] that by simp
    have "bss_list ?T ?m = take (?n - 1) (map (bss_view m1) (take ?n es))"
      using others mv(3) nr by (intro nth_equalityI) (auto simp: bss_list_def)
    also have "\<dots> = take i (bss_list T m) @ drop (Suc i) (bss_list T m)"
      unfolding mv(5) by (rule take_shifted_remove[OF i(1) ll])
    also have "\<dots> = drop_first ?Q (bss_list T m)"
      using i PQ ll by (intro drop_first_at[symmetric]) auto
    finally have "bss_list ?T ?m = drop_first ?Q (bss_list T m)" .
    moreover have "bufs_ok ?n (es[?n - 1 := ?z]) ?m"
      using i(1) by (intro bufs_ok_clear[OF mv(2)]) (auto simp: zero_entry_def)
    moreover have "map be_pVarIeFromProbRsp (es[?n - 1 := ?z]) = map be_pVarIeFromProbRsp ?es"
      using mv(3,4) i(1) nr by (simp add: map_update list_update_same_conv nth_map[symmetric] del: nth_map)
    ultimately show ?thesis using run by auto
  qed
qed

section \<open>Aging\<close>

lemma maintain_delete_view:
  assumes b: "bufs_ok n es m" and i: "i < n"
  shows "\<exists>es' m'. maintain_delete i n es m = Some (es', m') \<and> bufs_ok (n - 1) es' m' \<and> length es' = length es \<and>
    map be_pVarIeFromProbRsp es' = (map be_pVarIeFromProbRsp es)[n - 1 := None] \<and>
    map (bss_view m') (take (n - 1) es') = take i (map (bss_view m) (take n es)) @ drop (Suc i) (map (bss_view m) (take n es))"
proof -
  have len: "n \<le> length es" using b by (simp add: bufs_ok_def)
  obtain es1 m1 where mv: "move_up (n - 1 - i) i es m = Some (es1, m1)" "bufs_ok n es1 m1" "length es1 = length es"
    "map be_pVarIeFromProbRsp es1 = map be_pVarIeFromProbRsp es"
    "map (bss_view m1) (take n es1) = shifted (n - 1 - i) i (map (bss_view m) (take n es))"
    using move_up_view[OF b, of i "n - 1 - i"] i by auto
  let ?m = "vie_zero (be_pVarIeFromProbRsp (es1 ! (n - 1))) m1"
  have run: "maintain_delete i n es m = Some (es1[n - 1 := zero_entry], ?m)"
    using mv(1,3) i len by (simp add: maintain_delete_def)
  have "bss_view ?m (es1 ! k) = bss_view m1 (es1 ! k)" if "k < n - 1" for k
    using vie_zero_other[OF mv(2), of "n - 1" k] that by simp
  then have "map (bss_view ?m) (take (n - 1) (es1[n - 1 := zero_entry])) = take (n - 1) (map (bss_view m1) (take n es1))"
    using mv(3) len by (intro nth_equalityI) auto
  also have "\<dots> = take i (map (bss_view m) (take n es)) @ drop (Suc i) (map (bss_view m) (take n es))"
    unfolding mv(5) by (rule take_shifted_remove[OF i]) (simp add: len)
  finally have view: "map (bss_view ?m) (take (n - 1) (es1[n - 1 := zero_entry])) =
    take i (map (bss_view m) (take n es)) @ drop (Suc i) (map (bss_view m) (take n es))" .
  have "bufs_ok (n - 1) (es1[n - 1 := zero_entry]) ?m"
  proof (rule bufs_ok_cong[OF bufs_ok_mono[OF mv(2)]])
    show "be_VarIeFromProbeRspLen (es1[n - 1 := zero_entry] ! k) \<le> MAX_VIE_LEN" if "k < n - 1" for k
      using mv(2) that by (simp add: bufs_ok_def)
    show "length (?m a) = length (m1 a)" if "k < n - 1" "be_pVarIeFromProbRsp (es1 ! k) = Some a" for k a
      using bufs_ok_D[OF mv(2), of k] that vie_zero_length by (metis less_imp_diff_less less_trans option.inject diff_less i
        gr_implies_not0 neq0_conv zero_less_one)
  qed auto
  moreover have "map be_pVarIeFromProbRsp (es1[n - 1 := zero_entry]) = (map be_pVarIeFromProbRsp es)[n - 1 := None]"
    using mv(4) by (simp add: map_update zero_entry_def)
  ultimately show ?thesis using run view mv(3) by auto
qed

text \<open>Every deletion of the aging clears the buffer pointer of the slot the table shrinks by.\<close>

lemma list_update_replicate_step:
  assumes "n' < n" "n \<le> length xs"
  shows "take n' xs @ replicate (n - n') y @ drop n xs = take n' (xs[n - 1 := y]) @ replicate (n - 1 - n') y @ drop (n - 1) (xs[n - 1 := y])"
proof -
  have "replicate (n - n') y = replicate (n - 1 - n') y @ [y]"
    using assms by (metis Suc_diff_Suc diff_Suc_eq_diff_pred replicate_Suc replicate_append_same)
  moreover have "drop (n - 1) (xs[n - 1 := y]) = y # drop n xs"
    using assms by (simp add: drop_update_swap flip: Cons_nth_drop_Suc)
  ultimately show ?thesis using assms by simp
qed

lemma maintain_loop_buffers:
  assumes "bufs_ok n es m"
  shows "\<exists>n' es' m'. maintain_loop clock d k keep i n es m = Some (n', es', m') \<and> n' \<le> n \<and>
    bufs_ok n' es' m' \<and> length es' = length es \<and>
    map be_pVarIeFromProbRsp es' =
      take n' (map be_pVarIeFromProbRsp es) @ replicate (n - n') None @ drop n (map be_pVarIeFromProbRsp es)"
  using assms
proof (induction clock d k keep i n es m rule: maintain_loop.induct)
  case (1 clock d k keep i n es m)
  show ?case
  proof (cases "n \<le> i")
    case True
    with 1(3) show ?thesis by (subst maintain_loop.simps) simp
  next
    case False
    let ?e = "same_rx_update (es ! i)" and ?ps = "map be_pVarIeFromProbRsp es"
    have len: "n \<le> length es" using 1(3) by (simp add: bufs_ok_def)
    have il: "nth_opt es i = Some (es ! i)" using False len by simp
    have ptr: "map be_pVarIeFromProbRsp (es[i := ?e]) = ?ps"
      using False len by (simp add: map_update list_update_same_conv)
    have b1: "bufs_ok n (es[i := ?e]) m"
    proof (rule bufs_ok_cong[OF 1(3)])
      show "be_VarIeFromProbeRspLen (es[i := ?e] ! j) \<le> MAX_VIE_LEN" if "j < n" for j
        using 1(3) that len by (cases "j = i") (auto simp: bufs_ok_def)
      show "be_pVarIeFromProbRsp (es[i := ?e] ! j) = be_pVarIeFromProbRsp (es ! j)" if "j < n" for j
        using that len by (cases "j = i") auto
    qed auto
    show ?thesis
    proof (cases "entry_expired (clock i) d k keep ?e")
      case False': False
      with False il have run: "maintain_loop clock d k keep i n es m = maintain_loop clock d k keep (i + 1) n (es[i := ?e]) m"
        by (subst maintain_loop.simps) (simp add: Let_def)
      from 1(2)[OF False il refl refl False' b1] show ?thesis unfolding run ptr by simp
    next
      case True
      obtain es2 m2 where del: "maintain_delete i n (es[i := ?e]) m = Some (es2, m2)" "bufs_ok (n - 1) es2 m2"
        "length es2 = length es" "map be_pVarIeFromProbRsp es2 = ?ps[n - 1 := None]"
        using maintain_delete_view[OF b1, of i] False unfolding ptr by auto
      have run: "maintain_loop clock d k keep i n es m = maintain_loop clock d k keep (i + 1) (n - 1) es2 m2"
        using False il True del(1) by (subst maintain_loop.simps) (simp add: Let_def)
      obtain n' es' m' where r: "maintain_loop clock d k keep (i + 1) (n - 1) es2 m2 = Some (n', es', m')" "n' \<le> n - 1"
        "bufs_ok n' es' m'" "length es' = length es2"
        "map be_pVarIeFromProbRsp es' = take n' (?ps[n - 1 := None]) @ replicate (n - 1 - n') None @ drop (n - 1) (?ps[n - 1 := None])"
        using 1(1)[OF False il refl refl True del(1) refl del(2)] unfolding del(4) by blast
      have "map be_pVarIeFromProbRsp es' = take n' ?ps @ replicate (n - n') None @ drop n ?ps"
        unfolding r(5) using r(2) False len by (intro list_update_replicate_step[symmetric]) auto
      with r run del(3) show ?thesis by auto
    qed
  qed
qed

text \<open>If every entry is due, every second one is left: the entry that moves into the place of a deleted
  one is not looked at.\<close>

definition due :: "(nat \<Rightarrow> tick) \<Rightarrow> tick \<Rightarrow> byte \<Rightarrow> (byte list \<times> nat) option \<Rightarrow> BSS_ENTRY \<Rightarrow> bool" where
  "due clock d k keep e \<longleftrightarrow> (\<forall>i. entry_expired (clock i) d k keep (same_rx_update e))"

lemma due_core: "due clock d k keep (bss_core e) = due clock d k keep e"
  by (simp add: due_def entry_expired_def same_rx_update_def bss_core_def split: option.split)

lemma maintain_loop_skips:
  assumes "bufs_ok n es m" "i \<le> n" "\<And>j. i \<le> j \<Longrightarrow> j < n \<Longrightarrow> due clock d k keep (es ! j)"
  shows "\<exists>es' m'. maintain_loop clock d k keep i n es m = Some (n - (n - i + 1) div 2, es', m')"
  using assms
proof (induction clock d k keep i n es m rule: maintain_loop.induct)
  case (1 clock d k keep i n es m)
  show ?case
  proof (cases "n \<le> i")
    case True
    with 1(4) show ?thesis by (subst maintain_loop.simps) simp
  next
    case False
    let ?e = "same_rx_update (es ! i)"
    have len: "n \<le> length es" using 1(3) by (simp add: bufs_ok_def)
    have il: "nth_opt es i = Some (es ! i)" using False len by simp
    have ex: "entry_expired (clock i) d k keep ?e" using 1(5)[of i] False by (simp add: due_def)
    have b1: "bufs_ok n (es[i := ?e]) m"
    proof (rule bufs_ok_cong[OF 1(3)])
      show "be_VarIeFromProbeRspLen (es[i := ?e] ! j) \<le> MAX_VIE_LEN" if "j < n" for j
        using 1(3) that len by (cases "j = i") (auto simp: bufs_ok_def)
      show "be_pVarIeFromProbRsp (es[i := ?e] ! j) = be_pVarIeFromProbRsp (es ! j)" if "j < n" for j
        using that len by (cases "j = i") auto
    qed auto
    obtain es2 m2 where del: "maintain_delete i n (es[i := ?e]) m = Some (es2, m2)" "bufs_ok (n - 1) es2 m2"
      "length es2 = length es"
      "map (bss_view m2) (take (n - 1) es2) = take i (map (bss_view m) (take n (es[i := ?e]))) @
        drop (Suc i) (map (bss_view m) (take n (es[i := ?e])))"
      using maintain_delete_view[OF b1, of i] False by auto
    have run: "maintain_loop clock d k keep i n es m = maintain_loop clock d k keep (i + 1) (n - 1) es2 m2"
      using False il ex del(1) by (subst maintain_loop.simps) (simp add: Let_def)
    show ?thesis
    proof (cases "n = i + 1")
      case True
      then show ?thesis unfolding run by (subst maintain_loop.simps) simp
    next
      case False': False
      have left: "due clock d k keep (es2 ! j)" if "i + 1 \<le> j" "j < n - 1" for j
      proof -
        have "bss_core (es2 ! j) = fst (map (bss_view m2) (take (n - 1) es2) ! j)"
          using that del(3) len by (simp add: bss_view_def)
        also have "\<dots> = bss_core (es ! Suc j)"
          unfolding del(4) using that False len by (simp add: nth_append bss_view_def)
        finally have "due clock d k keep (es2 ! j) = due clock d k keep (es ! Suc j)"
          using due_core[of clock d k keep "es2 ! j"] due_core[of clock d k keep "es ! Suc j"] by simp
        then show ?thesis using 1(5)[of "Suc j"] that by simp
      qed
      have "\<exists>es' m'. maintain_loop clock d k keep (i + 1) (n - 1) es2 m2 = Some (n - 1 - (n - 1 - (i + 1) + 1) div 2, es', m')"
        by (rule 1(1)[OF False il refl refl ex del(1) refl del(2) _ left]) (use False False' in simp_all)
      moreover have "n - 1 - (n - 1 - (i + 1) + 1) div 2 = n - (n - i + 1) div 2"
      proof -
        define t where "t = n - i - 2"
        have n: "n = i + t + 2" using False False' by (simp add: t_def)
        have "(t + 3) div 2 = (t + 1) div 2 + 1" by simp
        then show ?thesis unfolding n by simp
      qed
      ultimately show ?thesis unfolding run by simp
    qed
  qed
qed

end
