(* ===== verification/BssSort.thy ===== *)
theory BssSort
  imports BssBuffers
begin

text \<open>The sort by signal strength and the choice of the acceptable access points.\<close>

section \<open>The rounds of the sort\<close>

text \<open>A rearrangement of the slots from \<open>i\<close> to \<open>n - 1\<close>.\<close>

definition rearranged :: "nat \<Rightarrow> nat \<Rightarrow> BSS_ENTRY list \<Rightarrow> BSS_ENTRY list \<Rightarrow> bool" where
  "rearranged i n es es' \<longleftrightarrow> length es' = length es \<and> mset es' = mset es \<and>
     (\<forall>j. j < i \<or> n \<le> j \<longrightarrow> es' ! j = es ! j) \<and>
     (\<forall>j. i \<le> j \<and> j < n \<longrightarrow> (\<exists>k. i \<le> k \<and> k < n \<and> es' ! j = es ! k))"

lemma rearranged_refl [simp]: "rearranged i n es es"
  by (auto simp: rearranged_def)

lemma rearranged_trans: "rearranged i n a b \<Longrightarrow> rearranged i n b c \<Longrightarrow> rearranged i n a c"
  unfolding rearranged_def by (metis (no_types, lifting))

lemma rearranged_later: "rearranged i n a b \<Longrightarrow> k \<le> i \<Longrightarrow> rearranged k n a b"
  unfolding rearranged_def by (metis (no_types, lifting) le_trans linorder_not_le)

lemma swap_rearranged:
  assumes "i < j" "j < n" "n \<le> length es"
  shows "rearranged i n es (swap_if_stronger i j es)"
  using assms
  by (auto simp: swap_if_stronger_def rearranged_def nth_list_update mset_swap intro: exI[of _ j])

lemma swap_rssi:
  assumes "i < j" "j < length es"
  shows "be_Rssi (swap_if_stronger i j es ! j) \<le> be_Rssi (swap_if_stronger i j es ! i)"
    and "be_Rssi (es ! i) \<le> be_Rssi (swap_if_stronger i j es ! i)"
    and "k \<noteq> i \<Longrightarrow> k \<noteq> j \<Longrightarrow> swap_if_stronger i j es ! k = es ! k"
  using assms by (auto simp: swap_if_stronger_def nth_list_update)

lemma partial_round:
  assumes "n \<le> length es" "k \<le> n" "i < n"
  shows "rearranged i n es (fold (swap_if_stronger i) [i + 1..<k] es) \<and>
    (\<forall>j. i < j \<and> j < k \<longrightarrow> be_Rssi (fold (swap_if_stronger i) [i + 1..<k] es ! j) \<le>
      be_Rssi (fold (swap_if_stronger i) [i + 1..<k] es ! i))"
  using assms(2)
proof (induction k)
  case (Suc k)
  let ?x = "fold (swap_if_stronger i) [i + 1..<k] es"
  show ?case
  proof (cases "i < k")
    case True
    have IH: "rearranged i n es ?x" "\<And>j. i < j \<Longrightarrow> j < k \<Longrightarrow> be_Rssi (?x ! j) \<le> be_Rssi (?x ! i)"
      using Suc by auto
    have lx: "n \<le> length ?x" using IH(1) assms(1) by (simp add: rearranged_def)
    have step: "fold (swap_if_stronger i) [i + 1..<Suc k] es = swap_if_stronger i k ?x" using True by simp
    have "rearranged i n ?x (swap_if_stronger i k ?x)" using swap_rearranged[OF True _ lx] Suc.prems by simp
    note re = rearranged_trans[OF IH(1) this]
    have "be_Rssi (swap_if_stronger i k ?x ! j) \<le> be_Rssi (swap_if_stronger i k ?x ! i)" if "i < j" "j < Suc k" for j
    proof (cases "j = k")
      case True
      with \<open>i < k\<close> lx Suc.prems show ?thesis using swap_rssi(1)[of i k ?x] by simp
    next
      case False
      have "k < length ?x" using lx Suc.prems by simp
      then have "swap_if_stronger i k ?x ! j = ?x ! j" "be_Rssi (?x ! i) \<le> be_Rssi (swap_if_stronger i k ?x ! i)"
        using False that swap_rssi(2,3)[OF \<open>i < k\<close>, of ?x] by simp_all
      with IH(2)[of j] that False show ?thesis by simp
    qed
    with re show ?thesis unfolding step by blast
  qed (use assms in auto)
qed simp

lemma round_ok:
  assumes "n \<le> length es" "i < n"
  shows "rearranged i n es (sort_round n i es)"
    and "i < j \<Longrightarrow> j < n \<Longrightarrow> be_Rssi (sort_round n i es ! j) \<le> be_Rssi (sort_round n i es ! i)"
  using partial_round[OF assms(1) order_refl assms(2)] by (auto simp: sort_round_def)

text \<open>After the rounds before \<open>k\<close>, the first \<open>k\<close> slots are in order and not weaker than the rest.\<close>

lemma rounds_ok:
  assumes "n \<le> length es" "k \<le> n - 1"
  shows "rearranged 0 n es (fold (sort_round n) [0..<k] es) \<and>
    (\<forall>i j. i < k \<and> i < j \<and> j < n \<longrightarrow> be_Rssi (fold (sort_round n) [0..<k] es ! j) \<le>
      be_Rssi (fold (sort_round n) [0..<k] es ! i))"
  using assms(2)
proof (induction k)
  case (Suc k)
  let ?x = "fold (sort_round n) [0..<k] es"
  have IH: "rearranged 0 n es ?x" "\<And>i j. i < k \<Longrightarrow> i < j \<Longrightarrow> j < n \<Longrightarrow> be_Rssi (?x ! j) \<le> be_Rssi (?x ! i)"
    using Suc by auto
  have lx: "n \<le> length ?x" using IH(1) assms(1) by (simp add: rearranged_def)
  have kn: "k < n" using Suc.prems by simp
  note r = round_ok[OF lx kn]
  have re: "rearranged 0 n es (sort_round n k ?x)"
    using rearranged_trans[OF IH(1) rearranged_later[OF r(1)]] by simp
  have "be_Rssi (sort_round n k ?x ! j) \<le> be_Rssi (sort_round n k ?x ! i)" if ij: "i < Suc k" "i < j" "j < n" for i j
  proof (cases "i = k")
    case True
    with r(2) ij show ?thesis by simp
  next
    case False
    then have i: "i < k" "sort_round n k ?x ! i = ?x ! i" using ij r(1) by (auto simp: rearranged_def)
    show ?thesis
    proof (cases "j < k")
      case True
      then have "sort_round n k ?x ! j = ?x ! j" using r(1) by (auto simp: rearranged_def)
      with i IH(2) ij show ?thesis by simp
    next
      case False
      then obtain l where "k \<le> l" "l < n" "sort_round n k ?x ! j = ?x ! l"
        using r(1) ij(3) False unfolding rearranged_def by (meson linorder_not_le)
      with i IH(2)[of i l] show ?thesis by simp
    qed
  qed
  with re show ?case by simp
qed simp

definition stronger_first :: "BSS_ENTRY list \<Rightarrow> bool" where
  "stronger_first es \<longleftrightarrow> sorted_wrt (\<lambda>a b. be_Rssi b \<le> be_Rssi a) es"

lemma BssTableSortByRssi_ok:
  assumes "bt_BssNr T \<le> length (bt_BssEntry T)"
  shows "\<exists>T'. BssTableSortByRssi mem T = Some T' \<and> bt_BssNr T' = bt_BssNr T \<and> bt_BssOverlapNr T' = bt_BssOverlapNr T \<and>
    length (bt_BssEntry T') = length (bt_BssEntry T) \<and>
    mset (take (bt_BssNr T) (bt_BssEntry T')) = mset (take (bt_BssNr T) (bt_BssEntry T)) \<and>
    drop (bt_BssNr T) (bt_BssEntry T') = drop (bt_BssNr T) (bt_BssEntry T) \<and>
    (mem \<longrightarrow> stronger_first (take (bt_BssNr T) (bt_BssEntry T')))"
proof (cases mem)
  case True
  let ?n = "bt_BssNr T" and ?es = "bt_BssEntry T"
  let ?x = "fold (sort_round ?n) [0..<?n - 1] ?es"
  have re: "rearranged 0 ?n ?es ?x" and so: "\<And>i j. i < ?n - 1 \<Longrightarrow> i < j \<Longrightarrow> j < ?n \<Longrightarrow> be_Rssi (?x ! j) \<le> be_Rssi (?x ! i)"
    using rounds_ok[OF assms order_refl] by auto
  have len: "length ?x = length ?es" using re by (simp add: rearranged_def)
  have dr: "drop ?n ?x = drop ?n ?es" using re len by (intro nth_equalityI) (auto simp: rearranged_def)
  have "mset (take ?n ?x) + mset (drop ?n ?x) = mset (take ?n ?es) + mset (drop ?n ?es)"
    using re by (simp add: rearranged_def flip: mset_append)
  then have "mset (take ?n ?x) = mset (take ?n ?es)" unfolding dr by simp
  moreover have "stronger_first (take ?n ?x)"
    using so len assms by (auto simp: stronger_first_def sorted_wrt_iff_nth_less)
  ultimately show ?thesis using True assms len dr by (simp add: BssTableSortByRssi_def)
qed (simp add: BssTableSortByRssi_def)

section \<open>The choice\<close>

definition accepted :: "sel_ctx \<Rightarrow> byte list \<Rightarrow> nat \<Rightarrow> BSS_ENTRY \<Rightarrow> bool" where
  "accepted c Ssid SsidLen e \<longleftrightarrow> bss_round c Ssid SsidLen e \<in> {Copy, Copy_continue}"

lemma select_loop_ok:
  assumes "length (bt_BssEntry Out) = MAX_LEN_OF_BSS_TABLE" "bt_BssNr Out + length es \<le> MAX_LEN_OF_BSS_TABLE"
  shows "\<exists>Out'. select_loop c Ssid SsidLen es Out = Some Out' \<and> length (bt_BssEntry Out') = MAX_LEN_OF_BSS_TABLE \<and>
    bt_BssNr Out' = bt_BssNr Out + length (filter (accepted c Ssid SsidLen) es) \<and>
    bt_BssOverlapNr Out' = bt_BssOverlapNr Out \<and>
    take (bt_BssNr Out') (bt_BssEntry Out') = take (bt_BssNr Out) (bt_BssEntry Out) @ filter (accepted c Ssid SsidLen) es \<and>
    set (bt_BssEntry Out') \<subseteq> set (bt_BssEntry Out) \<union> set es"
  using assms
proof (induction es arbitrary: Out)
  case (Cons e es)
  let ?Out = "Out\<lparr>bt_BssEntry := (bt_BssEntry Out)[bt_BssNr Out := e], bt_BssNr := bt_BssNr Out + 1\<rparr>"
  have copy: "copy_out e Out = Some ?Out" using Cons.prems by (simp add: copy_out_def)
  have tk: "take (bt_BssNr ?Out) (bt_BssEntry ?Out) = take (bt_BssNr Out) (bt_BssEntry Out) @ [e]"
    using Cons.prems by (simp add: take_Suc_conv_app_nth)
  have sub: "set (bt_BssEntry ?Out) \<subseteq> set (bt_BssEntry Out) \<union> {e}" by (auto dest: set_update_subset_insert[THEN subsetD])
  show ?case
  proof (cases "accepted c Ssid SsidLen e")
    case False
    then have "bss_round c Ssid SsidLen e \<in> {Continue, Pass}"
      by (cases "bss_round c Ssid SsidLen e") (auto simp: accepted_def)
    then have "select_loop c Ssid SsidLen (e # es) Out = select_loop c Ssid SsidLen es Out"
      using Cons.prems by auto
    with False Cons.IH[of Out] Cons.prems show ?thesis by auto
  next
    case True
    obtain Out' where IH: "select_loop c Ssid SsidLen es ?Out = Some Out'" "length (bt_BssEntry Out') = MAX_LEN_OF_BSS_TABLE"
      "bt_BssNr Out' = bt_BssNr ?Out + length (filter (accepted c Ssid SsidLen) es)" "bt_BssOverlapNr Out' = bt_BssOverlapNr Out"
      "take (bt_BssNr Out') (bt_BssEntry Out') = take (bt_BssNr ?Out) (bt_BssEntry ?Out) @ filter (accepted c Ssid SsidLen) es"
      "set (bt_BssEntry Out') \<subseteq> set (bt_BssEntry ?Out) \<union> set es"
      using Cons.IH[of ?Out] Cons.prems by auto
    have "select_loop c Ssid SsidLen (e # es) Out = Some Out'"
    proof (cases "MAX_LEN_OF_BSS_TABLE \<le> bt_BssNr ?Out \<and> bss_round c Ssid SsidLen e = Copy")
      case True
      then have "es = []" using Cons.prems by (cases es) auto
      with IH(1) True show ?thesis using copy by simp
    next
      case False
      with True IH(1) copy show ?thesis by (auto simp: accepted_def)
    qed
    with IH tk sub True show ?thesis by auto
  qed
qed simp

lemma BssTableInit_sel:
  "bt_BssNr (fst (BssTableInit T m)) = 0" "bt_BssOverlapNr (fst (BssTableInit T m)) = 0"
  "length (bt_BssEntry (fst (BssTableInit T m))) = length (bt_BssEntry T)"
  "e \<in> set (bt_BssEntry (fst (BssTableInit T m))) \<Longrightarrow> entry_ok e"
  by (auto simp: BssTableInit_def init_bss_def entry_ok_def zero_entry_def MAX_VIE_LEN_def)

definition offered :: "sel_ctx \<Rightarrow> byte list \<Rightarrow> nat \<Rightarrow> BSS_TABLE \<Rightarrow> BSS_ENTRY list" where
  "offered c Ssid SsidLen Scan = filter (accepted c Ssid SsidLen) (take (bt_BssNr Scan) (bt_BssEntry Scan))"

lemma BssTableSsidSort_ok:
  assumes S: "bss_tab_ok Scan" and O: "length (bt_BssEntry Out) = MAX_LEN_OF_BSS_TABLE"
    and go: "\<not> (SsidLen = 0 \<and> \<not> se_bAutoConnectIfNoSSID c)"
  shows "\<exists>Out'. BssTableSsidSort mem c Scan Ssid SsidLen Out m = Some (Out', snd (BssTableInit Out m)) \<and> bss_tab_ok Out' \<and>
    mset (take (bt_BssNr Out') (bt_BssEntry Out')) = mset (offered c Ssid SsidLen Scan) \<and>
    (mem \<longrightarrow> stronger_first (take (bt_BssNr Out') (bt_BssEntry Out')))"
proof -
  let ?I = "fst (BssTableInit Out m)" and ?in = "take (bt_BssNr Scan) (bt_BssEntry Scan)"
  have len: "length ?in \<le> MAX_LEN_OF_BSS_TABLE" using S by (simp add: bss_tab_ok_def)
  obtain O1 where 1: "select_loop c Ssid SsidLen ?in ?I = Some O1" "length (bt_BssEntry O1) = MAX_LEN_OF_BSS_TABLE"
    "bt_BssNr O1 = length (offered c Ssid SsidLen Scan)" "bt_BssOverlapNr O1 = 0"
    "take (bt_BssNr O1) (bt_BssEntry O1) = offered c Ssid SsidLen Scan"
    "set (bt_BssEntry O1) \<subseteq> set (bt_BssEntry ?I) \<union> set ?in"
    using select_loop_ok[of ?I ?in c Ssid SsidLen] O len by (auto simp: BssTableInit_sel offered_def)
  have le: "bt_BssNr O1 \<le> MAX_LEN_OF_BSS_TABLE"
    unfolding 1(3) offered_def by (rule le_trans[OF length_filter_le len])
  obtain O2 where 2: "BssTableSortByRssi mem O1 = Some O2" "bt_BssNr O2 = bt_BssNr O1" "bt_BssOverlapNr O2 = 0"
    "length (bt_BssEntry O2) = MAX_LEN_OF_BSS_TABLE"
    "mset (take (bt_BssNr O1) (bt_BssEntry O2)) = mset (offered c Ssid SsidLen Scan)"
    "drop (bt_BssNr O1) (bt_BssEntry O2) = drop (bt_BssNr O1) (bt_BssEntry O1)"
    "mem \<longrightarrow> stronger_first (take (bt_BssNr O1) (bt_BssEntry O2))"
    using BssTableSortByRssi_ok[of O1 mem] le 1 by auto
  have "set (bt_BssEntry O2) = set (take (bt_BssNr O1) (bt_BssEntry O2)) \<union> set (drop (bt_BssNr O1) (bt_BssEntry O2))"
    by (metis append_take_drop_id set_append)
  also have "\<dots> \<subseteq> set (bt_BssEntry ?I) \<union> set (bt_BssEntry Scan)"
    using 1(6) 2(5,6) mset_eq_setD[OF 2(5)] by (auto simp: offered_def dest: in_set_takeD in_set_dropD)
  finally have "\<forall>e \<in> set (bt_BssEntry O2). entry_ok e"
    using S BssTableInit_sel(4)[of _ Out m] by (auto simp: bss_tab_ok_def)
  moreover have "distinct (bss_keys O2)"
  proof -
    have "mset (bss_keys O2) = mset (map bss_key (offered c Ssid SsidLen Scan))"
      unfolding bss_keys_def using 2(2,5) by (simp add: mset_map)
    moreover have "distinct (map bss_key (offered c Ssid SsidLen Scan))"
      using S by (simp add: offered_def bss_tab_ok_def bss_keys_def distinct_map_filter)
    ultimately show ?thesis by (metis mset_eq_imp_distinct_iff)
  qed
  ultimately have "bss_tab_ok O2" using 2 le by (simp add: bss_tab_ok_def MAX_LEN_OF_BSS_TABLE_def)
  moreover have "BssTableSsidSort mem c Scan Ssid SsidLen Out m = Some (O2, snd (BssTableInit Out m))"
    using go 1(1) 2(1) by (auto simp: BssTableSsidSort_def Let_def split: prod.split)
  ultimately show ?thesis using 2 by (metis (no_types, lifting))
qed

text \<open>Initialising a table clears the buffers of all its slots.\<close>

lemma BssTableInit_wipes:
  assumes "e \<in> set (bt_BssEntry T)" "be_pVarIeFromProbRsp e = Some a"
  shows "snd (BssTableInit T m) a = replicate MAX_VIE_LEN 0"
proof -
  have keep: "fold (\<lambda>e. vie_zero (be_pVarIeFromProbRsp e)) es m a = replicate MAX_VIE_LEN 0"
    if "m a = replicate MAX_VIE_LEN 0" for es m
    using that by (induction es arbitrary: m) (auto simp: vie_zero_def split: option.split)
  have "fold (\<lambda>e. vie_zero (be_pVarIeFromProbRsp e)) es m a = replicate MAX_VIE_LEN 0" if "e \<in> set es" for es m
    using that assms(2) by (induction es arbitrary: m) (auto intro: keep simp: vie_zero_def)
  with assms(1) show ?thesis by (simp add: BssTableInit_def)
qed

end
