(* ===== verification/ScanAction.thy ===== *)
theory ScanAction
  imports BssSort
begin

text \<open>A beacon or probe response heard while scanning (\<open>PeerBeaconAtScanAction\<close> of sta/sync.c), the
  composition of the parser and the table, and the states of the scan table it leads to. The fields
  \<open>PTSF\<close>, \<open>TTSF\<close>, \<open>MinSNR\<close> and \<open>MacAddr\<close> it copies into the entry are not modelled.\<close>

section \<open>The handler\<close>

text \<open>\<open>RTMPMaxRssi\<close> of common/mlme.c on the converted signal strengths.\<close>

definition RTMPMaxRssi :: "nat \<Rightarrow> int \<Rightarrow> int \<Rightarrow> int \<Rightarrow> int" where
  "RTMPMaxRssi RxPath Rssi0 Rssi1 Rssi2 =
    (let l0 = (if RxPath = 1 \<and> Rssi0 \<noteq> 0 then Rssi0 else -127);
         l1 = (if 2 \<le> RxPath \<and> Rssi1 \<noteq> 0 then max Rssi0 Rssi1 else l0);
         l2 = (if RxPath = 3 \<and> Rssi2 \<noteq> 0 then max l1 Rssi2 else l1)
     in if l2 = -127 then 0 else l2)"

text \<open>Keeping the reported elements of a probe response in the buffer of the slot.\<close>

definition store_probe_rsp :: "nat \<Rightarrow> nat \<Rightarrow> byte list \<Rightarrow> BSS_TABLE \<Rightarrow> vie_mem \<Rightarrow> (BSS_TABLE \<times> vie_mem) option" where
  "store_probe_rsp i LenVIE pVIE Tab m = do {
     e \<leftarrow> nth_opt (bt_BssEntry Tab) i;
     (case be_pVarIeFromProbRsp e of
        None \<Rightarrow> Some (Tab\<lparr>bt_BssEntry := (bt_BssEntry Tab)[i := e\<lparr>be_VarIeFromProbeRspLen := 0\<rparr>]\<rparr>, m)
      | Some a \<Rightarrow> do {
          s \<leftarrow> bread pVIE 0 LenVIE;
          d \<leftarrow> bmove (replicate MAX_VIE_LEN 0) 0 s;
          Some (Tab\<lparr>bt_BssEntry := (bt_BssEntry Tab)[i := e\<lparr>be_VarIeFromProbeRspLen := LenVIE\<rparr>]\<rparr>, m(a := d)) }) }"

text \<open>What a received frame brings: the message buffer and length, the channel, the receive paths
  and the three signal strengths (converted), the time. \<open>ie_mem\<close> and \<open>vie\<close> are the outcomes of the two allocations, \<open>wsc\<close> that of the
  parser.\<close>

record scan_rx =
  rx_Msg :: "byte list"
  rx_MsgLen :: nat
  rx_Channel :: byte
  rx_RxPath :: nat
  rx_Rssi0 :: int
  rx_Rssi1 :: int
  rx_Rssi2 :: int
  rx_now :: tick
  rx_ie_mem :: bool
  rx_vie :: "byte list option"
  rx_wsc :: "byte list option"

record scan_state =
  ss_ctx :: set_ctx
  ss_tab :: BSS_TABLE
  ss_mem :: vie_mem

text \<open>The new state and what is reported to cfg80211: the index (\<open>None\<close> is \<open>BSS_NOT_FOUND\<close>) and the
  channel.\<close>

definition PeerBeaconAtScanAction ::
  "bcn_ctx \<Rightarrow> scan_rx \<Rightarrow> scan_state \<Rightarrow> (scan_state \<times> (nat option \<times> byte) option) option" where
  "PeerBeaconAtScanAction pAd rx s =
    (if \<not> rx_ie_mem rx then Some (s, None)
     else case rx_vie rx of None \<Rightarrow> Some (s, None)
     | Some vie \<Rightarrow> do {
         (ok, ie, LenVIE, pVIE) \<leftarrow>
           PeerBeaconAndProbeRspSanity pAd (rx_wsc rx) (rx_Msg rx) (rx_MsgLen rx) (rx_Channel rx) zero_ie_list vie;
         if \<not> ok then Some (s, None)
         else do {
           let ie' = (if 0 < il_HtCapabilityLen ie \<or> 0 < il_PreNHtCapabilityLen ie
                      then ie\<lparr>il_HtCapabilityLen := SIZE_HT_CAP_IE\<rparr> else ie);
           let Rssi = RTMPMaxRssi (rx_RxPath rx) (rx_Rssi0 rx) (rx_Rssi1 rx) (rx_Rssi2 rx);
           (idx, c, T) \<leftarrow> BssTableSetEntry (ss_ctx s) (ss_tab s) ie' Rssi (rx_now rx) LenVIE pVIE;
           (T', m') \<leftarrow> (case idx of None \<Rightarrow> Some (T, ss_mem s)
             | Some i \<Rightarrow> if drop_bit 4 (rx_Msg rx ! 0) = SUBTYPE_PROBE_RSP \<and> LenVIE \<noteq> 0
                         then store_probe_rsp i LenVIE pVIE T (ss_mem s) else Some (T, ss_mem s));
           Some (s\<lparr>ss_ctx := c, ss_tab := T', ss_mem := m'\<rparr>, Some (idx, il_Channel ie')) } })"

section \<open>The states of the scan table\<close>

text \<open>From the initialised table: frames heard while scanning, deletions, aging, a new scan.\<close>

inductive scan_reach :: "scan_state \<Rightarrow> bool" where
  start: "length (bt_BssEntry T) = MAX_LEN_OF_BSS_TABLE \<Longrightarrow> BssTableInit T m = (T', m') \<Longrightarrow>
    scan_reach \<lparr>ss_ctx = c, ss_tab = T', ss_mem = m'\<rparr>"
| heard: "scan_reach s \<Longrightarrow> PeerBeaconAtScanAction pAd rx s = Some (s', r) \<Longrightarrow> scan_reach s'"
| deleted: "scan_reach s \<Longrightarrow> BssTableDeleteEntry (ss_tab s) b ch (ss_mem s) = Some (T', m') \<Longrightarrow>
    scan_reach (s\<lparr>ss_tab := T', ss_mem := m'\<rparr>)"
| aged: "scan_reach s \<Longrightarrow> MaintainBssTable clock d k keep (ss_tab s) (ss_mem s) = Some (T', m') \<Longrightarrow>
    scan_reach (s\<lparr>ss_tab := T', ss_mem := m'\<rparr>)"
| rescan: "scan_reach s \<Longrightarrow> BssTableInit (ss_tab s) (ss_mem s) = (T', m') \<Longrightarrow>
    scan_reach (s\<lparr>ss_tab := T', ss_mem := m'\<rparr>)"
| wanted: "scan_reach s \<Longrightarrow> scan_reach (s\<lparr>ss_ctx := c\<rparr>)"

section \<open>The parsed structure is well formed whenever the parser returns\<close>

definition exit_state :: "ie_exit \<Rightarrow> pb_state" where
  "exit_state e = (case e of Break s \<Rightarrow> s | Goto_SanityCheck s \<Rightarrow> s | Return_FALSE s \<Rightarrow> s)"

lemma exit_state_simps [simp]:
  "exit_state (Break s) = s" "exit_state (Goto_SanityCheck s) = s" "exit_state (Return_FALSE s) = s"
  by (simp_all add: exit_state_def)

lemma bread_length: "bread b p n = Some x \<Longrightarrow> length x = n"
  by (auto simp: bread_def split: if_splits)

lemma bmove_length: "bmove b p s = Some x \<Longrightarrow> length x = length b"
  by (auto simp: bmove_def split: if_splits)

abbreviation list_kept :: "ie_exit option \<Rightarrow> bool" where
  "list_kept r \<equiv> yields r (\<lambda>e. ie_list_ok (pb_ie (exit_state e)))"

lemma report_kept: "ie_list_ok (pb_ie st) \<Longrightarrow> list_kept (map_option Break (report_ie b p len st))"
  by (auto simp: report_ie_def yields_def Option.bind_eq_Some_conv)

lemma ie_list_ok_upd [simp]:
  "ie_list_ok (i\<lparr>il_NewExtChannelOffset := x\<rparr>) = ie_list_ok i" "ie_list_ok (i\<lparr>il_Channel := x\<rparr>) = ie_list_ok i"
  "ie_list_ok (i\<lparr>il_CfParm := y\<rparr>) = ie_list_ok i" "ie_list_ok (i\<lparr>il_AtimWin := n\<rparr>) = ie_list_ok i"
  "ie_list_ok (i\<lparr>il_NewChannel := x\<rparr>) = ie_list_ok i" "ie_list_ok (i\<lparr>il_Erp := x\<rparr>) = ie_list_ok i"
  "ie_list_ok (i\<lparr>il_CkipFlag := x\<rparr>) = ie_list_ok i" "ie_list_ok (i\<lparr>il_AironetCellPowerLimit := x\<rparr>) = ie_list_ok i"
  "ie_list_ok (i\<lparr>il_BcastFlag := z, il_DtimCount := x, il_DtimPeriod := x', il_MessageToMe := z'\<rparr>) = ie_list_ok i"
  "ie_list_ok (i\<lparr>il_EdcaParm := e\<rparr>) = ie_list_ok i" "ie_list_ok (i\<lparr>il_RalinkIe := r\<rparr>) = ie_list_ok i"
  "ie_list_ok (i\<lparr>il_QbssLoad := q\<rparr>) = ie_list_ok i"
  by (simp_all add: ie_list_ok_def)

lemma ie_list_ok_copied:
  "ie_list_ok i \<Longrightarrow> length s = 32 \<Longrightarrow> n \<le> 32 \<Longrightarrow> ie_list_ok (i\<lparr>il_Ssid := s, il_SsidLen := n\<rparr>)"
  "ie_list_ok i \<Longrightarrow> length r = 12 \<Longrightarrow> n \<le> 12 \<Longrightarrow> ie_list_ok (i\<lparr>il_SupRate := r, il_SupRateLen := n\<rparr>)"
  "ie_list_ok i \<Longrightarrow> length r = 12 \<Longrightarrow> n \<le> 12 \<Longrightarrow> ie_list_ok (i\<lparr>il_ExtRate := r, il_ExtRateLen := n\<rparr>)"
  "ie_list_ok i \<Longrightarrow> length h = 26 \<Longrightarrow> ie_list_ok (i\<lparr>il_HtCapability := h, il_HtCapabilityLen := SIZE_HT_CAP_IE,
     il_PreNHtCapabilityLen := 0\<rparr>)"
  "ie_list_ok i \<Longrightarrow> length h = 26 \<Longrightarrow> ie_list_ok (i\<lparr>il_HtCapability := h, il_PreNHtCapabilityLen := SIZE_HT_CAP_IE\<rparr>)"
  "ie_list_ok i \<Longrightarrow> length a = 22 \<Longrightarrow> ie_list_ok (i\<lparr>il_AddHtInfo := a, il_AddHtInfoLen := SIZE_ADD_HT_INFO_IE\<rparr>)"
  "ie_list_ok i \<Longrightarrow> length q = 4 \<Longrightarrow> ie_list_ok (i\<lparr>il_ExtCapInfo := q\<rparr>)"
  by (simp_all add: ie_list_ok_def SIZE_HT_CAP_IE_def SIZE_ADD_HT_INFO_IE_def)

lemma ie_list_ok_lengths:
  "ie_list_ok i \<Longrightarrow> length (il_Ssid i) = 32" "ie_list_ok i \<Longrightarrow> length (il_SupRate i) = 12"
  "ie_list_ok i \<Longrightarrow> length (il_ExtRate i) = 12"
  by (simp_all add: ie_list_ok_def)

lemma simple_elements_kept:
  assumes "ie_list_ok (pb_ie st)"
  shows "list_kept (ie_secondary_ch_offset b p len st)" "list_kept (ie_ds_parm pAd b p len st)"
    "list_kept (ie_cf_parm b p len st)" "list_kept (ie_ibss_parm b p len st)" "list_kept (ie_csa b p len st)"
    "list_kept (ie_erp b p len st)" "list_kept (ie_aironet_ckip b p len st)" "list_kept (ie_ap_tx_power b p len st)"
    "list_kept (ie_tim pAd sub b p st)" "list_kept (ie_wps b p len st)"
  using assms
  by (simp_all add: ie_secondary_ch_offset_def ie_ds_parm_def ie_cf_parm_def ie_ibss_parm_def ie_csa_def ie_erp_def
    ie_aironet_ckip_def ie_ap_tx_power_def ie_tim_def ie_wps_def yields_simps Let_def split: option.split)

lemma copied_elements_kept:
  assumes "ie_list_ok (pb_ie st)"
  shows "list_kept (ie_ssid b p len st)" "list_kept (ie_supp_rates b p len st)" "list_kept (ie_ext_supp_rates b p len st)"
    "list_kept (ie_ext_capability b p len st)"
  using assms
  by (auto simp: ie_ssid_def ie_supp_rates_def ie_ext_supp_rates_def ie_ext_capability_def yields_simps
    MAX_LEN_OF_SSID_def MAX_LEN_OF_SUPPORTED_RATES_def ie_list_ok_lengths
    intro!: yieldsI ie_list_ok_copied dest!: bread_length bmove_length)

lemma reported_elements_kept:
  assumes "ie_list_ok (pb_ie st)"
  shows "list_kept (ie_rsn b p len st)" "list_kept (ie_qbss_load b p len st)" "list_kept (ie_ht_cap b p len st)"
    "list_kept (ie_add_ht b p len st)"
proof -
  note r = report_kept[of _ b p len]
  have ht: "yields (bread b (p + 2) 26) (\<lambda>h. list_kept (map_option Break (report_ie b p len
      (set_ie (\<lambda>i. i\<lparr>il_HtCapability := h, il_HtCapabilityLen := SIZE_HT_CAP_IE, il_PreNHtCapabilityLen := 0\<rparr>) st))))"
    by (rule yieldsI, rule r) (simp add: ie_list_ok_copied assms bread_length)
  have add: "yields (bread b (p + 2) 22) (\<lambda>h. list_kept (map_option Break (report_ie b p len
      ((set_ie (\<lambda>i. i\<lparr>il_AddHtInfo := h, il_AddHtInfoLen := SIZE_ADD_HT_INFO_IE\<rparr>) st)\<lparr>pb_CtrlChannel := h ! 0\<rparr>))))"
    by (rule yieldsI, rule r) (simp add: ie_list_ok_copied assms bread_length)
  show "list_kept (ie_rsn b p len st)"
    using assms r by (simp add: ie_rsn_def yields_simps)
  show "list_kept (ie_qbss_load b p len st)"
    using assms by (simp add: ie_qbss_load_def yields_simps report_kept)
  show "list_kept (ie_ht_cap b p len st)"
    using ht assms by (simp add: ie_ht_cap_def bind_Break yields_simps)
  show "list_kept (ie_add_ht b p len st)"
    using add assms by (simp add: ie_add_ht_def bind_Break yields_simps)
qed

lemma vendor_kept:
  assumes "ie_list_ok (pb_ie st)"
  shows "list_kept (ie_vendor pAd b p len st)"
proof -
  have "list_kept (ie_pren_ht b p len st)"
    using assms
    by (auto simp: ie_pren_ht_def yields_simps intro!: yieldsI ie_list_ok_copied dest!: bread_length)
  moreover have "list_kept (ie_wmm_wps b p len st)"
    using assms simple_elements_kept(10) by (simp add: ie_wmm_wps_def yields_simps)
  ultimately show ?thesis
    using assms report_kept[of st b p len] by (simp add: ie_vendor_def yields_simps)
qed

lemma switch_kept:
  assumes "ie_list_ok (pb_ie st)"
  shows "list_kept (ie_switch pAd sub b p x len st)"
  using assms simple_elements_kept[OF assms] copied_elements_kept[OF assms] reported_elements_kept[OF assms]
    vendor_kept[OF assms] report_kept[OF assms]
  by (simp add: ie_switch_def yields_simps)

lemma loop_kept:
  assumes "ie_list_ok (pb_ie st)"
  shows "list_kept (ie_loop pAd sub b M p st)"
  using assms
proof (induction pAd sub b M p st rule: ie_loop.induct)
  case (1 pAd sub b M p st)
  note sw = switch_kept[OF 1(2), of pAd sub b p "b ! p"]
  show ?case
  proof (cases "nth_opt b (p + 1)")
    case None
    then show ?thesis by (subst ie_loop.simps) (simp add: yields_simps)
  next
    case (Some l)
    show ?thesis
    proof (cases "M < p + 2 + unat l \<or> MAX_VIE_LEN \<le> pb_LengthVIE st + unat l + 2")
      case True
      with Some 1(2) show ?thesis by (subst ie_loop.simps) (auto simp: yields_simps)
    next
      case False
      then have run: "ie_loop pAd sub b M p st = (case ie_switch pAd sub b p (b ! p) (unat l) st of None \<Rightarrow> None
          | Some (Break st') \<Rightarrow> ie_loop pAd sub b M (p + 2 + unat l) st' | Some e \<Rightarrow> Some e)"
        using Some by (subst ie_loop.simps) auto
      show ?thesis
      proof (cases "ie_switch pAd sub b p (b ! p) (unat l) st")
        case None
        then show ?thesis unfolding run by (simp add: yields_simps)
      next
        case e: (Some e)
        with yieldsD[OF sw[of "unat l"] e] 1(1)[OF Some] False show ?thesis
          unfolding run by (cases e) (auto simp: yields_simps)
      qed
    qed
  qed
qed

lemma parser_kept:
  assumes "ie_list_ok ie" "PeerBeaconAndProbeRspSanity pAd wsc b M ch ie v = Some (r, ie', n, v')"
  shows "ie_list_ok ie'"
proof -
  have "36 \<le> length b" using assms(2)
    by (auto simp: PeerBeaconAndProbeRspSanity_def LENGTH_802_11_def TIMESTAMP_LEN_def split: if_splits)
  then have "ie_list_ok (pb_ie (bcn_header b ie wsc v))"
    using assms(1) by (simp add: bcn_header_def Let_def ie_list_ok_def)
  note lk = loop_kept[OF this, of pAd "drop_bit 4 (b ! 0)" b M 36]
  have wk: "pb_ie st' = pb_ie st" if "bcn_wsc st = Some st'" for st st'
    using that by (auto simp: bcn_wsc_def Option.bind_eq_Some_conv split: option.splits if_splits)
  have ck: "ie_list_ok (pb_ie (bcn_channel pAd ch st)) = ie_list_ok (pb_ie st)" for st
    by (simp add: bcn_channel_def)
  obtain e where e: "ie_loop pAd (drop_bit 4 (b ! 0)) b M 36 (bcn_header b ie wsc v) = Some e"
    and rest: "(case e of Return_FALSE st \<Rightarrow> Some (bcn_result False st)
       | Goto_SanityCheck st \<Rightarrow> Some (bcn_result (pb_Sanity st = 0x7) st)
       | Break st \<Rightarrow> do { st' \<leftarrow> bcn_wsc (bcn_channel pAd ch st); Some (bcn_result (pb_Sanity st' = 0x7) st') }) =
      Some (r, ie', n, v')"
    using assms(2)
    by (auto simp: PeerBeaconAndProbeRspSanity_def LENGTH_802_11_def TIMESTAMP_LEN_def Option.bind_eq_Some_conv split: if_split_asm)
  have "ie_list_ok (pb_ie (exit_state e))" by (rule yieldsD[OF lk e])
  with rest show ?thesis
    by (cases e) (auto simp: bcn_result_def Option.bind_eq_Some_conv ck dest!: wk)
qed

section \<open>The invariant of the scan table\<close>

lemma store_probe_rsp_ok:
  assumes "bss_tab_ok T" "store_probe_rsp i n v T m = Some (T', m')"
  shows "bss_tab_ok T'"
proof -
  obtain e l where e: "nth_opt (bt_BssEntry T) i = Some e"
    and T': "T' = T\<lparr>bt_BssEntry := (bt_BssEntry T)[i := e\<lparr>be_VarIeFromProbeRspLen := l\<rparr>]\<rparr>"
    using assms(2) by (auto simp: store_probe_rsp_def Option.bind_eq_Some_conv split: option.splits)
  have i: "i < length (bt_BssEntry T)" "e = bt_BssEntry T ! i" using e by (auto simp: nth_opt_eq_Some)
  have "bss_keys T' = bss_keys T"
    using i by (intro nth_equalityI) (auto simp: bss_keys_def T' nth_list_update bss_key_def)
  moreover have "entry_ok (e\<lparr>be_VarIeFromProbeRspLen := l\<rparr>)" using assms(1) i by (auto simp: bss_tab_ok_def entry_ok_def)
  then have "\<forall>x \<in> set (bt_BssEntry T'). entry_ok x"
    using assms(1) by (auto simp: bss_tab_ok_def T' dest: set_update_subset_insert[THEN subsetD])
  ultimately show ?thesis using assms(1) by (simp add: bss_tab_ok_def T')
qed

lemma zero_ie_list_ok: "ie_list_ok zero_ie_list"
  by (simp add: ie_list_ok_def zero_ie_list_def)

lemma fixed_ht_ok: "ie_list_ok ie \<Longrightarrow> ie_list_ok (ie\<lparr>il_HtCapabilityLen := SIZE_HT_CAP_IE\<rparr>)"
  by (simp add: ie_list_ok_def SIZE_HT_CAP_IE_def)

lemma set_entry_tab_ok:
  "BssTableSetEntry c T ie r t n v = Some (i, c', T') \<Longrightarrow> bss_tab_ok T \<Longrightarrow> ie_list_ok ie \<Longrightarrow> bss_tab_ok T'"
  using BssTableSetEntry_ok by blast

lemma heard_ok:
  assumes "bss_tab_ok (ss_tab s)"
  shows "yields (PeerBeaconAtScanAction pAd rx s) (\<lambda>x. bss_tab_ok (ss_tab (fst x)))"
  using assms
  by (auto simp: PeerBeaconAtScanAction_def Let_def yields_simps split: option.split
    intro!: yieldsI intro: store_probe_rsp_ok dest!: parser_kept[OF zero_ie_list_ok]
    dest: set_entry_tab_ok[OF _ _ fixed_ht_ok] set_entry_tab_ok)

lemma scan_reach_ok: "scan_reach s \<Longrightarrow> bss_tab_ok (ss_tab s)"
proof (induction rule: scan_reach.induct)
  case (start T m T' m' c)
  with BssTableInit_ok[of T m] show ?case by simp
next
  case (heard s pAd rx s' r)
  from yieldsD[OF heard_ok[OF heard(3)] heard(2)] show ?case by simp
next
  case (deleted s b ch T' m')
  then show ?case using BssTableDeleteEntry_ok(1) by simp
next
  case (aged s clock d k keep T' m')
  then show ?case using MaintainBssTable_ok by simp
next
  case (rescan s T' m')
  then show ?case using BssTableInit_ok[of "ss_tab s" "ss_mem s"] by (simp add: bss_tab_ok_def)
qed simp_all

end
