(* ===== verification/BssCipher.thy ===== *)
theory BssCipher
  imports BeaconRead
begin

text \<open>The security elements under \<open>BssCipherParse\<close>: the RSN element of a standard access point is
  read back, and a count of suites beyond the array ends in an access outside it.\<close>

section \<open>Reading suites\<close>

definition suite :: "byte \<Rightarrow> byte list" where "suite t = RSN_OUI @ [t]"

definition le16b :: "nat \<Rightarrow> byte list" where "le16b n = [of_nat n, of_nat (n div 256)]"

definition rsn_ie :: "byte \<Rightarrow> byte list \<Rightarrow> byte list \<Rightarrow> byte list \<Rightarrow> byte list" where
  "rsn_ie g ps ks caps = tlv IE_RSN ([1, 0] @ suite g @ le16b (length ps) @ concat (map suite ps) @
     le16b (length ks) @ concat (map suite ks) @ caps)"

lemma suite_length [simp]: "length (suite t) = 4"
  by (simp add: suite_def)

lemma suites_length [simp]: "length (concat (map suite ts)) = 4 * length ts"
  by (induction ts) auto

lemma u16_le16b: "n < 65536 \<Longrightarrow> u16 (le16b n ! 0) (le16b n ! 1) = n"
  by (simp add: u16_def le16b_def unat_of_nat)

lemma nth_opt_shift: "nth_opt b (q + k) = nth_opt (drop q b) k"
  by (auto simp: nth_opt_def)

lemma beq_shift: "q \<le> length b \<Longrightarrow> beq b (q + k) c = beq (drop q b) k c"
  by (auto simp: beq_def bread_def add.commute)

lemma drop_suite: "drop q b = suite t @ rest \<Longrightarrow> drop (q + 4) b = rest"
  by (metis add.commute append_eq_conv_conj drop_drop suite_length)

lemma pairwise_read:
  "drop q b = concat (map suite ps) @ rest \<Longrightarrow>
    pairwise_loop b (length ps) q s = Some (q + 4 * length ps, fold add_pair_cipher ps s)"
proof (induction ps arbitrary: q s)
  case (Cons p ps)
  have "nth_opt b (q + 3) = Some p"
    using Cons.prems by (simp add: nth_opt_shift suite_def RSN_OUI_def nth_opt_eq_Some)
  with Cons.IH[of "q + 4"] drop_suite[of q b p] Cons.prems show ?case by simp
qed simp

lemma akm_read:
  "drop q b = concat (map suite ks) @ rest \<Longrightarrow>
    akm_loop b (length ks) q e = Some (q + 4 * length ks, fold (\<lambda>k. announce_auth (rsn_auth k)) ks e)"
proof (induction ks arbitrary: q e)
  case (Cons k ks)
  have t: "nth_opt b (q + 3) = Some k"
    using Cons.prems by (simp add: nth_opt_shift suite_def RSN_OUI_def nth_opt_eq_Some)
  have "q \<le> length b" using t by (simp add: nth_opt_eq_Some)
  from beq_shift[OF this, of 0 RSN_OUI] have "beq b q RSN_OUI = Some True"
    using Cons.prems by (simp add: suite_def beq_def bread_def)
  with t Cons.IH[of "q + 4"] drop_suite[of q b k] Cons.prems show ?case by simp
qed simp

text \<open>The better of two ciphers is the pairwise cipher.\<close>

lemma fold_pair_cipher:
  "cs_PairCipher (fold add_pair_cipher ps s) = fold (\<lambda>p. max (pair_cipher p)) ps (cs_PairCipher s) \<and>
   cs_GroupCipher (fold add_pair_cipher ps s) = cs_GroupCipher s \<and>
   cs_bMixMode (fold add_pair_cipher ps s) = cs_bMixMode s"
  by (induction ps arbitrary: s) (simp_all add: add_pair_cipher_def Let_def max_def)

lemma rsn_auth_not_open: "rsn_auth k \<noteq> Ndis802_11AuthModeOpen"
  by (simp add: rsn_auth_def ndis_defs)

lemma announced:
  "be_AuthMode e = Ndis802_11AuthModeOpen \<Longrightarrow> be_AuthModeAux e = Ndis802_11AuthModeOpen \<Longrightarrow>
   be_AuthMode (fold (\<lambda>k. announce_auth (rsn_auth k)) ks e) = (case ks of [] \<Rightarrow> Ndis802_11AuthModeOpen | k # _ \<Rightarrow> rsn_auth k) \<and>
   be_AuthModeAux (fold (\<lambda>k. announce_auth (rsn_auth k)) ks e) = last (Ndis802_11AuthModeOpen # map rsn_auth (tl ks))"
proof -
  have later: "be_AuthMode f \<noteq> Ndis802_11AuthModeOpen \<Longrightarrow>
      be_AuthMode (fold (\<lambda>k. announce_auth (rsn_auth k)) ks f) = be_AuthMode f \<and>
      be_AuthModeAux (fold (\<lambda>k. announce_auth (rsn_auth k)) ks f) = last (be_AuthModeAux f # map rsn_auth ks)" for f ks
    by (induction ks arbitrary: f) (auto simp: announce_auth_def)
  show "be_AuthMode e = Ndis802_11AuthModeOpen \<Longrightarrow> be_AuthModeAux e = Ndis802_11AuthModeOpen \<Longrightarrow> ?thesis"
    using later[of "announce_auth (rsn_auth (hd ks)) e" "tl ks"] rsn_auth_not_open
    by (cases ks) (simp_all add: announce_auth_def)
qed

lemma fold_announce_parts:
  "be_WPA2 (fold (\<lambda>k. announce_auth (rsn_auth k)) ks e) = be_WPA2 e \<and>
   be_BssType (fold (\<lambda>k. announce_auth (rsn_auth k)) ks e) = be_BssType e \<and>
   be_VarIEs (fold (\<lambda>k. announce_auth (rsn_auth k)) ks e) = be_VarIEs e"
  by (induction ks arbitrary: e) (simp_all add: announce_auth_def)

section \<open>A standard RSN element\<close>

lemma rsn_element_steps:
  assumes "nth_opt (be_VarIEs e) 2 = Some 1" "nth_opt (be_VarIEs e) 3 = Some 0" "nth_opt (be_VarIEs e) 7 = Some g"
    "nth_opt (be_VarIEs e) 8 = Some l0" "nth_opt (be_VarIEs e) 9 = Some l1" "beq (be_VarIEs e) 4 RSN_OUI = Some True"
    "pairwise_loop (be_VarIEs e) (u16 l0 l1) 10
       ((be_WPA2 e)\<lparr>cs_GroupCipher := group_cipher g (cs_GroupCipher (be_WPA2 e))\<rparr>) = Some (q, s1)"
    "nth_opt (be_VarIEs e) q = Some a0" "nth_opt (be_VarIEs e) (q + 1) = Some a1"
    "akm_loop (be_VarIEs e) (u16 a0 a1) (q + 2) (e\<lparr>be_WPA2 := s1\<rparr>) = Some (r, e1)" "be_BssType e1 \<noteq> BSS_ADHOC"
    "nth_opt (be_VarIEs e) r = Some c0" "nth_opt (be_VarIEs e) (r + 1) = Some c1"
  shows "rsn_element 0 e = Some (e1\<lparr>be_WepStatus := cs_PairCipher s1,
    be_WPA2 := s1\<lparr>cs_RsnCapability := u16 c0 c1, cs_bMixMode := cs_bMixMode s1 \<or> cs_GroupCipher s1 \<noteq> cs_PairCipher s1\<rparr>\<rparr>)"
proof -
  have v1: "u16 1 0 = 1" by (simp add: u16_def)
  show ?thesis using assms v1 by (simp add: rsn_element_def Let_def del: add_2_eq_Suc add_2_eq_Suc')
qed

lemma rsn_element_read:
  assumes b: "be_VarIEs e = rsn_ie g ps ks caps @ rest" and caps: "length caps = 2" and infra: "be_BssType e \<noteq> BSS_ADHOC"
    and small: "length ps + length ks \<le> 60"
    and init: "be_WPA2 e = init_cipher" "be_AuthMode e = Ndis802_11AuthModeOpen" "be_AuthModeAux e = Ndis802_11AuthModeOpen"
  shows "\<exists>e'. rsn_element 0 e = Some e' \<and> be_VarIEs e' = be_VarIEs e \<and>
    cs_PairCipher (be_WPA2 e') = fold (\<lambda>p. max (pair_cipher p)) ps Ndis802_11WEPDisabled \<and>
    cs_GroupCipher (be_WPA2 e') = group_cipher g Ndis802_11WEPDisabled \<and>
    cs_RsnCapability (be_WPA2 e') = u16 (caps ! 0) (caps ! 1) \<and>
    cs_bMixMode (be_WPA2 e') = (cs_GroupCipher (be_WPA2 e') \<noteq> cs_PairCipher (be_WPA2 e')) \<and>
    be_WepStatus e' = cs_PairCipher (be_WPA2 e') \<and>
    be_AuthMode e' = (case ks of [] \<Rightarrow> Ndis802_11AuthModeOpen | k # _ \<Rightarrow> rsn_auth k) \<and>
    be_AuthModeAux e' = last (Ndis802_11AuthModeOpen # map rsn_auth (tl ks))"
proof -
  let ?b = "be_VarIEs e" and ?n = "length ps" and ?k = "length ks"
  let ?l0 = "le16b ?n" and ?l1 = "le16b ?k"
  have ll: "length (le16b m) = 2" for m by (simp add: le16b_def)
  have d10: "drop 10 ?b = concat (map suite ps) @ (?l1 @ concat (map suite ks) @ caps @ rest)"
    unfolding b rsn_ie_def tlv_def by (simp add: suite_def RSN_OUI_def le16b_def)
  have dq: "drop (10 + 4 * ?n) ?b = ?l1 @ concat (map suite ks) @ caps @ rest"
    using d10 by (metis add.commute append_eq_conv_conj drop_drop suites_length)
  have dk: "drop (12 + 4 * ?n) ?b = concat (map suite ks) @ (caps @ rest)"
  proof -
    have "drop (12 + 4 * ?n) ?b = drop 2 (drop (10 + 4 * ?n) ?b)" by (simp add: add.commute)
    then show ?thesis unfolding dq by (simp add: le16b_def numeral_2_eq_2)
  qed
  have dr: "drop (12 + 4 * ?n + 4 * ?k) ?b = caps @ rest"
  proof -
    have "drop (12 + 4 * ?n + 4 * ?k) ?b = drop (4 * ?k) (drop (12 + 4 * ?n) ?b)" by (simp add: add.commute)
    then show ?thesis unfolding dk by simp
  qed
  have r0: "nth_opt ?b 2 = Some 1" "nth_opt ?b 3 = Some 0" "nth_opt ?b 7 = Some g"
    "nth_opt ?b 8 = Some (?l0 ! 0)" "nth_opt ?b 9 = Some (?l0 ! 1)" "beq ?b 4 RSN_OUI = Some True"
    unfolding b rsn_ie_def tlv_def
    by (simp_all add: suite_def RSN_OUI_def le16b_def nth_opt_eq_Some beq_def bread_def)
  have r1: "nth_opt ?b (10 + 4 * ?n) = Some (?l1 ! 0)" "nth_opt ?b (10 + 4 * ?n + 1) = Some (?l1 ! 1)"
    using nth_opt_shift[of ?b "10 + 4 * ?n" 0] nth_opt_shift[of ?b "10 + 4 * ?n" 1] unfolding dq
    by (simp_all add: nth_opt_eq_Some nth_append ll)
  have r2: "nth_opt ?b (12 + 4 * ?n + 4 * ?k) = Some (caps ! 0)" "nth_opt ?b (12 + 4 * ?n + 4 * ?k + 1) = Some (caps ! 1)"
    using nth_opt_shift[of ?b "12 + 4 * ?n + 4 * ?k" 0] nth_opt_shift[of ?b "12 + 4 * ?n + 4 * ?k" 1] unfolding dr
    by (simp_all add: nth_opt_eq_Some nth_append caps)
  have c: "u16 (?l0 ! 0) (?l0 ! 1) = ?n" "u16 (?l1 ! 0) (?l1 ! 1) = ?k" using u16_le16b[of ?n] u16_le16b[of ?k] small by simp_all
  let ?s = "init_cipher\<lparr>cs_GroupCipher := group_cipher g Ndis802_11WEPDisabled\<rparr>"
  let ?s1 = "fold add_pair_cipher ps ?s"
  have p: "pairwise_loop ?b ?n 10 ?s = Some (10 + 4 * ?n, ?s1)" by (rule pairwise_read[OF d10])
  let ?e1 = "fold (\<lambda>k. announce_auth (rsn_auth k)) ks (e\<lparr>be_WPA2 := ?s1\<rparr>)"
  have a: "akm_loop ?b ?k (12 + 4 * ?n) (e\<lparr>be_WPA2 := ?s1\<rparr>) = Some (12 + 4 * ?n + 4 * ?k, ?e1)"
    by (rule akm_read[OF dk])
  have g0: "cs_GroupCipher init_cipher = Ndis802_11WEPDisabled" "cs_PairCipher init_cipher = Ndis802_11WEPDisabled"
    "\<not> cs_bMixMode init_cipher" by (simp_all add: init_cipher_def)
  have fp: "be_WPA2 ?e1 = ?s1" "be_BssType ?e1 = be_BssType e" "be_VarIEs ?e1 = ?b"
    using fold_announce_parts[of ks "e\<lparr>be_WPA2 := ?s1\<rparr>"] by simp_all
  have am: "be_AuthMode ?e1 = (case ks of [] \<Rightarrow> Ndis802_11AuthModeOpen | k # _ \<Rightarrow> rsn_auth k)"
    "be_AuthModeAux ?e1 = last (Ndis802_11AuthModeOpen # map rsn_auth (tl ks))"
    using announced[of "e\<lparr>be_WPA2 := ?s1\<rparr>" ks] init by simp_all
  let ?e' = "?e1\<lparr>be_WepStatus := cs_PairCipher ?s1, be_WPA2 := ?s1\<lparr>cs_RsnCapability := u16 (caps ! 0) (caps ! 1),
    cs_bMixMode := cs_bMixMode ?s1 \<or> cs_GroupCipher ?s1 \<noteq> cs_PairCipher ?s1\<rparr>\<rparr>"
  have q2: "10 + 4 * ?n + 2 = 12 + 4 * ?n" by simp
  have s0: "(be_WPA2 e)\<lparr>cs_GroupCipher := group_cipher g (cs_GroupCipher (be_WPA2 e))\<rparr> = ?s"
    by (simp add: init g0)
  have "rsn_element 0 e = Some ?e'"
    by (rule rsn_element_steps[OF r0(1,2,3,4,5,6) _ r1 _ _ r2])
      (simp_all only: c s0 p a q2 fp infra not_False_eq_True)
  then show ?thesis
    using fold_pair_cipher[of ps ?s] g0 fp am by auto
qed

lemma BssCipherParse_read:
  assumes b: "be_VarIEs e = rsn_ie g ps ks caps @ rest" and caps: "length caps = 2" and infra: "be_BssType e \<noteq> BSS_ADHOC"
    and small: "length ps + length ks \<le> 60" and len: "be_VarIELen e = length (rsn_ie g ps ks caps)"
  shows "\<exists>e'. BssCipherParse e = Some e' \<and>
    cs_PairCipher (be_WPA2 e') = fold (\<lambda>p. max (pair_cipher p)) ps Ndis802_11WEPDisabled \<and>
    cs_GroupCipher (be_WPA2 e') = group_cipher g Ndis802_11WEPDisabled \<and>
    cs_RsnCapability (be_WPA2 e') = u16 (caps ! 0) (caps ! 1) \<and>
    cs_bMixMode (be_WPA2 e') = (cs_GroupCipher (be_WPA2 e') \<noteq> cs_PairCipher (be_WPA2 e')) \<and>
    be_WepStatus e' = cs_PairCipher (be_WPA2 e') \<and>
    be_AuthMode e' = (case ks of [] \<Rightarrow> Ndis802_11AuthModeOpen | k # _ \<Rightarrow> rsn_auth k) \<and>
    be_AuthModeAux e' = last (Ndis802_11AuthModeOpen # map rsn_auth (tl ks))"
proof -
  let ?e0 = "e\<lparr>be_WepStatus := if be_Privacy e then Ndis802_11WEPEnabled else Ndis802_11WEPDisabled,
      be_AuthMode := Ndis802_11AuthModeOpen, be_AuthModeAux := Ndis802_11AuthModeOpen,
      be_WPA := init_cipher, be_WPA2 := init_cipher\<rparr>"
  let ?n = "length (rsn_ie g ps ks caps)"
  have n: "?n = 14 + 4 * length ps + 4 * length ks" using caps by (simp add: rsn_ie_def le16b_def)
  obtain e' where e': "rsn_element 0 ?e0 = Some e'" "be_VarIEs e' = be_VarIEs e"
    and facts: "cs_PairCipher (be_WPA2 e') = fold (\<lambda>p. max (pair_cipher p)) ps Ndis802_11WEPDisabled"
      "cs_GroupCipher (be_WPA2 e') = group_cipher g Ndis802_11WEPDisabled"
      "cs_RsnCapability (be_WPA2 e') = u16 (caps ! 0) (caps ! 1)"
      "cs_bMixMode (be_WPA2 e') = (cs_GroupCipher (be_WPA2 e') \<noteq> cs_PairCipher (be_WPA2 e'))"
      "be_WepStatus e' = cs_PairCipher (be_WPA2 e')"
      "be_AuthMode e' = (case ks of [] \<Rightarrow> Ndis802_11AuthModeOpen | k # _ \<Rightarrow> rsn_auth k)"
      "be_AuthModeAux e' = last (Ndis802_11AuthModeOpen # map rsn_auth (tl ks))"
    using rsn_element_read[of ?e0 g ps ks caps rest] b caps infra small by auto
  have id: "nth_opt (be_VarIEs e) 0 = Some IE_RSN" unfolding b by (simp add: rsn_ie_def tlv_def nth_opt_eq_Some)
  have el: "cipher_element 0 ?e0 = Some e'"
    using e'(1) id by (simp add: cipher_element_def Let_def ie_ids)
  have l: "nth_opt (be_VarIEs e) 1 = Some (of_nat (?n - 2))"
    unfolding b by (simp add: rsn_ie_def tlv_def nth_opt_eq_Some le16b_def)
  have m: "?n - 2 < 256" using small n by simp
  have u: "unat (of_nat (?n - 2) :: byte) = ?n - 2" using m by (simp only: unat_of_nat) simp
  have "int ?n - (int (?n - 2) + 2) = 0" using n by simp
  then have "cipher_loop (int ?n) ?e0 = Some e'"
    using el l u e'(2) len n by (subst cipher_loop.simps) (simp add: Let_def)
  then have "BssCipherParse e = Some e'" unfolding BssCipherParse_def len .
  with facts show ?thesis by blast
qed

section \<open>Counts beyond the array\<close>

lemma pairwise_overrun: "0 < n \<Longrightarrow> length b < q + 4 * n \<Longrightarrow> pairwise_loop b n q s = None"
proof (induction b n q s rule: pairwise_loop.induct)
  case (2 b n q s)
  then show ?case by (cases "nth_opt b (q + 3)") (auto simp: nth_opt_def split: if_splits)
qed simp

text \<open>The head of an RSN element that announces \<open>n\<close> pairwise suites.\<close>

definition rsn_head :: "byte \<Rightarrow> byte \<Rightarrow> byte \<Rightarrow> byte \<Rightarrow> byte list" where
  "rsn_head l g lo hi = [48, l, 1, 0, 0x00, 0x0f, 0xac, g, lo, hi]"

lemma rsn_element_overrun:
  assumes "take 10 (be_VarIEs e) = rsn_head l g lo hi" "length (be_VarIEs e) = MAX_VIE_LEN" "254 \<le> u16 lo hi"
  shows "rsn_element 0 e = None"
proof -
  have len: "length (be_VarIEs e) = 1024" using assms(2) by (simp add: MAX_VIE_LEN_def)
  have at: "be_VarIEs e ! i = rsn_head l g lo hi ! i" if "i < 10" for i
    using assms(1) that by (metis nth_take)
  have p: "pairwise_loop (be_VarIEs e) (u16 lo hi) 10 s = None" for s
    using assms(3) len by (intro pairwise_overrun) auto
  have r: "nth_opt (be_VarIEs e) 2 = Some 1" "nth_opt (be_VarIEs e) 3 = Some 0" "nth_opt (be_VarIEs e) 7 = Some g"
    "nth_opt (be_VarIEs e) 8 = Some lo" "nth_opt (be_VarIEs e) 9 = Some hi"
    using at[of 2] at[of 3] at[of 7] at[of 8] at[of 9] len by (simp_all add: rsn_head_def nth_opt_eq_Some numeral_eq_Suc)
  have "take 3 (drop 4 (be_VarIEs e)) = take 3 (drop 4 (take 10 (be_VarIEs e)))" by (simp add: drop_take take_take min_def)
  then have "beq (be_VarIEs e) 4 RSN_OUI = Some True"
    using len unfolding assms(1) by (simp add: beq_def bread_def RSN_OUI_def rsn_head_def numeral_3_eq_3)
  moreover have "u16 1 0 = 1" by (simp add: u16_def)
  ultimately show ?thesis using r p by (simp add: rsn_element_def Let_def del: add_2_eq_Suc add_2_eq_Suc')
qed

lemma BssEntrySet_overrun:
  assumes e: "entry_ok e" and ie: "ie_list_ok ie" and v: "take 10 v = rsn_head l g lo hi" and n: "10 \<le> n"
    and c: "254 \<le> u16 lo hi"
  shows "BssEntrySet e ie r t n v = None"
proof (rule ccontr)
  assume "BssEntrySet e ie r t n v \<noteq> None"
  then obtain e1 e2 e3 e4 e5 where 1: "set_ssid ie (e\<lparr>be_Bssid := il_Bssid ie\<rparr>) = Some e1"
    and 2: "set_fixed ie r t e1 = Some e2" and 3: "set_vie n v e2 = Some e3" and 4: "set_ht ie e3 = Some e4"
    and 5: "BssCipherParse e4 = Some e5"
    by (auto simp: BssEntrySet_def Let_def split: bind_splits)
  have ok0: "entry_ok (e\<lparr>be_Bssid := il_Bssid ie\<rparr>)" using e by (simp add: entry_ok_def)
  note f1 = yieldsD[OF set_ssid_ok[OF ok0 ie] 1]
  note f2 = yieldsD[OF set_fixed_ok[OF _ ie] 2]
  note f3 = yieldsD[OF set_vie_ok 3]
  note f4 = yieldsD[OF set_ht_ok[OF _ ie] 4]
  have len: "be_VarIELen e4 = n" "length (be_VarIEs e4) = MAX_VIE_LEN" and tk: "take n (be_VarIEs e4) = take n v"
    using f1 f2 f3 f4 by (simp_all add: entry_ok_def)
  let ?e0 = "e4\<lparr>be_WepStatus := if be_Privacy e4 then Ndis802_11WEPEnabled else Ndis802_11WEPDisabled,
      be_AuthMode := Ndis802_11AuthModeOpen, be_AuthModeAux := Ndis802_11AuthModeOpen,
      be_WPA := init_cipher, be_WPA2 := init_cipher\<rparr>"
  have head: "take 10 (be_VarIEs ?e0) = rsn_head l g lo hi"
    using arg_cong[OF tk, of "take 10"] v n by (simp add: min_def)
  have "nth_opt (be_VarIEs ?e0) 0 = Some IE_RSN"
    using arg_cong[OF head, of "\<lambda>x. x ! 0"] len(2) by (simp add: rsn_head_def IE_RSN_def nth_opt_eq_Some MAX_VIE_LEN_def)
  then have "cipher_element 0 ?e0 = None"
    using rsn_element_overrun[OF head _ c] len(2) by (simp add: cipher_element_def Let_def ie_ids)
  moreover have "be_VarIELen ?e0 - nat (int n) = 0" "\<not> int n \<le> 0" using len(1) n by simp_all
  ultimately have "cipher_loop (int n) ?e0 = None"
    by (subst cipher_loop.simps) (simp only: Let_def option.case if_False)
  then have "BssCipherParse e4 = None" unfolding BssCipherParse_def len(1) .
  with 5 show False by simp
qed

end
