(* ===== verification/BssDirectory.thy ===== *)
theory BssDirectory
  imports BssKeep
begin

text \<open>The BSS table as a directory of networks. What a scan relies on is an interface,
  \<open>network_table\<close>: entering a frame while there is room puts it under its key and leaves the other
  networks alone. Inside it, the table holds the last frame of each network after any sequence of
  frames; the interpretation discharges the laws for \<open>BssTableSetEntry\<close>.\<close>

section \<open>The interface\<close>

fun enter_all :: "('f \<Rightarrow> 't \<Rightarrow> (nat option \<times> 't) option) \<Rightarrow> 'f list \<Rightarrow> 't \<Rightarrow> 't option" where
  "enter_all put [] T = Some T"
| "enter_all put (f # fs) T = (case put f T of None \<Rightarrow> None | Some (r, T') \<Rightarrow> enter_all put fs T')"

lemma enter_all_append:
  "enter_all put (xs @ ys) T = (case enter_all put xs T of None \<Rightarrow> None | Some T' \<Rightarrow> enter_all put ys T')"
  by (induction xs arbitrary: T) (auto split: option.split prod.split)

locale network_table =
  fixes ok :: "'t \<Rightarrow> bool" and used :: "'t \<Rightarrow> nat" and cap :: nat
    and find_net :: "'t \<Rightarrow> 'k \<Rightarrow> nat option" and entry_at :: "'t \<Rightarrow> nat \<Rightarrow> 'e"
    and frame_ok :: "'f \<Rightarrow> bool" and key :: "'f \<Rightarrow> 'k" and holds :: "'f \<Rightarrow> 'e \<Rightarrow> bool"
    and put :: "'f \<Rightarrow> 't \<Rightarrow> (nat option \<times> 't) option"
  assumes put_ok: "ok T \<Longrightarrow> frame_ok f \<Longrightarrow> used T < cap \<Longrightarrow> put f T = Some (r, T') \<Longrightarrow> ok T' \<and> used T' \<le> Suc (used T)"
    and put_found: "ok T \<Longrightarrow> frame_ok f \<Longrightarrow> used T < cap \<Longrightarrow> put f T = Some (r, T') \<Longrightarrow>
      \<exists>i. find_net T' (key f) = Some i \<and> holds f (entry_at T' i)"
    and put_others: "ok T \<Longrightarrow> frame_ok f \<Longrightarrow> used T < cap \<Longrightarrow> put f T = Some (r, T') \<Longrightarrow>
      k \<noteq> key f \<Longrightarrow> find_net T k = Some j \<Longrightarrow> find_net T' k = Some j \<and> entry_at T' j = entry_at T j"
begin

lemma enter_all_ok:
  assumes "ok T" "\<forall>f \<in> set fs. frame_ok f" "used T + length fs \<le> cap" "enter_all put fs T = Some T'"
  shows "ok T' \<and> used T' \<le> used T + length fs"
  using assms
proof (induction fs arbitrary: T)
  case (Cons f fs)
  then obtain r T1 where 1: "put f T = Some (r, T1)" "enter_all put fs T1 = Some T'"
    by (auto split: option.splits)
  have "ok T1 \<and> used T1 \<le> Suc (used T)" using put_ok[OF Cons.prems(1) _ _ 1(1)] Cons.prems by simp
  with Cons.IH[of T1] 1(2) Cons.prems show ?case by fastforce
qed simp

lemma enter_all_others:
  assumes "ok T" "\<forall>f \<in> set fs. frame_ok f" "used T + length fs \<le> cap" "enter_all put fs T = Some T'"
    and "k \<notin> key ` set fs" "find_net T k = Some j"
  shows "find_net T' k = Some j \<and> entry_at T' j = entry_at T j"
  using assms
proof (induction fs arbitrary: T)
  case (Cons f fs)
  then obtain r T1 where 1: "put f T = Some (r, T1)" "enter_all put fs T1 = Some T'"
    by (auto split: option.splits)
  have T1: "ok T1" "used T1 \<le> Suc (used T)" using put_ok[OF Cons.prems(1) _ _ 1(1)] Cons.prems by simp_all
  have o: "find_net T1 k = Some j \<and> entry_at T1 j = entry_at T j"
    using put_others[OF Cons.prems(1) _ _ 1(1) _ Cons.prems(6)] Cons.prems by auto
  have "find_net T' k = Some j \<and> entry_at T' j = entry_at T1 j"
    using Cons.IH[OF T1(1) _ _ 1(2)] T1(2) Cons.prems o by auto
  with o show ?case by simp
qed simp

lemma last_frame_is_held:
  assumes "ok T" "\<forall>f \<in> set (xs @ f # ys). frame_ok f" "used T + length (xs @ f # ys) \<le> cap"
    and "enter_all put (xs @ f # ys) T = Some T'" "key f \<notin> key ` set ys"
  shows "\<exists>i. find_net T' (key f) = Some i \<and> holds f (entry_at T' i)"
proof -
  obtain T1 r T2 where 1: "enter_all put xs T = Some T1" and 2: "put f T1 = Some (r, T2)" and 3: "enter_all put ys T2 = Some T'"
    using assms(4) by (auto simp: enter_all_append split: option.splits)
  have o1: "ok T1" "used T1 \<le> used T + length xs" using enter_all_ok[OF assms(1) _ _ 1] assms(2,3) by simp_all
  have o2: "ok T2" "used T2 \<le> Suc (used T1)" using put_ok[OF o1(1) _ _ 2] o1(2) assms(2,3) by simp_all
  obtain i where "find_net T2 (key f) = Some i" "holds f (entry_at T2 i)"
    using put_found[OF o1(1) _ _ 2] o1(2) assms(2,3) by auto
  moreover from this enter_all_others[OF o2(1) _ _ 3 assms(5)] o1(2) o2(2) assms(2,3)
  have "find_net T' (key f) = Some i \<and> entry_at T' i = entry_at T2 i" by simp
  ultimately show ?thesis by auto
qed

end

section \<open>The BSS table\<close>

type_synonym bss_frame = "BCN_IE_LIST \<times> int \<times> tick \<times> nat \<times> byte list"

definition frame_key :: "bss_frame \<Rightarrow> byte list \<times> bool" where
  "frame_key f = (case f of (ie, _) \<Rightarrow> (il_Bssid ie, il_Channel ie \<le> 14))"

definition frame_held :: "bss_frame \<Rightarrow> BSS_ENTRY \<Rightarrow> bool" where
  "frame_held f e = (case f of (ie, r, t, n, v) \<Rightarrow> from_beacon ie r t n v e)"

definition enter_frame :: "bss_frame \<Rightarrow> set_ctx \<times> BSS_TABLE \<Rightarrow> (nat option \<times> set_ctx \<times> BSS_TABLE) option" where
  "enter_frame f s = (case f of (ie, r, t, n, v) \<Rightarrow> BssTableSetEntry (fst s) (snd s) ie r t n v)"

definition find_key :: "BSS_TABLE \<Rightarrow> byte list \<times> bool \<Rightarrow> nat option" where
  "find_key T k = first_entry (\<lambda>e. bss_key e = k) T"

lemma BssTableSearch_key: "BssTableSearch T b c = find_key T (b, c \<le> 14)"
  by (simp add: BssTableSearch_def find_key_def same_bss_key[abs_def])

lemma find_key_Some:
  assumes "bss_tab_ok T"
  shows "find_key T k = Some i \<longleftrightarrow> i < bt_BssNr T \<and> bss_key (bt_BssEntry T ! i) = k"
proof -
  have "bss_key (bt_BssEntry T ! j) \<noteq> k" if "i < bt_BssNr T" "bss_key (bt_BssEntry T ! i) = k" "j < i" for j
    using bss_key_inj[OF assms, of i j] that by auto
  then show ?thesis by (simp add: find_key_def first_entry_Some) blast
qed

lemma set_entry_room:
  assumes "bt_BssNr T < MAX_LEN_OF_BSS_TABLE" "BssTableSetEntry c T ie r t n v = Some (res, c', T')"
  shows "\<exists>i. res = Some i \<and> bt_BssNr T' = (if BssTableSearch T (il_Bssid ie) (il_Channel ie) = None then Suc (bt_BssNr T) else bt_BssNr T) \<and>
    (case BssTableSearch T (il_Bssid ie) (il_Channel ie) of None \<Rightarrow> i = bt_BssNr T | Some j \<Rightarrow> i = j)"
  using assms
  by (auto simp: BssTableSetEntry_def Let_def set_entry_at_def Option.bind_eq_Some_conv split: option.splits)

lemma enter_frame_laws:
  assumes T: "bss_tab_ok T" and ie: "ie_list_ok ie" and room: "bt_BssNr T < MAX_LEN_OF_BSS_TABLE"
    and run: "BssTableSetEntry c T ie r t n v = Some (res, c', T')"
  shows "bss_tab_ok T' \<and> bt_BssNr T' \<le> Suc (bt_BssNr T) \<and>
    (\<exists>i. find_key T' (il_Bssid ie, il_Channel ie \<le> 14) = Some i \<and> from_beacon ie r t n v (bt_BssEntry T' ! i)) \<and>
    (\<forall>k j. k \<noteq> (il_Bssid ie, il_Channel ie \<le> 14) \<longrightarrow> find_key T k = Some j \<longrightarrow>
      find_key T' k = Some j \<and> bt_BssEntry T' ! j = bt_BssEntry T ! j)"
proof -
  let ?k = "(il_Bssid ie, il_Channel ie \<le> 14)"
  from set_entry_room[OF room run] obtain i where res: "res = Some i"
    and nr: "bt_BssNr T' = (if find_key T ?k = None then Suc (bt_BssNr T) else bt_BssNr T)"
    and i: "case find_key T ?k of None \<Rightarrow> i = bt_BssNr T | Some j \<Rightarrow> i = j"
    by (auto simp: BssTableSearch_key)
  from BssTableSetEntry_ok[OF T ie run] res have ok: "bss_tab_ok T'" "find_key T' ?k = Some i"
    "from_beacon ie r t n v (bt_BssEntry T' ! i)" "\<And>j. j \<noteq> i \<Longrightarrow> bt_BssEntry T' ! j = bt_BssEntry T ! j"
    by (simp_all add: BssTableSearch_key)
  have "find_key T' k = Some j \<and> bt_BssEntry T' ! j = bt_BssEntry T ! j" if k: "k \<noteq> ?k" "find_key T k = Some j" for k j
  proof -
    have j: "j < bt_BssNr T" "bss_key (bt_BssEntry T ! j) = k" using k(2) find_key_Some[OF T] by auto
    have ne: "j \<noteq> i"
    proof (cases "find_key T ?k")
      case None
      with i j(1) show ?thesis by simp
    next
      case (Some x)
      with i find_key_Some[OF T, of ?k x] j(2) k(1) show ?thesis by auto
    qed
    with ok(4) j nr show ?thesis by (simp add: find_key_Some[OF ok(1)])
  qed
  with ok nr show ?thesis by auto
qed

interpretation bss: network_table "\<lambda>s. bss_tab_ok (snd s)" "\<lambda>s. bt_BssNr (snd s)" MAX_LEN_OF_BSS_TABLE
  "\<lambda>s. find_key (snd s)" "\<lambda>s i. bt_BssEntry (snd s) ! i" "\<lambda>f. ie_list_ok (fst f)" frame_key frame_held enter_frame
proof
  fix T :: "set_ctx \<times> BSS_TABLE" and f :: bss_frame and r T' k j
  assume T: "bss_tab_ok (snd T)" and f: "ie_list_ok (fst f)" and room: "bt_BssNr (snd T) < MAX_LEN_OF_BSS_TABLE"
    and run: "enter_frame f T = Some (r, T')"
  obtain ie s t n v where fe: "f = (ie, s, t, n, v)" by (cases f) auto
  have ie: "ie_list_ok ie" using f by (simp add: fe)
  have "BssTableSetEntry (fst T) (snd T) ie s t n v = Some (r, fst T', snd T')"
    using run by (simp add: enter_frame_def fe)
  note laws = enter_frame_laws[OF T ie room this]
  show "bss_tab_ok (snd T') \<and> bt_BssNr (snd T') \<le> Suc (bt_BssNr (snd T))" using laws by simp
  show "\<exists>i. find_key (snd T') (frame_key f) = Some i \<and> frame_held f (bt_BssEntry (snd T') ! i)"
    using laws by (simp add: frame_key_def frame_held_def fe)
  assume "k \<noteq> frame_key f" "find_key (snd T) k = Some j"
  then show "find_key (snd T') k = Some j \<and> bt_BssEntry (snd T') ! j = bt_BssEntry (snd T) ! j"
    using laws unfolding frame_key_def fe prod.case by blast
qed

end
