(* ===== verification/BssProps.thy ===== *)
theory BssProps
  imports BssCipher BssDirectory
begin

text \<open>The properties of the beacon parser and of the table of access points.\<close>

section \<open>The parser\<close>

lemma exit_okD: "exit_ok P r \<Longrightarrow> \<exists>e. r = Some e \<and> P (exit_state e)"
  by (auto simp: exit_ok_def exit_state_def split: option.splits ie_exit.splits)

definition wsc_room :: "nat \<Rightarrow> pb_state \<Rightarrow> bool" where
  "wsc_room MsgLen st \<longleftrightarrow> length (pb_VIE st) = MAX_VIE_LEN \<and> ie_list_ok (pb_ie st) \<and>
     (\<forall>w. pb_Wsc st = Some w \<longrightarrow> length w = 512) \<and>
     pb_LengthVIE st + pb_WscLen st + (if 0 < pb_WscLen st then 6 else 0) + 36 \<le> max MsgLen 36 \<and>
     pb_LengthVIE st < MAX_VIE_LEN \<and> (pb_WscLen st = 0 \<or> MsgLen \<le> 1060)"

lemma bcn_channel_room: "wsc_room M st \<Longrightarrow> wsc_room M (bcn_channel pAd ch st)"
  by (auto simp: wsc_room_def bcn_channel_def)

lemma bcn_wsc_room:
  assumes "wsc_room M st"
  shows "\<exists>st'. bcn_wsc st = Some st' \<and> length (pb_VIE st') = MAX_VIE_LEN \<and> ie_list_ok (pb_ie st') \<and>
    pb_LengthVIE st' \<le> MAX_VIE_LEN \<and> pb_LengthVIE st' + 36 \<le> max M 36"
proof (cases "pb_Wsc st")
  case None
  with assms show ?thesis by (auto simp: bcn_wsc_def wsc_room_def)
next
  case (Some w)
  show ?thesis
  proof (cases "0 < pb_WscLen st \<and> pb_WscLen st < 512")
    case False
    with Some assms show ?thesis by (auto simp: bcn_wsc_def wsc_room_def split: if_splits)
  next
    case True
    with assms have "pb_LengthVIE st + pb_WscLen st + 6 \<le> 1024"
      by (auto simp: wsc_room_def max_def split: if_splits)
    with True Some assms show ?thesis
      by (simp add: bcn_wsc_def wsc_room_def MAX_VIE_LEN_def)
  qed
qed

lemma short_message: "MsgLen < 36 \<Longrightarrow> 38 \<le> length b \<Longrightarrow> ie_loop pAd sub b MsgLen 36 st = Some (Break st)"
  by (subst ie_loop.simps) (simp add: nth_opt_def)

text \<open>C13. The parser of beacons and probe responses, \<open>PeerBeaconAndProbeRspSanity\<close>, is type-safe
  on every message with room of 264 octets behind it: it makes no access outside the message
  buffer, the 1024 octets of \<open>pVIE\<close> and the 512 of its WPS buffer, provided the WPS elements of the
  message fit. It returns a structure whose lengths are within their arrays, and as many reported
  octets as fit the buffer and the message.\<close>

theorem beacon_parser_stays_in_bounds:
  assumes room: "MsgLen + 264 \<le> length b" and v: "length VIE = MAX_VIE_LEN" and ie: "ie_list_ok ie"
    and wps: "wps_fits wsc b MsgLen"
  shows "\<exists>r ie' n v'. PeerBeaconAndProbeRspSanity pAd wsc b MsgLen ch ie VIE = Some (r, ie', n, v') \<and>
    ie_list_ok ie' \<and> length v' = MAX_VIE_LEN \<and> n \<le> MAX_VIE_LEN \<and> n + 36 \<le> max MsgLen 36"
proof -
  let ?s0 = "bcn_header b ie wsc VIE" and ?sub = "drop_bit 4 (b ! 0)"
  have h: "pb_LengthVIE ?s0 = 0" "pb_WscLen ?s0 = 0" "pb_VIE ?s0 = VIE" "pb_Wsc ?s0 = wsc" "ie_list_ok (pb_ie ?s0)"
    using room ie by (simp_all add: bcn_header_def Let_def ie_list_ok_def)
  have w: "length x = 512" if "wsc = Some x" for x using wps that by (simp add: wps_fits_def)
  have "\<exists>e. ie_loop pAd ?sub b MsgLen 36 ?s0 = Some e \<and> wsc_room MsgLen (exit_state e)"
  proof (cases "MsgLen < 36")
    case True
    then show ?thesis using short_message[OF True] room h v w by (auto simp: wsc_room_def MAX_VIE_LEN_def)
  next
    case False
    have inv: "pb_inv 36 ?s0" using h v w by (simp add: pb_inv_def MAX_VIE_LEN_def)
    have "wps_left b MsgLen 36 ?s0" using wps h by (auto simp: wps_left_def wps_fits_def Let_def)
    from ie_loop_ok[OF room _ inv this] False obtain q where q: "q \<le> MsgLen"
      and ok: "exit_ok (\<lambda>s. pb_inv q s \<and> (pb_Wsc s = None \<longleftrightarrow> wsc = None) \<and>
        pb_WscLen s \<le> (if wsc = None then 0 else wps_payload b (elements b MsgLen 36))) (ie_loop pAd ?sub b MsgLen 36 ?s0)"
      using h by auto
    from exit_okD[OF ok] obtain e where e: "ie_loop pAd ?sub b MsgLen 36 ?s0 = Some e" "pb_inv q (exit_state e)"
      and n: "pb_WscLen (exit_state e) \<le> (if wsc = None then 0 else wps_payload b (elements b MsgLen 36))" by blast
    have "pb_WscLen (exit_state e) = 0 \<or> MsgLen \<le> 1060"
      using n wps by (auto simp: wps_fits_def Let_def split: option.splits)
    with e q have "wsc_room MsgLen (exit_state e)" by (auto simp: wsc_room_def pb_inv_def)
    with e(1) show ?thesis by blast
  qed
  then obtain e where e: "ie_loop pAd ?sub b MsgLen 36 ?s0 = Some e" "wsc_room MsgLen (exit_state e)" by blast
  have "36 \<le> length b" using room by simp
  with e bcn_wsc_room[OF bcn_channel_room[OF e(2)], of pAd ch] show ?thesis
    by (cases e) (auto simp: PeerBeaconAndProbeRspSanity_def LENGTH_802_11_def TIMESTAMP_LEN_def bcn_result_def wsc_room_def)
qed

text \<open>A frame with a WPS element.\<close>

definition wps_frame :: "byte list" where
  "wps_frame = replicate 36 0 @ [0, 2, 65, 66, 221, 6, 0x00, 0x50, 0xf2, 4, 1, 2]"

lemma beacon_parser_stays_in_bounds_witness:
  "\<exists>r ie' n v'. PeerBeaconAndProbeRspSanity \<lparr>bc_ChannelList = [1, 6, 11], bc_STA = True, bc_INFRA_ON = False,
      bc_Bssid = replicate 6 0, bc_Aid = 1, bc_RfChannel = 6\<rparr> (Some (replicate 512 0)) (wps_frame @ replicate 264 0) 48 6
      zero_ie_list (replicate 1024 0) = Some (r, ie', n, v') \<and>
    ie_list_ok ie' \<and> length v' = MAX_VIE_LEN \<and> n \<le> MAX_VIE_LEN \<and> n + 36 \<le> max 48 36"
proof (rule beacon_parser_stays_in_bounds)
  show "wps_fits (Some (replicate 512 0)) (wps_frame @ replicate 264 0) 48" by code_simp
qed (simp_all add: wps_frame_def MAX_VIE_LEN_def zero_ie_list_ok)

text \<open>C17. A beacon of an open network, written out octet by octet, is read back by the parser: the
  addresses, time stamp, beacon period and capabilities of its header, its name, rates and channel;
  no element is reported.\<close>

theorem open_beacon_read_back:
  assumes "frame_parts_ok hdr ts bi cap ssid rates" "ChannelSanity pAd ch" "ie_list_ok ie"
    "M = length (open_beacon hdr ts bi cap ssid rates ch)" "2 \<le> length pad"
  shows "PeerBeaconAndProbeRspSanity pAd wsc (open_beacon hdr ts bi cap ssid rates ch @ pad) M chan ie v =
    Some (True, read_beacon hdr ts bi cap ssid rates ch ie, 0, v)"
  using assms by (rule open_beacon_read)

abbreviation example_ctx :: bcn_ctx where
  "example_ctx \<equiv> \<lparr>bc_ChannelList = [1, 6, 11], bc_STA = True, bc_INFRA_ON = False,
    bc_Bssid = replicate 6 0, bc_Aid = 1, bc_RfChannel = 6\<rparr>"

abbreviation example_hdr :: "byte list" where
  "example_hdr \<equiv> [0x80, 0, 0, 0] @ replicate 6 0xff @ [0, 1, 2, 3, 4, 5] @ [0, 1, 2, 3, 4, 5] @ [0, 0]"

lemma example_parts: "frame_parts_ok example_hdr (replicate 8 7) [100, 0] [1, 0] [65, 66] [0x82, 0x84]"
  by (simp add: frame_parts_ok_def)

lemma open_beacon_read_back_witness:
  "PeerBeaconAndProbeRspSanity example_ctx None
     (open_beacon example_hdr (replicate 8 7) [100, 0] [1, 0] [65, 66] [0x82, 0x84] 6 @ [0, 0]) 47 6 zero_ie_list (replicate 1024 0) =
   Some (True, read_beacon example_hdr (replicate 8 7) [100, 0] [1, 0] [65, 66] [0x82, 0x84] 6 zero_ie_list, 0, replicate 1024 0)"
  by (rule open_beacon_read_back[OF example_parts])
    (simp_all add: ChannelSanity_def zero_ie_list_ok open_beacon_def tlv_def)

text \<open>The WPS element at \<open>p\<close>.\<close>

lemma vendor_wps:
  assumes "take 4 (drop (p + 2) b) = WPS_OUI" "p + 8 \<le> length b"
  shows "ie_vendor pAd b p len st = ie_wps b p len st"
proof -
  have 3: "take 3 (drop (p + 2) b) = [0x00, 0x50, 0xf2]"
    using arg_cong[OF assms(1), of "take 3"] by (simp add: WPS_OUI_def numeral_3_eq_3 min_def)
  have 6: "take 6 (drop (p + 2) b) \<noteq> x" if "take 4 x \<noteq> WPS_OUI" for x
    using arg_cong[of "take 6 (drop (p + 2) b)" x "take 4"] assms(1) that by (auto simp: min_def)
  have ne: "[0x00, 0x50, 0xf2] \<noteq> RALINK_OUI" "[0x00, 0x50, 0xf2] \<noteq> PRE_N_HT_OUI" "WPS_OUI \<noteq> WPA_OUI"
    "take 4 WME_PARM_ELEM \<noteq> WPS_OUI" "take 4 WME_INFO_ELEM \<noteq> WPS_OUI"
    by (simp_all add: RALINK_OUI_def PRE_N_HT_OUI_def WPA_OUI_def WPS_OUI_def WME_PARM_ELEM_def WME_INFO_ELEM_def)
  show ?thesis
    using assms 3 6[OF ne(4)] 6[OF ne(5)] ne(1,2,3) by (simp add: ie_vendor_def ie_wmm_wps_def)
qed

lemma switch_vendor: "ie_switch pAd sub b p IE_VENDOR_SPECIFIC len st = ie_vendor pAd b p len st"
  by (simp add: ie_switch_def ie_ids)

lemma loop_at_wps:
  assumes b: "b = pre @ tlv IE_VENDOR_SPECIFIC (WPS_OUI @ body) @ post" and p: "p = length pre" and len: "length body \<le> 251"
    and post: "2 \<le> length body + length post"
    and M: "p + 6 + length body \<le> M" and v: "pb_LengthVIE st + length body + 6 < MAX_VIE_LEN"
    and w: "pb_Wsc st = Some w" "length w = 512" "pb_WscLen st < 512"
  shows "ie_loop pAd sub b M p st =
    (if 512 < pb_WscLen st + length body then None
     else ie_loop pAd sub b M (p + 6 + length body) (st\<lparr>pb_Wsc := Some (take (pb_WscLen st) w @ body @ drop (pb_WscLen st + length body) w),
       pb_WscLen := pb_WscLen st + length body\<rparr>))"
proof -
  have l: "length (WPS_OUI @ body) = length body + 4" by simp
  have d: "drop (p + 2) b = WPS_OUI @ body @ post" unfolding b p by (simp add: tlv_def)
  have r: "bread b (p + 6) (length body) = Some body"
    unfolding b p by (simp add: bread_def tlv_def WPS_OUI_def)
  have "ie_vendor pAd b p (length body + 4) st = ie_wps b p (length body + 4) st"
    using d post p b by (intro vendor_wps) (simp_all add: WPS_OUI_def)
  then have sw: "ie_switch pAd sub b p IE_VENDOR_SPECIFIC (length body + 4) st = ie_wps b p (length body + 4) st"
    by (simp add: switch_vendor)
  have "p + 2 + length (WPS_OUI @ body) = p + 6 + length body" by simp
  with loop_at_tlv[OF b p, of M st pAd sub] sw r w len M v show ?thesis
    by (simp add: l ie_wps_def bmove_def ac_simps)
qed

lemma wps_step:
  assumes "b = pre @ tlv IE_VENDOR_SPECIFIC (WPS_OUI @ body) @ post" "p = length pre" "length body \<le> 251"
    "2 \<le> length body + length post" "p + 6 + length body \<le> M" "pb_LengthVIE st + length body + 6 < MAX_VIE_LEN"
    "pb_Wsc st = Some w" "length w = 512" "pb_WscLen st < 512" "pb_WscLen st + length body \<le> 512"
  shows "\<exists>st' w'. ie_loop pAd sub b M p st = ie_loop pAd sub b M (p + 6 + length body) st' \<and>
    pb_LengthVIE st' = pb_LengthVIE st \<and> pb_Wsc st' = Some w' \<and> length w' = 512 \<and> pb_WscLen st' = pb_WscLen st + length body"
proof -
  let ?w = "take (pb_WscLen st) w @ body @ drop (pb_WscLen st + length body) w"
  let ?st = "st\<lparr>pb_Wsc := Some ?w, pb_WscLen := pb_WscLen st + length body\<rparr>"
  have "ie_loop pAd sub b M p st = ie_loop pAd sub b M (p + 6 + length body) ?st"
    using loop_at_wps[OF assms(1-9), of pAd sub] assms(10) by simp
  then show ?thesis
    by (rule exI[of _ ?st, OF exI[of _ ?w, OF conjI]]) (use assms in simp)
qed

lemma parser_None:
  "36 \<le> length b \<Longrightarrow> ie_loop pAd (drop_bit 4 (b ! 0)) b M 36 (bcn_header b ie wsc v) = None \<Longrightarrow>
    PeerBeaconAndProbeRspSanity pAd wsc b M ch ie v = None"
  by (simp add: PeerBeaconAndProbeRspSanity_def LENGTH_802_11_def TIMESTAMP_LEN_def)

lemma short_wps_element:
  assumes "length hdr = 36" "unat l < 4" "38 + unat l \<le> M" "2 \<le> length rest"
  shows "PeerBeaconAndProbeRspSanity pAd (Some w) (hdr @ [IE_VENDOR_SPECIFIC, l] @ WPS_OUI @ rest) M ch ie v = None"
proof (rule parser_None)
  let ?b = "hdr @ [IE_VENDOR_SPECIFIC, l] @ WPS_OUI @ rest" and ?s0 = "bcn_header (hdr @ [IE_VENDOR_SPECIFIC, l] @ WPS_OUI @ rest) ie (Some w) v"
  have s0: "pb_LengthVIE ?s0 = 0" "pb_Wsc ?s0 = Some w" "pb_WscLen ?s0 = 0" by (simp_all add: bcn_header_def Let_def)
  have at: "nth_opt ?b (36 + 1) = Some l" "?b ! 36 = IE_VENDOR_SPECIFIC"
    using assms(1) by (simp_all add: nth_opt_eq_Some nth_append)
  have "ie_vendor pAd ?b 36 (unat l) ?s0 = ie_wps ?b 36 (unat l) ?s0"
    using assms by (intro vendor_wps) simp_all
  then have "ie_switch pAd (drop_bit 4 (?b ! 0)) ?b 36 IE_VENDOR_SPECIFIC (unat l) ?s0 = None"
    using s0 assms(2) by (simp add: switch_vendor ie_wps_def)
  then show "ie_loop pAd (drop_bit 4 (?b ! 0)) ?b M 36 ?s0 = None"
    using at assms(2,3) s0 by (subst ie_loop.simps) (simp add: MAX_VIE_LEN_def)
qed (use assms in simp)

lemma three_wps_elements:
  assumes hdr: "length hdr = 36" and w: "length w = 512"
    and len: "length x \<le> 251" "length y \<le> 251" "length z \<le> 251" "length x + length y < 512" "512 < length x + length y + length z"
    and M: "M = 36 + length x + length y + length z + 18" and rest: "2 \<le> length rest"
  shows "PeerBeaconAndProbeRspSanity pAd (Some w) (hdr @ tlv IE_VENDOR_SPECIFIC (WPS_OUI @ x) @
    tlv IE_VENDOR_SPECIFIC (WPS_OUI @ y) @ tlv IE_VENDOR_SPECIFIC (WPS_OUI @ z) @ rest) M ch ie v = None"
proof (rule parser_None)
  let ?X = "tlv IE_VENDOR_SPECIFIC (WPS_OUI @ x)" and ?Y = "tlv IE_VENDOR_SPECIFIC (WPS_OUI @ y)"
    and ?Z = "tlv IE_VENDOR_SPECIFIC (WPS_OUI @ z)"
  let ?b = "hdr @ ?X @ ?Y @ ?Z @ rest"
  let ?s0 = "bcn_header ?b ie (Some w) v" and ?sub = "drop_bit 4 (?b ! 0)"
  have s0: "pb_LengthVIE ?s0 = 0" "pb_Wsc ?s0 = Some w" "pb_WscLen ?s0 = 0" by (simp_all add: bcn_header_def Let_def)
  let ?p1 = "36 + 6 + length x" and ?p2 = "36 + 6 + length x + 6 + length y"
  have b1: "?b = hdr @ ?X @ ?Y @ ?Z @ rest" "?b = (hdr @ ?X) @ ?Y @ ?Z @ rest" "?b = (hdr @ ?X @ ?Y) @ ?Z @ rest" by simp_all
  obtain s1 w1 where 1: "ie_loop pAd ?sub ?b M 36 ?s0 = ie_loop pAd ?sub ?b M ?p1 s1"
    "pb_LengthVIE s1 = 0" "pb_Wsc s1 = Some w1" "length w1 = 512" "pb_WscLen s1 = length x"
    using wps_step[OF b1(1), of 36 M ?s0 w pAd ?sub] hdr len M w s0 by (auto simp: MAX_VIE_LEN_def)
  obtain s2 w2 where 2: "ie_loop pAd ?sub ?b M ?p1 s1 = ie_loop pAd ?sub ?b M ?p2 s2"
    "pb_LengthVIE s2 = 0" "pb_Wsc s2 = Some w2" "length w2 = 512" "pb_WscLen s2 = length x + length y"
    using wps_step[OF b1(2), of ?p1 M s1 w1 pAd ?sub] hdr len M 1 by (auto simp: MAX_VIE_LEN_def)
  have "ie_loop pAd ?sub ?b M 36 ?s0 = ie_loop pAd ?sub ?b M ?p2 s2" using 1(1) 2(1) by simp
  also have "\<dots> = None"
    using loop_at_wps[OF b1(3), of ?p2 M s2 w2 pAd ?sub] hdr len M 2 rest by (simp add: MAX_VIE_LEN_def)
  finally show "ie_loop pAd ?sub ?b M 36 ?s0 = None" .
qed (use hdr in simp)

text \<open>C21. The WPS elements of a beacon are not bounded by the parser: an element shorter than its OUI
  makes the length of the copy negative, and a third element that no longer fits the buffer of 512
  octets is copied beyond it. Both are accesses outside a buffer.\<close>

theorem wps_elements_overrun:
  assumes "length hdr = 36" "2 \<le> length rest" "length w = 512"
  shows "(unat l < 4 \<and> 38 + unat l \<le> M \<longrightarrow>
      PeerBeaconAndProbeRspSanity pAd (Some w) (hdr @ [IE_VENDOR_SPECIFIC, l] @ WPS_OUI @ rest) M ch ie v = None) \<and>
    (length x \<le> 251 \<and> length y \<le> 251 \<and> length z \<le> 251 \<and> length x + length y < 512 \<and> 512 < length x + length y + length z \<longrightarrow>
      PeerBeaconAndProbeRspSanity pAd (Some w) (hdr @ tlv IE_VENDOR_SPECIFIC (WPS_OUI @ x) @
        tlv IE_VENDOR_SPECIFIC (WPS_OUI @ y) @ tlv IE_VENDOR_SPECIFIC (WPS_OUI @ z) @ rest)
        (36 + length x + length y + length z + 18) ch ie v = None)"
  using assms short_wps_element three_wps_elements by blast

lemma wps_elements_overrun_witness:
  "PeerBeaconAndProbeRspSanity example_ctx (Some (replicate 512 0))
     (replicate 36 0 @ [IE_VENDOR_SPECIFIC, 1] @ WPS_OUI @ [0, 0]) 39 6 zero_ie_list (replicate 1024 0) = None \<and>
   PeerBeaconAndProbeRspSanity example_ctx (Some (replicate 512 0))
     (replicate 36 0 @ tlv IE_VENDOR_SPECIFIC (WPS_OUI @ replicate 250 0) @ tlv IE_VENDOR_SPECIFIC (WPS_OUI @ replicate 251 0) @
       tlv IE_VENDOR_SPECIFIC (WPS_OUI @ replicate 20 0) @ [0, 0]) 575 6 zero_ie_list (replicate 1024 0) = None"
  using wps_elements_overrun[of "replicate 36 0" "[0, 0]" "replicate 512 0" 1 39 example_ctx 6 zero_ie_list "replicate 1024 0"
      "replicate 250 0" "replicate 251 0" "replicate 20 0"]
  by simp

section \<open>From the frame to the table\<close>












section \<open>The security elements\<close>

text \<open>C18. The RSN element of a standard access point, with up to 60 suites, is read back by
  \<open>BssCipherParse\<close>: the pairwise cipher is the best of the announced ones, group cipher and
  capabilities are the announced ones, and the first and last authentication suites are the two
  authentication modes.\<close>

theorem rsn_element_is_read:
  assumes "be_VarIEs e = rsn_ie g ps ks caps @ rest" "length caps = 2" "be_BssType e \<noteq> BSS_ADHOC"
    "length ps + length ks \<le> 60" "be_VarIELen e = length (rsn_ie g ps ks caps)"
  shows "\<exists>e'. BssCipherParse e = Some e' \<and>
    cs_PairCipher (be_WPA2 e') = fold (\<lambda>p. max (pair_cipher p)) ps Ndis802_11WEPDisabled \<and>
    cs_GroupCipher (be_WPA2 e') = group_cipher g Ndis802_11WEPDisabled \<and>
    cs_RsnCapability (be_WPA2 e') = u16 (caps ! 0) (caps ! 1) \<and>
    cs_bMixMode (be_WPA2 e') = (cs_GroupCipher (be_WPA2 e') \<noteq> cs_PairCipher (be_WPA2 e')) \<and>
    be_WepStatus e' = cs_PairCipher (be_WPA2 e') \<and>
    be_AuthMode e' = (case ks of [] \<Rightarrow> Ndis802_11AuthModeOpen | k # _ \<Rightarrow> rsn_auth k) \<and>
    be_AuthModeAux e' = last (Ndis802_11AuthModeOpen # map rsn_auth (tl ks))"
  using assms by (rule BssCipherParse_read)

lemma rsn_element_is_read_witness:
  "\<exists>e'. BssCipherParse (zero_entry\<lparr>be_BssType := BSS_INFRA, be_VarIEs := rsn_ie 2 [2, 4] [2] [0, 0] @ replicate 1000 0, be_VarIELen := 26\<rparr>) = Some e' \<and>
    cs_PairCipher (be_WPA2 e') = Ndis802_11Encryption3Enabled \<and> cs_GroupCipher (be_WPA2 e') = Ndis802_11Encryption2Enabled \<and>
    be_AuthMode e' = Ndis802_11AuthModeWPA2PSK"
proof -
  let ?e = "zero_entry\<lparr>be_BssType := BSS_INFRA, be_VarIEs := rsn_ie 2 [2, 4] [2] [0, 0] @ replicate 1000 0, be_VarIELen := 26\<rparr>"
  have "\<exists>e'. BssCipherParse ?e = Some e' \<and>
    cs_PairCipher (be_WPA2 e') = fold (\<lambda>p. max (pair_cipher p)) [2, 4] Ndis802_11WEPDisabled \<and>
    cs_GroupCipher (be_WPA2 e') = group_cipher 2 Ndis802_11WEPDisabled \<and>
    cs_RsnCapability (be_WPA2 e') = u16 ([0, 0] ! 0) ([0, 0] ! 1) \<and>
    cs_bMixMode (be_WPA2 e') = (cs_GroupCipher (be_WPA2 e') \<noteq> cs_PairCipher (be_WPA2 e')) \<and>
    be_WepStatus e' = cs_PairCipher (be_WPA2 e') \<and>
    be_AuthMode e' = (case [2] of [] \<Rightarrow> Ndis802_11AuthModeOpen | k # _ \<Rightarrow> rsn_auth k) \<and>
    be_AuthModeAux e' = last (Ndis802_11AuthModeOpen # map rsn_auth (tl [2]))"
    by (rule rsn_element_is_read) (simp_all add: BSS_INFRA_def BSS_ADHOC_def rsn_ie_def le16b_def)
  then show ?thesis by (rule ex_forward) (simp add: pair_cipher_def group_cipher_def rsn_auth_def ndis_defs)
qed

text \<open>C22. A count of 254 or more pairwise suites in the RSN element at the head of the reported
  elements, which comes unchecked from the received frame, makes \<open>BssEntrySet\<close> read beyond the 1024
  octets of the entry, whatever the length of the element.\<close>

theorem security_suites_overrun:
  assumes "entry_ok e" "ie_list_ok ie" "take 10 v = rsn_head l g lo hi" "10 \<le> n" "254 \<le> u16 lo hi"
  shows "BssEntrySet e ie r t n v = None"
  using assms by (rule BssEntrySet_overrun)

lemma security_suites_overrun_witness:
  "BssEntrySet zero_entry zero_ie_list (-50) 1000 22 (rsn_head 20 4 0 1 @ replicate 1014 0) = None"
  by (rule security_suites_overrun[where l = 20 and g = 4 and lo = 0 and hi = 1])
    (simp_all add: zero_ie_list_ok rsn_head_def u16_def)

section \<open>Deletion and aging\<close>

text \<open>C19. With a probe-response buffer of its own in every slot, \<open>BssTableDeleteEntry\<close> refines the
  deletion from a list of access points with their probe responses: exactly the first entry of the
  BSSID and channel goes, all others keep their order, their fields and their probe responses
  although these are copied from buffer to buffer, and every slot keeps its buffer.\<close>

theorem deletion_refines_list:
  assumes "bt_BssNr T \<le> length (bt_BssEntry T)" "bufs_ok (bt_BssNr T) (bt_BssEntry T) m"
  shows "\<exists>T' m'. BssTableDeleteEntry T bssid ch m = Some (T', m') \<and>
    bss_list T' m' = drop_first (\<lambda>x. be_Channel (fst x) = ch \<and> be_Bssid (fst x) = bssid) (bss_list T m) \<and>
    map be_pVarIeFromProbRsp (bt_BssEntry T') = map be_pVarIeFromProbRsp (bt_BssEntry T) \<and>
    bufs_ok (bt_BssNr T) (bt_BssEntry T') m'"
  using assms by (rule BssTableDeleteEntry_list)

abbreviation two_entries :: BSS_TABLE where
  "two_entries \<equiv> \<lparr>bt_BssNr = 2, bt_BssOverlapNr = 0, bt_BssEntry = [init_bss (Some 0), (init_bss (Some 1))\<lparr>be_Channel := 1\<rparr>]\<rparr>"

lemma two_entries_bufs: "bufs_ok (bt_BssNr two_entries) (bt_BssEntry two_entries) (\<lambda>_. replicate MAX_VIE_LEN 0)"
  by (auto simp: bufs_ok_def init_bss_def zero_entry_def less_Suc_eq numeral_2_eq_2)

lemma deletion_refines_list_witness:
  "\<exists>T' m'. BssTableDeleteEntry two_entries (replicate 6 0) 0 (\<lambda>_. replicate MAX_VIE_LEN 0) = Some (T', m') \<and>
    bss_list T' m' = drop_first (\<lambda>x. be_Channel (fst x) = 0 \<and> be_Bssid (fst x) = replicate 6 0)
      (bss_list two_entries (\<lambda>_. replicate MAX_VIE_LEN 0)) \<and>
    map be_pVarIeFromProbRsp (bt_BssEntry T') = map be_pVarIeFromProbRsp (bt_BssEntry two_entries) \<and>
    bufs_ok (bt_BssNr two_entries) (bt_BssEntry T') m'"
  by (rule deletion_refines_list[OF _ two_entries_bufs]) simp

text \<open>C24. Aging is wrong in two ways. If all entries are due, only every second one is removed, since
  the entry that moves into the place of a deleted one is not looked at in that run; and each slot
  the table shrinks by loses its probe-response buffer, unlike the deletion.\<close>

theorem aging_skips_and_loses_buffers:
  assumes b: "bufs_ok (bt_BssNr T) (bt_BssEntry T) m"
    and due: "\<forall>i < bt_BssNr T. due clock d k keep (bt_BssEntry T ! i)"
  shows "\<exists>T' m'. MaintainBssTable clock d k keep T m = Some (T', m') \<and> bt_BssNr T' = bt_BssNr T div 2 \<and>
    (\<forall>i. bt_BssNr T div 2 \<le> i \<and> i < bt_BssNr T \<longrightarrow> be_pVarIeFromProbRsp (bt_BssEntry T' ! i) = None) \<and>
    (\<forall>i < bt_BssNr T. be_pVarIeFromProbRsp (bt_BssEntry T ! i) \<noteq> None)"
proof -
  let ?n = "bt_BssNr T" and ?es = "bt_BssEntry T"
  have len: "?n \<le> length ?es" using b by (simp add: bufs_ok_def)
  obtain es' m' where 1: "maintain_loop clock d k keep 0 ?n ?es m = Some (?n - (?n - 0 + 1) div 2, es', m')"
    using maintain_loop_skips[OF b, of 0 clock d k keep] due by auto
  obtain n' es2 m2 where 2: "maintain_loop clock d k keep 0 ?n ?es m = Some (n', es2, m2)" "n' \<le> ?n" "length es2 = length ?es"
    "map be_pVarIeFromProbRsp es2 =
      take n' (map be_pVarIeFromProbRsp ?es) @ replicate (?n - n') None @ drop ?n (map be_pVarIeFromProbRsp ?es)"
    using maintain_loop_buffers[OF b, of clock d k keep 0] by blast
  have half: "?n - (?n + 1) div 2 = ?n div 2" by simp
  have n': "n' = ?n div 2" "es2 = es'" using 1 2(1) half by simp_all
  have gone: "be_pVarIeFromProbRsp (es' ! i) = None" if "?n div 2 \<le> i" "i < ?n" for i
  proof -
    have "i - ?n div 2 < ?n - ?n div 2" using that by arith
    with arg_cong[OF 2(4), of "\<lambda>x. x ! i"] that n' 2(3) len show ?thesis by (simp add: nth_append)
  qed
  have had: "be_pVarIeFromProbRsp (?es ! i) \<noteq> None" if "i < ?n" for i
    using bufs_ok_D[OF b that] by auto
  have "MaintainBssTable clock d k keep T m = Some (T\<lparr>bt_BssNr := ?n div 2, bt_BssEntry := es'\<rparr>, m')"
    using 1 half by (simp add: MaintainBssTable_def)
  with gone had show ?thesis by simp
qed

lemma aging_skips_and_loses_buffers_witness:
  "\<exists>T' m'. MaintainBssTable (\<lambda>_. 1000) 5 200 None two_entries (\<lambda>_. replicate MAX_VIE_LEN 0) = Some (T', m') \<and>
    bt_BssNr T' = bt_BssNr two_entries div 2 \<and>
    (\<forall>i. bt_BssNr two_entries div 2 \<le> i \<and> i < bt_BssNr two_entries \<longrightarrow> be_pVarIeFromProbRsp (bt_BssEntry T' ! i) = None) \<and>
    (\<forall>i < bt_BssNr two_entries. be_pVarIeFromProbRsp (bt_BssEntry two_entries ! i) \<noteq> None)"
  by (rule aging_skips_and_loses_buffers[OF two_entries_bufs])
    (auto simp: due_def entry_expired_def same_rx_update_def RTMP_TIME_AFTER_def init_bss_def zero_entry_def less_Suc_eq numeral_2_eq_2)

section \<open>The choice\<close>

text \<open>C20. \<open>BssTableSsidSort\<close> offers exactly the acceptable entries of the scan table, strongest signal
  first when the exchange buffer of the sort can be allocated, in a well-formed table.\<close>

theorem selection_is_sorted_choice:
  assumes "bss_tab_ok Scan" "length (bt_BssEntry Out) = MAX_LEN_OF_BSS_TABLE" "\<not> (SsidLen = 0 \<and> \<not> se_bAutoConnectIfNoSSID c)"
  shows "\<exists>Out'. BssTableSsidSort mem c Scan Ssid SsidLen Out m = Some (Out', snd (BssTableInit Out m)) \<and> bss_tab_ok Out' \<and>
    mset (take (bt_BssNr Out') (bt_BssEntry Out')) = mset (offered c Ssid SsidLen Scan) \<and>
    (mem \<longrightarrow> stronger_first (take (bt_BssNr Out') (bt_BssEntry Out')))"
  using assms by (rule BssTableSsidSort_ok)

abbreviation open_station :: sel_ctx where
  "open_station \<equiv> \<lparr>se_bAutoConnectIfNoSSID = True, se_bIEEE80211H = False, se_AuxChannel = 1, se_ChannelList = [],
    se_BssType = 0, se_SupplicantWps = False, se_11dStrict = False, se_PhyMode = 0x0e,
    se_AuthMode = Ndis802_11AuthModeOpen, se_WepStatus = 0\<rparr>"

abbreviation found_entry :: BSS_ENTRY where
  "found_entry \<equiv> zero_entry\<lparr>be_SsidLen := 1, be_pVarIeFromProbRsp := Some 7, be_VarIeFromProbeRspLen := 2\<rparr>"

abbreviation one_network :: BSS_TABLE where
  "one_network \<equiv> \<lparr>bt_BssNr = 1, bt_BssOverlapNr = 0, bt_BssEntry = found_entry # replicate 127 zero_entry\<rparr>"

abbreviation empty_table :: BSS_TABLE where
  "empty_table \<equiv> \<lparr>bt_BssNr = 0, bt_BssOverlapNr = 0, bt_BssEntry = replicate MAX_LEN_OF_BSS_TABLE zero_entry\<rparr>"

lemma one_network_ok: "bss_tab_ok one_network"
  using zero_entry_ok by (simp add: bss_tab_ok_def MAX_LEN_OF_BSS_TABLE_def bss_keys_def entry_ok_def)

lemma selection_is_sorted_choice_witness:
  "\<exists>Out'. BssTableSsidSort True open_station one_network [] 0 empty_table (\<lambda>_. []) =
      Some (Out', snd (BssTableInit empty_table (\<lambda>_. []))) \<and> bss_tab_ok Out' \<and>
    mset (take (bt_BssNr Out') (bt_BssEntry Out')) = mset (offered open_station [] 0 one_network) \<and>
    (True \<longrightarrow> stronger_first (take (bt_BssNr Out') (bt_BssEntry Out')))"
  by (rule selection_is_sorted_choice[OF one_network_ok]) simp_all

text \<open>C23. Selecting twice destroys probe responses of the scan table. The first selection copies entries
  with their buffer pointers into the table of candidates; the second initialises that table, which
  clears the buffers: the probe response of every candidate of the first selection reads as zeros in
  the scan table.\<close>

theorem selection_wipes_probe_responses:
  assumes S: "bss_tab_ok Scan" and O: "length (bt_BssEntry Out) = MAX_LEN_OF_BSS_TABLE"
    and go: "\<not> (SsidLen = 0 \<and> \<not> se_bAutoConnectIfNoSSID c)" "\<not> (SsidLen2 = 0 \<and> \<not> se_bAutoConnectIfNoSSID c2)"
    and e: "e \<in> set (offered c Ssid SsidLen Scan)" "be_pVarIeFromProbRsp e = Some a" "be_VarIeFromProbeRspLen e \<le> MAX_VIE_LEN"
  shows "\<exists>Out1 m1 Out2 m2. BssTableSsidSort mem c Scan Ssid SsidLen Out m = Some (Out1, m1) \<and>
    BssTableSsidSort mem c2 Scan Ssid2 SsidLen2 Out1 m1 = Some (Out2, m2) \<and>
    bss_view m2 e = (bss_core e, replicate (be_VarIeFromProbeRspLen e) 0)"
proof -
  obtain Out1 where 1: "BssTableSsidSort mem c Scan Ssid SsidLen Out m = Some (Out1, snd (BssTableInit Out m))" "bss_tab_ok Out1"
    "mset (take (bt_BssNr Out1) (bt_BssEntry Out1)) = mset (offered c Ssid SsidLen Scan)"
    using BssTableSsidSort_ok[OF S O go(1)] by blast
  have len: "length (bt_BssEntry Out1) = MAX_LEN_OF_BSS_TABLE" using 1(2) by (simp add: bss_tab_ok_def)
  obtain Out2 where 2: "BssTableSsidSort mem c2 Scan Ssid2 SsidLen2 Out1 (snd (BssTableInit Out m)) =
      Some (Out2, snd (BssTableInit Out1 (snd (BssTableInit Out m))))"
    using BssTableSsidSort_ok[OF S len go(2)] by blast
  have "e \<in> set (bt_BssEntry Out1)" using e(1) mset_eq_setD[OF 1(3)] by (auto dest: in_set_takeD)
  from BssTableInit_wipes[OF this e(2)] e(2,3)
  have "bss_view (snd (BssTableInit Out1 (snd (BssTableInit Out m)))) e = (bss_core e, replicate (be_VarIeFromProbeRspLen e) 0)"
    by (simp add: bss_view_def min_def)
  with 1(1) 2 show ?thesis by blast
qed

lemma selection_wipes_probe_responses_witness:
  "\<exists>Out1 m1 Out2 m2. BssTableSsidSort True open_station one_network [] 0 empty_table (\<lambda>_. []) = Some (Out1, m1) \<and>
    BssTableSsidSort True open_station one_network [] 0 Out1 m1 = Some (Out2, m2) \<and>
    bss_view m2 found_entry = (bss_core found_entry, replicate (be_VarIeFromProbeRspLen found_entry) 0)"
proof (rule selection_wipes_probe_responses[OF one_network_ok])
  have "accepted open_station [] 0 found_entry" by code_simp
  then show "found_entry \<in> set (offered open_station [] 0 one_network)" by (simp add: offered_def)
qed (simp_all add: MAX_VIE_LEN_def)

text \<open>For a station with WPA2 and a chosen network name, the choice depends on the WPA element: of
  two access points that differ in the WPA group cipher only, and that are acceptable without a
  network name, the one with the stronger WPA group cipher is refused.\<close>

theorem wpa2_choice_depends_on_wpa:
  assumes auth: "se_AuthMode c = Ndis802_11AuthModeWPA2 \<or> se_AuthMode c = Ndis802_11AuthModeWPA2PSK"
    and acc: "\<not> auth_refuses_any c e"
    and wep: "cs_GroupCipher (be_WPA2 e) \<noteq> Ndis802_11GroupWEP40Enabled" "cs_GroupCipher (be_WPA2 e) \<noteq> Ndis802_11GroupWEP104Enabled"
  shows "\<not> auth_refuses_any c (e\<lparr>be_WPA := s\<rparr>) \<and>
    (auth_refuses_ssid c (e\<lparr>be_WPA := s\<rparr>) \<longleftrightarrow> se_WepStatus c < cs_GroupCipher s)"
proof -
  have m: "Ndis802_11AuthModeWPA \<le> se_AuthMode c"
    "(se_AuthMode c = Ndis802_11AuthModeWPA \<or> se_AuthMode c = Ndis802_11AuthModeWPAPSK) = False"
    using auth by (auto simp: ndis_defs)
  have any: "auth_refuses_any c x = ((se_AuthMode c \<noteq> be_AuthMode x \<and> se_AuthMode c \<noteq> be_AuthModeAux x) \<or>
      suite_refuses c (be_WPA2 x) (cs_GroupCipher (be_WPA2 x)) False)" for x
    unfolding auth_refuses_any_def m using auth m(1) by simp
  have ssid: "auth_refuses_ssid c x = ((se_AuthMode c \<noteq> be_AuthMode x \<and> se_AuthMode c \<noteq> be_AuthModeAux x) \<or>
      suite_refuses c (be_WPA2 x) (cs_GroupCipher (be_WPA x)) True)" for x
    unfolding auth_refuses_ssid_def m using auth m(1) by simp
  have "suite_refuses c (be_WPA2 e) g True = (se_WepStatus c < g)" if "\<not> suite_refuses c (be_WPA2 e) g' False" for g g'
    using that wep unfolding suite_refuses_def by blast
  with acc show ?thesis unfolding any ssid by auto
qed

lemma wpa2_choice_depends_on_wpa_witness:
  "\<exists>c e s. \<not> auth_refuses_any c e \<and> \<not> auth_refuses_any c (e\<lparr>be_WPA := s\<rparr>) \<and> auth_refuses_ssid c (e\<lparr>be_WPA := s\<rparr>) \<and>
    \<not> auth_refuses_ssid c e"
proof -
  let ?c = "open_station\<lparr>se_AuthMode := Ndis802_11AuthModeWPA2PSK, se_WepStatus := Ndis802_11Encryption3Enabled\<rparr>"
  let ?w = "zero_cipher\<lparr>cs_GroupCipher := Ndis802_11Encryption3Enabled, cs_PairCipher := Ndis802_11Encryption3Enabled\<rparr>"
  let ?e = "zero_entry\<lparr>be_AuthMode := Ndis802_11AuthModeWPA2PSK, be_WPA2 := ?w\<rparr>"
  let ?s = "zero_cipher\<lparr>cs_GroupCipher := Ndis802_11GroupWEP40Enabled\<rparr>"
  have any: "\<not> auth_refuses_any ?c ?e"
    by (simp add: auth_refuses_any_def suite_refuses_def ndis_defs)
  note t = wpa2_choice_depends_on_wpa[OF _ any]
  have "\<not> auth_refuses_any ?c (?e\<lparr>be_WPA := ?s\<rparr>) \<and>
    (auth_refuses_ssid ?c (?e\<lparr>be_WPA := ?s\<rparr>) \<longleftrightarrow> se_WepStatus ?c < cs_GroupCipher ?s)"
    by (rule t) (simp_all add: ndis_defs)
  moreover have "\<not> auth_refuses_ssid ?c ?e"
    by (simp add: auth_refuses_ssid_def suite_refuses_def zero_entry_def zero_cipher_def ndis_defs)
  moreover have "se_WepStatus ?c < cs_GroupCipher ?s" by (simp add: ndis_defs)
  ultimately show ?thesis using any by blast
qed

end
