(* ===== verification/Spec2Isabelle.thy ===== *)
theory Spec2Isabelle
  imports BaProps BaSessionProps MlmeProps AesProps MacTableProps SecProps BssProps
begin

text \<open>
  A verification development for the Ralink/MediaTek MT7601U USB wireless driver.

  \<^bold>\<open>The program.\<close> The driver runs in the Linux kernel between the USB device and the network stack.
  One task, the MLME task, takes messages out of a bounded queue and runs the action of the state
  machine each is addressed to; received frames, requests and expired timers are what fills the queue.
  Data frames take a path of their own: they are deciphered, put back in order by the block-ack
  session they belong to and handed to the stack. Both paths look stations up in one table. The key
  exchange derives the keys the ciphers use. Beacons and probe responses are parsed and entered in a
  table of access points, from which the station chooses. The model is of the default station build of
  os/linux/config.mk: \<open>CONFIG_STA_SUPPORT\<close> for the MT7601, no access point, P2P, WPS, DLS or TDLS
  code, and a 32-bit \<open>ULONG\<close>.

  \<^bold>\<open>The parts and their theories.\<close>

  \<^item> \<open>WifiPrelude\<close>: the C integer conversions, the tick counter comparison, lists read by index, and the
    collections of facts the components share.

  \<^item> The reordering buffer of one recipient session (common/ba_action.c: \<open>ba_enqueue\<close>, \<open>ba_dequeue\<close>,
    \<open>ba_reordering_mpdu_insertsorted\<close>, \<open>ba_indicate_reordering_mpdus_in_order\<close> and \<open>_le_seq\<close>,
    \<open>ba_flush_reordering_timeout_mpdus\<close>, \<open>ba_enqueue_reordering_packet\<close>, the cases of
    \<open>Indicate_AMPDU_Packet\<close>): sequence arithmetic in \<open>BaSeq\<close>, the code in \<open>BaReorder\<close>, loops as functions of
    the pending list in \<open>BaLoops\<close>, the window invariant in \<open>BaWindow\<close>, an abstract buffer in \<open>BaSpec\<close> and
    the refinement of it in \<open>BaRefine\<close> and \<open>BaTimeout\<close>, order over runs in \<open>BaOrder\<close>, conservation of
    packets and blocks in \<open>BaConserve\<close>.

  \<^item> Block-ack sessions (same file: the two tables, \<open>BARecSessionAdd\<close>, \<open>BAOriSessionSetUp\<close>, the tear-downs,
    the ADDBA, DELBA and BAR handlers, the two timers): the code in \<open>BaSession\<close>; the contract of a table
    with arrays pointing into it, \<open>BaTables\<close>, stated as a locale and interpreted on the recipient and the
    originator table; the invariant in \<open>BaInv\<close>, kept by every handler (\<open>BaKeep\<close>, \<open>BaHandlers\<close>,
    \<open>BaSessions\<close>); the events and the reachable states in \<open>BaEvents\<close>; \<open>RalinkTimer\<close> is the timer object of
    common/rtmp_init.c and os/linux/rt_linux.c.

  \<^item> The MLME task (common/mlme.c, include/mlme.h and the table initialisations of sta/assoc.c, sta/auth.c,
    sta/auth_rsp.c, sta/sync.c, common/action.c, common/cmm_wpa.c): the queue in \<open>MlmeQueue\<close> with its
    abstraction to a list, the transition tables and the classification of frames in \<open>MlmeFsm\<close>, the
    handler loop in \<open>Mlme\<close>, the actions that confirm a request in \<open>MlmeConfirm\<close>, the invariant in \<open>MlmeInv\<close>.

  \<^item> The station table (mgmt/mgmt_entrytb.c, the table writes of sta/assoc.c and sta/connect.c): code in
    \<open>MacTable\<close>, hash chains as lists in \<open>MacTableInv\<close>, the operations in \<open>MacTableOps\<close>, the joint invariant
    with the sessions and a directory specification in \<open>MacTableSpec\<close>, runs of both in \<open>MacTableRuns\<close>
    (\<open>BaIdent\<close>: the session code keeps the identity of stations), the access point in \<open>MacTableInfra\<close>.

  \<^item> AES (common/crypt_aes.c): tables and their meaning in the field in \<open>AesTables\<close>, the block cipher in
    \<open>Aes\<close>, CCM, CMAC, CBC and key wrap in \<open>AesModes\<close>, their inverses in \<open>AesLemmas\<close>, proved once for any
    block cipher in the locale \<open>block_cipher\<close>.

  \<^item> Hash functions (common/crypt_sha2.c, common/crypt_md5.c, common/crypt_hmac.c): \<open>HashCtx\<close> has the part
    the three copies of the code share, with block function and byte orders as arguments; \<open>Sha2\<close> and
    \<open>Md5\<close> instantiate it; \<open>HashSpec\<close> has the contract \<open>block_hash\<close> and its three interpretations; \<open>Hmac\<close> proves
    RFC 2104 for every hash with the contract \<open>hash_service\<close>, which \<open>block_hash\<close> gives.

  \<^item> Ciphers (common/crypt_arc4.c, cmm_wep.c, cmm_tkip.c, cmm_aes.c): \<open>Arc4\<close>, \<open>Wep\<close>, \<open>Tkip\<close>, \<open>Ccmp\<close>, and the
    standard's Michael and key mixing in \<open>TkipSpec\<close>.

  \<^item> Key derivation (common/cmm_wpa.c: \<open>inc_iv_byte\<close>, \<open>PRF\<close>, \<open>F\<close>, \<open>RtmpPasswordHash\<close>, \<open>KDF\<close>, \<open>WpaDerivePTK\<close> and
    the others): \<open>WpaKeys\<close>.

  \<^item> Scanning. The parser of beacons (common/cmm_sanity.c: \<open>PeerBeaconAndProbeRspSanity\<close>, with \<open>GetTimBit\<close> of
    sta/sanity.c) is in \<open>Beacon\<close>, one function for each case of its switch; \<open>BeaconSafe\<close> has the invariant of
    its loop. One entry of the table (common/mlme.c: \<open>BssEntrySet\<close>, \<open>BssCipherParse\<close>) is in \<open>BssEntry\<close>; the
    table (\<open>BssTableInit\<close>, the searches, \<open>BssTableDeleteEntry\<close>, \<open>BssTableSetEntry\<close>, \<open>MaintainBssTable\<close> of
    sta/connect.c) in \<open>BssTable\<close>; the choice (\<open>BssTableSsidSort\<close>, \<open>BssTableSortByRssi\<close>) in \<open>BssSelect\<close>; the
    handler of frames heard while scanning (\<open>PeerBeaconAtScanAction\<close> of sta/sync.c) and the states it leads to
    in \<open>ScanAction\<close>. \<open>BssInv\<close> and \<open>BssKeep\<close> have the invariant of the table, \<open>BssBuffers\<close> the table as a list of
    access points with their probe responses, \<open>BssSort\<close> the sort and the choice, \<open>BssDirectory\<close> the table
    under the interface \<open>network_table\<close>, \<open>BeaconRead\<close> and \<open>BssCipher\<close> well-formed input that is read back.
    The signal strengths are integers after the conversion \<open>ConvertToRssi\<close>; the 264 octets behind a message
    that the parser may read are those of the queue element.

  The theories whose names end in \<open>Props\<close> hold the properties, each with a theorem that applies it at a
  concrete input.

  \<^bold>\<open>How the code is read.\<close> A structure is a record of the fields the code uses, a pointer into a table an
  index or an option, a list linked through memory a list. An access outside an array or buffer and
  the use of a null pointer are \<open>None\<close>, so that a theorem with \<open>Some\<close> says that there is none. Calls that
  leave the modelled code (packets handed up, frames sent, timers armed, commands for the chip) are
  entries of a log, in order. What the environment decides (allocations, the clock, the content of
  fresh memory, the actions of machines that are not modelled) is an argument. Locks are the atomicity
  of the operations they protect.

  \<^bold>\<open>Loops.\<close> Loops over lists are structural or have a measure. The loops that need an invariant to end
  are \<open>partial_function (option)\<close>, where running forever is \<open>None\<close>, and are proved to return: \<open>append_loop\<close> of the
  hash functions for pieces of less than 2^32 - 64 bytes, the walks along a hash chain of the station
  table in every reachable state, and the handler loop of the MLME task whenever each action adds less
  work to the queue than its message weighed. No fuel is used.

  \<^bold>\<open>Not modelled.\<close> The access point, P2P, WPS, TDLS and ATE builds; the USB transfers, the registers and
  the firmware of the chip; the glue to the kernel and the wireless extensions; configuration and
  OID handling; rate adaptation and power saving; the transmit queues. They are I/O, hardware
  sequences, or other builds of the program. Of the station the association, authentication, scan and join
  procedures and the 4-way handshake are parameters of the MLME task: what they do is mostly commands
  to the chip and frames built from the configuration. Of the entry of an access point the time stamps,
  the noise figure and the sender address, which only reports read, are left out. The older AES
  implementation of common/cmm_aes.c is not modelled; the newer one is.
\<close>

end
